(* ===== verification/Prelude.thy ===== *)
theory Prelude
  imports Main "HOL-Library.Word"
begin

text \<open>
  Shared vocabulary of the development: the machine's integer types, the ways a run of the C
  code can end other than by returning (\<open>trap\<close>), the result type \<open>'a res\<close> with its sequencing
  operator, the \<open>named_theorems\<close> collections, and the facts on words and on byte encodings that
  several components use.
\<close>

unbundle bit_operations_syntax

type_synonym u8 = "8 word"
type_synonym u16 = "16 word"
type_synonym u32 = "32 word"
type_synonym u64 = "64 word"
type_synonym i32 = "32 word" \<comment> \<open>two's complement, read with \<open>sint\<close>\<close>
type_synonym i64 = "64 word" \<comment> \<open>two's complement, read with \<open>sint\<close>\<close>
type_synonym addr = "64 word"

named_theorems res_simps \<open>unfolding of the result monad\<close>
named_theorems mem_simps \<open>reads after writes in the byte memory\<close>

section \<open>How a run ends\<close>

text \<open>
  A C function either returns or does not.  The second case is a value of the model:
  \<open>Segv a\<close> is an access to the unmapped address \<open>a\<close>, \<open>DivByZero\<close> the trap of the division
  instruction, \<open>Undefined\<close> a point the C standard leaves undefined (signed overflow, a read of
  an uninitialised variable, an array index out of its bounds, a missing variadic
  argument, a shift by a count that is not below the width, a read of a local variable after the end of its block, the
  end of code that does not return), \<open>Hang\<close> a loop that is never left, and \<open>Exited c\<close> the end of the calling thread by
  \<open>SYS_exit\<close> with status \<open>c\<close>, which ends the process when the thread is its last one.
\<close>

datatype undefined_kind =
  SignedOverflow | Uninitialised | IndexOutOfBounds | MissingArgument | ShiftOutOfRange
  | DeadObject | RunsOffEnd

datatype trap = Segv addr | DivByZero | Undefined undefined_kind | Hang | Exited i32

type_synonym 'a res = "trap + 'a"

definition bind_res :: "'a res \<Rightarrow> ('a \<Rightarrow> 'b res) \<Rightarrow> 'b res" where
  "bind_res r f = (case r of Inl e \<Rightarrow> Inl e | Inr x \<Rightarrow> f x)"

lemma bind_res_simps [simp]:
  "bind_res (Inl e) f = Inl e"
  "bind_res (Inr x) f = f x"
  by (simp_all add: bind_res_def)

lemma bind_res_assoc: "bind_res (bind_res r f) g = bind_res r (\<lambda>x. bind_res (f x) g)"
  by (cases r) simp_all

lemma bind_res_eq_Inr [res_simps]:
  "bind_res r f = Inr y \<longleftrightarrow> (\<exists>x. r = Inr x \<and> f x = Inr y)"
  by (cases r) simp_all

lemma bind_res_cong [fundef_cong]:
  "r = r' \<Longrightarrow> (\<And>x. r' = Inr x \<Longrightarrow> f x = f' x) \<Longrightarrow> bind_res r f = bind_res r' f'"
  by (cases r') simp_all

text \<open>
  Loops with no bound of their own are \<open>partial_function (option)\<close>: \<open>None\<close> is a loop that is
  never left, which the caller sees as \<open>Hang\<close>.
\<close>

definition loop_res :: "'a res option \<Rightarrow> 'a res" where
  "loop_res r = (case r of None \<Rightarrow> Inl Hang | Some x \<Rightarrow> x)"

lemma loop_res_simps [simp]:
  "loop_res None = Inl Hang"
  "loop_res (Some x) = x"
  by (simp_all add: loop_res_def)

lemma all_less_2: "(\<forall>i<2. P (i :: nat)) \<longleftrightarrow> P 0 \<and> P 1"
  by (auto simp: less_2_cases_iff)

lemma replicate_2: "replicate 2 x = [x, x]"
  by (simp add: numeral_2_eq_2)

text \<open>Arrays of the program with a fixed length.\<close>

definition array_read :: "'a list \<Rightarrow> nat \<Rightarrow> 'a res" where
  "array_read xs i = (if i < length xs then Inr (xs ! i) else Inl (Undefined IndexOutOfBounds))"

definition array_write :: "'a list \<Rightarrow> nat \<Rightarrow> 'a \<Rightarrow> 'a list res" where
  "array_write xs i x = (if i < length xs then Inr (xs[i := x]) else Inl (Undefined IndexOutOfBounds))"

section \<open>Words\<close>

lemma unat_add_no_wrap: "unat a + unat b < 2 ^ 64 \<Longrightarrow> unat (a + b) = unat a + unat (b :: u64)"
  by (simp add: unat_word_ariths)

lemma unat_sub_le: "b \<le> a \<Longrightarrow> unat (a - b) = unat a - unat (b :: u64)"
  by (rule unat_sub)

lemma unat_of_nat_u64: "n < 2 ^ 64 \<Longrightarrow> unat (of_nat n :: u64) = n"
  by (simp add: unat_of_nat)

lemma of_nat_unat_u64: "of_nat (unat x) = (x :: u64)"
  by simp

lemma unat_less_u64 [simp]: "unat (a :: u64) < 18446744073709551616"
  using unsigned_less [of a] by simp

lemma sint_small: "n < 2 ^ 63 \<Longrightarrow> sint (of_nat n :: i64) = int n"
proof -
  assume n: "n < 2 ^ 63"
  then have "uint (of_nat n :: i64) = int n" by (simp add: uint_nat unat_of_nat_u64)
  with n show ?thesis by (simp add: sint_uint signed_take_bit_int_eq_self)
qed

lemma unat_of_nat_u32: "n < 2 ^ 32 \<Longrightarrow> unat (of_nat n :: u32) = n"
  by (simp add: unat_of_nat)

lemma sint_small_i32: "n < 2 ^ 31 \<Longrightarrow> sint (of_nat n :: i32) = int n"
proof -
  assume n: "n < 2 ^ 31"
  then have "uint (of_nat n :: i32) = int n" by (simp add: uint_nat unat_of_nat_u32)
  with n show ?thesis by (simp add: sint_uint signed_take_bit_int_eq_self)
qed

text \<open>A small count survives the conversions between \<open>int\<close> and the 64-bit types.\<close>

lemma scast_small: "n < 2 ^ 31 \<Longrightarrow> scast (of_nat n :: i32) = (of_nat n :: u64)"
  by (simp add: scast_eq sint_small_i32)

lemma ucast_small: "n < 2 ^ 64 \<Longrightarrow> ucast (of_nat n :: u64) = (of_nat n :: 'a::len word)"
  using of_nat_unat [of "of_nat n :: u64", where 'a = "'a word"] by (simp add: unat_of_nat_u64)

text \<open>\<open>x\<close> lies among the \<open>n\<close> addresses that start at \<open>a\<close>.\<close>

definition in_range :: "addr \<Rightarrow> addr \<Rightarrow> nat \<Rightarrow> bool" where
  "in_range x a n \<longleftrightarrow> unat (x - a) < n"

definition disj_range :: "addr \<Rightarrow> nat \<Rightarrow> addr \<Rightarrow> nat \<Rightarrow> bool" where
  "disj_range a n b k \<longleftrightarrow> (\<forall>x. \<not> (in_range x a n \<and> in_range x b k))"

lemma in_range_iff:
  assumes "unat a + n \<le> 2 ^ 64"
  shows "in_range x a n \<longleftrightarrow> unat a \<le> unat x \<and> unat x < unat a + n"
proof (cases "a \<le> x")
  case True
  then have "unat (x - a) = unat x - unat a" by (rule unat_sub_le)
  with True show ?thesis by (auto simp: in_range_def word_le_nat_alt)
next
  case False
  then have "unat (x - a) = 2 ^ 64 + unat x - unat a"
    by (simp add: unat_sub_if_size word_size word_le_nat_alt)
  with False assms show ?thesis by (auto simp: in_range_def word_le_nat_alt)
qed

lemma in_range_nth: "in_range x a n \<Longrightarrow> \<exists>i<n. x = a + of_nat i"
  by (rule exI [of _ "unat (x - a)"]) (simp add: in_range_def)

lemma in_range_offset: "i < n \<Longrightarrow> n \<le> 2 ^ 64 \<Longrightarrow> in_range (a + of_nat i) a n"
  by (simp add: in_range_def unat_of_nat_u64)

lemma in_range_0 [simp]: "\<not> in_range x a 0"
  by (simp add: in_range_def)

lemma in_range_mono: "in_range x a n \<Longrightarrow> n \<le> k \<Longrightarrow> in_range x a k"
  by (simp add: in_range_def)

lemma disj_range_sym: "disj_range a n b k \<Longrightarrow> disj_range b k a n"
  by (auto simp: disj_range_def)

lemma disj_range_mono:
  "disj_range a n b k \<Longrightarrow> n' \<le> n \<Longrightarrow> k' \<le> k \<Longrightarrow> disj_range a n' b k'"
  by (auto simp: disj_range_def intro: in_range_mono)

lemma disj_range_0 [simp]: "disj_range a 0 b k" "disj_range a n b 0"
  by (simp_all add: disj_range_def)

lemma disj_rangeI_le:
  assumes "unat a + n \<le> unat b" "unat b + k \<le> 2 ^ 64"
  shows "disj_range a n b k"
proof -
  have "unat a + n \<le> 2 ^ 64" using assms by simp
  with assms show ?thesis by (auto simp: disj_range_def in_range_iff)
qed

lemma disj_range_apart:
  "unat a + n \<le> unat c \<and> unat c + k \<le> 2 ^ 64 \<or> unat c + k \<le> unat a \<and> unat a + n \<le> 2 ^ 64 \<Longrightarrow>
     disj_range a n c k"
  by (elim disjE conjE) (rule disj_rangeI_le disj_rangeI_le [THEN disj_range_sym]; assumption)+

lemma sub_range_in_range:
  assumes "in_range x (a + of_nat off) n" "off + n \<le> k" "unat a + k \<le> 2 ^ 64" "0 < n"
  shows "in_range x a k"
proof -
  have o: "unat (of_nat off :: u64) = off"
    using assms by (intro unat_of_nat_u64) simp
  have s: "unat (a + of_nat off) = unat a + off"
    using assms o by (subst unat_add_no_wrap) simp_all
  have "unat (a + of_nat off) + n \<le> 2 ^ 64" using assms s by simp
  with assms(1) have "unat a + off \<le> unat x \<and> unat x < unat a + off + n"
    by (simp only: in_range_iff s)
  with assms show ?thesis by (simp add: in_range_iff)
qed

section \<open>Little-endian encodings\<close>

fun le_bytes :: "nat \<Rightarrow> 'a::len word \<Rightarrow> u8 list" where
  "le_bytes 0 w = []"
| "le_bytes (Suc n) w = ucast w # le_bytes n (drop_bit 8 w)"

fun le_word :: "u8 list \<Rightarrow> 'a::len word" where
  "le_word [] = 0"
| "le_word (b # bs) = ucast b OR push_bit 8 (le_word bs)"

lemma length_le_bytes [simp]: "length (le_bytes n w) = n"
  by (induction n arbitrary: w) simp_all

lemma le_word_le_bytes: "le_word (le_bytes n w) = take_bit (8 * n) w"
proof (induction n arbitrary: w)
  case 0
  then show ?case by simp
next
  case (Suc n)
  show ?case
    by (rule bit_word_eqI) (auto simp: Suc.IH bit_simps)
qed

lemma le_word_bytes_id: "LENGTH('a) \<le> 8 * n \<Longrightarrow> le_word (le_bytes n w) = (w :: 'a::len word)"
  by (simp add: le_word_le_bytes take_bit_word_eq_self)

end
