(* ===== verification/Memory.thy ===== *)
theory Memory
  imports Prelude
begin

text \<open>
  The address space of the process: a partial map from 64-bit addresses to bytes, whose domain is
  what is mapped.  Loads and stores of one byte and of little-endian 16, 32 and 64-bit values trap
  with \<open>Segv\<close> outside the domain.  All pointers of the C code are addresses into this map, so
  aliasing, dangling pointers and writes past the end of an object are visible in the model.
\<close>

type_synonym mem = "addr \<rightharpoonup> u8"

section \<open>Operations\<close>

definition load8 :: "mem \<Rightarrow> addr \<Rightarrow> u8 res" where
  "load8 m a = (case m a of None \<Rightarrow> Inl (Segv a) | Some b \<Rightarrow> Inr b)"

definition store8 :: "mem \<Rightarrow> addr \<Rightarrow> u8 \<Rightarrow> mem res" where
  "store8 m a b = (case m a of None \<Rightarrow> Inl (Segv a) | Some _ \<Rightarrow> Inr (m(a \<mapsto> b)))"

fun load_bytes :: "mem \<Rightarrow> addr \<Rightarrow> nat \<Rightarrow> u8 list res" where
  "load_bytes m a 0 = Inr []"
| "load_bytes m a (Suc n) =
     bind_res (load8 m a) (\<lambda>b. bind_res (load_bytes m (a + 1) n) (\<lambda>bs. Inr (b # bs)))"

fun store_bytes :: "mem \<Rightarrow> addr \<Rightarrow> u8 list \<Rightarrow> mem res" where
  "store_bytes m a [] = Inr m"
| "store_bytes m a (b # bs) = bind_res (store8 m a b) (\<lambda>m'. store_bytes m' (a + 1) bs)"

definition load16 :: "mem \<Rightarrow> addr \<Rightarrow> u16 res" where
  "load16 m a = bind_res (load_bytes m a 2) (\<lambda>bs. Inr (le_word bs))"

definition load32 :: "mem \<Rightarrow> addr \<Rightarrow> u32 res" where
  "load32 m a = bind_res (load_bytes m a 4) (\<lambda>bs. Inr (le_word bs))"

definition load64 :: "mem \<Rightarrow> addr \<Rightarrow> u64 res" where
  "load64 m a = bind_res (load_bytes m a 8) (\<lambda>bs. Inr (le_word bs))"

definition store32 :: "mem \<Rightarrow> addr \<Rightarrow> u32 \<Rightarrow> mem res" where
  "store32 m a v = store_bytes m a (le_bytes 4 v)"

definition store64 :: "mem \<Rightarrow> addr \<Rightarrow> u64 \<Rightarrow> mem res" where
  "store64 m a v = store_bytes m a (le_bytes 8 v)"

section \<open>What is mapped, and the effect of a store\<close>

definition mapped :: "mem \<Rightarrow> addr \<Rightarrow> nat \<Rightarrow> bool" where
  "mapped m a n \<longleftrightarrow> (\<forall>x. in_range x a n \<longrightarrow> m x \<noteq> None)"

definition peek :: "mem \<Rightarrow> addr \<Rightarrow> nat \<Rightarrow> u8 list" where
  "peek m a n = map (\<lambda>i. the (m (a + of_nat i))) [0..<n]"

definition poke :: "mem \<Rightarrow> addr \<Rightarrow> u8 list \<Rightarrow> mem" where
  "poke m a bs = (\<lambda>x. if in_range x a (length bs) then Some (bs ! unat (x - a)) else m x)"

lemma mapped_0 [simp]: "mapped m a 0"
  by (simp add: mapped_def)

lemma mapped_mono: "mapped m a n \<Longrightarrow> k \<le> n \<Longrightarrow> mapped m a k"
  by (auto simp: mapped_def intro: in_range_mono)

lemma mappedD: "mapped m a n \<Longrightarrow> in_range x a n \<Longrightarrow> m x \<noteq> None"
  by (auto simp: mapped_def)

lemma mapped_offsetD: "mapped m a n \<Longrightarrow> i < n \<Longrightarrow> n \<le> 2 ^ 64 \<Longrightarrow> m (a + of_nat i) \<noteq> None"
  by (rule mappedD) (auto intro: in_range_offset)

lemma mapped_sub:
  assumes "mapped m a k" "off + n \<le> k" "unat a + k \<le> 2 ^ 64"
  shows "mapped m (a + of_nat off) n"
proof (cases "n = 0")
  case False
  then show ?thesis
    using assms unfolding mapped_def by (blast intro: sub_range_in_range)
qed simp

lemma mapped_by_offset:
  assumes "\<And>i. i < n \<Longrightarrow> m (a + of_nat i) \<noteq> None"
  shows "mapped m a n"
  using assms unfolding mapped_def by (metis in_range_nth)

lemma length_peek [simp]: "length (peek m a n) = n"
  by (simp add: peek_def)

lemma nth_peek: "i < n \<Longrightarrow> peek m a n ! i = the (m (a + of_nat i))"
  by (simp add: peek_def)

lemma peek_Suc: "peek m a (Suc n) = the (m a) # peek m (a + 1) n"
  by (rule nth_equalityI) (auto simp: nth_peek nth_Cons add.assoc split: nat.splits)

lemma mapped_Suc:
  assumes "Suc n \<le> 2 ^ 64"
  shows "mapped m a (Suc n) \<longleftrightarrow> m a \<noteq> None \<and> mapped m (a + 1) n"
proof
  assume *: "mapped m a (Suc n)"
  have "m (a + 1 + of_nat i) \<noteq> None" if "i < n" for i
    using mapped_offsetD [OF *, of "Suc i"] that assms by (simp add: add.assoc)
  with mapped_offsetD [OF *, of 0] assms show "m a \<noteq> None \<and> mapped m (a + 1) n"
    by (auto intro: mapped_by_offset)
next
  assume *: "m a \<noteq> None \<and> mapped m (a + 1) n"
  have "m (a + of_nat i) \<noteq> None" if "i < Suc n" for i
  proof (cases i)
    case (Suc j)
    with that have "j < n" by simp
    with mapped_offsetD [of m "a + 1" n j] * assms show ?thesis
      by (simp add: Suc add.assoc)
  qed (use * in simp)
  then show "mapped m a (Suc n)" by (rule mapped_by_offset)
qed

lemma load_bytes_mapped:
  "mapped m a n \<Longrightarrow> n \<le> 2 ^ 64 \<Longrightarrow> load_bytes m a n = Inr (peek m a n)"
proof (induction n arbitrary: a)
  case 0
  then show ?case by (simp add: peek_def)
next
  case (Suc n)
  then have "m a \<noteq> None" "mapped m (a + 1) n" by (simp_all add: mapped_Suc)
  with Suc show ?case by (auto simp: load8_def peek_Suc)
qed

lemma load_bytes_InrD:
  "load_bytes m a n = Inr bs \<Longrightarrow> n \<le> 2 ^ 64 \<Longrightarrow> mapped m a n \<and> bs = peek m a n"
proof (induction n arbitrary: a bs)
  case 0
  then show ?case by (simp add: peek_def)
next
  case (Suc n)
  then obtain b bs' where "load8 m a = Inr b" "load_bytes m (a + 1) n = Inr bs'" "bs = b # bs'"
    by (auto simp: res_simps)
  with Suc show ?case
    by (auto simp: mapped_Suc peek_Suc load8_def split: option.splits)
qed

lemma poke_Nil [simp]: "poke m a [] = m"
  by (simp add: poke_def)

lemma poke_Cons:
  assumes "length bs < 2 ^ 64"
  shows "poke (m(a \<mapsto> b)) (a + 1) bs = poke m a (b # bs)"
proof
  fix x
  show "poke (m(a \<mapsto> b)) (a + 1) bs x = poke m a (b # bs) x"
  proof (cases "x = a")
    case True
    have "unat (- 1 :: u64) = 2 ^ 64 - 1" by (simp add: unsigned_minus_1_eq_mask mask_eq_exp_minus_1)
    with True assms show ?thesis by (simp add: poke_def in_range_def)
  next
    case False
    then have "x - a \<noteq> 0" by simp
    then have "unat (x - a - 1) = unat (x - a) - 1" "unat (x - a) \<noteq> 0"
      by (simp_all only: unat_minus_one unat_eq_0 not_False_eq_True)
    moreover have "x - (a + 1) = x - a - 1" by simp
    ultimately have "unat (x - a) = Suc (unat (x - (a + 1)))" by (simp only: Suc_pred neq0_conv One_nat_def)
    with False show ?thesis by (simp add: poke_def in_range_def)
  qed
qed

lemma mapped_upd [simp]: "m a \<noteq> None \<Longrightarrow> mapped (m(a \<mapsto> b)) c n = mapped m c n"
  by (auto simp: mapped_def)

lemma store_bytes_mapped:
  "mapped m a (length bs) \<Longrightarrow> length bs \<le> 2 ^ 64 \<Longrightarrow> store_bytes m a bs = Inr (poke m a bs)"
proof (induction bs arbitrary: m a)
  case Nil
  then show ?case by simp
next
  case (Cons b bs)
  then have 1: "m a \<noteq> None" and 2: "mapped m (a + 1) (length bs)" by (simp_all add: mapped_Suc)
  from 1 2 have "mapped (m(a \<mapsto> b)) (a + 1) (length bs)" by simp
  then have "store_bytes (m(a \<mapsto> b)) (a + 1) bs = Inr (poke (m(a \<mapsto> b)) (a + 1) bs)"
    by (rule Cons.IH) (use Cons.prems(2) in simp)
  with Cons.prems 1 show ?case by (auto simp: store8_def poke_Cons)
qed

lemma store_bytes_InrD:
  "store_bytes m a bs = Inr m' \<Longrightarrow> length bs \<le> 2 ^ 64 \<Longrightarrow>
     mapped m a (length bs) \<and> m' = poke m a bs"
proof (induction bs arbitrary: m a)
  case Nil
  then show ?case by simp
next
  case (Cons b bs)
  then have 1: "m a \<noteq> None" and 2: "store_bytes (m(a \<mapsto> b)) (a + 1) bs = Inr m'"
    by (auto simp: res_simps store8_def split: option.splits)
  have "length bs \<le> 2 ^ 64" using Cons.prems(2) by simp
  with 2 have "mapped (m(a \<mapsto> b)) (a + 1) (length bs)" using Cons.IH by blast
  with 1 mapped_upd [of m a b "a + 1"] have "mapped m (a + 1) (length bs)" by blast
  with 1 Cons.prems have "mapped m a (length (b # bs))" by (simp add: mapped_Suc)
  with Cons.prems show ?case by (metis Inr_inject store_bytes_mapped)
qed

lemma dom_poke: "mapped m a (length bs) \<Longrightarrow> dom (poke m a bs) = dom m"
  by (auto simp: poke_def mapped_def split: if_splits)

lemma mapped_poke [simp]: "mapped m a (length bs) \<Longrightarrow> mapped (poke m a bs) c n = mapped m c n"
  by (auto simp: poke_def mapped_def split: if_splits)

lemma poke_out [mem_simps]: "\<not> in_range x a (length bs) \<Longrightarrow> poke m a bs x = m x"
  by (simp add: poke_def)

lemma peek_poke_same [mem_simps]: "length bs \<le> 2 ^ 64 \<Longrightarrow> peek (poke m a bs) a (length bs) = bs"
  by (rule nth_equalityI) (auto simp: nth_peek poke_def in_range_def unat_of_nat_u64)

lemma peek_poke_disj [mem_simps]:
  "disj_range a (length bs) c n \<Longrightarrow> n \<le> 2 ^ 64 \<Longrightarrow> peek (poke m a bs) c n = peek m c n"
  by (rule nth_equalityI) (auto simp: nth_peek poke_def disj_range_def in_range_offset)

lemma peek_cong: "(\<And>x. in_range x a n \<Longrightarrow> m x = m' x) \<Longrightarrow> n \<le> 2 ^ 64 \<Longrightarrow> peek m a n = peek m' a n"
  by (rule nth_equalityI) (auto simp: nth_peek in_range_offset)

section \<open>Wide loads and stores\<close>

lemma store64_mapped: "mapped m a 8 \<Longrightarrow> store64 m a v = Inr (poke m a (le_bytes 8 v))"
  by (simp add: store64_def store_bytes_mapped)

lemma store32_mapped: "mapped m a 4 \<Longrightarrow> store32 m a v = Inr (poke m a (le_bytes 4 v))"
  by (simp add: store32_def store_bytes_mapped)

lemma load64_mapped: "mapped m a 8 \<Longrightarrow> load64 m a = Inr (le_word (peek m a 8))"
  by (simp add: load64_def load_bytes_mapped)

lemma load32_mapped: "mapped m a 4 \<Longrightarrow> load32 m a = Inr (le_word (peek m a 4))"
  by (simp add: load32_def load_bytes_mapped)

lemma load64_InrD: "load64 m a = Inr v \<Longrightarrow> mapped m a 8"
  by (auto simp: load64_def res_simps dest!: load_bytes_InrD)

lemma load32_InrD: "load32 m a = Inr v \<Longrightarrow> mapped m a 4"
  by (auto simp: load32_def res_simps dest!: load_bytes_InrD)

lemma store64_InrD: "store64 m a v = Inr m' \<Longrightarrow> mapped m a 8 \<and> m' = poke m a (le_bytes 8 v)"
  by (auto simp: store64_def dest!: store_bytes_InrD)

lemma store32_InrD: "store32 m a v = Inr m' \<Longrightarrow> mapped m a 4 \<and> m' = poke m a (le_bytes 4 v)"
  by (auto simp: store32_def dest!: store_bytes_InrD)

lemma load_bytes_2: "load_bytes m a 2 = load_bytes m a (Suc (Suc 0))"
  by (simp only: numeral_2_eq_2)

lemma load_bytes_4: "load_bytes m a 4 = load_bytes m a (Suc (Suc (Suc (Suc 0))))"
  by (simp only: numeral_eq_Suc pred_numeral_simps Num.BitM.simps numeral_One One_nat_def)

lemma load64_unmapped: "m a = None \<Longrightarrow> load64 m a = Inl (Segv a)"
  by (simp add: load64_def load8_def numeral_eq_Suc)

lemma store64_unmapped: "m a = None \<Longrightarrow> store64 m a v = Inl (Segv a)"
  by (simp add: store64_def store8_def numeral_eq_Suc)

lemma load32_unmapped: "m a = None \<Longrightarrow> load32 m a = Inl (Segv a)"
  by (simp add: load32_def load8_def numeral_eq_Suc)

lemma load64_poke_same [mem_simps]:
  "mapped m a 8 \<Longrightarrow> load64 (poke m a (le_bytes 8 v)) a = Inr (v :: u64)"
  using peek_poke_same [of "le_bytes 8 v" m a]
  by (simp add: load64_mapped le_word_bytes_id)

lemma load32_poke_same [mem_simps]:
  "mapped m a 4 \<Longrightarrow> load32 (poke m a (le_bytes 4 v)) a = Inr (v :: u32)"
  using peek_poke_same [of "le_bytes 4 v" m a]
  by (simp add: load32_mapped le_word_bytes_id)

lemma poke_disj: "disj_range a (length bs) b n \<Longrightarrow> in_range x b n \<Longrightarrow> poke m a bs x = m x"
  by (auto simp: poke_def disj_range_def)

lemma load_bytes_cong:
  assumes "\<And>x. in_range x a n \<Longrightarrow> m' x = m x" "n \<le> 2 ^ 64"
  shows "load_bytes m' a n = load_bytes m a n"
  using assms
proof (induction n arbitrary: a)
  case 0
  then show ?case by simp
next
  case (Suc n)
  have "m' a = m a" using Suc.prems by (simp add: in_range_def)
  moreover have "load_bytes m' (a + 1) n = load_bytes m (a + 1) n"
  proof (rule Suc.IH)
    fix x assume "in_range x (a + 1) n"
    then obtain i where i: "i < n" "x = a + 1 + of_nat i" using in_range_nth by blast
    then have "in_range x a (Suc n)"
      using in_range_offset [of "Suc i" "Suc n" a] Suc.prems(2) by (simp add: add.assoc)
    then show "m' x = m x" by (rule Suc.prems)
  qed (use Suc.prems in simp)
  ultimately show ?case by (simp add: load8_def)
qed

lemma load64_cong: "(\<And>x. in_range x a 8 \<Longrightarrow> m' x = m x) \<Longrightarrow> load64 m' a = load64 m a"
  by (simp add: load64_def load_bytes_cong [of a 8 m' m])

lemma load32_cong: "(\<And>x. in_range x a 4 \<Longrightarrow> m' x = m x) \<Longrightarrow> load32 m' a = load32 m a"
  by (simp add: load32_def load_bytes_cong [of a 4 m' m])

lemma load64_poke_disj [mem_simps]:
  "disj_range a (length bs) c 8 \<Longrightarrow> load64 (poke m a bs) c = load64 m c"
  by (rule load64_cong) (auto simp: disj_range_def poke_def)

lemma mapped_poke_self: "length bs = n \<Longrightarrow> mapped (poke m a bs) a n"
  by (simp add: mapped_def poke_def)

lemma load32_poke_list:
  assumes "length bs = 4"
  shows "load32 (poke m a bs) a = Inr (le_word bs)"
proof -
  have "peek (poke m a bs) a 4 = bs"
    using assms by (intro nth_equalityI) (simp_all add: nth_peek poke_def in_range_def unat_of_nat_u64)
  then show ?thesis by (simp add: load32_mapped mapped_poke_self [OF assms])
qed

lemma load32_poke_disj [mem_simps]:
  "disj_range a (length bs) c 4 \<Longrightarrow> load32 (poke m a bs) c = load32 m c"
  by (rule load32_cong) (auto simp: disj_range_def poke_def)

end
