(* ===== verification/Align.thy ===== *)
theory Align
  imports Prelude
begin

text \<open>
  \<open>src/cia-mem/util.c\<close>: rounding addresses and sizes to a power of two.  The four functions are
  the same two bit formulas; the interface \<open>rounding\<close> states what every caller (arena, pool, the
  loader's thread control block) relies on, and both pairs of functions interpret it.
\<close>

section \<open>The functions\<close>

definition cia_ptr_alignf :: "addr \<Rightarrow> u64 \<Rightarrow> addr" where
  "cia_ptr_alignf ptr alignment = (ptr + alignment - 1) AND NOT (alignment - 1)"

definition cia_ptr_alignb :: "addr \<Rightarrow> u64 \<Rightarrow> addr" where
  "cia_ptr_alignb ptr alignment = ptr AND NOT (alignment - 1)"

definition cia_size_alignf :: "u64 \<Rightarrow> u64 \<Rightarrow> u64" where
  "cia_size_alignf sz alignment = (sz + alignment - 1) AND NOT (alignment - 1)"

definition cia_size_alignb :: "u64 \<Rightarrow> u64 \<Rightarrow> u64" where
  "cia_size_alignb sz alignment = sz AND NOT (alignment - 1)"

definition is_pow2 :: "u64 \<Rightarrow> bool" where
  "is_pow2 al \<longleftrightarrow> (\<exists>k<64. al = 2 ^ k)"

section \<open>Rounding in arithmetic terms\<close>

lemma unat_pow2: "k < 64 \<Longrightarrow> unat (2 ^ k :: u64) = 2 ^ k"
proof -
  assume "k < 64"
  then have "(2 :: nat) ^ k < 2 ^ 64" by (intro power_strict_increasing) simp_all
  then have "unat (of_nat (2 ^ k) :: u64) = 2 ^ k" by (rule unat_of_nat_u64)
  then show ?thesis by simp
qed

lemma is_pow2_pos: "is_pow2 al \<Longrightarrow> 0 < unat al"
  by (auto simp: is_pow2_def unat_pow2)

lemma clear_low_bits:
  assumes "k < 64"
  shows "unat (x AND NOT (2 ^ k - 1) :: u64) = unat x div 2 ^ k * 2 ^ k"
proof -
  have e: "x AND NOT (2 ^ k - 1) = push_bit k (drop_bit k x)"
    by (rule bit_word_eqI)
      (use assms in \<open>auto simp: bit_simps mask_eq_exp_minus_1 [symmetric]\<close>)
  have "unat x div 2 ^ k * 2 ^ k \<le> unat x" by simp
  then have "unat x div 2 ^ k * 2 ^ k < 2 ^ 64"
    by (rule le_less_trans) (use unsigned_less [of x] in simp)
  then show ?thesis
    unfolding e unsigned_push_bit_eq unsigned_drop_bit_eq
    by (simp add: drop_bit_eq_div push_bit_eq_mult take_bit_nat_eq_self)
qed

lemma round_down_unat:
  "is_pow2 al \<Longrightarrow> unat (x AND NOT (al - 1)) = unat x div unat al * unat al"
  by (auto simp: is_pow2_def clear_low_bits unat_pow2)

lemma round_up_unat:
  assumes "is_pow2 al" "unat x + unat al \<le> 2 ^ 64"
  shows "unat ((x + al - 1) AND NOT (al - 1)) = (unat x + unat al - 1) div unat al * unat al"
proof -
  have p: "0 < unat al" using assms(1) by (rule is_pow2_pos)
  have a: "unat (al - 1) = unat al - 1"
    using p by (metis neq0_conv unat_minus_one unat_eq_0)
  have "unat (x + (al - 1)) = unat x + (unat al - 1)"
    using assms(2) p by (subst unat_add_no_wrap) (simp_all add: a)
  then have "unat (x + al - 1) = unat x + unat al - 1" using p by (simp add: add_diff_eq)
  with round_down_unat [OF assms(1), of "x + al - 1"] show ?thesis by simp
qed

lemma round_up_wraps:
  assumes "is_pow2 al" "2 ^ 64 < unat x + unat al"
  shows "(x + al - 1) AND NOT (al - 1) = 0"
proof -
  have p: "0 < unat al" using assms(1) by (rule is_pow2_pos)
  have a: "unat (al - 1) = unat al - 1"
    using p by (metis neq0_conv unat_minus_one unat_eq_0)
  have ge: "2 ^ 64 \<le> unat x + (unat al - 1)" using assms(2) p by linarith
  then have "unat (x + (al - 1)) = unat x + (unat al - 1) - 2 ^ 64"
    unfolding unat_plus_if_size a word_size by simp
  moreover have "unat x < 2 ^ 64" by simp
  ultimately have "unat (x + (al - 1)) < unat al" using p by linarith
  then have "unat (x + al - 1) < unat al" by (simp add: add_diff_eq)
  with round_down_unat [OF assms(1), of "x + al - 1"] show ?thesis
    by (simp add: unat_eq_zero)
qed

lemma div_up_bounds:
  fixes x al :: nat
  assumes "0 < al"
  shows "x \<le> (x + al - 1) div al * al" "(x + al - 1) div al * al < x + al"
proof -
  have d: "(x + al - 1) div al * al + (x + al - 1) mod al = x + al - 1" by simp
  have m: "(x + al - 1) mod al < al" using assms by simp
  show "x \<le> (x + al - 1) div al * al" using d m assms by linarith
  show "(x + al - 1) div al * al < x + al" using d assms by linarith
qed

lemma div_up_least:
  fixes x al y :: nat
  assumes "0 < al" "al dvd y" "x \<le> y"
  shows "(x + al - 1) div al * al \<le> y"
proof -
  from assms(2) obtain q where q: "y = q * al" by (metis dvdE mult.commute)
  have "(x + al - 1) div al * al < y + al"
    using div_up_bounds(2) [OF assms(1), of x] assms(3) by simp
  then have "(x + al - 1) div al * al < (q + 1) * al" by (simp add: q)
  then have "(x + al - 1) div al < q + 1" by (simp only: mult_less_cancel2)
  then show ?thesis by (simp add: q)
qed

section \<open>The interface\<close>

text \<open>
  \<open>up\<close> is the least multiple of the alignment that is not below \<open>x\<close>, \<open>down\<close> the greatest one that
  is not above.  \<open>fits x al\<close> is the absence of wrap-around in \<open>x + al - 1\<close>.
\<close>

definition fits :: "u64 \<Rightarrow> u64 \<Rightarrow> bool" where
  "fits x al \<longleftrightarrow> unat x + unat al \<le> 2 ^ 64"

lemma aligned_fits:
  assumes "is_pow2 al" "unat al dvd unat x"
  shows "fits x al"
proof -
  obtain k where k: "k < 64" "al = 2 ^ k" using assms(1) by (auto simp: is_pow2_def)
  have "unat al dvd 2 ^ 64" using k le_imp_power_dvd [of k 64 "2 :: nat"] by (simp only: unat_pow2)
  then obtain q where q: "2 ^ 64 = unat al * q" by (rule dvdE)
  obtain r where r: "unat x = unat al * r" using assms(2) by (rule dvdE)
  have "unat x < 2 ^ 64" by simp
  then have "r < q" unfolding q r by simp
  then have "unat al * Suc r \<le> unat al * q" by (intro mult_le_mono2) simp
  then show ?thesis unfolding fits_def q r by simp
qed

locale rounding =
  fixes up :: "u64 \<Rightarrow> u64 \<Rightarrow> u64" and down :: "u64 \<Rightarrow> u64 \<Rightarrow> u64"
  assumes up_dvd: "is_pow2 al \<Longrightarrow> fits x al \<Longrightarrow> unat al dvd unat (up x al)"
    and up_ge: "is_pow2 al \<Longrightarrow> fits x al \<Longrightarrow> unat x \<le> unat (up x al)"
    and up_least: "is_pow2 al \<Longrightarrow> fits x al \<Longrightarrow> unat al dvd y \<Longrightarrow> unat x \<le> y \<Longrightarrow> unat (up x al) \<le> y"
    and down_dvd: "is_pow2 al \<Longrightarrow> unat al dvd unat (down x al)"
    and down_le: "is_pow2 al \<Longrightarrow> unat (down x al) \<le> unat x"
    and down_greatest: "is_pow2 al \<Longrightarrow> unat al dvd y \<Longrightarrow> y \<le> unat x \<Longrightarrow> y \<le> unat (down x al)"
begin

lemma up_aligned: "is_pow2 al \<Longrightarrow> fits x al \<Longrightarrow> unat al dvd unat x \<Longrightarrow> up x al = x"
  by (simp add: word_unat_eq_iff antisym up_ge up_least)

lemma down_aligned: "is_pow2 al \<Longrightarrow> unat al dvd unat x \<Longrightarrow> down x al = x"
  by (simp add: word_unat_eq_iff antisym down_le down_greatest)

lemma down_idem: "is_pow2 al \<Longrightarrow> down (down x al) al = down x al"
  by (simp add: down_aligned down_dvd)

lemma up_mono:
  "is_pow2 al \<Longrightarrow> fits x al \<Longrightarrow> fits y al \<Longrightarrow> unat x \<le> unat y \<Longrightarrow> unat (up x al) \<le> unat (up y al)"
  by (meson le_trans up_dvd up_ge up_least)

lemma up_less:
  assumes "is_pow2 al" "fits x al"
  shows "unat (up x al) < unat x + unat al"
proof -
  have p: "0 < unat al" using assms(1) by (rule is_pow2_pos)
  have "unat (up x al) \<le> (unat x + unat al - 1) div unat al * unat al"
    by (intro up_least assms dvd_triv_right div_up_bounds(1) p)
  with div_up_bounds(2) [OF p, of "unat x"] show ?thesis by simp
qed

lemma down_greater: "is_pow2 al \<Longrightarrow> unat x < unat (down x al) + unat al"
proof -
  assume a: "is_pow2 al"
  then have p: "0 < unat al" by (rule is_pow2_pos)
  have "unat x div unat al * unat al \<le> unat (down x al)"
    using a by (intro down_greatest) simp_all
  moreover have "unat x mod unat al < unat al" using p by simp
  moreover have "unat x div unat al * unat al + unat x mod unat al = unat x" by simp
  ultimately show ?thesis by linarith
qed

lemma down_le_up: "is_pow2 al \<Longrightarrow> fits x al \<Longrightarrow> unat (down x al) \<le> unat (up x al)"
  by (meson down_le le_trans up_ge)

end

lemmas align_defs = cia_ptr_alignf_def cia_ptr_alignb_def cia_size_alignf_def cia_size_alignb_def

lemma size_rounding: "rounding cia_size_alignf cia_size_alignb"
proof
  fix al x :: u64 and y :: nat
  assume a: "is_pow2 al"
  then have p: "0 < unat al" by (rule is_pow2_pos)
  show "unat al dvd unat (cia_size_alignb x al)" "unat (cia_size_alignb x al) \<le> unat x"
    by (simp_all add: cia_size_alignb_def round_down_unat a)
  {
    assume "unat al dvd y" "y \<le> unat x"
    then obtain q where "y = q * unat al" by (metis dvdE mult.commute)
    with \<open>y \<le> unat x\<close> p have "q \<le> unat x div unat al" by (simp add: less_eq_div_iff_mult_less_eq)
    with \<open>y = q * unat al\<close> show "y \<le> unat (cia_size_alignb x al)"
      by (simp add: cia_size_alignb_def round_down_unat a)
  }
  assume f: "fits x al"
  then have e: "unat (cia_size_alignf x al) = (unat x + unat al - 1) div unat al * unat al"
    using a by (simp add: cia_size_alignf_def fits_def round_up_unat)
  show "unat al dvd unat (cia_size_alignf x al)" by (simp add: e)
  show "unat x \<le> unat (cia_size_alignf x al)" unfolding e by (rule div_up_bounds(1) [OF p])
  assume "unat al dvd y" "unat x \<le> y"
  with p show "unat (cia_size_alignf x al) \<le> y" unfolding e by (intro div_up_least)
qed

interpretation size_round: rounding cia_size_alignf cia_size_alignb
  by (rule size_rounding)

lemma ptr_align_eq_size_align: "cia_ptr_alignf = cia_size_alignf" "cia_ptr_alignb = cia_size_alignb"
  by (simp_all add: align_defs fun_eq_iff)

interpretation ptr_round: rounding cia_ptr_alignf cia_ptr_alignb
  by (simp add: ptr_align_eq_size_align size_rounding)

section \<open>Properties\<close>

text \<open>C10: on a power-of-two alignment and without wrap-around of \<open>size + alignment - 1\<close>,
  \<open>cia_size_alignf\<close> returns the least multiple of the alignment that is at least \<open>size\<close>.\<close>

theorem cia_size_alignf_least_multiple:
  assumes "is_pow2 al" "fits x al"
  shows "unat al dvd unat (cia_size_alignf x al) \<and> unat x \<le> unat (cia_size_alignf x al)
    \<and> unat (cia_size_alignf x al) < unat x + unat al
    \<and> (\<forall>y. unat al dvd y \<and> unat x \<le> y \<longrightarrow> unat (cia_size_alignf x al) \<le> y)"
  using assms size_round.up_dvd size_round.up_ge size_round.up_less size_round.up_least by blast

theorem cia_size_alignf_least_multiple_witness:
  "cia_size_alignf 20 16 = 32 \<and> unat (cia_size_alignf 20 16) < 36"
proof -
  have "is_pow2 16" by (auto simp: is_pow2_def intro: exI [of _ 4])
  moreover have "fits 20 16" by (simp add: fits_def)
  ultimately have "unat (cia_size_alignf 20 16) < unat (20 :: u64) + unat (16 :: u64)"
    using cia_size_alignf_least_multiple by blast
  then show ?thesis by (simp add: cia_size_alignf_def)
qed

end
