(* ===== verification/Kernel.thy ===== *)
theory Kernel
  imports Memory
begin

text \<open>
  The boundary to the operating system, \<open>src/include/linux/sys/syscall.h\<close>.  The kernel is not part
  of the repository: it is a parameter \<open>K\<close> of every operation that enters it, a function from the
  system call number, the argument registers and the state of the process to the value left in
  \<open>rax\<close> and the state after the call.  The wrappers are translated with their conversions: a
  \<open>u32\<close> argument is zero-extended, an \<open>int\<close> argument sign-extended, and the result is truncated to
  the declared return type.
\<close>

text \<open>The process as the code sees it: its memory, and whatever the kernel keeps (\<open>'k\<close>).\<close>

record 'k world =
  mem :: mem
  os :: 'k

type_synonym 'k kernel = "u64 \<Rightarrow> u64 list \<Rightarrow> 'k world \<Rightarrow> i64 \<times> 'k world"

definition syscall :: "'k kernel \<Rightarrow> u64 \<Rightarrow> u64 list \<Rightarrow> 'k world \<Rightarrow> i64 \<times> 'k world" where
  "syscall K n args w = K n args w"

section \<open>System call numbers and flags\<close>

named_theorems sys_consts \<open>numbers of system calls, flags and error codes\<close>

definition SYS_read :: u64 where [sys_consts]: "SYS_read = 0"
definition SYS_write :: u64 where [sys_consts]: "SYS_write = 1"
definition SYS_open :: u64 where [sys_consts]: "SYS_open = 2"
definition SYS_close :: u64 where [sys_consts]: "SYS_close = 3"
definition SYS_mmap :: u64 where [sys_consts]: "SYS_mmap = 9"
definition SYS_munmap :: u64 where [sys_consts]: "SYS_munmap = 11"
definition SYS_exit :: u64 where [sys_consts]: "SYS_exit = 60"
definition SYS_futex :: u64 where [sys_consts]: "SYS_futex = 202"

definition PROT_READ :: u64 where [sys_consts]: "PROT_READ = 1"
definition PROT_WRITE :: u64 where [sys_consts]: "PROT_WRITE = 2"
definition MAP_PRIVATE :: u64 where [sys_consts]: "MAP_PRIVATE = 2"
definition MAP_ANONYMOUS :: u64 where [sys_consts]: "MAP_ANONYMOUS = 0x20"
definition MAP_NORESERVE :: u64 where [sys_consts]: "MAP_NORESERVE = 0x4000"

definition O_ACCMODE :: i32 where [sys_consts]: "O_ACCMODE = 3"
definition O_RDONLY :: i32 where [sys_consts]: "O_RDONLY = 0"
definition O_RDWR :: i32 where [sys_consts]: "O_RDWR = 2"
definition O_CREAT :: i32 where [sys_consts]: "O_CREAT = 0x40"
definition O_EXCL :: i32 where [sys_consts]: "O_EXCL = 0x80"
definition O_TRUNC :: i32 where [sys_consts]: "O_TRUNC = 0x200"

definition ENOENT :: i64 where [sys_consts]: "ENOENT = 2"
definition EIO :: i64 where [sys_consts]: "EIO = 5"
definition EBADF :: i64 where [sys_consts]: "EBADF = 9"
definition EAGAIN :: i64 where [sys_consts]: "EAGAIN = 11"
definition ENOMEM :: i64 where [sys_consts]: "ENOMEM = 12"
definition EACCES :: i64 where [sys_consts]: "EACCES = 13"
definition EEXIST :: i64 where [sys_consts]: "EEXIST = 17"
definition EISDIR :: i64 where [sys_consts]: "EISDIR = 21"
definition EINVAL :: i64 where [sys_consts]: "EINVAL = 22"

definition FUTEX_WAIT :: u64 where [sys_consts]: "FUTEX_WAIT = 0"
definition FUTEX_WAKE :: u64 where [sys_consts]: "FUTEX_WAKE = 1"
definition FUTEX_PRIVATE_FLAG :: u64 where [sys_consts]: "FUTEX_PRIVATE_FLAG = 128"
definition FUTEX_WAIT_PRIVATE :: u64 where
  [sys_consts]: "FUTEX_WAIT_PRIVATE = FUTEX_PRIVATE_FLAG OR FUTEX_WAIT"
definition FUTEX_WAKE_PRIVATE :: u64 where
  [sys_consts]: "FUTEX_WAKE_PRIVATE = FUTEX_PRIVATE_FLAG OR FUTEX_WAKE"

section \<open>The wrappers\<close>

definition sys_read :: "'k kernel \<Rightarrow> u32 \<Rightarrow> addr \<Rightarrow> u64 \<Rightarrow> 'k world \<Rightarrow> i32 \<times> 'k world" where
  "sys_read K fd buf count w =
     (let (r, w') = syscall K SYS_read [ucast fd, buf, count] w in (ucast r, w'))"

definition sys_write :: "'k kernel \<Rightarrow> u32 \<Rightarrow> addr \<Rightarrow> u64 \<Rightarrow> 'k world \<Rightarrow> i32 \<times> 'k world" where
  "sys_write K fd buf count w =
     (let (r, w') = syscall K SYS_write [ucast fd, buf, count] w in (ucast r, w'))"

definition sys_open :: "'k kernel \<Rightarrow> addr \<Rightarrow> i32 \<Rightarrow> i32 \<Rightarrow> 'k world \<Rightarrow> i32 \<times> 'k world" where
  "sys_open K filename flags mode w =
     (let (r, w') = syscall K SYS_open [filename, scast flags, scast mode] w in (ucast r, w'))"

definition sys_close :: "'k kernel \<Rightarrow> u32 \<Rightarrow> 'k world \<Rightarrow> i64 \<times> 'k world" where
  "sys_close K fd w = syscall K SYS_close [ucast fd] w"

definition sys_mmap ::
  "'k kernel \<Rightarrow> u64 \<Rightarrow> u64 \<Rightarrow> u64 \<Rightarrow> u64 \<Rightarrow> u64 \<Rightarrow> u64 \<Rightarrow> 'k world \<Rightarrow> addr \<times> 'k world" where
  "sys_mmap K addr len prot flags fd offset w =
     syscall K SYS_mmap [addr, len, prot, flags, fd, offset] w"

definition sys_munmap :: "'k kernel \<Rightarrow> addr \<Rightarrow> u64 \<Rightarrow> 'k world \<Rightarrow> i64 \<times> 'k world" where
  "sys_munmap K addr len w = syscall K SYS_munmap [addr, len] w"

section \<open>What the code relies on\<close>

text \<open>
  The documented behaviour of anonymous private mappings (mmap(2), munmap(2)), with the two words of flags that the code
  passes, used as named hypotheses.  On success \<open>mmap\<close> returns the address of a page-aligned, zero-filled region in the
  lower half of the address space that overlaps no existing mapping; on failure it returns a
  negated error code, which lies in the last page of the address space, and maps nothing.
\<close>

definition page_size :: nat where "page_size = 4096"

definition page_round :: "nat \<Rightarrow> nat" where
  "page_round n = (n + page_size - 1) div page_size * page_size"

definition errno_result :: "addr \<Rightarrow> bool" where
  "errno_result r \<longleftrightarrow> 2 ^ 64 - page_size < unat r"

definition fresh_zeroed :: "addr \<Rightarrow> nat \<Rightarrow> mem \<Rightarrow> mem \<Rightarrow> bool" where
  "fresh_zeroed a n m m' \<longleftrightarrow>
     0 < unat a \<and> unat a + n \<le> 2 ^ 47 \<and> (\<forall>x. in_range x a n \<longrightarrow> m x = None)
     \<and> m' = (\<lambda>x. if in_range x a n then Some 0 else m x)"

definition anonymous_flags :: "u64 set" where
  "anonymous_flags = {MAP_PRIVATE OR MAP_ANONYMOUS, MAP_PRIVATE OR MAP_ANONYMOUS OR MAP_NORESERVE}"

definition mmap_documented :: "'k kernel \<Rightarrow> bool" where
  "mmap_documented K \<longleftrightarrow>
     (\<forall>len flags w r w'. 0 < len \<longrightarrow> flags \<in> anonymous_flags \<longrightarrow>
        sys_mmap K 0 len (PROT_READ OR PROT_WRITE) flags (-1) 0 w = (r, w') \<longrightarrow>
        (if errno_result r then mem w' = mem w
         else page_size dvd unat r \<and> fresh_zeroed r (page_round (unat len)) (mem w) (mem w')))"

definition munmap_documented :: "'k kernel \<Rightarrow> bool" where
  "munmap_documented K \<longleftrightarrow>
     (\<forall>a len w r w'. 0 < len \<longrightarrow> page_size dvd unat a \<longrightarrow> sys_munmap K a len w = (r, w') \<longrightarrow> r = 0 \<longrightarrow>
        mem w' = (\<lambda>x. if in_range x a (page_round (unat len)) then None else mem w x))"

lemma page_round_ge: "n \<le> page_round n"
proof -
  have "(n + page_size - 1) mod page_size < page_size" by (simp add: page_size_def)
  moreover have "page_round n + (n + page_size - 1) mod page_size = n + page_size - 1"
    unfolding page_round_def by simp
  ultimately show ?thesis by linarith
qed

lemma fresh_zeroed_mapped:
  "fresh_zeroed a n m m' \<Longrightarrow> k \<le> n \<Longrightarrow> mapped m' a k"
  by (auto simp: fresh_zeroed_def mapped_def dest: in_range_mono)

lemma fresh_zeroed_old:
  "fresh_zeroed a n m m' \<Longrightarrow> m x \<noteq> None \<Longrightarrow> m' x = m x"
  by (auto simp: fresh_zeroed_def)

lemma fresh_zeroed_disjoint:
  "fresh_zeroed a n m m' \<Longrightarrow> mapped m b k \<Longrightarrow> disj_range b k a n"
  by (auto simp: fresh_zeroed_def mapped_def disj_range_def)

lemma fresh_zeroed_old_mapped:
  "fresh_zeroed a n m m' \<Longrightarrow> mapped m b k \<Longrightarrow> mapped m' b k"
  by (auto simp: mapped_def fresh_zeroed_def)

lemma fresh_zeroed_load64:
  "fresh_zeroed a n m m' \<Longrightarrow> mapped m b 8 \<Longrightarrow> load64 m' b = load64 m b"
  by (rule load64_cong) (auto intro: fresh_zeroed_old dest: mappedD)

lemma mmap_documented_flags:
  "mmap_documented K \<Longrightarrow> 0 < len \<Longrightarrow> flags \<in> anonymous_flags \<Longrightarrow>
   sys_mmap K 0 len (PROT_READ OR PROT_WRITE) flags (-1) 0 w = (r, w') \<Longrightarrow>
   (if errno_result r then mem w' = mem w
    else page_size dvd unat r \<and> fresh_zeroed r (page_round (unat len)) (mem w) (mem w'))"
  by (simp add: mmap_documented_def)

lemma mmap_documentedD:
  "mmap_documented K \<Longrightarrow> 0 < len \<Longrightarrow>
   sys_mmap K 0 len (PROT_READ OR PROT_WRITE) (MAP_PRIVATE OR MAP_ANONYMOUS) (-1) 0 w = (r, w') \<Longrightarrow> \<not> errno_result r \<Longrightarrow>
   page_size dvd unat r \<and> fresh_zeroed r (page_round (unat len)) (mem w) (mem w')"
  using mmap_documented_flags [of K len "MAP_PRIVATE OR MAP_ANONYMOUS" w r w'] by (simp add: anonymous_flags_def)

lemma mmap_noreserveD:
  "mmap_documented K \<Longrightarrow> 0 < len \<Longrightarrow>
   sys_mmap K 0 len (PROT_READ OR PROT_WRITE) (MAP_PRIVATE OR MAP_ANONYMOUS OR MAP_NORESERVE) (-1) 0 w = (r, w') \<Longrightarrow>
   \<not> errno_result r \<Longrightarrow> page_size dvd unat r \<and> fresh_zeroed r (page_round (unat len)) (mem w) (mem w')"
  using mmap_documented_flags [of K len "MAP_PRIVATE OR MAP_ANONYMOUS OR MAP_NORESERVE" w r w'] by (simp add: anonymous_flags_def)

lemma mmap_documented_errno:
  "mmap_documented K \<Longrightarrow> 0 < len \<Longrightarrow>
   sys_mmap K 0 len (PROT_READ OR PROT_WRITE) (MAP_PRIVATE OR MAP_ANONYMOUS) (-1) 0 w = (r, w') \<Longrightarrow> errno_result r \<Longrightarrow>
   mem w' = mem w"
  using mmap_documented_flags [of K len "MAP_PRIVATE OR MAP_ANONYMOUS" w r w'] by (simp add: anonymous_flags_def)

lemma mmap_documented_nonzero:
  "mmap_documented K \<Longrightarrow> 0 < len \<Longrightarrow>
   sys_mmap K 0 len (PROT_READ OR PROT_WRITE) (MAP_PRIVATE OR MAP_ANONYMOUS) (-1) 0 w = (r, w') \<Longrightarrow> r \<noteq> 0"
  using mmap_documentedD [of K len w r w']
  by (cases "errno_result r") (auto simp: fresh_zeroed_def errno_result_def page_size_def)

section \<open>A kernel for the witnesses\<close>

text \<open>
  It serves \<open>mmap\<close> from a bump pointer (its whole state), refuses a request that does not fit or
  would overlap, unmaps on \<open>munmap\<close>, and answers 0 to everything else.
\<close>

definition bump_kernel :: "addr kernel" where
  "bump_kernel n args w =
     (if n = SYS_mmap then
        (let len = page_round (unat (args ! 1)); a = os w in
         if page_size dvd unat a \<and> 0 < unat a \<and> unat a + len \<le> 2 ^ 47
            \<and> list_all (\<lambda>i. mem w (a + of_nat i) = None) [0..<len]
         then (a, w\<lparr>mem := (\<lambda>x. if in_range x a len then Some 0 else mem w x),
                    os := a + of_nat len\<rparr>)
         else (- ENOMEM, w))
      else if n = SYS_munmap then
        (0, w\<lparr>mem := (\<lambda>x. if in_range x (args ! 0) (page_round (unat (args ! 1))) then None else mem w x)\<rparr>)
      else (0, w))"

lemma bump_kernel_mmap_documented: "mmap_documented bump_kernel"
proof -
  have e: "errno_result (- ENOMEM)"
    by (simp add: errno_result_def page_size_def ENOMEM_def)
  have n: "\<not> errno_result a" if "unat a + k \<le> 140737488355328" for a :: addr and k
    using that by (simp add: errno_result_def page_size_def)
  have f: "fresh_zeroed (os w) k (mem w) (\<lambda>x. if in_range x (os w) k then Some 0 else mem w x)"
    if "0 < unat (os w)" "unat (os w) + k \<le> 2 ^ 47" "list_all (\<lambda>i. mem w (os w + of_nat i) = None) [0..<k]"
    for w :: "addr world" and k
    using that unfolding fresh_zeroed_def list_all_iff by (auto dest: in_range_nth)
  show ?thesis
    unfolding mmap_documented_def sys_mmap_def syscall_def bump_kernel_def
    by (auto simp: Let_def e intro: f dest: n)
qed

lemma bump_kernel_munmap_documented: "munmap_documented bump_kernel"
  by (auto simp: munmap_documented_def sys_munmap_def syscall_def bump_kernel_def sys_consts)

definition bump_start :: "addr world" where
  "bump_start = \<lparr>mem = Map.empty, os = 0x10000\<rparr>"

lemma page_round_small: "0 < n \<Longrightarrow> n \<le> 4096 \<Longrightarrow> page_round n = 4096"
proof -
  assume "0 < n" "n \<le> 4096"
  then have "(n + 4096 - 1) div 4096 = Suc 0" by (intro div_nat_eqI) simp_all
  then show ?thesis by (simp add: page_round_def page_size_def)
qed

lemma bump_start_mmap:
  "0 < unat len \<Longrightarrow> unat len \<le> 4096 \<Longrightarrow>
   sys_mmap bump_kernel 0 len prot flags fd off bump_start =
     (0x10000, \<lparr>mem = (\<lambda>x. if in_range x 0x10000 4096 then Some 0 else None), os = 0x11000\<rparr>)"
  by (simp add: sys_mmap_def syscall_def bump_kernel_def bump_start_def page_round_small Let_def
      list_all_iff page_size_def fun_eq_iff)

end
