(* ===== verification/Syscalls.thy ===== *)
theory Syscalls
  imports Kernel
begin

text \<open>
  The assembler side of \<open>include/linux/sys/syscall.h\<close>: the macros that count the arguments of a call and choose
  the function for that number, the registers that each of the functions loads, and the registers in which
  the kernel looks for its arguments.  \<open>Kernel.syscall\<close> is the call as the rest of the model sees it.
\<close>

section \<open>Counting the arguments\<close>

text \<open>
  \<open>_SYSCALL_NARGS\<close> puts the arguments between a zero and the numbers from 6 down to 0 and takes the eighth
  of all; \<open>Inl\<close> is an argument, \<open>Inr\<close> a number.
\<close>

definition SYSCALL_NARGS_select :: "(u64 + nat) list \<Rightarrow> (u64 + nat) option" where
  "SYSCALL_NARGS_select xs = (if 7 < length xs then Some (xs ! 7) else None)"

definition SYSCALL_NARGS :: "u64 list \<Rightarrow> (u64 + nat) option" where
  "SYSCALL_NARGS args =
     SYSCALL_NARGS_select (Inr 0 # map Inl args @ [Inr 6, Inr 5, Inr 4, Inr 3, Inr 2, Inr 1, Inr 0])"

section \<open>The calls\<close>

datatype reg = RAX | RDI | RSI | RDX | R10 | R8 | R9

text \<open>The input operands of the \<open>syscall\<close> instruction in the seven functions.\<close>

type_synonym operands = "(reg \<times> u64) list"

definition syscall0 :: "u64 \<Rightarrow> operands" where
  "syscall0 n = [(RAX, n)]"

definition syscall1 :: "u64 \<Rightarrow> u64 \<Rightarrow> operands" where
  "syscall1 n a1 = [(RAX, n), (RDI, a1)]"

definition syscall2 :: "u64 \<Rightarrow> u64 \<Rightarrow> u64 \<Rightarrow> operands" where
  "syscall2 n a1 a2 = [(RAX, n), (RDI, a1), (RSI, a2)]"

definition syscall3 :: "u64 \<Rightarrow> u64 \<Rightarrow> u64 \<Rightarrow> u64 \<Rightarrow> operands" where
  "syscall3 n a1 a2 a3 = [(RAX, n), (RDI, a1), (RSI, a2), (RDX, a3)]"

definition syscall4 :: "u64 \<Rightarrow> u64 \<Rightarrow> u64 \<Rightarrow> u64 \<Rightarrow> u64 \<Rightarrow> operands" where
  "syscall4 n a1 a2 a3 a4 = [(RAX, n), (RDI, a1), (RSI, a2), (RDX, a3), (R10, a4)]"

definition syscall5 :: "u64 \<Rightarrow> u64 \<Rightarrow> u64 \<Rightarrow> u64 \<Rightarrow> u64 \<Rightarrow> u64 \<Rightarrow> operands" where
  "syscall5 n a1 a2 a3 a4 a5 = [(RAX, n), (RDI, a1), (RSI, a2), (RDX, a3), (R10, a4), (R8, a5)]"

definition syscall6 :: "u64 \<Rightarrow> u64 \<Rightarrow> u64 \<Rightarrow> u64 \<Rightarrow> u64 \<Rightarrow> u64 \<Rightarrow> u64 \<Rightarrow> operands" where
  "syscall6 n a1 a2 a3 a4 a5 a6 =
     [(RAX, n), (RDI, a1), (RSI, a2), (RDX, a3), (R10, a4), (R8, a5), (R9, a6)]"

text \<open>\<open>_SYSCALL0\<close> to \<open>_SYSCALL6\<close>, and \<open>syscall\<close>, which glues the number to the name; \<open>None\<close> is a call that does
  not compile.\<close>

definition SYSCALL_call :: "nat \<Rightarrow> u64 \<Rightarrow> u64 list \<Rightarrow> operands option" where
  "SYSCALL_call k n p =
     (if length p \<noteq> k then None
      else if k = 0 then Some (syscall0 n)
      else if k = 1 then Some (syscall1 n (p ! 0))
      else if k = 2 then Some (syscall2 n (p ! 0) (p ! 1))
      else if k = 3 then Some (syscall3 n (p ! 0) (p ! 1) (p ! 2))
      else if k = 4 then Some (syscall4 n (p ! 0) (p ! 1) (p ! 2) (p ! 3))
      else if k = 5 then Some (syscall5 n (p ! 0) (p ! 1) (p ! 2) (p ! 3) (p ! 4))
      else if k = 6 then Some (syscall6 n (p ! 0) (p ! 1) (p ! 2) (p ! 3) (p ! 4) (p ! 5))
      else None)"

definition syscall_macro :: "u64 \<Rightarrow> u64 list \<Rightarrow> operands option" where
  "syscall_macro n args =
     (case SYSCALL_NARGS args of Some (Inr k) \<Rightarrow> SYSCALL_call k n args | _ \<Rightarrow> None)"

text \<open>The kernel's convention: the number in \<open>rax\<close>, the arguments in these registers in this order.\<close>

definition arg_regs :: "reg list" where
  "arg_regs = [RDI, RSI, RDX, R10, R8, R9]"

definition kernel_sees :: "operands \<Rightarrow> u64 option \<times> u64 list" where
  "kernel_sees ops =
     (map_of ops RAX, map (\<lambda>r. the (map_of ops r)) (takeWhile (\<lambda>r. map_of ops r \<noteq> None) arg_regs))"

section \<open>Properties\<close>

lemma length_numeral_conv:
  "length xs = numeral n \<longleftrightarrow> (\<exists>y ys. xs = y # ys \<and> length ys = pred_numeral n)"
  by (simp add: numeral_eq_Suc length_Suc_conv)

lemmas syscall_defs =
  syscall0_def syscall1_def syscall2_def syscall3_def syscall4_def syscall5_def syscall6_def

text \<open>C38: a system call with up to six arguments reaches the kernel with its number and its arguments in order;
  one with more does not compile.\<close>

theorem syscall_macro_passes_arguments:
  "if length args \<le> 6
   then \<exists>ops. syscall_macro n args = Some ops \<and> distinct (map fst ops) \<and> kernel_sees ops = (Some n, args)
   else syscall_macro n args = None"
proof (cases "length args \<le> 6")
  case True
  then have "length args = 0 \<or> length args = 1 \<or> length args = 2 \<or> length args = 3 \<or> length args = 4
      \<or> length args = 5 \<or> length args = 6"
    by linarith
  then have "\<exists>ops. syscall_macro n args = Some ops \<and> distinct (map fst ops) \<and> kernel_sees ops = (Some n, args)"
    by (elim disjE; (clarsimp simp: length_numeral_conv length_Suc_conv)?)
      (simp_all add: syscall_macro_def SYSCALL_NARGS_def SYSCALL_NARGS_select_def SYSCALL_call_def kernel_sees_def arg_regs_def
        syscall_defs nth_Cons' numeral_eq_Suc)
  with True show ?thesis by simp
next
  case False
  then have "SYSCALL_NARGS args = Some (Inl (args ! 6))"
    by (simp add: SYSCALL_NARGS_def SYSCALL_NARGS_select_def nth_append)
  with False show ?thesis by (simp add: syscall_macro_def)
qed

end
