(* ===== verification/Tinyrt.thy ===== *)
theory Tinyrt
  imports Kernel
begin

text \<open>
  \<open>src/include/tinyrt.h\<close> and \<open>src/os/linux/tinyrt.c\<close>: the portable runtime layer on top of the
  system calls (files, memory, futexes).  An out-parameter that points to a local of the caller is
  part of the result, as an \<open>option\<close>: \<open>None\<close> where the function returns without having written it.
\<close>

section \<open>Status codes, file flags, the file handle\<close>

named_theorems rt_consts \<open>status codes and file flags of tinyrt\<close>

definition RT_STATUS_OK :: i32 where [rt_consts]: "RT_STATUS_OK = 0"
definition RT_ERROR_NOT_IMPLEMENTED :: i32 where [rt_consts]: "RT_ERROR_NOT_IMPLEMENTED = -1"
definition RT_ERROR_BAD_PARAM :: i32 where [rt_consts]: "RT_ERROR_BAD_PARAM = -2"
definition RT_ERROR_GENERIC :: i32 where [rt_consts]: "RT_ERROR_GENERIC = -3"
definition RT_STATUS_FILE_ACCESS :: i32 where [rt_consts]: "RT_STATUS_FILE_ACCESS = 1"
definition RT_STATUS_FILE_EXISTS :: i32 where [rt_consts]: "RT_STATUS_FILE_EXISTS = 3"
definition RT_STATUS_FILE_NOT_EXISTS :: i32 where [rt_consts]: "RT_STATUS_FILE_NOT_EXISTS = 4"
definition RT_STATUS_FILE_DIRECTORY :: i32 where [rt_consts]: "RT_STATUS_FILE_DIRECTORY = 5"
definition RT_STATUS_FILE_IO_ERROR :: i32 where [rt_consts]: "RT_STATUS_FILE_IO_ERROR = 12"
definition RT_STATUS_FILE_BAD_FILE :: i32 where [rt_consts]: "RT_STATUS_FILE_BAD_FILE = 13"
definition RT_STATUS_FILE_EOF :: i32 where [rt_consts]: "RT_STATUS_FILE_EOF = 14"

definition RT_FILE_READ :: i32 where [rt_consts]: "RT_FILE_READ = 0x01"
definition RT_FILE_WRITE :: i32 where [rt_consts]: "RT_FILE_WRITE = 0x02"
definition RT_FILE_CREATE :: i32 where [rt_consts]: "RT_FILE_CREATE = 0x04"
definition RT_FILE_EXCLUSIVE :: i32 where [rt_consts]: "RT_FILE_EXCLUSIVE = 0x08"
definition RT_FILE_TRUNCATE :: i32 where [rt_consts]: "RT_FILE_TRUNCATE = 0x10"

definition RT_SYNC_WAIT_INFINITE :: u64 where
  [rt_consts]: "RT_SYNC_WAIT_INFINITE = 0xffffffffffffffff"

record RT_File =
  rf_fd :: u64
  rf_flags :: i32

text \<open>The three static handles, and what \<open>_rt_file_std_handles_init\<close> assigns to them.\<close>

record std_handles =
  rt_file_stdin :: RT_File
  rt_file_stdout :: RT_File
  rt_file_stderr :: RT_File

definition static_handles :: std_handles where
  "static_handles =
     \<lparr>rt_file_stdin = \<lparr>rf_fd = 0, rf_flags = 0\<rparr>, rt_file_stdout = \<lparr>rf_fd = 0, rf_flags = 0\<rparr>,
      rt_file_stderr = \<lparr>rf_fd = 0, rf_flags = 0\<rparr>\<rparr>"

definition rt_file_std_handles_init :: "std_handles \<Rightarrow> i32 \<times> std_handles" where
  "rt_file_std_handles_init h =
     (let h1 = h\<lparr>rt_file_stdin := \<lparr>rf_fd = 0, rf_flags = RT_FILE_READ\<rparr>\<rparr>;
          h2 = h1\<lparr>rt_file_stdout := \<lparr>rf_fd = 1, rf_flags = RT_FILE_WRITE\<rparr>\<rparr>;
          h3 = h2\<lparr>rt_file_stderr := (rt_file_stderr h2)\<lparr>rf_fd := 2\<rparr>\<rparr>;
          h4 = h3\<lparr>rt_file_stdout := (rt_file_stdout h3)\<lparr>rf_flags := RT_FILE_WRITE\<rparr>\<rparr>
      in (RT_STATUS_OK, h4))"

section \<open>Files\<close>

text \<open>The two arguments of \<open>open\<close> that are computed from the requested flags, and the mapping of
  its result to a status code and a handle.\<close>

definition open_mode :: "i32 \<Rightarrow> i32" where
  "open_mode rt_flags =
     (if rt_flags AND 3 = 3 then O_RDWR
      else if rt_flags AND RT_FILE_READ \<noteq> 0 then O_RDONLY
      else if rt_flags AND RT_FILE_WRITE \<noteq> 0 then O_RDWR
      else 0)"

definition open_flags :: "i32 \<Rightarrow> i32" where
  "open_flags rt_flags =
     (let fl0 = 0;
          fl1 = (if rt_flags AND RT_FILE_CREATE \<noteq> 0 then fl0 OR O_CREAT else fl0);
          fl2 = (if rt_flags AND RT_FILE_EXCLUSIVE \<noteq> 0 then fl1 OR O_EXCL else fl1)
      in if rt_flags AND RT_FILE_TRUNCATE \<noteq> 0 then fl2 OR O_TRUNC else fl2)"

definition open_result :: "i32 \<Rightarrow> i64 \<Rightarrow> i32 \<times> RT_File option" where
  "open_result rt_flags fdes =
     (if - fdes = EACCES then (RT_STATUS_FILE_ACCESS, None)
      else if - fdes = EEXIST then (RT_STATUS_FILE_EXISTS, None)
      else if - fdes = ENOENT then (RT_STATUS_FILE_NOT_EXISTS, None)
      else if - fdes = EINVAL then (RT_ERROR_BAD_PARAM, None)
      else if - fdes = EISDIR then (RT_STATUS_FILE_DIRECTORY, None)
      else if fdes <s 0 then (RT_STATUS_FILE_IO_ERROR, None)
      else (RT_STATUS_OK, Some \<lparr>rf_fd = fdes, rf_flags = rt_flags\<rparr>))"

definition rt_file_open ::
  "'k kernel \<Rightarrow> addr \<Rightarrow> i32 \<Rightarrow> 'k world \<Rightarrow> (i32 \<times> RT_File option) \<times> 'k world" where
  "rt_file_open K name rt_flags w =
     (if rt_flags AND 3 = 0 then ((RT_ERROR_BAD_PARAM, None), w)
      else let (r, w') = sys_open K name (open_flags rt_flags) (open_mode rt_flags) w
           in (open_result rt_flags (scast r), w'))"

text \<open>\<open>from\<close> and \<open>to\<close> point to an \<open>_RT_File\<close> in memory, whose descriptor is its first field.\<close>

definition rt_file_read ::
  "'k kernel \<Rightarrow> u64 \<Rightarrow> addr \<Rightarrow> addr \<Rightarrow> 'k world \<Rightarrow> ((i32 \<times> u64 option) \<times> 'k world) res" where
  "rt_file_read K sz buffer from w =
     bind_res (load64 (mem w) from) (\<lambda>fdes.
       let (r, w') = sys_read K (ucast fdes) buffer sz w;
           bytes_read = (scast r :: i64)
       in if bytes_read = 0 then Inr ((RT_STATUS_FILE_EOF, None), w')
          else if bytes_read <s 0 then Inr ((RT_STATUS_FILE_IO_ERROR, None), w')
          else Inr ((RT_STATUS_OK, Some bytes_read), w'))"

definition rt_file_write ::
  "'k kernel \<Rightarrow> addr \<Rightarrow> u64 \<Rightarrow> addr \<Rightarrow> 'k world \<Rightarrow> ((i32 \<times> u64 option) \<times> 'k world) res" where
  "rt_file_write K to sz buffer w =
     bind_res (load64 (mem w) to) (\<lambda>fdes.
       let (r, w') = sys_write K (ucast fdes) buffer sz w;
           status = (scast r :: i64)
       in if - status = EBADF then Inr ((RT_ERROR_BAD_PARAM, None), w')
          else if - status = EIO then Inr ((RT_STATUS_FILE_IO_ERROR, None), w')
          else if 0 <s - status then Inr ((RT_STATUS_FILE_IO_ERROR, None), w')
          else Inr ((RT_STATUS_OK, Some status), w'))"

definition rt_file_close :: "'k kernel \<Rightarrow> addr \<Rightarrow> 'k world \<Rightarrow> (i32 \<times> 'k world) res" where
  "rt_file_close K file w =
     bind_res (load64 (mem w) file) (\<lambda>fdes.
       let (r, w') = sys_close K (ucast fdes) w
       in if r <s 0 then Inr (RT_STATUS_FILE_IO_ERROR, w') else Inr (RT_STATUS_OK, w'))"

section \<open>Memory\<close>

definition rt_mem_alloc ::
  "'k kernel \<Rightarrow> addr \<Rightarrow> u64 \<Rightarrow> 'k world \<Rightarrow> (i32 \<times> addr option) \<times> 'k world" where
  "rt_mem_alloc K optional_desired_addr sz w =
     (let (a, w') = sys_mmap K optional_desired_addr sz (PROT_READ OR PROT_WRITE)
                      (MAP_PRIVATE OR MAP_ANONYMOUS) (-1) 0 w
      in if a = 0 then ((RT_ERROR_GENERIC, None), w') else ((RT_STATUS_OK, Some a), w'))"

definition rt_mem_free :: "'k kernel \<Rightarrow> addr \<Rightarrow> u64 \<Rightarrow> 'k world \<Rightarrow> i32 \<times> 'k world" where
  "rt_mem_free K ptr len w =
     (let (r, w') = sys_munmap K ptr len w
      in if r = -1 then (RT_ERROR_GENERIC, w') else (RT_STATUS_OK, w'))"

section \<open>Futexes\<close>

definition rt_sync_wait :: "'k kernel \<Rightarrow> addr \<Rightarrow> u32 \<Rightarrow> u64 \<Rightarrow> 'k world \<Rightarrow> i32 \<times> 'k world" where
  "rt_sync_wait K a compare_with sleep w =
     (let (r, w') = syscall K SYS_futex [a, FUTEX_WAIT_PRIVATE, ucast compare_with, 0, 0, 0] w
      in if - r = EAGAIN then (RT_STATUS_OK, w')
         else if 0 <s - r then (RT_ERROR_GENERIC, w')
         else (RT_STATUS_OK, w'))"

text \<open>\<open>n_woken\<close> may be null; otherwise the number of woken threads is stored through it.\<close>

definition rt_sync_wake :: "'k kernel \<Rightarrow> u64 \<Rightarrow> addr \<Rightarrow> addr \<Rightarrow> 'k world \<Rightarrow> (i32 \<times> 'k world) res" where
  "rt_sync_wake K n a n_woken w =
     (let (r, w') = syscall K SYS_futex [a, FUTEX_WAKE_PRIVATE, n, 0, 0, 0] w
      in if r <s 0 then Inr (RT_ERROR_GENERIC, w')
         else if n_woken \<noteq> 0
         then bind_res (store32 (mem w') n_woken (ucast r)) (\<lambda>m. Inr (RT_STATUS_OK, w'\<lparr>mem := m\<rparr>))
         else Inr (RT_STATUS_OK, w'))"

definition rt_sync_wake_one :: "'k kernel \<Rightarrow> addr \<Rightarrow> addr \<Rightarrow> 'k world \<Rightarrow> (i32 \<times> 'k world) res" where
  "rt_sync_wake_one K = rt_sync_wake K 1"

definition rt_sync_wake_all :: "'k kernel \<Rightarrow> addr \<Rightarrow> addr \<Rightarrow> 'k world \<Rightarrow> (i32 \<times> 'k world) res" where
  "rt_sync_wake_all K = rt_sync_wake K 0x7fffffff"

section \<open>Properties\<close>

text \<open>The negated error code that \<open>mmap\<close> returns on failure is not null, so \<open>_rt_mem_alloc\<close>
  reports success for every request: its only error branch is dead code.\<close>

theorem rt_mem_alloc_never_fails:
  assumes "mmap_documented K" "0 < len"
  shows "\<exists>a w'. rt_mem_alloc K 0 len w = ((RT_STATUS_OK, Some a), w')
    \<and> sys_mmap K 0 len (PROT_READ OR PROT_WRITE) (MAP_PRIVATE OR MAP_ANONYMOUS) (-1) 0 w = (a, w')"
proof -
  obtain a w' where c: "sys_mmap K 0 len (PROT_READ OR PROT_WRITE) (MAP_PRIVATE OR MAP_ANONYMOUS) (-1) 0 w = (a, w')"
    by (metis surj_pair)
  have "a \<noteq> 0"
  proof (cases "errno_result a")
    case True
    then show ?thesis by (auto simp: errno_result_def page_size_def)
  next
    case False
    then show ?thesis using mmap_documentedD [OF assms c] by (auto simp: fresh_zeroed_def)
  qed
  with c show ?thesis by (simp add: rt_mem_alloc_def)
qed

text \<open>A kernel on which it fails: every call returns \<open>-ENOMEM\<close> and changes nothing.\<close>

definition enomem_kernel :: "'k kernel" where
  "enomem_kernel n args w = (- ENOMEM, w)"

lemma enomem_documented: "mmap_documented enomem_kernel"
proof -
  have "errno_result (- ENOMEM)"
    by (simp add: errno_result_def page_size_def ENOMEM_def)
  then show ?thesis
    by (auto simp: mmap_documented_def sys_mmap_def syscall_def enomem_kernel_def)
qed

theorem rt_mem_alloc_never_fails_witness:
  "rt_mem_alloc enomem_kernel 0 16 \<lparr>mem = Map.empty, os = ()\<rparr> =
     ((RT_STATUS_OK, Some (- 12)), \<lparr>mem = Map.empty, os = ()\<rparr>)"
  using rt_mem_alloc_never_fails [OF enomem_documented, of 16 "\<lparr>mem = Map.empty, os = ()\<rparr>"]
  by (auto simp: sys_mmap_def syscall_def enomem_kernel_def ENOMEM_def)

text \<open>C11: the access mode goes to the \<open>mode\<close> argument of \<open>open\<close>, which only matters for created
  files, and never to its \<open>flags\<close>: two kernels that agree on read-only opens give the same result
  for every requested access, so a file is never opened for writing.\<close>

theorem rt_file_open_read_only:
  assumes "\<And>flags mode w. flags AND O_ACCMODE = O_RDONLY \<Longrightarrow>
      sys_open K name flags mode w = sys_open K' name flags mode w"
  shows "rt_file_open K name rt_flags w = rt_file_open K' name rt_flags w"
proof -
  have "open_flags rt_flags AND O_ACCMODE = O_RDONLY"
    by (simp add: open_flags_def sys_consts Let_def)
  then show ?thesis by (simp add: rt_file_open_def assms)
qed

text \<open>A kernel that grants read-only opens and refuses the others, and one that grants every open.\<close>

definition open_kernel :: "bool \<Rightarrow> 'k kernel" where
  "open_kernel writable n args w =
     (if n = SYS_open \<and> (writable \<or> (ucast (args ! 1) :: i32) AND 3 = 0) then (3, w) else (- EACCES, w))"

theorem rt_file_open_read_only_witness:
  "rt_file_open (open_kernel True) 0x1000 RT_FILE_WRITE \<lparr>mem = Map.empty, os = ()\<rparr>
     = rt_file_open (open_kernel False) 0x1000 RT_FILE_WRITE \<lparr>mem = Map.empty, os = ()\<rparr>"
proof (rule rt_file_open_read_only)
  fix flags mode :: i32 and w :: "unit world"
  assume a: "flags AND O_ACCMODE = O_RDONLY"
  have "ucast (scast flags :: u64) = flags"
    by (rule bit_word_eqI) (auto simp: bit_simps)
  with a have "(ucast (scast flags :: u64) :: i32) AND 3 = 0" by (simp add: sys_consts)
  then show "sys_open (open_kernel True) 0x1000 flags mode w = sys_open (open_kernel False) 0x1000 flags mode w"
    by (simp add: sys_open_def syscall_def open_kernel_def)
qed

end
