(* ===== verification/Allocator.thy ===== *)
theory Allocator
  imports Tinyrt Align
begin

text \<open>
  \<open>src/cia-mem/allocator.c\<close>: the allocator interface (a context pointer and one procedure that
  dispatches on the operation) with its two providers.  The interface \<open>allocator_contract\<close> is the
  contract that arenas and pools rely on; the page allocator and the null allocator interpret it.
\<close>

section \<open>The interface record and the operation codes\<close>

definition CIA_MEM_OP_ALLOC :: i32 where "CIA_MEM_OP_ALLOC = 1"
definition CIA_MEM_OP_FREE :: i32 where "CIA_MEM_OP_FREE = 2"
definition CIA_MEM_OP_FREE_ALL :: i32 where "CIA_MEM_OP_FREE_ALL = 3"
definition CIA_MEM_OP_RESIZE :: i32 where "CIA_MEM_OP_RESIZE = 4"

lemmas cia_mem_op_defs =
  CIA_MEM_OP_ALLOC_def CIA_MEM_OP_FREE_def CIA_MEM_OP_FREE_ALL_def CIA_MEM_OP_RESIZE_def

type_synonym 'k allocator_proc =
  "addr \<Rightarrow> i32 \<Rightarrow> addr \<Rightarrow> u64 \<Rightarrow> u64 \<Rightarrow> u64 \<Rightarrow> 'k world \<Rightarrow> (addr \<times> 'k world) res"

record 'k Cia_Allocator =
  al_ctx :: addr
  al_proc :: "'k allocator_proc"

section \<open>The providers\<close>

definition null_allocator_proc :: "'k allocator_proc" where
  "null_allocator_proc ctx optype old_ptr old_size sz alignment w = Inr (0, w)"

definition cia_allocator_null :: "'k Cia_Allocator" where
  "cia_allocator_null = \<lparr>al_ctx = 0, al_proc = null_allocator_proc\<rparr>"

definition page_allocator_proc :: "'k kernel \<Rightarrow> 'k allocator_proc" where
  "page_allocator_proc K ctx optype old_ptr old_size sz alignment w =
     (if optype = CIA_MEM_OP_ALLOC then
        (if 0x1000 < alignment then Inr (0, w)
         else case rt_mem_alloc K 0 sz w of
           ((status, out), w') \<Rightarrow>
             if status \<noteq> RT_STATUS_OK then Inr (0, w')
             else (case out of None \<Rightarrow> Inl (Undefined Uninitialised) | Some a \<Rightarrow> Inr (a, w')))
      else if optype = CIA_MEM_OP_FREE then Inr (0, snd (rt_mem_free K old_ptr old_size w))
      else if optype = CIA_MEM_OP_FREE_ALL then Inr (0, w)
      else if optype = CIA_MEM_OP_RESIZE then Inr (0, w)
      else Inr (0, w))"

definition cia_allocator_pages :: "'k kernel \<Rightarrow> 'k Cia_Allocator" where
  "cia_allocator_pages K = \<lparr>al_ctx = 0, al_proc = page_allocator_proc K\<rparr>"

section \<open>The operations\<close>

definition cia_allocator_alloc ::
  "'k Cia_Allocator \<Rightarrow> u64 \<Rightarrow> u64 \<Rightarrow> 'k world \<Rightarrow> (addr \<times> 'k world) res" where
  "cia_allocator_alloc A sz alignment w =
     al_proc A (al_ctx A) CIA_MEM_OP_ALLOC 0 0 sz alignment w"

definition cia_allocator_free_size ::
  "'k Cia_Allocator \<Rightarrow> addr \<Rightarrow> u64 \<Rightarrow> 'k world \<Rightarrow> 'k world res" where
  "cia_allocator_free_size A region_ptr region_size w =
     bind_res (al_proc A (al_ctx A) CIA_MEM_OP_FREE region_ptr region_size 0 1 w) (\<lambda>(_, w'). Inr w')"

definition cia_allocator_free :: "'k Cia_Allocator \<Rightarrow> addr \<Rightarrow> 'k world \<Rightarrow> 'k world res" where
  "cia_allocator_free A region_ptr w =
     bind_res (al_proc A (al_ctx A) CIA_MEM_OP_FREE region_ptr 0 0 1 w) (\<lambda>(_, w'). Inr w')"

definition cia_allocator_free_all :: "'k Cia_Allocator \<Rightarrow> 'k world \<Rightarrow> 'k world res" where
  "cia_allocator_free_all A w =
     bind_res (al_proc A (al_ctx A) CIA_MEM_OP_FREE_ALL 0 0 0 1 w) (\<lambda>(_, w'). Inr w')"

definition cia_allocator_resize ::
  "'k Cia_Allocator \<Rightarrow> addr \<Rightarrow> u64 \<Rightarrow> u64 \<Rightarrow> u64 \<Rightarrow> 'k world \<Rightarrow> (addr \<times> 'k world) res" where
  "cia_allocator_resize A old_ptr old_size new_size alignment w =
     al_proc A (al_ctx A) CIA_MEM_OP_RESIZE old_ptr old_size new_size alignment w"

lemmas allocator_defs =
  cia_allocator_alloc_def cia_allocator_free_size_def cia_allocator_free_def
  cia_allocator_free_all_def cia_allocator_resize_def cia_allocator_null_def
  cia_allocator_pages_def null_allocator_proc_def page_allocator_proc_def

section \<open>The contract\<close>

text \<open>
  A result is a failure when it is null or lies in the last page (a negated error code, which
  \<open>_rt_mem_alloc\<close> lets through).  \<open>mk c\<close> is the provider made from a configuration \<open>c\<close> (for the
  page allocator the kernel), \<open>ok c\<close> what is assumed of the configuration.
\<close>

definition alloc_failed :: "addr \<Rightarrow> bool" where
  "alloc_failed p \<longleftrightarrow> p = 0 \<or> errno_result p"

definition granted :: "u64 \<Rightarrow> u64 \<Rightarrow> addr \<Rightarrow> mem \<Rightarrow> mem \<Rightarrow> bool" where
  "granted sz alignment p m m' \<longleftrightarrow>
     unat alignment dvd unat p \<and> (\<exists>n. unat sz \<le> n \<and> fresh_zeroed p n m m')"

locale allocator_contract =
  fixes mk :: "'c \<Rightarrow> 'k Cia_Allocator" and ok :: "'c \<Rightarrow> bool"
  assumes alloc_returns: "\<exists>p w'. cia_allocator_alloc (mk c) sz alignment w = Inr (p, w')"
    and alloc_fails: "ok c \<Longrightarrow> 0 < sz \<Longrightarrow> cia_allocator_alloc (mk c) sz alignment w = Inr (p, w') \<Longrightarrow>
      alloc_failed p \<Longrightarrow> mem w' = mem w"
    and alloc_grants: "ok c \<Longrightarrow> 0 < sz \<Longrightarrow> is_pow2 alignment \<Longrightarrow>
      cia_allocator_alloc (mk c) sz alignment w = Inr (p, w') \<Longrightarrow>
      \<not> alloc_failed p \<Longrightarrow> granted sz alignment p (mem w) (mem w')"
begin

lemma alloc_keeps:
  assumes "ok c" "0 < sz" "is_pow2 alignment" "cia_allocator_alloc (mk c) sz alignment w = Inr (p, w')"
    "mem w x \<noteq> None"
  shows "mem w' x = mem w x"
proof (cases "alloc_failed p")
  case True
  with alloc_fails [OF assms(1,2,4)] show ?thesis by simp
next
  case False
  with alloc_grants [OF assms(1-4)] assms(5) show ?thesis
    unfolding granted_def by (meson fresh_zeroed_old)
qed

end

lemma rt_mem_alloc_eq:
  "mmap_documented K \<Longrightarrow> 0 < sz \<Longrightarrow>
   rt_mem_alloc K 0 sz w =
     (case sys_mmap K 0 sz (PROT_READ OR PROT_WRITE) (MAP_PRIVATE OR MAP_ANONYMOUS) (-1) 0 w of
        (a, w') \<Rightarrow> ((RT_STATUS_OK, Some a), w'))"
  using mmap_documentedD [of K sz] unfolding rt_mem_alloc_def
  by (fastforce simp: Let_def fresh_zeroed_def errno_result_def page_size_def split: prod.splits)

lemma pow2_dvd_page:
  assumes "is_pow2 al" "al \<le> 0x1000"
  shows "unat al dvd page_size"
proof -
  obtain k where k: "k < 64" "al = 2 ^ k" using assms(1) by (auto simp: is_pow2_def)
  then have "(2 :: nat) ^ k \<le> 2 ^ 12" using assms(2) by (simp add: word_le_nat_alt unat_pow2)
  then have "k \<le> 12" by (metis power_le_imp_le_exp one_less_numeral_iff semiring_norm(76))
  then have "(2 :: nat) ^ k dvd 2 ^ 12" by (rule le_imp_power_dvd)
  with k show ?thesis by (simp add: unat_pow2 page_size_def)
qed

interpretation pages: allocator_contract cia_allocator_pages mmap_documented
proof
  fix K :: "'k kernel" and sz alignment :: u64 and w :: "'k world"
  show "\<exists>p w'. cia_allocator_alloc (cia_allocator_pages K) sz alignment w = Inr (p, w')"
    by (auto simp: allocator_defs cia_mem_op_defs rt_mem_alloc_def Let_def rt_consts
        split: prod.splits)
  fix p :: addr and w' :: "'k world"
  assume a: "mmap_documented K" "0 < sz"
    "cia_allocator_alloc (cia_allocator_pages K) sz alignment w = Inr (p, w')"
  then have r: "if 0x1000 < alignment then p = 0 \<and> w' = w
      else sys_mmap K 0 sz (PROT_READ OR PROT_WRITE) (MAP_PRIVATE OR MAP_ANONYMOUS) (-1) 0 w = (p, w')"
    by (auto simp: allocator_defs rt_mem_alloc_eq split: prod.splits if_splits)
  {
    assume "alloc_failed p"
    with r a(1,2) show "mem w' = mem w"
      using mmap_documented_errno [OF a(1,2)] mmap_documented_nonzero [OF a(1,2)]
      by (auto simp: alloc_failed_def split: if_splits)
  next
    assume p: "is_pow2 alignment" "\<not> alloc_failed p"
    then have le: "alignment \<le> 0x1000" using r by (auto simp: alloc_failed_def not_less split: if_splits)
    with r p a(1,2) have f: "page_size dvd unat p" "fresh_zeroed p (page_round (unat sz)) (mem w) (mem w')"
      using mmap_documentedD [OF a(1,2)] by (auto simp: alloc_failed_def split: if_splits)
    then show "granted sz alignment p (mem w) (mem w')"
      using page_round_ge [of "unat sz"] dvd_trans [OF pow2_dvd_page [OF p(1) le] f(1)]
      unfolding granted_def by blast
  }
qed

interpretation null: allocator_contract "\<lambda>_ :: unit. cia_allocator_null" "\<lambda>_. True"
  by unfold_locales (simp_all add: allocator_defs alloc_failed_def)

section \<open>Properties\<close>

text \<open>C7: an allocation from the page allocator either fails and leaves the memory as it was, or
  returns an address aligned as requested at which at least the requested number of bytes, unmapped
  before, is now mapped and zero, everything else unchanged.\<close>

theorem cia_allocator_pages_grants:
  assumes "mmap_documented K" "0 < sz" "is_pow2 alignment"
    and "cia_allocator_alloc (cia_allocator_pages K) sz alignment w = Inr (p, w')"
  shows "if alloc_failed p then mem w' = mem w else granted sz alignment p (mem w) (mem w')"
  using assms pages.alloc_fails pages.alloc_grants by (auto split: if_splits)

theorem cia_allocator_pages_grants_witness:
  "\<exists>w'. cia_allocator_alloc (cia_allocator_pages bump_kernel) 64 16 bump_start = Inr (0x10000, w')
     \<and> granted 64 16 0x10000 (mem bump_start) (mem w')"
proof -
  obtain w' where c: "cia_allocator_alloc (cia_allocator_pages bump_kernel) 64 16 bump_start = Inr (0x10000, w')"
    by (simp add: allocator_defs rt_mem_alloc_eq [OF bump_kernel_mmap_documented] bump_start_mmap)
  have "is_pow2 16" by (auto simp: is_pow2_def intro: exI [of _ 4])
  from cia_allocator_pages_grants [OF bump_kernel_mmap_documented _ this c]
  have "granted 64 16 0x10000 (mem bump_start) (mem w')"
    by (simp add: alloc_failed_def errno_result_def page_size_def)
  with c show ?thesis by blast
qed

end
