(* ===== verification/Arena.thy ===== *)
theory Arena
  imports Allocator
begin

text \<open>
  \<open>src/cia-mem/arena.c\<close>: a bump allocator over one buffer of a backing allocator.  The arena
  structure is passed and returned; only \<open>create\<close> and \<open>destroy\<close> touch the world.
\<close>

record 'k Cia_Arena =
  ar_allocator :: "'k Cia_Allocator"
  ar_buffer_size :: u64
  ar_used :: u64
  ar_buffer :: addr

definition cia_arena_create ::
  "'k Cia_Allocator \<Rightarrow> u64 \<Rightarrow> 'k world \<Rightarrow> ('k Cia_Arena \<times> 'k world) res" where
  "cia_arena_create backing_allocator buffer_size w =
     bind_res (cia_allocator_alloc backing_allocator buffer_size 16 w) (\<lambda>(p, w').
       Inr (\<lparr>ar_allocator = backing_allocator, ar_buffer_size = buffer_size, ar_used = 0,
             ar_buffer = p\<rparr>, w'))"

definition cia_arena_alloc :: "'k Cia_Arena \<Rightarrow> u64 \<Rightarrow> addr \<times> 'k Cia_Arena" where
  "cia_arena_alloc arena sz =
     (if ar_buffer_size arena < ar_used arena + sz then (0, arena)
      else (ar_buffer arena + ar_used arena,
            arena\<lparr>ar_used := ar_used arena + ar_buffer_size arena\<rparr>))"

definition cia_arena_alloc_aligned :: "'k Cia_Arena \<Rightarrow> u64 \<Rightarrow> u64 \<Rightarrow> addr \<times> 'k Cia_Arena" where
  "cia_arena_alloc_aligned arena sz align =
     (let buffer_end = ar_buffer arena + ar_buffer_size arena;
          region_ptr = cia_ptr_alignf (ar_buffer arena + ar_used arena) align;
          region_end = region_ptr + sz
      in if buffer_end < region_end then (0, arena)
         else (region_ptr, arena\<lparr>ar_used := region_ptr - ar_buffer arena\<rparr>))"


definition cia_arena_destroy :: "'k Cia_Arena \<Rightarrow> 'k world \<Rightarrow> 'k world res" where
  "cia_arena_destroy arena w =
     cia_allocator_free_size (ar_allocator arena) (ar_buffer arena) (ar_buffer_size arena) w"

section \<open>Well-formed arenas\<close>

text \<open>The buffer lies in the address space without wrapping and is mapped.\<close>

definition arena_ok :: "'k Cia_Arena \<Rightarrow> mem \<Rightarrow> bool" where
  "arena_ok a m \<longleftrightarrow> ar_buffer a \<noteq> 0 \<and> unat (ar_buffer a) + unat (ar_buffer_size a) < 2 ^ 64
     \<and> mapped m (ar_buffer a) (unat (ar_buffer_size a))"

context allocator_contract
begin

lemma arena_create:
  assumes "ok c" "0 < sz" "cia_arena_create (mk c) sz w = Inr (a, w')" "\<not> alloc_failed (ar_buffer a)"
  shows "arena_ok a (mem w') \<and> ar_used a = 0 \<and> ar_buffer_size a = sz
    \<and> granted sz 16 (ar_buffer a) (mem w) (mem w')"
proof -
  obtain p where p: "cia_allocator_alloc (mk c) sz 16 w = Inr (p, w')" "ar_buffer a = p"
      "ar_used a = 0" "ar_buffer_size a = sz"
    using assms(3) by (auto simp: cia_arena_create_def res_simps)
  have "is_pow2 16" by (auto simp: is_pow2_def intro: exI [of _ 4])
  with alloc_grants [OF assms(1,2) _ p(1)] assms(4) p(2)
  have g: "granted sz 16 p (mem w) (mem w')" by simp
  then obtain n where n: "unat sz \<le> n" "fresh_zeroed p n (mem w) (mem w')"
    by (auto simp: granted_def)
  then have "0 < unat p" "unat p + unat sz < 2 ^ 64" by (auto simp: fresh_zeroed_def)
  with n g p show ?thesis
    by (auto simp: arena_ok_def intro: fresh_zeroed_mapped)
qed

end

section \<open>Properties\<close>

text \<open>C8: exactly when \<open>cia_arena_alloc\<close> returns a region inside the buffer of the arena.  The guard adds \<open>used\<close> and the size
  without a check, so a request also succeeds when the sum wraps around to at most the size of the buffer.  A region that is returned lies
  inside the buffer, and is mapped, if and only if the sum has not wrapped around.\<close>

theorem cia_arena_alloc_in_bounds:
  assumes ok: "arena_ok a m" and alloc: "cia_arena_alloc a sz = (p, a')" "p \<noteq> 0"
  shows "(unat (ar_buffer a) \<le> unat p \<and> unat p + unat sz \<le> unat (ar_buffer a) + unat (ar_buffer_size a) \<and> mapped m p (unat sz)
      \<longleftrightarrow> unat (ar_used a) + unat sz < 2 ^ 64)
    \<and> (unat (ar_used a) + unat sz) mod 2 ^ 64 \<le> unat (ar_buffer_size a)"
proof -
  have le: "ar_used a + sz \<le> ar_buffer_size a" and p: "p = ar_buffer a + ar_used a"
    using alloc by (auto simp: cia_arena_alloc_def split: if_splits)
  have used: "unat (ar_used a) < 2 ^ 64" using unsigned_less [of "ar_used a"] by simp
  have b: "unat (ar_buffer a) + unat (ar_buffer_size a) < 2 ^ 64" using ok by (simp add: arena_ok_def)
  have "(unat (ar_used a) + unat sz) mod 2 ^ 64 \<le> unat (ar_buffer_size a)"
    using le by (simp add: word_le_nat_alt unat_word_ariths)
  moreover have "unat (ar_buffer a) \<le> unat p \<and> unat p + unat sz \<le> unat (ar_buffer a) + unat (ar_buffer_size a) \<and> mapped m p (unat sz)
    \<longleftrightarrow> unat (ar_used a) + unat sz < 2 ^ 64"
  proof
    assume "unat (ar_used a) + unat sz < 2 ^ 64"
    with le have u: "unat (ar_used a) + unat sz \<le> unat (ar_buffer_size a)"
      by (simp add: word_le_nat_alt unat_add_no_wrap)
    moreover from this have "unat p = unat (ar_buffer a) + unat (ar_used a)"
      unfolding p using b by (intro unat_add_no_wrap) simp
    moreover have "mapped m p (unat sz)"
      using mapped_sub [of m "ar_buffer a" "unat (ar_buffer_size a)" "unat (ar_used a)" "unat sz"]
        ok u by (simp add: arena_ok_def p)
    ultimately show "unat (ar_buffer a) \<le> unat p \<and> unat p + unat sz \<le> unat (ar_buffer a) + unat (ar_buffer_size a)
      \<and> mapped m p (unat sz)" by simp
  next
    assume in_buffer: "unat (ar_buffer a) \<le> unat p \<and> unat p + unat sz \<le> unat (ar_buffer a) + unat (ar_buffer_size a)
      \<and> mapped m p (unat sz)"
    show "unat (ar_used a) + unat sz < 2 ^ 64"
    proof (cases "unat (ar_buffer a) + unat (ar_used a) < 2 ^ 64")
      case True
      then have "unat p = unat (ar_buffer a) + unat (ar_used a)" unfolding p by (rule unat_add_no_wrap)
      with in_buffer b show ?thesis by linarith
    next
      case False
      have "unat p = (unat (ar_buffer a) + unat (ar_used a)) mod 2 ^ 64" by (simp add: p unat_word_ariths)
      also have "\<dots> = unat (ar_buffer a) + unat (ar_used a) - 2 ^ 64"
      proof -
        have "unat (ar_buffer a) + unat (ar_used a) - 2 ^ 64 < 2 ^ 64" using used b by linarith
        then show ?thesis using False by (simp only: le_mod_geq not_less mod_less)
      qed
      finally have "unat p < unat (ar_buffer a)" using False used b by linarith
      then show ?thesis using in_buffer by linarith
    qed
  qed
  ultimately show ?thesis by blast
qed


text \<open>\<open>cia_arena_alloc_aligned\<close> does not count the bytes it hands out: two requests in a row with
  the same alignment return the same address, so their regions overlap.\<close>

theorem cia_arena_alloc_aligned_overlaps:
  assumes "cia_arena_alloc_aligned a sz align = (p, a')" "p \<noteq> 0" "is_pow2 align"
    and "fits (ar_buffer a + ar_used a) align" "sz' \<le> sz" "unat p + unat sz < 2 ^ 64"
  shows "fst (cia_arena_alloc_aligned a' sz' align) = p"
proof -
  have p: "p = cia_ptr_alignf (ar_buffer a + ar_used a) align"
    and a': "a' = a\<lparr>ar_used := p - ar_buffer a\<rparr>"
    and le: "p + sz \<le> ar_buffer a + ar_buffer_size a"
    using assms(1,2) by (auto simp: cia_arena_alloc_aligned_def Let_def split: if_splits)
  have d: "unat align dvd unat p" unfolding p using assms(3,4) by (rule ptr_round.up_dvd)
  have "cia_ptr_alignf p align = p"
    by (rule ptr_round.up_aligned [OF assms(3) aligned_fits [OF assms(3) d] d])
  moreover have "p + sz' \<le> ar_buffer a + ar_buffer_size a"
    by (rule order_trans [OF _ le]) (use assms(5,6) in \<open>simp add: word_le_nat_alt unat_add_no_wrap\<close>)
  then have "\<not> ar_buffer a + ar_buffer_size a < p + sz'" using le by (simp only: not_less)
  ultimately show ?thesis by (simp add: a' cia_arena_alloc_aligned_def)
qed

text \<open>The first allocation from an arena made on the page allocator returns the start of a
  buffer that was unmapped before, and its bytes are mapped and zero.\<close>

theorem cia_arena_first_allocation:
  assumes "mmap_documented K" "0 < bsz" "cia_arena_create (cia_allocator_pages K) bsz w = Inr (a, w')"
    and "\<not> alloc_failed (ar_buffer a)" "sz \<le> bsz"
  shows "fst (cia_arena_alloc a sz) = ar_buffer a
    \<and> (\<forall>x. in_range x (ar_buffer a) (unat sz) \<longrightarrow> mem w x = None \<and> mem w' x = Some 0)"
proof -
  note c = pages.arena_create [OF assms(1-4)]
  then obtain n where n: "unat bsz \<le> n" "fresh_zeroed (ar_buffer a) n (mem w) (mem w')"
    by (auto simp: granted_def)
  have "unat sz \<le> n" using n(1) assms(5) by (simp add: word_le_nat_alt)
  with n(2) have "\<forall>x. in_range x (ar_buffer a) (unat sz) \<longrightarrow> mem w x = None \<and> mem w' x = Some 0"
    by (auto simp: fresh_zeroed_def intro: in_range_mono)
  moreover have "\<not> bsz < sz" using assms(5) by (simp only: not_less)
  ultimately show ?thesis using c by (simp add: cia_arena_alloc_def)
qed

section \<open>Witnesses\<close>

definition example_arena :: "unit Cia_Arena" where
  "example_arena =
     \<lparr>ar_allocator = cia_allocator_null, ar_buffer_size = 256, ar_used = 0, ar_buffer = 0x1000\<rparr>"

definition example_memory :: mem where
  "example_memory = (\<lambda>x. if in_range x 0x1000 4096 then Some 0 else None)"

lemma example_arena_ok: "arena_ok example_arena example_memory"
  by (auto simp: arena_ok_def example_arena_def example_memory_def mapped_def in_range_def)

theorem cia_arena_alloc_in_bounds_witness:
  "fst (cia_arena_alloc example_arena 32) = 0x1000 \<and> mapped example_memory 0x1000 32
   \<and> fst (cia_arena_alloc (example_arena\<lparr>ar_used := 256\<rparr>) (- 200)) = 0x1100 \<and> \<not> unat (0x1100 :: addr) + unat (- 200 :: u64) \<le> 0x1100"
proof -
  have c: "cia_arena_alloc example_arena 32 = (0x1000, example_arena\<lparr>ar_used := 256\<rparr>)"
    by (simp add: cia_arena_alloc_def example_arena_def)
  from cia_arena_alloc_in_bounds [OF example_arena_ok c] have "mapped example_memory 0x1000 32"
    by (simp add: example_arena_def)
  moreover have w: "cia_arena_alloc (example_arena\<lparr>ar_used := 256\<rparr>) (- 200) = (0x1100, example_arena\<lparr>ar_used := 512\<rparr>)"
    by (simp add: cia_arena_alloc_def example_arena_def)
  moreover have "arena_ok (example_arena\<lparr>ar_used := 256\<rparr>) example_memory"
    using example_arena_ok by (simp add: arena_ok_def)
  from cia_arena_alloc_in_bounds [OF this w] have "\<not> unat (0x1100 :: addr) + unat (- 200 :: u64) \<le> 0x1100"
    by (simp add: example_arena_def)
  ultimately show ?thesis using c by (simp only: fst_conv simp_thms)
qed


theorem cia_arena_alloc_aligned_overlaps_witness:
  "fst (cia_arena_alloc_aligned (example_arena\<lparr>ar_used := 0\<rparr>) 32 16) = 0x1000"
proof -
  have c: "cia_arena_alloc_aligned example_arena 64 16 = (0x1000, example_arena\<lparr>ar_used := 0\<rparr>)"
    by (simp add: cia_arena_alloc_aligned_def example_arena_def cia_ptr_alignf_def)
  have "is_pow2 16" by (auto simp: is_pow2_def intro: exI [of _ 4])
  from cia_arena_alloc_aligned_overlaps [OF c _ this, of 32] show ?thesis
    by (simp add: example_arena_def fits_def)
qed

theorem cia_arena_first_allocation_witness:
  "\<exists>a w'. cia_arena_create (cia_allocator_pages bump_kernel) 256 bump_start = Inr (a, w')
     \<and> fst (cia_arena_alloc a 112) = ar_buffer a"
proof -
  obtain a w' where c: "cia_arena_create (cia_allocator_pages bump_kernel) 256 bump_start = Inr (a, w')"
      "ar_buffer a = 0x10000"
    by (simp add: cia_arena_create_def allocator_defs rt_mem_alloc_eq [OF bump_kernel_mmap_documented]
        bump_start_mmap)
  from cia_arena_first_allocation [OF bump_kernel_mmap_documented _ c(1), of 112] c
  show ?thesis by (simp add: alloc_failed_def errno_result_def page_size_def)
qed

end
