(* ===== verification/Pool.thy ===== *)
theory Pool
  imports Allocator
begin

text \<open>
  \<open>src/cia-mem/pool.c\<close>: a pool of equally sized buckets.  Free buckets form a singly linked list
  whose \<open>next\<close> pointers live in the buckets themselves (the first eight bytes); the pool structure
  is passed and returned.  The theory relates the list in memory to a HOL list (\<open>freelist\<close>), shows
  what carving a buffer produces, and keeps an invariant that separates free and live buckets.
\<close>

section \<open>The pool and its operations\<close>

record 'k Cia_Pool =
  pl_allocator :: "'k Cia_Allocator"
  pl_first :: addr
  pl_freelist_head :: addr
  pl_buffer_size :: u64
  pl_bucket_size :: u64
  pl_alignment :: u64

text \<open>\<open>sizeof(Cia_Pool_Bucket)\<close> and \<open>sizeof(Cia_Pool_Buffer_Header)\<close>: one pointer each.\<close>

definition sizeof_pool_bucket :: u64 where "sizeof_pool_bucket = 8"
definition sizeof_pool_buffer_header :: u64 where "sizeof_pool_buffer_header = 8"

text \<open>The \<open>do ... while\<close> loop: from the last bucket of the buffer to the first.\<close>

partial_function (option) freelist_add_loop ::
  "addr \<Rightarrow> u64 \<Rightarrow> u64 \<Rightarrow> u64 \<Rightarrow> addr \<Rightarrow> mem \<Rightarrow> (addr \<times> mem) res option" where
  "freelist_add_loop buffer hsa bucket_size bucket_offset next_bucket m =
     (let off = bucket_offset - bucket_size;
          bucket = buffer + off
      in case store64 m bucket next_bucket of
           Inl e \<Rightarrow> Some (Inl e)
         | Inr m' \<Rightarrow> if hsa < off then freelist_add_loop buffer hsa bucket_size off bucket m'
                   else Some (Inr (bucket, m')))"

definition pool_buffer_freelist_add ::
  "'k Cia_Pool \<Rightarrow> addr \<Rightarrow> 'k world \<Rightarrow> ('k Cia_Pool \<times> 'k world) res" where
  "pool_buffer_freelist_add pool buffer w =
     (let header_size = sizeof_pool_buffer_header;
          header_size_aligned = cia_size_alignf header_size (pl_alignment pool);
          remaining_size = pl_buffer_size pool - header_size_aligned
      in if pl_bucket_size pool = 0 then Inl DivByZero
         else
           let buckets_count = remaining_size div pl_bucket_size pool;
               buckets_size = buckets_count * pl_bucket_size pool;
               bucket_offset = header_size_aligned + buckets_size
           in bind_res
                (loop_res (freelist_add_loop buffer header_size_aligned (pl_bucket_size pool)
                             bucket_offset (pl_freelist_head pool) (mem w)))
                (\<lambda>(next_bucket, m). Inr (pool\<lparr>pl_freelist_head := next_bucket\<rparr>, w\<lparr>mem := m\<rparr>)))"

definition pool_bucket_size :: "u64 \<Rightarrow> u64 \<Rightarrow> u64" where
  "pool_bucket_size bucket_size alignment =
     cia_size_alignf (if bucket_size < sizeof_pool_bucket then sizeof_pool_bucket else bucket_size)
       alignment"

definition cia_pool_create ::
  "'k Cia_Allocator \<Rightarrow> u64 \<Rightarrow> u64 \<Rightarrow> u64 \<Rightarrow> 'k world \<Rightarrow> ('k Cia_Pool \<times> 'k world) res" where
  "cia_pool_create backing_allocator buffer_size bucket_size alignment w =
     bind_res (cia_allocator_alloc backing_allocator buffer_size alignment w) (\<lambda>(p, w').
       pool_buffer_freelist_add
         \<lparr>pl_allocator = backing_allocator, pl_first = p, pl_freelist_head = 0,
          pl_buffer_size = buffer_size, pl_bucket_size = pool_bucket_size bucket_size alignment,
          pl_alignment = alignment\<rparr>
         p w')"

text \<open>The buffer that \<open>cia_pool_alloc\<close> adds when the free list is empty.\<close>

definition pool_grow :: "'k Cia_Pool \<Rightarrow> 'k world \<Rightarrow> ('k Cia_Pool \<times> 'k world) res" where
  "pool_grow pool w =
     (if pl_freelist_head pool = 0 then
        bind_res (cia_allocator_alloc (pl_allocator pool) (pl_buffer_size pool) (pl_alignment pool) w)
          (\<lambda>(buffer, w'). pool_buffer_freelist_add pool buffer w')
      else Inr (pool, w))"

definition cia_pool_alloc :: "'k Cia_Pool \<Rightarrow> 'k world \<Rightarrow> (addr \<times> 'k Cia_Pool \<times> 'k world) res" where
  "cia_pool_alloc pool w =
     bind_res (pool_grow pool w) (\<lambda>(pool', w').
       bind_res (load64 (mem w') (pl_freelist_head pool')) (\<lambda>next.
         Inr (pl_freelist_head pool', pool'\<lparr>pl_freelist_head := next\<rparr>, w')))"

definition cia_pool_free :: "'k Cia_Pool \<Rightarrow> addr \<Rightarrow> 'k world \<Rightarrow> ('k Cia_Pool \<times> 'k world) res" where
  "cia_pool_free pool ptr w =
     bind_res (store64 (mem w) ptr (pl_freelist_head pool)) (\<lambda>m.
       Inr (pool\<lparr>pl_freelist_head := ptr\<rparr>, w\<lparr>mem := m\<rparr>))"

text \<open>
  The loop that \<open>cia_pool_free_all\<close> and \<open>cia_pool_destroy\<close> share: free a buffer, then read its
  \<open>next\<close> pointer.
\<close>

partial_function (option) pool_release_loop ::
  "'k Cia_Allocator \<Rightarrow> u64 \<Rightarrow> addr \<Rightarrow> 'k world \<Rightarrow> 'k world res option" where
  "pool_release_loop A buffer_size buffer w =
     (if buffer = 0 then Some (Inr w)
      else case cia_allocator_free_size A buffer buffer_size w of
             Inl e \<Rightarrow> Some (Inl e)
           | Inr w' \<Rightarrow> (case load64 (mem w') buffer of
                         Inl e \<Rightarrow> Some (Inl e)
                       | Inr next \<Rightarrow> pool_release_loop A buffer_size next w'))"

definition cia_pool_free_all :: "'k Cia_Pool \<Rightarrow> 'k world \<Rightarrow> ('k Cia_Pool \<times> 'k world) res" where
  "cia_pool_free_all pool w =
     bind_res (load64 (mem w) (pl_first pool)) (\<lambda>next.
       bind_res (loop_res (pool_release_loop (pl_allocator pool) (pl_buffer_size pool) next w)) (\<lambda>w'.
         pool_buffer_freelist_add (pool\<lparr>pl_freelist_head := 0\<rparr>) (pl_first pool) w'))"

definition cia_pool_destroy :: "'k Cia_Pool \<Rightarrow> 'k world \<Rightarrow> 'k world res" where
  "cia_pool_destroy pool w =
     loop_res (pool_release_loop (pl_allocator pool) (pl_buffer_size pool) (pl_first pool) w)"

section \<open>The free list in memory\<close>

primrec freelist :: "mem \<Rightarrow> addr \<Rightarrow> addr list \<Rightarrow> bool" where
  "freelist m p [] \<longleftrightarrow> p = 0"
| "freelist m p (x # xs) \<longleftrightarrow> p = x \<and> x \<noteq> 0 \<and>
     (case load64 m x of Inl _ \<Rightarrow> False | Inr q \<Rightarrow> freelist m q xs)"

lemma freelist_0 [simp]: "freelist m 0 xs \<longleftrightarrow> xs = []"
  by (cases xs) auto

lemma freelist_nonzeroE:
  assumes "freelist m p xs" "p \<noteq> 0"
  obtains q ys where "xs = p # ys" "load64 m p = Inr q" "freelist m q ys"
  using assms by (cases xs) (auto split: sum.splits)

lemma freelist_cong:
  "(\<And>x. x \<in> set xs \<Longrightarrow> load64 m' x = load64 m x) \<Longrightarrow> freelist m' p xs = freelist m p xs"
proof (induction xs arbitrary: p)
  case Nil
  then show ?case by simp
next
  case (Cons x xs)
  have "freelist m' q xs = freelist m q xs" for q
    using Cons.prems by (intro Cons.IH) simp
  with Cons.prems show ?case by (auto split: sum.splits)
qed

lemma freelist_poke:
  "(\<And>x. x \<in> set xs \<Longrightarrow> disj_range a (length bs) x 8) \<Longrightarrow>
   freelist (poke m a bs) p xs = freelist m p xs"
  by (rule freelist_cong) (rule load64_poke_disj)

text \<open>Pushing cells in front of a list: each is written with the address of the previous head.\<close>

primrec push_cells :: "mem \<Rightarrow> addr \<Rightarrow> addr list \<Rightarrow> mem" where
  "push_cells m p [] = m"
| "push_cells m p (b # bs) = push_cells (poke m b (le_bytes 8 p)) b bs"

definition cells_apart :: "addr set \<Rightarrow> nat \<Rightarrow> bool" where
  "cells_apart A n \<longleftrightarrow> (\<forall>x\<in>A. \<forall>y\<in>A. x \<noteq> y \<longrightarrow> disj_range x n y n)"

lemma cells_apart_mono: "cells_apart A n \<Longrightarrow> B \<subseteq> A \<Longrightarrow> k \<le> n \<Longrightarrow> cells_apart B k"
  by (auto simp: cells_apart_def subset_iff intro: disj_range_mono)

lemma cells_apartD: "cells_apart A n \<Longrightarrow> x \<in> A \<Longrightarrow> y \<in> A \<Longrightarrow> x \<noteq> y \<Longrightarrow> disj_range x n y n"
  by (auto simp: cells_apart_def)

lemma mapped_push_cells:
  "(\<And>b. b \<in> set bs \<Longrightarrow> mapped m b 8) \<Longrightarrow> mapped (push_cells m p bs) a n = mapped m a n"
  by (induction bs arbitrary: m p) simp_all

lemma push_cells_out:
  "(\<And>b. b \<in> set bs \<Longrightarrow> \<not> in_range x b 8) \<Longrightarrow> push_cells m p bs x = m x"
  by (induction bs arbitrary: m p) (simp_all add: poke_out)

lemma freelist_push_cells:
  assumes "freelist m p xs" "distinct (bs @ xs)" "cells_apart (set (bs @ xs)) 8"
    and "\<And>b. b \<in> set bs \<Longrightarrow> mapped m b 8 \<and> b \<noteq> 0"
  shows "freelist (push_cells m p bs) (last (p # bs)) (rev bs @ xs)"
  using assms
proof (induction bs arbitrary: m p xs)
  case Nil
  then show ?case by simp
next
  case (Cons b bs)
  let ?m = "poke m b (le_bytes 8 p)"
  have "freelist ?m p xs"
    using Cons.prems(1-3) by (subst freelist_poke) (auto intro: cells_apartD [of _ 8])
  moreover have b: "mapped m b 8" "b \<noteq> 0" using Cons.prems(4) by auto
  ultimately have "freelist ?m b (b # xs)" by (simp add: load64_poke_same)
  moreover have "distinct (bs @ b # xs)" "cells_apart (set (bs @ b # xs)) 8"
    using Cons.prems(2,3) by (auto elim: cells_apart_mono)
  moreover have "\<And>x. x \<in> set bs \<Longrightarrow> mapped ?m x 8 \<and> x \<noteq> 0"
    using Cons.prems(4) b by simp
  ultimately show ?case using Cons.IH [of ?m b "b # xs"] by simp
qed

section \<open>Carving a buffer into buckets\<close>

definition buckets :: "addr \<Rightarrow> nat \<Rightarrow> nat \<Rightarrow> nat \<Rightarrow> addr list" where
  "buckets buffer h n k = map (\<lambda>i. buffer + of_nat (h + i * n)) [0..<k]"

lemma freelist_add_loop_step:
  assumes "bucket_offset - bk = off" "mapped m (buffer + off) 8"
  shows "freelist_add_loop buffer hsa bk bucket_offset nxt m =
    (if hsa < off
     then freelist_add_loop buffer hsa bk off (buffer + off) (poke m (buffer + off) (le_bytes 8 nxt))
     else Some (Inr (buffer + off, poke m (buffer + off) (le_bytes 8 nxt))))"
  by (subst freelist_add_loop.simps) (simp add: Let_def assms store64_mapped)

lemma freelist_add_loop_eq:
  assumes "unat buffer + (unat hsa + Suc k * unat bk) \<le> 2 ^ 64" "0 < unat bk"
    and "\<And>b. b \<in> set (buckets buffer (unat hsa) (unat bk) (Suc k)) \<Longrightarrow> mapped m b 8"
  shows "freelist_add_loop buffer hsa bk (of_nat (unat hsa + Suc k * unat bk)) nxt m =
    Some (Inr (buffer + hsa,
      push_cells m nxt (rev (buckets buffer (unat hsa) (unat bk) (Suc k)))))"
  using assms
proof (induction k arbitrary: nxt m)
  case 0
  then have "mapped m (buffer + hsa) 8" by (simp add: buckets_def)
  then show ?case
    by (subst freelist_add_loop.simps) (simp add: store64_mapped buckets_def Let_def)
next
  case (Suc k)
  let ?off = "unat hsa + Suc k * unat bk"
  let ?b = "buffer + of_nat ?off"
  have o: "of_nat (unat hsa + Suc (Suc k) * unat bk) - bk = (of_nat ?off :: u64)"
    by (simp add: algebra_simps)
  have u: "unat (of_nat ?off :: u64) = ?off"
    using Suc.prems(1,2) by (intro unat_of_nat_u64) simp
  have gt: "hsa < of_nat ?off"
    unfolding word_less_nat_alt u using Suc.prems(2) by simp
  have bs: "buckets buffer (unat hsa) (unat bk) (Suc (Suc k)) =
      buckets buffer (unat hsa) (unat bk) (Suc k) @ [?b]"
    by (simp add: buckets_def algebra_simps)
  have mb: "mapped m ?b 8" by (rule Suc.prems(3)) (unfold bs, simp)
  have "freelist_add_loop buffer hsa bk (of_nat ?off) ?b (poke m ?b (le_bytes 8 nxt)) =
      Some (Inr (buffer + hsa,
        push_cells (poke m ?b (le_bytes 8 nxt)) ?b (rev (buckets buffer (unat hsa) (unat bk) (Suc k)))))"
    using Suc.prems mb by (intro Suc.IH) (simp_all add: bs algebra_simps)
  then show ?case
    unfolding freelist_add_loop_step [OF o mb] if_P [OF gt] bs rev_append by simp
qed

text \<open>
  What the code needs of a pool's parameters: a power-of-two alignment, buckets that can hold a
  pointer and keep the alignment, and a buffer that has room for the header and one bucket.
\<close>

definition pool_header :: "'k Cia_Pool \<Rightarrow> nat" where
  "pool_header P = unat (cia_size_alignf sizeof_pool_buffer_header (pl_alignment P))"

definition pool_geom :: "'k Cia_Pool \<Rightarrow> bool" where
  "pool_geom P \<longleftrightarrow> is_pow2 (pl_alignment P) \<and> fits 8 (pl_alignment P)
     \<and> 8 \<le> unat (pl_bucket_size P) \<and> unat (pl_alignment P) dvd unat (pl_bucket_size P)
     \<and> pool_header P + unat (pl_bucket_size P) \<le> unat (pl_buffer_size P)"

definition pool_count :: "'k Cia_Pool \<Rightarrow> nat" where
  "pool_count P = (unat (pl_buffer_size P) - pool_header P) div unat (pl_bucket_size P)"

definition pool_buckets :: "'k Cia_Pool \<Rightarrow> addr \<Rightarrow> addr list" where
  "pool_buckets P buffer = buckets buffer (pool_header P) (unat (pl_bucket_size P)) (pool_count P)"

text \<open>A buffer as the backing allocator grants it.\<close>

definition buffer_ok :: "'k Cia_Pool \<Rightarrow> addr \<Rightarrow> mem \<Rightarrow> bool" where
  "buffer_ok P buffer m \<longleftrightarrow> buffer \<noteq> 0 \<and> unat (pl_alignment P) dvd unat buffer
     \<and> unat buffer + unat (pl_buffer_size P) \<le> 2 ^ 64 \<and> mapped m buffer (unat (pl_buffer_size P))"

lemma pool_geom_count:
  assumes "pool_geom P"
  shows "0 < pool_count P"
    and "pool_header P + pool_count P * unat (pl_bucket_size P) \<le> unat (pl_buffer_size P)"
    and "unat (pl_alignment P) dvd pool_header P" and "8 \<le> pool_header P"
proof -
  let ?B = "unat (pl_bucket_size P)" and ?S = "unat (pl_buffer_size P)"
  have g: "8 \<le> ?B" "pool_header P + ?B \<le> ?S" using assms by (auto simp: pool_geom_def)
  show "0 < pool_count P" using g by (simp add: pool_count_def div_greater_zero_iff)
  have "pool_count P * ?B \<le> ?S - pool_header P" by (simp add: pool_count_def)
  with g show "pool_header P + pool_count P * ?B \<le> ?S" by simp
  show "unat (pl_alignment P) dvd pool_header P" "8 \<le> pool_header P"
    using assms size_round.up_dvd [of "pl_alignment P" 8] size_round.up_ge [of "pl_alignment P" 8]
    by (simp_all add: pool_geom_def pool_header_def sizeof_pool_buffer_header_def)
qed

lemma unat_bucket:
  assumes "pool_geom P" "buffer_ok P buffer m" "i < pool_count P"
  shows "unat (buffer + of_nat (pool_header P + i * unat (pl_bucket_size P))) =
      unat buffer + pool_header P + i * unat (pl_bucket_size P)"
    and "pool_header P + i * unat (pl_bucket_size P) + unat (pl_bucket_size P) \<le> unat (pl_buffer_size P)"
proof -
  let ?B = "unat (pl_bucket_size P)"
  have "Suc i * ?B \<le> pool_count P * ?B" using assms(3) by (intro mult_le_mono1) simp
  with pool_geom_count(2) [OF assms(1)]
  show le: "pool_header P + i * ?B + ?B \<le> unat (pl_buffer_size P)" by simp
  have B: "8 \<le> ?B" using assms(1) by (simp add: pool_geom_def)
  have b: "unat buffer + unat (pl_buffer_size P) \<le> 2 ^ 64"
    using assms(2) by (simp add: buffer_ok_def)
  have o: "unat (of_nat (pool_header P + i * ?B) :: u64) = pool_header P + i * ?B"
    by (intro unat_of_nat_u64) (use le B b in linarith)
  have "unat buffer + unat (of_nat (pool_header P + i * ?B) :: u64) < 2 ^ 64"
    unfolding o using le B b by linarith
  from unat_add_no_wrap [OF this, unfolded o] show "unat (buffer + of_nat (pool_header P + i * ?B)) = unat buffer + pool_header P + i * ?B"
    by simp
qed

lemma pool_bucketE:
  assumes "pool_geom P" "buffer_ok P buffer m" "b \<in> set (pool_buckets P buffer)"
  obtains i where "i < pool_count P" "b = buffer + of_nat (pool_header P + i * unat (pl_bucket_size P))"
    "unat b = unat buffer + pool_header P + i * unat (pl_bucket_size P)"
    "unat b + unat (pl_bucket_size P) \<le> unat buffer + unat (pl_buffer_size P)"
proof -
  obtain i where i: "i < pool_count P" "b = buffer + of_nat (pool_header P + i * unat (pl_bucket_size P))"
    using assms(3) by (auto simp: pool_buckets_def buckets_def)
  from that [OF i] unat_bucket [OF assms(1,2) i(1)] i(2) show thesis by simp
qed

text \<open>A bucket: aligned, mapped, non-null and not wrapping.\<close>

definition bucket_ok :: "'k Cia_Pool \<Rightarrow> mem \<Rightarrow> addr \<Rightarrow> bool" where
  "bucket_ok P m b \<longleftrightarrow> b \<noteq> 0 \<and> unat (pl_alignment P) dvd unat b
     \<and> unat b + unat (pl_bucket_size P) \<le> 2 ^ 64 \<and> mapped m b (unat (pl_bucket_size P))"

lemma pool_bucket_ok:
  assumes "pool_geom P" "buffer_ok P buffer m" "b \<in> set (pool_buckets P buffer)"
  shows "bucket_ok P m b"
proof -
  obtain i where i: "i < pool_count P" "b = buffer + of_nat (pool_header P + i * unat (pl_bucket_size P))"
    "unat b = unat buffer + pool_header P + i * unat (pl_bucket_size P)"
    "unat b + unat (pl_bucket_size P) \<le> unat buffer + unat (pl_buffer_size P)"
    using pool_bucketE [OF assms] .
  have bk: "buffer \<noteq> 0" "unat (pl_alignment P) dvd unat buffer"
      "unat buffer + unat (pl_buffer_size P) \<le> 2 ^ 64" "mapped m buffer (unat (pl_buffer_size P))"
    using assms(2) by (simp_all add: buffer_ok_def)
  have "0 < unat buffer" using bk(1) by (simp add: unat_gt_0)
  then have "b \<noteq> 0" using i(3) by auto
  moreover have "unat (pl_alignment P) dvd unat b"
    unfolding i(3) using assms(1) bk(2) pool_geom_count(3) [OF assms(1)]
    by (auto simp: pool_geom_def)
  moreover have "mapped m b (unat (pl_bucket_size P))"
    unfolding i(2) using bk(3,4) i(3,4) by (intro mapped_sub) auto
  ultimately show ?thesis using bk(3) i(4) by (simp add: bucket_ok_def)
qed

lemma pool_buckets_apart:
  assumes "pool_geom P" "buffer_ok P buffer m"
  shows "cells_apart (set (pool_buckets P buffer)) (unat (pl_bucket_size P))"
  unfolding cells_apart_def
proof (intro ballI impI)
  let ?B = "unat (pl_bucket_size P)"
  fix x y assume xy: "x \<in> set (pool_buckets P buffer)" "y \<in> set (pool_buckets P buffer)" "x \<noteq> y"
  obtain i where i: "x = buffer + of_nat (pool_header P + i * ?B)"
      "unat x = unat buffer + pool_header P + i * ?B" "unat x + ?B \<le> unat buffer + unat (pl_buffer_size P)"
    using pool_bucketE [OF assms xy(1)] by metis
  obtain j where j: "y = buffer + of_nat (pool_header P + j * ?B)"
      "unat y = unat buffer + pool_header P + j * ?B" "unat y + ?B \<le> unat buffer + unat (pl_buffer_size P)"
    using pool_bucketE [OF assms xy(2)] by metis
  have b: "unat buffer + unat (pl_buffer_size P) \<le> 2 ^ 64" using assms(2) by (simp add: buffer_ok_def)
  have "i \<noteq> j" using xy(3) i(1) j(1) by auto
  then consider "Suc i \<le> j" | "Suc j \<le> i" by linarith
  then show "disj_range x ?B y ?B"
  proof cases
    case 1
    then have "Suc i * ?B \<le> j * ?B" by (rule mult_le_mono1)
    then show ?thesis using i j b by (intro disj_rangeI_le) simp_all
  next
    case 2
    then have "Suc j * ?B \<le> i * ?B" by (rule mult_le_mono1)
    then show ?thesis using i j b by (intro disj_range_sym [OF disj_rangeI_le]) simp_all
  qed
qed

lemma distinct_pool_buckets:
  assumes "pool_geom P" "buffer_ok P buffer m"
  shows "distinct (pool_buckets P buffer)"
proof -
  have "0 < unat (pl_bucket_size P)" using assms(1) by (simp add: pool_geom_def)
  then have "inj_on (\<lambda>i. buffer + of_nat (pool_header P + i * unat (pl_bucket_size P))) {0..<pool_count P}"
    using unat_bucket(1) [OF assms] by (intro inj_onI) (metis add_left_cancel atLeastLessThan_iff mult_cancel2 neq0_conv)
  then show ?thesis by (simp add: pool_buckets_def buckets_def distinct_map)
qed

lemma bucket_in_buffer:
  assumes "pool_geom P" "buffer_ok P buffer m" "b \<in> set (pool_buckets P buffer)"
    "in_range x b (unat (pl_bucket_size P))"
  shows "in_range x buffer (unat (pl_buffer_size P))" "\<not> in_range x buffer 8"
proof -
  obtain i where i: "unat b = unat buffer + pool_header P + i * unat (pl_bucket_size P)"
    "unat b + unat (pl_bucket_size P) \<le> unat buffer + unat (pl_buffer_size P)"
    using pool_bucketE [OF assms(1-3)] by metis
  have s: "unat buffer + unat (pl_buffer_size P) \<le> 2 ^ 64"
    using assms(2) by (simp add: buffer_ok_def)
  then have "unat b + unat (pl_bucket_size P) \<le> 2 ^ 64" using i(2) by linarith
  then have x: "unat b \<le> unat x" "unat x < unat b + unat (pl_bucket_size P)"
    using assms(4) by (simp_all add: in_range_iff)
  with i show "in_range x buffer (unat (pl_buffer_size P))" by (simp add: in_range_iff [OF s])
  have h: "8 \<le> pool_header P" "8 \<le> unat (pl_buffer_size P)"
    using pool_geom_count(4) [OF assms(1)] assms(1) by (simp_all add: pool_geom_def)
  then have "unat buffer + 8 \<le> 2 ^ 64" using s by linarith
  with x i(1) h show "\<not> in_range x buffer 8" by (simp add: in_range_iff)
qed

lemma pool_geom_offset:
  assumes "pool_geom P"
  shows "cia_size_alignf sizeof_pool_buffer_header (pl_alignment P)
      + (pl_buffer_size P - cia_size_alignf sizeof_pool_buffer_header (pl_alignment P))
        div pl_bucket_size P * pl_bucket_size P
    = of_nat (pool_header P + pool_count P * unat (pl_bucket_size P))"
proof -
  let ?h = "cia_size_alignf sizeof_pool_buffer_header (pl_alignment P)" and ?bk = "pl_bucket_size P"
  have h: "unat ?h = pool_header P" by (simp add: pool_header_def)
  have "unat ?h \<le> unat (pl_buffer_size P)"
    unfolding h using pool_geom_count(2) [OF assms] by linarith
  then have rem: "unat (pl_buffer_size P - ?h) = unat (pl_buffer_size P) - pool_header P"
    by (simp add: unat_sub_le word_le_nat_alt h)
  have "unat ((pl_buffer_size P - ?h) div ?bk) = pool_count P"
    by (simp add: unat_div rem pool_count_def)
  then have d: "(pl_buffer_size P - ?h) div ?bk = of_nat (pool_count P)"
    by (metis of_nat_unat_u64)
  have "?h = of_nat (pool_header P)" by (simp add: pool_header_def)
  then show ?thesis unfolding d by simp
qed

lemma pool_buffer_freelist_add_eq:
  assumes "pool_geom P" "buffer_ok P buffer (mem w)"
  shows "pool_buffer_freelist_add P buffer w =
    Inr (P\<lparr>pl_freelist_head := hd (pool_buckets P buffer)\<rparr>,
         w\<lparr>mem := push_cells (mem w) (pl_freelist_head P) (rev (pool_buckets P buffer))\<rparr>)"
proof -
  let ?h = "cia_size_alignf sizeof_pool_buffer_header (pl_alignment P)" and ?bk = "pl_bucket_size P"
  have B: "8 \<le> unat ?bk" using assms(1) by (simp add: pool_geom_def)
  then have nz: "?bk \<noteq> 0" by auto
  obtain k where k: "pool_count P = Suc k" using pool_geom_count(1) [OF assms(1)] gr0_conv_Suc by blast
  have h: "unat ?h = pool_header P" by (simp add: pool_header_def)
  have le: "pool_header P + pool_count P * unat ?bk \<le> unat (pl_buffer_size P)"
    by (rule pool_geom_count(2) [OF assms(1)])
  have off: "?h + (pl_buffer_size P - ?h) div ?bk * ?bk = of_nat (unat ?h + Suc k * unat ?bk)"
    unfolding pool_geom_offset [OF assms(1)] h k ..
  have "\<And>b. b \<in> set (pool_buckets P buffer) \<Longrightarrow> mapped (mem w) b 8"
    using pool_bucket_ok [OF assms] B unfolding bucket_ok_def by (blast intro: mapped_mono)
  moreover have "unat buffer + (unat ?h + Suc k * unat ?bk) \<le> 2 ^ 64"
    using assms(2) le by (simp add: buffer_ok_def h k)
  moreover have "0 < unat ?bk" using B by simp
  ultimately have "freelist_add_loop buffer ?h ?bk (of_nat (unat ?h + Suc k * unat ?bk)) (pl_freelist_head P) (mem w)
      = Some (Inr (buffer + ?h, push_cells (mem w) (pl_freelist_head P) (rev (pool_buckets P buffer))))"
    by (subst freelist_add_loop_eq) (simp_all add: pool_buckets_def k h)
  moreover have "hd (pool_buckets P buffer) = buffer + ?h"
    by (simp add: pool_buckets_def buckets_def k hd_map pool_header_def del: upt_Suc)
  ultimately show ?thesis
    using nz off by (simp add: pool_buffer_freelist_add_def Let_def)
qed

end
