(* ===== verification/Pool_Invariant.thy ===== *)
theory Pool_Invariant
  imports Pool
begin

text \<open>
  The invariant of a pool and its preservation by every operation.  \<open>pool_ok P m F L\<close> reads: in
  memory \<open>m\<close> the free list of \<open>P\<close> is \<open>F\<close>; the free buckets and the live buckets \<open>L\<close> (handed out and
  not returned) are all aligned and mapped, and no two of them overlap.
\<close>

definition pool_ok :: "'k Cia_Pool \<Rightarrow> mem \<Rightarrow> addr list \<Rightarrow> addr set \<Rightarrow> bool" where
  "pool_ok P m F L \<longleftrightarrow> pool_geom P \<and> freelist m (pl_freelist_head P) F \<and> distinct F
     \<and> set F \<inter> L = {} \<and> (\<forall>b\<in>set F \<union> L. bucket_ok P m b)
     \<and> cells_apart (set F \<union> L) (unat (pl_bucket_size P))"

lemma pool_ok_geom: "pool_ok P m F L \<Longrightarrow> pool_geom P"
  by (simp add: pool_ok_def)

lemma pool_geom_head [simp]:
  "pool_geom (P\<lparr>pl_freelist_head := h\<rparr>) = pool_geom P"
  "pool_buckets (P\<lparr>pl_freelist_head := h\<rparr>) = pool_buckets P"
  "bucket_ok (P\<lparr>pl_freelist_head := h\<rparr>) = bucket_ok P"
  "buffer_ok (P\<lparr>pl_freelist_head := h\<rparr>) = buffer_ok P"
  by (simp_all add: pool_geom_def pool_header_def pool_buckets_def pool_count_def bucket_ok_def
      buffer_ok_def fun_eq_iff)

lemma bucket_ok_mapped8: "pool_geom P \<Longrightarrow> bucket_ok P m b \<Longrightarrow> mapped m b 8"
  by (auto simp: pool_geom_def bucket_ok_def elim: mapped_mono)

lemma bucket_ok_mono: "bucket_ok P m b \<Longrightarrow> (\<And>x. m x \<noteq> None \<Longrightarrow> m' x \<noteq> None) \<Longrightarrow> bucket_ok P m' b"
  by (auto simp: bucket_ok_def mapped_def)

section \<open>Returning and taking a bucket\<close>

lemma pool_ok_free:
  assumes "pool_ok P (mem w) F L" "b \<in> L"
  obtains P' w' where "cia_pool_free P b w = Inr (P', w')" "pool_ok P' (mem w') (b # F) (L - {b})"
    "pl_freelist_head P' = b" "w' = w\<lparr>mem := poke (mem w) b (le_bytes 8 (pl_freelist_head P))\<rparr>"
    "P' = P\<lparr>pl_freelist_head := b\<rparr>"
proof -
  let ?m = "poke (mem w) b (le_bytes 8 (pl_freelist_head P))"
  let ?P = "P\<lparr>pl_freelist_head := b\<rparr>" and ?w = "w\<lparr>mem := ?m\<rparr>"
  have ok: "pool_geom P" "freelist (mem w) (pl_freelist_head P) F" "distinct F" "set F \<inter> L = {}"
      "\<And>x. x \<in> set F \<union> L \<Longrightarrow> bucket_ok P (mem w) x"
      "cells_apart (set F \<union> L) (unat (pl_bucket_size P))"
    using assms(1) by (auto simp: pool_ok_def)
  have B: "8 \<le> unat (pl_bucket_size P)" using ok(1) by (simp add: pool_geom_def)
  have bok: "bucket_ok P (mem w) b" using ok(5) assms(2) by blast
  then have mb: "mapped (mem w) b 8" by (rule bucket_ok_mapped8 [OF ok(1)])
  have "freelist ?m (pl_freelist_head P) F"
  proof (subst freelist_poke)
    fix x assume "x \<in> set F"
    then have "x \<noteq> b" "x \<in> set F \<union> L" "b \<in> set F \<union> L" using ok(4) assms(2) by auto
    with ok(6) have "disj_range b (unat (pl_bucket_size P)) x (unat (pl_bucket_size P))"
      by (auto intro: cells_apartD)
    then show "disj_range b (length (le_bytes 8 (pl_freelist_head P))) x 8"
      by (rule disj_range_mono) (use B in simp_all)
  qed (rule ok(2))
  moreover have "load64 ?m b = Inr (pl_freelist_head P)" by (rule load64_poke_same [OF mb])
  ultimately have "freelist ?m b (b # F)" using bok by (simp add: bucket_ok_def)
  moreover have "bucket_ok P ?m x" if "x \<in> set F \<union> L" for x
    using ok(5) [OF that] mb by (simp add: bucket_ok_def)
  moreover have "set (b # F) \<union> (L - {b}) = set F \<union> L" using assms(2) by auto
  ultimately have "pool_ok ?P (mem ?w) (b # F) (L - {b})"
    using ok assms(2) unfolding pool_ok_def by auto
  moreover have "cia_pool_free P b w = Inr (?P, ?w)"
    by (simp add: cia_pool_free_def store64_mapped mb)
  ultimately show thesis using that by simp
qed

lemma pool_ok_take:
  assumes "pool_ok P m (b # F) L"
  shows "pl_freelist_head P = b" "b \<noteq> 0" "\<exists>q. load64 m b = Inr q \<and> freelist m q F"
    and "load64 m b = Inr q \<Longrightarrow> pool_ok (P\<lparr>pl_freelist_head := q\<rparr>) m F (insert b L)"
  using assms by (auto simp: pool_ok_def split: sum.splits)

lemma pool_ok_head_0: "pool_ok P m F L \<Longrightarrow> pl_freelist_head P = 0 \<longleftrightarrow> F = []"
  by (cases F) (auto simp: pool_ok_def)

text \<open>Writing inside live buckets is the client's business and keeps the pool intact.\<close>

lemma pool_ok_write:
  assumes "pool_ok P m F L" "b \<in> L" "\<And>x. in_range x a (length bs) \<Longrightarrow> in_range x b (unat (pl_bucket_size P))"
    and "mapped m a (length bs)"
  shows "pool_ok P (poke m a bs) F L"
proof -
  have "freelist (poke m a bs) (pl_freelist_head P) F"
  proof (subst freelist_poke)
    fix x assume "x \<in> set F"
    then have "disj_range b (unat (pl_bucket_size P)) x (unat (pl_bucket_size P))"
      using assms(1,2) by (intro cells_apartD [of "set F \<union> L"]) (auto simp: pool_ok_def)
    moreover have "8 \<le> unat (pl_bucket_size P)" using assms(1) by (auto simp: pool_ok_def pool_geom_def)
    ultimately show "disj_range a (length bs) x 8"
      using assms(3) by (auto simp: disj_range_def dest: in_range_mono)
  qed (use assms(1) in \<open>simp add: pool_ok_def\<close>)
  moreover have "bucket_ok P (poke m a bs) x \<longleftrightarrow> bucket_ok P m x" for x
    using assms(4) by (simp add: bucket_ok_def)
  ultimately show ?thesis using assms(1) by (simp add: pool_ok_def)
qed

section \<open>Adding a buffer\<close>

lemma pool_ok_add_buffer:
  assumes "pool_ok P (mem w) [] L" "buffer_ok P buffer (mem w)"
    and "\<And>b. b \<in> L \<Longrightarrow> disj_range b (unat (pl_bucket_size P)) buffer (unat (pl_buffer_size P))"
  obtains P' w' where "pool_buffer_freelist_add P buffer w = Inr (P', w')"
    "pool_ok P' (mem w') (pool_buckets P buffer) L" "P' = P\<lparr>pl_freelist_head := hd (pool_buckets P buffer)\<rparr>"
    "\<And>x. \<not> in_range x buffer (unat (pl_buffer_size P)) \<or> in_range x buffer 8 \<Longrightarrow> mem w' x = mem w x"
    "os w' = os w" "dom (mem w') = dom (mem w)"
proof -
  let ?bs = "pool_buckets P buffer" and ?B = "unat (pl_bucket_size P)"
  let ?m = "push_cells (mem w) 0 (rev ?bs)"
  let ?P = "P\<lparr>pl_freelist_head := hd ?bs\<rparr>"
  have g: "pool_geom P" and head: "pl_freelist_head P = 0"
    using assms(1) by (auto simp: pool_ok_def)
  have B: "8 \<le> ?B" using g by (simp add: pool_geom_def)
  note bok = pool_bucket_ok [OF g assms(2)]
  have m8: "mapped (mem w) b 8" if "b \<in> set (rev ?bs)" for b
    using bucket_ok_mapped8 [OF g bok] that by simp
  have nz: "b \<noteq> 0" if "b \<in> set (rev ?bs)" for b
    using bok that by (simp add: bucket_ok_def)
  have ne: "?bs \<noteq> []" using pool_geom_count(1) [OF g] by (simp add: pool_buckets_def buckets_def)
  have "freelist ?m (last (0 # rev ?bs)) (rev (rev ?bs) @ [])"
    using distinct_pool_buckets [OF g assms(2)] m8 nz
      cells_apart_mono [OF pool_buckets_apart [OF g assms(2)] _ B]
    by (intro freelist_push_cells) simp_all
  then have fl: "freelist ?m (hd ?bs) ?bs" using ne by (simp add: last_rev)
  have map_eq: "mapped ?m a n = mapped (mem w) a n" for a n using m8 by (rule mapped_push_cells)
  have apart: "cells_apart (set ?bs \<union> L) ?B"
    unfolding cells_apart_def
  proof (intro ballI impI)
    fix x y assume xy: "x \<in> set ?bs \<union> L" "y \<in> set ?bs \<union> L" "x \<noteq> y"
    have new: "disj_range c ?B b ?B" if "b \<in> set ?bs" "c \<in> L" for b c
      using assms(3) [OF that(2)] bucket_in_buffer(1) [OF g assms(2) that(1)]
      by (auto simp: disj_range_def)
    show "disj_range x ?B y ?B"
      using xy new pool_buckets_apart [OF g assms(2)] assms(1)
      by (auto simp: pool_ok_def intro: cells_apartD disj_range_sym)
  qed
  have disj: "set ?bs \<inter> L = {}"
  proof (rule ccontr)
    assume "set ?bs \<inter> L \<noteq> {}"
    then obtain b where b: "b \<in> set ?bs" "b \<in> L" by blast
    have "in_range b b ?B" using B by (simp add: in_range_def)
    with assms(3) [OF b(2)] bucket_in_buffer(1) [OF g assms(2) b(1)] show False
      by (auto simp: disj_range_def)
  qed
  have "bucket_ok P ?m b" if "b \<in> set ?bs \<union> L" for b
    using that bok assms(1) by (auto simp: pool_ok_def bucket_ok_def map_eq)
  with fl apart disj g distinct_pool_buckets [OF g assms(2)]
  have "pool_ok ?P ?m ?bs L" by (simp add: pool_ok_def)
  moreover have "?m x = mem w x" if "\<not> in_range x buffer (unat (pl_buffer_size P)) \<or> in_range x buffer 8" for x
  proof (rule push_cells_out)
    fix b assume "b \<in> set (rev ?bs)"
    then have "b \<in> set ?bs" by simp
    with that show "\<not> in_range x b 8"
      using bucket_in_buffer [OF g assms(2)] in_range_mono [OF _ B] by blast
  qed
  moreover have "dom ?m = dom (mem w)"
    using map_eq [of _ 1] by (auto simp: mapped_def in_range_def dom_def unat_eq_0)
  ultimately show thesis
    using that [of ?P "w\<lparr>mem := ?m\<rparr>"] pool_buffer_freelist_add_eq [OF g assms(2)] head by simp
qed

end
