(* ===== verification/Pool_Safety.thy ===== *)
theory Pool_Safety
  imports Pool_Invariant
begin

text \<open>
  What the operations of the pool guarantee, first against any provider that meets the allocator
  contract, then for pools on the page allocator: creation, allocation with and without growth,
  return, \<open>free_all\<close>, \<open>destroy\<close>, and every run of a client that respects the interface.
\<close>

section \<open>The header of the first buffer\<close>

text \<open>
  \<open>cia_pool_free_all\<close> and \<open>cia_pool_destroy\<close> follow the \<open>next\<close> pointer in the buffer headers.  No
  operation writes a header, so the zero that a fresh page holds stays there.
\<close>

definition header_ok :: "'k Cia_Pool \<Rightarrow> mem \<Rightarrow> addr set \<Rightarrow> bool" where
  "header_ok P m A \<longleftrightarrow> buffer_ok P (pl_first P) m \<and> load64 m (pl_first P) = Inr 0
     \<and> (\<forall>b\<in>A. disj_range b (unat (pl_bucket_size P)) (pl_first P) 8)"

lemma le_word_zeros: "le_word (replicate n 0) = 0"
  by (induction n) simp_all

lemma fresh_zeroed_load64_0:
  assumes "fresh_zeroed a n m m'" "8 \<le> n"
  shows "load64 m' a = Inr 0"
proof -
  have "peek m' a 8 = replicate 8 0"
    using assms by (intro nth_equalityI)
      (auto simp: nth_peek fresh_zeroed_def intro!: in_range_offset)
  with fresh_zeroed_mapped [OF assms] show ?thesis by (simp add: load64_mapped le_word_zeros)
qed

lemma header_ok_poke:
  assumes "header_ok P m A" "mapped m a (length bs)" "disj_range a (length bs) (pl_first P) 8"
  shows "header_ok P (poke m a bs) A"
  using assms load64_poke_disj [OF assms(3)] by (simp add: header_ok_def buffer_ok_def)

section \<open>Against the allocator contract\<close>

text \<open>The allocation that growth needs is granted (vacuous while the free list has a bucket).\<close>

definition growth_granted :: "'k Cia_Pool \<Rightarrow> 'k world \<Rightarrow> bool" where
  "growth_granted P w \<longleftrightarrow> (pl_freelist_head P = 0 \<longrightarrow>
     (\<forall>p w'. cia_allocator_alloc (pl_allocator P) (pl_buffer_size P) (pl_alignment P) w = Inr (p, w') \<longrightarrow>
        \<not> alloc_failed p))"

context allocator_contract
begin

lemma granted_buffer:
  assumes "ok c" "pool_geom P"
    and "cia_allocator_alloc (mk c) (pl_buffer_size P) (pl_alignment P) w = Inr (p, w')" "\<not> alloc_failed p"
  shows "buffer_ok P p (mem w')" "load64 (mem w') p = Inr 0"
    and "mapped (mem w) b k \<Longrightarrow> disj_range b k p (unat (pl_buffer_size P))"
    and "mem w x \<noteq> None \<Longrightarrow> mem w' x = mem w x"
proof -
  have s: "0 < pl_buffer_size P" "is_pow2 (pl_alignment P)" "8 \<le> unat (pl_buffer_size P)"
    using assms(2) by (auto simp: pool_geom_def word_less_nat_alt)
  from alloc_grants [OF assms(1) s(1,2) assms(3,4)]
  obtain n where n: "unat (pl_buffer_size P) \<le> n" "fresh_zeroed p n (mem w) (mem w')"
      "unat (pl_alignment P) dvd unat p"
    by (auto simp: granted_def)
  then have "0 < unat p" "unat p + n \<le> 2 ^ 47" by (auto simp: fresh_zeroed_def)
  with n show "buffer_ok P p (mem w')"
    by (auto simp: buffer_ok_def intro: fresh_zeroed_mapped)
  show "load64 (mem w') p = Inr 0"
    using fresh_zeroed_load64_0 [OF n(2)] n(1) s(3) by simp
  show "mapped (mem w) b k \<Longrightarrow> disj_range b k p (unat (pl_buffer_size P))"
    using fresh_zeroed_disjoint [OF n(2)] disj_range_mono n(1) by blast
  show "mem w x \<noteq> None \<Longrightarrow> mem w' x = mem w x"
    using fresh_zeroed_old [OF n(2)] .
qed

lemma pool_create:
  assumes "ok c" "cia_pool_create (mk c) bsz bks al w = Inr (P, w')"
    and "pool_geom P" "\<not> alloc_failed (pl_first P)"
  shows "pool_ok P (mem w') (pool_buckets P (pl_first P)) {}"
    and "header_ok P (mem w') (set (pool_buckets P (pl_first P)))" "pl_allocator P = mk c"
proof -
  obtain p w1 where a: "cia_allocator_alloc (mk c) bsz al w = Inr (p, w1)"
    using alloc_returns by blast
  let ?P0 = "\<lparr>pl_allocator = mk c, pl_first = p, pl_freelist_head = 0, pl_buffer_size = bsz,
    pl_bucket_size = pool_bucket_size bks al, pl_alignment = al\<rparr>"
  have add: "pool_buffer_freelist_add ?P0 p w1 = Inr (P, w')"
    using assms(2) a by (simp add: cia_pool_create_def)
  then obtain h where P: "P = ?P0\<lparr>pl_freelist_head := h\<rparr>"
    by (auto simp: pool_buffer_freelist_add_def Let_def res_simps split: if_splits)
  have f: "pl_first P = p" "pool_geom ?P0" "pool_buckets P = pool_buckets ?P0"
    using assms(3) by (simp_all add: P del: Cia_Pool.update_convs)
  note g = granted_buffer [OF assms(1) f(2), of w p w1]
  have b: "buffer_ok ?P0 p (mem w1)" "load64 (mem w1) p = Inr 0"
    using g(1,2) a assms(4) f(1) by simp_all
  have ok0: "pool_ok ?P0 (mem w1) [] {}" using f(2) by (simp add: pool_ok_def cells_apart_def)
  obtain P' w2 where r: "pool_buffer_freelist_add ?P0 p w1 = Inr (P', w2)"
      "pool_ok P' (mem w2) (pool_buckets ?P0 p) {}"
      "\<And>x. \<not> in_range x p (unat (pl_buffer_size ?P0)) \<or> in_range x p 8 \<Longrightarrow> mem w2 x = mem w1 x"
      "dom (mem w2) = dom (mem w1)"
    by (rule pool_ok_add_buffer [OF ok0 b(1)]) (blast, rule that)
  with add have e: "P' = P" "w2 = w'" by simp_all
  show "pool_ok P (mem w') (pool_buckets P (pl_first P)) {}" using r(2) by (simp add: e f)
  have "load64 (mem w') p = Inr 0"
    using b(2) load64_cong [of p "mem w2" "mem w1"] r(3) by (simp add: e)
  moreover have "buffer_ok P p (mem w')"
    using b(1) r(4) by (auto simp: buffer_ok_def mapped_def P e dom_def)
  moreover have "disj_range b (unat (pl_bucket_size P)) p 8" if "b \<in> set (pool_buckets ?P0 p)" for b
    using bucket_in_buffer(2) [OF f(2) b(1) that] by (auto simp: disj_range_def P)
  ultimately show "header_ok P (mem w') (set (pool_buckets P (pl_first P)))"
    by (simp add: header_ok_def f)
  show "pl_allocator P = mk c" by (simp add: P)
qed

lemma pool_alloc_cons:
  assumes "pool_ok P (mem w) (b # F) L" "header_ok P (mem w) (set (b # F) \<union> L)"
  obtains q where "cia_pool_alloc P w = Inr (b, P\<lparr>pl_freelist_head := q\<rparr>, w)" "b \<notin> L"
    "load64 (mem w) b = Inr q"
    "pool_ok (P\<lparr>pl_freelist_head := q\<rparr>) (mem w) F (insert b L)"
    "header_ok (P\<lparr>pl_freelist_head := q\<rparr>) (mem w) (set F \<union> insert b L)"
proof -
  note t = pool_ok_take [OF assms(1)]
  obtain q where q: "load64 (mem w) b = Inr q" using t(3) by blast
  have 1: "cia_pool_alloc P w = Inr (b, P\<lparr>pl_freelist_head := q\<rparr>, w)"
    using t(1,2) q by (simp add: cia_pool_alloc_def pool_grow_def)
  have 2: "b \<notin> L" using assms(1) by (simp add: pool_ok_def)
  have 3: "header_ok (P\<lparr>pl_freelist_head := q\<rparr>) (mem w) (set F \<union> insert b L)"
    using assms(2) by (simp add: header_ok_def)
  show thesis by (rule that [OF 1 2 q t(4) [OF q] 3])
qed

lemma pool_ok_extend:
  assumes "pool_ok P m [] L" "\<And>x. m x \<noteq> None \<Longrightarrow> m' x \<noteq> None"
  shows "pool_ok P m' [] L"
proof -
  have "bucket_ok P m' b" if "b \<in> L" for b
    using assms that by (intro bucket_ok_mono [of P m b m']) (simp_all add: pool_ok_def)
  then show ?thesis using assms(1) by (simp add: pool_ok_def)
qed

lemma pool_grow_empty:
  assumes "ok c" "pl_allocator P = mk c" "pool_ok P (mem w) [] L" "growth_granted P w"
    and "header_ok P (mem w) L"
  obtains p P' w' where "pool_grow P w = Inr (P', w')" "pool_ok P' (mem w') (pool_buckets P p) L"
    "header_ok P' (mem w') (set (pool_buckets P p) \<union> L)"
    "P' = P\<lparr>pl_freelist_head := hd (pool_buckets P p)\<rparr>"
    "\<And>x. mem w x \<noteq> None \<Longrightarrow> mem w' x = mem w x"
proof -
  have g: "pool_geom P" using assms(3) by (rule pool_ok_geom)
  have head: "pl_freelist_head P = 0" using pool_ok_head_0 [OF assms(3)] by simp
  obtain p w1 where a: "cia_allocator_alloc (mk c) (pl_buffer_size P) (pl_alignment P) w = Inr (p, w1)"
    using alloc_returns by blast
  then have nf: "\<not> alloc_failed p" using assms(2,4) head by (simp add: growth_granted_def)
  note gb = granted_buffer [OF assms(1) g a nf]
  have ok1: "pool_ok P (mem w1) [] L"
    by (rule pool_ok_extend [OF assms(3)]) (simp add: gb(4))
  have new: "disj_range b (unat (pl_bucket_size P)) p (unat (pl_buffer_size P))" if "b \<in> L" for b
    using assms(3) that by (intro gb(3)) (simp add: pool_ok_def bucket_ok_def)
  obtain P1 w2 where r: "pool_buffer_freelist_add P p w1 = Inr (P1, w2)"
      "pool_ok P1 (mem w2) (pool_buckets P p) L" "P1 = P\<lparr>pl_freelist_head := hd (pool_buckets P p)\<rparr>"
      "\<And>x. \<not> in_range x p (unat (pl_buffer_size P)) \<or> in_range x p 8 \<Longrightarrow> mem w2 x = mem w1 x"
    by (rule pool_ok_add_buffer [OF ok1 gb(1) new]) (assumption, rule that)
  have h: "buffer_ok P (pl_first P) (mem w)" "load64 (mem w) (pl_first P) = Inr 0"
      "\<And>x. x \<in> L \<Longrightarrow> disj_range x (unat (pl_bucket_size P)) (pl_first P) 8"
    using assms(5) by (simp_all add: header_ok_def)
  have sz: "8 \<le> unat (pl_buffer_size P)" using g by (simp add: pool_geom_def)
  have apart: "\<not> in_range x p (unat (pl_buffer_size P))" if "mem w x \<noteq> None" for x
    using gb(3) [of x 1] that by (auto simp: disj_range_def mapped_def in_range_def unat_eq_0)
  have keep: "mem w2 x = mem w x" if "mem w x \<noteq> None" for x
    using r(4) [of x] gb(4) [OF that] apart [OF that] by simp
  have inm: "mem w x \<noteq> None" if "in_range x (pl_first P) (unat (pl_buffer_size P))" for x
    using h(1) that by (simp add: buffer_ok_def mapped_def)
  have "load64 (mem w2) (pl_first P) = Inr 0"
    using h(2) load64_cong [of "pl_first P" "mem w2" "mem w"] keep inm in_range_mono [OF _ sz] by metis
  moreover have "buffer_ok P (pl_first P) (mem w2)"
    using h(1) keep inm by (simp add: buffer_ok_def mapped_def)
  moreover have "disj_range x (unat (pl_bucket_size P)) (pl_first P) 8"
    if "x \<in> set (pool_buckets P p)" for x
    using bucket_in_buffer(1) [OF g gb(1) that] apart [OF inm] in_range_mono [OF _ sz]
    unfolding disj_range_def by blast
  ultimately have hd: "header_ok P1 (mem w2) (set (pool_buckets P p) \<union> L)"
    using h(3) by (auto simp: header_ok_def r(3))
  have gr: "pool_grow P w = Inr (P1, w2)" using a head r(1) assms(2) by (simp add: pool_grow_def)
  show thesis by (rule that [OF gr r(2) hd r(3) keep])
qed

lemma pool_alloc_nil:
  assumes "ok c" "pl_allocator P = mk c" "pool_ok P (mem w) [] L" "growth_granted P w"
    and "header_ok P (mem w) L"
  obtains b h w' F' where "cia_pool_alloc P w = Inr (b, P\<lparr>pl_freelist_head := h\<rparr>, w')" "b \<notin> L"
    "pool_ok (P\<lparr>pl_freelist_head := h\<rparr>) (mem w') F' (insert b L)"
    "header_ok (P\<lparr>pl_freelist_head := h\<rparr>) (mem w') (set F' \<union> insert b L)"
    "\<And>x. mem w x \<noteq> None \<Longrightarrow> mem w' x = mem w x"
proof -
  obtain p P1 w2 where r: "pool_grow P w = Inr (P1, w2)" "pool_ok P1 (mem w2) (pool_buckets P p) L"
      "header_ok P1 (mem w2) (set (pool_buckets P p) \<union> L)"
      "P1 = P\<lparr>pl_freelist_head := hd (pool_buckets P p)\<rparr>"
      "\<And>x. mem w x \<noteq> None \<Longrightarrow> mem w2 x = mem w x"
    by (rule pool_grow_empty [OF assms]) (rule that)
  obtain b F' where bF: "pool_buckets P p = b # F'"
    using pool_geom_count(1) [OF pool_ok_geom [OF assms(3)]]
    by (cases "pool_buckets P p") (simp_all add: pool_buckets_def buckets_def)
  have hb: "pl_freelist_head P1 = b" "pl_freelist_head P1 \<noteq> 0"
    using pool_ok_take(1,2) [OF r(2) [unfolded bF]] by simp_all
  obtain q where q: "load64 (mem w2) b = Inr q"
      "pool_ok (P1\<lparr>pl_freelist_head := q\<rparr>) (mem w2) F' (insert b L)"
      "header_ok (P1\<lparr>pl_freelist_head := q\<rparr>) (mem w2) (set F' \<union> insert b L)" "b \<notin> L"
    by (rule pool_alloc_cons [OF r(2,3) [unfolded bF]]) (rule that)
  have P1: "P1\<lparr>pl_freelist_head := q\<rparr> = P\<lparr>pl_freelist_head := q\<rparr>" by (simp add: r(4))
  have "cia_pool_alloc P w = Inr (b, P1\<lparr>pl_freelist_head := q\<rparr>, w2)"
    using r(1) hb(1) q(1) by (simp add: cia_pool_alloc_def)
  then have 1: "cia_pool_alloc P w = Inr (b, P\<lparr>pl_freelist_head := q\<rparr>, w2)" by (simp only: P1)
  show thesis by (rule that [OF 1 q(4) q(2) [unfolded P1] q(3) [unfolded P1] r(5)])
qed

end

end
