(* ===== verification/Pool_Run.thy ===== *)
theory Pool_Run
  imports Pool_Safety
begin

text \<open>
  A client of a pool on the page allocator, as a transition system: it creates the pool, takes
  buckets, returns buckets it holds and writes inside buckets it holds.  The invariant of
  \<open>Pool_Invariant\<close> holds in every reachable state; the properties of \<open>pool.c\<close> follow from it.
\<close>

section \<open>Runs of a client\<close>

text \<open>
  \<open>pool_run K P w L\<close>: the pool structure \<open>P\<close> in the world \<open>w\<close>, with \<open>L\<close> the buckets the client
  holds.  Kernel \<open>K\<close> may refuse the memory for a new pool; a run stops at an allocation whose
  growth is refused (see the property on failed growth below).
\<close>

inductive pool_run :: "'k kernel \<Rightarrow> 'k Cia_Pool \<Rightarrow> 'k world \<Rightarrow> addr set \<Rightarrow> bool" for K where
  create: "cia_pool_create (cia_allocator_pages K) bsz bks al w0 = Inr (P, w) \<Longrightarrow> pool_geom P \<Longrightarrow>
    \<not> alloc_failed (pl_first P) \<Longrightarrow> pool_run K P w {}"
| take: "pool_run K P w L \<Longrightarrow> growth_granted P w \<Longrightarrow> cia_pool_alloc P w = Inr (b, P', w') \<Longrightarrow>
    pool_run K P' w' (insert b L)"
| give: "pool_run K P w L \<Longrightarrow> b \<in> L \<Longrightarrow> cia_pool_free P b w = Inr (P', w') \<Longrightarrow>
    pool_run K P' w' (L - {b})"
| use: "pool_run K P w L \<Longrightarrow> b \<in> L \<Longrightarrow> store_bytes (mem w) a bs = Inr m \<Longrightarrow> length bs \<le> 2 ^ 64 \<Longrightarrow>
    (\<forall>x. in_range x a (length bs) \<longrightarrow> in_range x b (unat (pl_bucket_size P))) \<Longrightarrow>
    pool_run K P (w\<lparr>mem := m\<rparr>) L"

text \<open>The state of a run: the invariant, with the free buckets and the held ones clear of the header.\<close>

definition pool_inv :: "'k kernel \<Rightarrow> 'k Cia_Pool \<Rightarrow> 'k world \<Rightarrow> addr list \<Rightarrow> addr set \<Rightarrow> bool" where
  "pool_inv K P w F L \<longleftrightarrow> pool_ok P (mem w) F L \<and> header_ok P (mem w) (set F \<union> L)
     \<and> pl_allocator P = cia_allocator_pages K"

lemma header_ok_head [simp]: "header_ok (P\<lparr>pl_freelist_head := h\<rparr>) = header_ok P"
  by (simp add: header_ok_def fun_eq_iff)

lemma pool_inv_create:
  assumes "mmap_documented K" "cia_pool_create (cia_allocator_pages K) bsz bks al w0 = Inr (P, w)"
    and "pool_geom P" "\<not> alloc_failed (pl_first P)"
  shows "pool_inv K P w (pool_buckets P (pl_first P)) {}"
  using pages.pool_create [OF assms] by (simp add: pool_inv_def)

lemma pool_inv_alloc:
  assumes "mmap_documented K" "pool_inv K P w F L" "growth_granted P w"
  obtains b h w' F' where "cia_pool_alloc P w = Inr (b, P\<lparr>pl_freelist_head := h\<rparr>, w')" "b \<notin> L"
    "pool_inv K (P\<lparr>pl_freelist_head := h\<rparr>) w' F' (insert b L)"
    "\<And>x. mem w x \<noteq> None \<Longrightarrow> mem w' x = mem w x"
proof -
  have ok: "pool_ok P (mem w) F L" "header_ok P (mem w) (set F \<union> L)" "pl_allocator P = cia_allocator_pages K"
    using assms(2) by (simp_all add: pool_inv_def)
  show thesis
  proof (cases F)
    case Nil
    have ok': "pool_ok P (mem w) [] L" "header_ok P (mem w) L" using ok(1,2) by (simp_all add: Nil)
    show thesis
      by (rule pages.pool_alloc_nil [OF assms(1) ok(3) ok'(1) assms(3) ok'(2)])
        (rule that, assumption, assumption, simp add: pool_inv_def ok(3), assumption)
  next
    case (Cons b F')
    obtain q where q: "cia_pool_alloc P w = Inr (b, P\<lparr>pl_freelist_head := q\<rparr>, w)" "b \<notin> L"
      "pool_ok (P\<lparr>pl_freelist_head := q\<rparr>) (mem w) F' (insert b L)"
      "header_ok (P\<lparr>pl_freelist_head := q\<rparr>) (mem w) (set F' \<union> insert b L)"
      by (rule pages.pool_alloc_cons [OF ok(1,2) [unfolded Cons]]) (rule that)
    then have "pool_inv K (P\<lparr>pl_freelist_head := q\<rparr>) w F' (insert b L)"
      using ok(3) by (simp add: pool_inv_def)
    from that [OF q(1,2) this] show thesis by simp
  qed
qed

lemma pool_inv_take:
  assumes "pool_inv K P w (b # F) L"
  obtains q where "cia_pool_alloc P w = Inr (b, P\<lparr>pl_freelist_head := q\<rparr>, w)" "b \<notin> L"
    "pool_inv K (P\<lparr>pl_freelist_head := q\<rparr>) w F (insert b L)"
proof -
  have ok: "pool_ok P (mem w) (b # F) L" "header_ok P (mem w) (set (b # F) \<union> L)"
      "pl_allocator P = cia_allocator_pages K"
    using assms by (simp_all add: pool_inv_def)
  show thesis
    by (rule pages.pool_alloc_cons [OF ok(1,2)])
      (rule that, assumption, assumption, simp add: pool_inv_def ok(3))
qed

lemma pool_inv_free:
  assumes "pool_inv K P w F L" "b \<in> L"
  shows "cia_pool_free P b w = Inr (P\<lparr>pl_freelist_head := b\<rparr>,
      w\<lparr>mem := poke (mem w) b (le_bytes 8 (pl_freelist_head P))\<rparr>)"
    and "pool_inv K (P\<lparr>pl_freelist_head := b\<rparr>)
      (w\<lparr>mem := poke (mem w) b (le_bytes 8 (pl_freelist_head P))\<rparr>) (b # F) (L - {b})"
proof -
  let ?P = "P\<lparr>pl_freelist_head := b\<rparr>" and ?m = "poke (mem w) b (le_bytes 8 (pl_freelist_head P))"
  have ok: "pool_ok P (mem w) F L" "header_ok P (mem w) (set F \<union> L)" "pl_allocator P = cia_allocator_pages K"
    using assms(1) by (simp_all add: pool_inv_def)
  obtain P' w' where f: "cia_pool_free P b w = Inr (P', w')" "pool_ok P' (mem w') (b # F) (L - {b})"
      "w' = w\<lparr>mem := ?m\<rparr>" "P' = ?P"
    by (rule pool_ok_free [OF ok(1) assms(2)]) (rule that)
  have B: "8 \<le> unat (pl_bucket_size P)" using ok(1) by (simp add: pool_ok_def pool_geom_def)
  have mb: "mapped (mem w) b 8"
    using bucket_ok_mapped8 [OF pool_ok_geom [OF ok(1)]] ok(1) assms(2) by (simp add: pool_ok_def)
  have "disj_range b (unat (pl_bucket_size P)) (pl_first P) 8"
    using ok(2) assms(2) by (simp add: header_ok_def)
  then have d: "disj_range b 8 (pl_first P) 8" by (rule disj_range_mono) (simp_all add: B)
  have "header_ok P ?m (set F \<union> L)"
    using header_ok_poke [OF ok(2), of b "le_bytes 8 (pl_freelist_head P)"] mb d by simp
  moreover have "set (b # F) \<union> (L - {b}) = set F \<union> L" using assms(2) by auto
  ultimately show "pool_inv K ?P (w\<lparr>mem := ?m\<rparr>) (b # F) (L - {b})"
    using f(2-4) ok(3) by (simp add: pool_inv_def)
  show "cia_pool_free P b w = Inr (?P, w\<lparr>mem := ?m\<rparr>)" using f(1,3,4) by simp
qed

lemma pool_inv_use:
  assumes "pool_inv K P w F L" "b \<in> L" "store_bytes (mem w) a bs = Inr m" "length bs \<le> 2 ^ 64"
    and "\<forall>x. in_range x a (length bs) \<longrightarrow> in_range x b (unat (pl_bucket_size P))"
  shows "pool_inv K P (w\<lparr>mem := m\<rparr>) F L"
proof -
  have ok: "pool_ok P (mem w) F L" "header_ok P (mem w) (set F \<union> L)" "pl_allocator P = cia_allocator_pages K"
    using assms(1) by (simp_all add: pool_inv_def)
  have m: "mapped (mem w) a (length bs)" "m = poke (mem w) a bs"
    using store_bytes_InrD [OF assms(3,4)] by simp_all
  have "disj_range b (unat (pl_bucket_size P)) (pl_first P) 8"
    using ok(2) assms(2) by (simp add: header_ok_def)
  then have "disj_range a (length bs) (pl_first P) 8"
    using assms(5) by (auto simp: disj_range_def)
  with header_ok_poke [OF ok(2) m(1)] pool_ok_write [OF ok(1) assms(2) _ m(1)] ok(3) assms(5)
  show ?thesis by (simp add: pool_inv_def m(2))
qed

text \<open>A pool on the page allocator: the buckets are carved from a region where nothing was mapped.\<close>

lemma pages_pool_create:
  assumes K: "mmap_documented K" and g: "pool_geom P" "al \<le> 0x1000"
    and P: "P = \<lparr>pl_allocator = cia_allocator_pages K, pl_first = a, pl_freelist_head = 0, pl_buffer_size = bsz,
      pl_bucket_size = pool_bucket_size bks al, pl_alignment = al\<rparr>"
    and m: "sys_mmap K 0 bsz (PROT_READ OR PROT_WRITE) (MAP_PRIVATE OR MAP_ANONYMOUS) (-1) 0 w = (a, w1)" "\<not> errno_result a"
  obtains h w' where "cia_pool_create (cia_allocator_pages K) bsz bks al w = Inr (P\<lparr>pl_freelist_head := h\<rparr>, w')"
    "pool_inv K (P\<lparr>pl_freelist_head := h\<rparr>) w' (pool_buckets P a) {}"
    "dom (mem w') = dom (mem w) \<union> {x. in_range x a (page_round (unat bsz))}" "unat a + page_round (unat bsz) \<le> 2 ^ 47"
    "\<And>x. mem w x \<noteq> None \<Longrightarrow> mem w' x = mem w x" "\<And>x. in_range x a (page_round (unat bsz)) \<Longrightarrow> mem w x = None"
proof -
  let ?F = "pool_buckets P a" and ?l = "page_round (unat bsz)"
  have pos: "0 < bsz" using g(1) by (auto simp: P pool_geom_def word_less_nat_alt)
  have na: "\<not> 0x1000 < al" using g(2) by (simp only: not_less)
  have alloc: "cia_allocator_alloc (cia_allocator_pages K) bsz al w = Inr (a, w1)"
    using K m(1) pos na by (simp add: allocator_defs rt_mem_alloc_eq)
  have nf: "\<not> alloc_failed a" using m(2) mmap_documented_nonzero [OF K pos m(1)] by (simp add: alloc_failed_def)
  note gb = pages.granted_buffer [OF K g(1), of w a w1]
  have bok: "buffer_ok P a (mem w1)" using gb(1) alloc nf by (simp add: P)
  have fz: "fresh_zeroed a ?l (mem w) (mem w1)" using mmap_documentedD [OF K pos m(1)] m(2) by simp
  obtain h w' where add: "pool_buffer_freelist_add P a w1 = Inr (P\<lparr>pl_freelist_head := h\<rparr>, w')"
      "mem w' = push_cells (mem w1) 0 (rev ?F)"
    using pool_buffer_freelist_add_eq [OF g(1) bok] by (auto simp: P)
  have le: "unat bsz \<le> ?l" by (rule page_round_ge)
  have sub: "in_range x a (unat bsz)" if "b \<in> set ?F" "in_range x b 8" for b x
  proof -
    have "8 \<le> unat (pl_bucket_size P)" using g(1) by (simp add: pool_geom_def)
    from in_range_mono [OF that(2) this] bucket_in_buffer(1) [OF g(1) bok that(1), of x] show ?thesis by (simp add: P)
  qed
  have out: "mem w' x = mem w1 x" if "\<not> in_range x a (unat bsz)" for x
    using sub that unfolding add(2) by (intro push_cells_out) auto
  have c: "cia_pool_create (cia_allocator_pages K) bsz bks al w = Inr (P\<lparr>pl_freelist_head := h\<rparr>, w')"
    using alloc add(1) by (simp add: cia_pool_create_def P)
  have inv: "pool_inv K (P\<lparr>pl_freelist_head := h\<rparr>) w' ?F {}"
    using pool_inv_create [OF K c] g(1) nf by (simp add: P pool_geom_def pool_buckets_def pool_header_def pool_count_def)
  have none: "mem w x = None" if "in_range x a ?l" for x using fz that by (simp add: fresh_zeroed_def)
  have old: "mem w' x = mem w x" if "mem w x \<noteq> None" for x
  proof -
    have "\<not> in_range x a (unat bsz)" using none [of x] in_range_mono [of x a "unat bsz" ?l] le that by fastforce
    then show ?thesis using out fresh_zeroed_old [OF fz that] by simp
  qed
  have m8: "mapped (mem w1) b 8" if "b \<in> set (rev ?F)" for b
    using bucket_ok_mapped8 [OF g(1) pool_bucket_ok [OF g(1) bok]] that by simp
  have one: "mapped m x (Suc 0) \<longleftrightarrow> m x \<noteq> None" for m x by (auto simp: mapped_def in_range_def unat_eq_0)
  have "mem w' x \<noteq> None \<longleftrightarrow> mem w1 x \<noteq> None" for x
    using mapped_push_cells [of "rev ?F" "mem w1" 0 x "Suc 0"] m8 by (simp add: add(2) one)
  then have "dom (mem w') = dom (mem w1)" by (simp add: set_eq_iff domIff)
  then have d: "dom (mem w') = dom (mem w) \<union> {x. in_range x a ?l}"
    using fz by (auto simp: fresh_zeroed_def split: if_splits)
  have b: "unat a + ?l \<le> 2 ^ 47" using fz by (simp add: fresh_zeroed_def)
  show thesis by (rule that [OF c inv d b old none])
qed

text \<open>Any change of memory inside the held buckets, however many stores it takes.\<close>

lemma mapped_dom: "dom m' = dom m \<Longrightarrow> mapped m' a n = mapped m a n"
  unfolding mapped_def by (metis domIff)

lemma pool_inv_agree:
  assumes "pool_inv K P w F L" "dom m' = dom (mem w)"
    and "\<And>f x. f \<in> set F \<Longrightarrow> in_range x f (unat (pl_bucket_size P)) \<Longrightarrow> m' x = mem w x"
    and "\<And>x. in_range x (pl_first P) 8 \<Longrightarrow> m' x = mem w x"
  shows "pool_inv K P (w\<lparr>mem := m'\<rparr>) F L"
proof -
  have ok: "pool_ok P (mem w) F L" "header_ok P (mem w) (set F \<union> L)" "pl_allocator P = cia_allocator_pages K"
    using assms(1) by (simp_all add: pool_inv_def)
  have n8: "8 \<le> unat (pl_bucket_size P)" using ok(1) by (simp add: pool_ok_def pool_geom_def)
  have "load64 m' f = load64 (mem w) f" if "f \<in> set F" for f
    using assms(3) [OF that] in_range_mono [OF _ n8] by (intro load64_cong) blast
  then have "freelist m' (pl_freelist_head P) F"
    using freelist_cong [of F m' "mem w"] ok(1) by (simp add: pool_ok_def)
  moreover have "load64 m' (pl_first P) = load64 (mem w) (pl_first P)"
    by (rule load64_cong) (rule assms(4))
  ultimately show ?thesis
    using ok by (simp add: pool_inv_def pool_ok_def header_ok_def bucket_ok_def buffer_ok_def mapped_dom [OF assms(2)])
qed

lemma pool_inv_change:
  assumes "pool_inv K P w F L" "dom m' = dom (mem w)"
    and "\<And>x. (\<forall>b\<in>L. \<not> in_range x b (unat (pl_bucket_size P))) \<Longrightarrow> m' x = mem w x"
  shows "pool_inv K P (w\<lparr>mem := m'\<rparr>) F L"
proof (rule pool_inv_agree [OF assms(1,2)], rule_tac [!] assms(3))
  let ?n = "unat (pl_bucket_size P)"
  have ok: "pool_ok P (mem w) F L" "header_ok P (mem w) (set F \<union> L)"
    using assms(1) by (simp_all add: pool_inv_def)
  show "\<forall>b\<in>L. \<not> in_range x b ?n" if "f \<in> set F" "in_range x f ?n" for f x
  proof
    fix b assume b: "b \<in> L"
    have "b \<noteq> f" using ok(1) that b by (auto simp: pool_ok_def)
    then have "disj_range b ?n f ?n"
      using ok(1) that b by (intro cells_apartD [of "set F \<union> L"]) (simp_all add: pool_ok_def)
    then show "\<not> in_range x b ?n" using that unfolding disj_range_def by blast
  qed
  show "\<forall>b\<in>L. \<not> in_range x b ?n" if "in_range x (pl_first P) 8" for x
    using ok(2) that by (auto simp: header_ok_def disj_range_def)
qed

lemma pool_run_inv:
  assumes "mmap_documented K" "pool_run K P w L"
  shows "\<exists>F. pool_inv K P w F L"
  using assms(2)
proof (induction rule: pool_run.induct)
  case (create bsz bks al w0 P w)
  from pool_inv_create [OF assms(1) this] show ?case by blast
next
  case (take P w L b P' w')
  then obtain F where "pool_inv K P w F L" by blast
  from pool_inv_alloc [OF assms(1) this take.hyps(2)] take.hyps(3) show ?case
    by (metis Inr_inject prod.inject)
next
  case (give P w L b P' w')
  then obtain F where "pool_inv K P w F L" by blast
  from pool_inv_free [OF this give.hyps(2)] give.hyps(3) show ?case
    by (metis Inr_inject prod.inject)
next
  case (use P w L b a bs m)
  then obtain F where "pool_inv K P w F L" by blast
  from pool_inv_use [OF this use.hyps(2-5)] show ?case by blast
qed

section \<open>Where the header pointers lead\<close>

lemma pool_release_loop_0 [simp]: "pool_release_loop A sz 0 w = Some (Inr w)"
  by (subst pool_release_loop.simps) simp

lemma pool_inv_free_all:
  assumes "pool_inv K P w F L"
  obtains P' w' where "cia_pool_free_all P w = Inr (P', w')" "os w' = os w" "dom (mem w') = dom (mem w)"
    "pool_inv K P' w' (pool_buckets P (pl_first P)) {}"
proof -
  let ?P0 = "P\<lparr>pl_freelist_head := 0\<rparr>"
  have ok: "pool_geom P" "buffer_ok P (pl_first P) (mem w)" "load64 (mem w) (pl_first P) = Inr 0"
      "pl_allocator P = cia_allocator_pages K"
    using assms by (simp_all add: pool_inv_def pool_ok_def header_ok_def)
  have ok0: "pool_ok ?P0 (mem w) [] {}" using ok(1) by (simp add: pool_ok_def cells_apart_def)
  have b0: "buffer_ok ?P0 (pl_first P) (mem w)" using ok(2) by simp
  obtain P' w' where r: "pool_buffer_freelist_add ?P0 (pl_first P) w = Inr (P', w')"
      "pool_ok P' (mem w') (pool_buckets P (pl_first P)) {}"
      "P' = P\<lparr>pl_freelist_head := hd (pool_buckets P (pl_first P))\<rparr>"
      "\<And>x. \<not> in_range x (pl_first P) (unat (pl_buffer_size P)) \<or> in_range x (pl_first P) 8 \<Longrightarrow> mem w' x = mem w x"
      "os w' = os w" "dom (mem w') = dom (mem w)"
    by (rule pool_ok_add_buffer [OF ok0 b0]) (blast, rule that, assumption, simp_all)
  have "load64 (mem w') (pl_first P) = Inr 0"
    using ok(3) load64_cong [of "pl_first P" "mem w'" "mem w"] r(4) by simp
  moreover have "buffer_ok P (pl_first P) (mem w')"
    using ok(2) r(6) unfolding buffer_ok_def mapped_def by (metis domIff)
  moreover have "disj_range b (unat (pl_bucket_size P)) (pl_first P) 8"
    if "b \<in> set (pool_buckets P (pl_first P))" for b
    using bucket_in_buffer(2) [OF ok(1,2) that] unfolding disj_range_def by blast
  ultimately have i: "pool_inv K P' w' (pool_buckets P (pl_first P)) {}"
    using r(2) ok(4) by (simp add: pool_inv_def header_ok_def r(3))
  have "cia_pool_free_all P w = Inr (P', w')"
    using ok(3) r(1) by (simp add: cia_pool_free_all_def)
  from that [OF this r(5,6) i] show thesis .
qed

section \<open>Properties\<close>

text \<open>C3: a new pool hands out the whole buffer.  Its free list is \<open>pool_count P\<close> buckets in address
  order, the first right after the aligned header, each one bucket size after the other; the first
  word of the buffer (the header) is zero.\<close>

theorem cia_pool_create_free_list:
  assumes "mmap_documented K" "cia_pool_create (cia_allocator_pages K) bsz bks al w = Inr (P, w')"
    and "pool_geom P" "\<not> alloc_failed (pl_first P)"
  shows "freelist (mem w') (pl_freelist_head P)
      (map (\<lambda>i. pl_first P + of_nat (pool_header P + i * unat (pl_bucket_size P))) [0..<pool_count P])
    \<and> 0 < pool_count P \<and> load64 (mem w') (pl_first P) = Inr 0"
  using pool_inv_create [OF assms] pool_geom_count(1) [OF assms(3)]
  by (simp add: pool_inv_def pool_ok_def header_ok_def pool_buckets_def buckets_def)

text \<open>C1: in every state a client can reach, the buckets it holds are non-null, aligned, mapped over
  their whole size, and no two of them overlap.\<close>

theorem cia_pool_live_buckets_apart:
  assumes "mmap_documented K" "pool_run K P w L"
  shows "(\<forall>b\<in>L. b \<noteq> 0 \<and> unat (pl_alignment P) dvd unat b \<and> mapped (mem w) b (unat (pl_bucket_size P)))
    \<and> (\<forall>b\<in>L. \<forall>c\<in>L. b \<noteq> c \<longrightarrow> disj_range b (unat (pl_bucket_size P)) c (unat (pl_bucket_size P)))"
  using pool_run_inv [OF assms]
  by (auto simp: pool_inv_def pool_ok_def bucket_ok_def intro: cells_apartD)

text \<open>C2: in every reachable state an allocation whose growth (if it needs any) is granted returns a
  bucket that the client does not hold, and leaves the contents of the held buckets as they are.\<close>

theorem cia_pool_alloc_fresh:
  assumes "mmap_documented K" "pool_run K P w L" "growth_granted P w"
  shows "\<exists>b P' w'. cia_pool_alloc P w = Inr (b, P', w') \<and> b \<notin> L
    \<and> mapped (mem w') b (unat (pl_bucket_size P))
    \<and> (\<forall>c\<in>L. disj_range b (unat (pl_bucket_size P)) c (unat (pl_bucket_size P)))
    \<and> (\<forall>c\<in>L. peek (mem w') c (unat (pl_bucket_size P)) = peek (mem w) c (unat (pl_bucket_size P)))"
proof -
  let ?n = "unat (pl_bucket_size P)"
  obtain F where F: "pool_inv K P w F L" using pool_run_inv [OF assms(1,2)] by blast
  obtain b h w' F' where r: "cia_pool_alloc P w = Inr (b, P\<lparr>pl_freelist_head := h\<rparr>, w')" "b \<notin> L"
      "pool_inv K (P\<lparr>pl_freelist_head := h\<rparr>) w' F' (insert b L)"
      "\<And>x. mem w x \<noteq> None \<Longrightarrow> mem w' x = mem w x"
    by (rule pool_inv_alloc [OF assms(1) F assms(3)]) (rule that)
  have new: "bucket_ok P (mem w') b" "cells_apart (set F' \<union> insert b L) ?n"
    using r(3) by (simp_all add: pool_inv_def pool_ok_def)
  have "peek (mem w') c ?n = peek (mem w) c ?n" if "c \<in> L" for c
  proof (rule nth_equalityI)
    fix i assume i: "i < length (peek (mem w') c ?n)"
    have "mapped (mem w) c ?n"
      using F that by (simp add: pool_inv_def pool_ok_def bucket_ok_def)
    moreover have "?n \<le> 2 ^ 64" using less_imp_le [OF unat_less_u64] by simp
    ultimately have "mem w (c + of_nat i) \<noteq> None" using i by (intro mapped_offsetD [of _ c ?n]) simp_all
    with i r(4) show "peek (mem w') c ?n ! i = peek (mem w) c ?n ! i" by (simp add: nth_peek)
  qed simp
  moreover have "disj_range b ?n c ?n" if "c \<in> L" for c
    using new(2) r(2) that by (auto intro: cells_apartD)
  ultimately show ?thesis using r(1,2) new(1) by (auto simp: bucket_ok_def)
qed

text \<open>C5: the free list is last in, first out.  A bucket that was just returned is the next one
  handed out, the pool structure is then what it was before, and the only bytes that have changed
  are the first eight of that bucket.\<close>

theorem cia_pool_free_then_alloc:
  assumes "mmap_documented K" "pool_run K P w L" "b \<in> L"
  shows "\<exists>P' w'. cia_pool_free P b w = Inr (P', w') \<and> cia_pool_alloc P' w' = Inr (b, P, w')
    \<and> (\<forall>x. \<not> in_range x b 8 \<longrightarrow> mem w' x = mem w x) \<and> os w' = os w"
proof -
  obtain F where F: "pool_inv K P w F L" using pool_run_inv [OF assms(1,2)] by blast
  note f = pool_inv_free [OF F assms(3)]
  have b: "bucket_ok P (mem w) b" "pool_geom P"
    using F assms(3) by (simp_all add: pool_inv_def pool_ok_def)
  have "load64 (poke (mem w) b (le_bytes 8 (pl_freelist_head P))) b = Inr (pl_freelist_head P)"
    by (rule load64_poke_same [OF bucket_ok_mapped8 [OF b(2,1)]])
  moreover have "b \<noteq> 0" using b(1) by (simp add: bucket_ok_def)
  ultimately show ?thesis using f(1)
    by (simp add: cia_pool_alloc_def pool_grow_def poke_out)
qed

text \<open>\<open>cia_pool_free_all\<close> gives no memory back.  The headers are never linked, so after any run
  the kernel is not called, every mapped byte stays mapped, and the free list is the first buffer's
  buckets; buffers added by growth are reachable from nothing any more.\<close>

theorem cia_pool_free_all_keeps_memory:
  assumes "mmap_documented K" "pool_run K P w L"
  shows "\<exists>P' w'. cia_pool_free_all P w = Inr (P', w') \<and> os w' = os w
    \<and> dom (mem w') = dom (mem w)
    \<and> freelist (mem w') (pl_freelist_head P') (pool_buckets P (pl_first P))"
proof -
  obtain F where F: "pool_inv K P w F L" using pool_run_inv [OF assms] by blast
  show ?thesis
    by (rule pool_inv_free_all [OF F]) (auto simp: pool_inv_def pool_ok_def)
qed

text \<open>C6: \<open>cia_pool_destroy\<close> never returns on the page allocator when \<open>munmap\<close> succeeds: it reads the
  \<open>next\<close> pointer of a buffer it has just unmapped.\<close>

theorem cia_pool_destroy_faults:
  assumes "mmap_documented K" "munmap_documented K" "pool_run K P w L"
    and "page_size dvd unat (pl_first P)" "fst (sys_munmap K (pl_first P) (pl_buffer_size P) w) = 0"
  shows "cia_pool_destroy P w = Inl (Segv (pl_first P))"
proof -
  obtain F where F: "pool_inv K P w F L" using pool_run_inv [OF assms(1,3)] by blast
  then have P: "pl_allocator P = cia_allocator_pages K" "pl_first P \<noteq> 0" "8 \<le> unat (pl_buffer_size P)"
    by (simp_all add: pool_inv_def pool_ok_def header_ok_def buffer_ok_def pool_geom_def)
  obtain w' where u: "sys_munmap K (pl_first P) (pl_buffer_size P) w = (0, w')"
    using assms(5) by (metis prod.collapse)
  have "0 < pl_buffer_size P" using P(3) by (simp add: word_less_nat_alt)
  then have "mem w' = (\<lambda>x. if in_range x (pl_first P) (page_round (unat (pl_buffer_size P))) then None else mem w x)"
    using assms(2,4) u unfolding munmap_documented_def by blast
  moreover have "in_range (pl_first P) (pl_first P) (page_round (unat (pl_buffer_size P)))"
    using P(3) page_round_ge [of "unat (pl_buffer_size P)"] by (simp add: in_range_def)
  ultimately have "mem w' (pl_first P) = None" by simp
  then have "load64 (mem w') (pl_first P) = Inl (Segv (pl_first P))"
    by (rule load64_unmapped)
  moreover have "cia_allocator_free_size (pl_allocator P) (pl_first P) (pl_buffer_size P) w = Inr w'"
    by (simp add: P(1) allocator_defs cia_mem_op_defs rt_mem_free_def u)
  ultimately show ?thesis
    using P(2) by (subst cia_pool_destroy_def, subst pool_release_loop.simps) simp
qed

text \<open>Creation does not look at what the provider returned.  On the null allocator it writes the
  last bucket of a buffer at address 0, and faults there.\<close>

theorem cia_pool_create_unchecked:
  fixes w :: "'k world"
  assumes "P = \<lparr>pl_allocator = (cia_allocator_null :: 'k Cia_Allocator), pl_first = 0, pl_freelist_head = 0, pl_buffer_size = bsz,
      pl_bucket_size = pool_bucket_size bks al, pl_alignment = al\<rparr>"
    and "pool_geom P" "last_bucket = of_nat (pool_header P + (pool_count P - 1) * unat (pl_bucket_size P))"
    and "mem w last_bucket = None"
  shows "cia_pool_create cia_allocator_null bsz bks al w = Inl (Segv last_bucket)"
proof -
  have B: "pl_bucket_size P \<noteq> 0" using assms(2) by (auto simp: pool_geom_def)
  obtain k where k: "pool_count P = Suc k"
    using pool_geom_count(1) [OF assms(2)] gr0_conv_Suc by blast
  have last: "cia_size_alignf sizeof_pool_buffer_header (pl_alignment P)
      + (pl_buffer_size P - cia_size_alignf sizeof_pool_buffer_header (pl_alignment P))
        div pl_bucket_size P * pl_bucket_size P - pl_bucket_size P = last_bucket"
    using pool_geom_offset [OF assms(2)] by (simp add: assms(3) k algebra_simps)
  have "pool_buffer_freelist_add P 0 w = Inl (Segv last_bucket)"
    unfolding pool_buffer_freelist_add_def Let_def if_not_P [OF B]
    using assms(4) by (subst freelist_add_loop.simps) (simp add: Let_def last store64_unmapped)
  then show ?thesis
    by (simp add: cia_pool_create_def allocator_defs assms(1))
qed

section \<open>Witnesses\<close>

text \<open>A pool of 16-byte buckets in 64-byte buffers: three buckets per buffer.\<close>

definition example_pool :: "addr Cia_Pool" where
  "example_pool = \<lparr>pl_allocator = cia_allocator_pages bump_kernel, pl_first = 0x10000,
     pl_freelist_head = 0x10008, pl_buffer_size = 64, pl_bucket_size = 16, pl_alignment = 8\<rparr>"

lemma example_pool_header: "pool_header example_pool = 8" "pool_count example_pool = 3"
  by (simp_all add: example_pool_def pool_header_def pool_count_def cia_size_alignf_def
      sizeof_pool_buffer_header_def)

lemma is_pow2_8: "is_pow2 8"
  by (auto simp: is_pow2_def intro: exI [of _ 3])

lemma example_pool_geom: "pool_geom example_pool"
  by (simp add: pool_geom_def example_pool_header)
    (simp add: example_pool_def is_pow2_8 fits_def)

lemma example_pool_create:
  obtains w where "cia_pool_create (cia_allocator_pages bump_kernel) 64 16 8 bump_start = Inr (example_pool, w)"
proof -
  let ?P = "example_pool\<lparr>pl_freelist_head := 0\<rparr>"
  obtain w1 where a: "cia_allocator_alloc (cia_allocator_pages bump_kernel) 64 8 bump_start = Inr (0x10000, w1)"
    "mem w1 = (\<lambda>x. if in_range x 0x10000 4096 then Some 0 else None)"
    by (simp add: allocator_defs rt_mem_alloc_eq [OF bump_kernel_mmap_documented] bump_start_mmap)
  have "buffer_ok ?P 0x10000 (mem w1)"
    by (auto simp: buffer_ok_def a(2) mapped_def example_pool_def in_range_def)
  from pool_buffer_freelist_add_eq [OF _ this] example_pool_geom
  obtain w where w: "pool_buffer_freelist_add ?P 0x10000 w1 =
      Inr (?P\<lparr>pl_freelist_head := hd (pool_buckets ?P 0x10000)\<rparr>, w)"
    by simp
  moreover have "hd (pool_buckets ?P 0x10000) = 0x10008"
    by (simp add: pool_buckets_def buckets_def pool_header_def pool_count_def cia_size_alignf_def
        sizeof_pool_buffer_header_def example_pool_def upt_rec)
  moreover have "?P\<lparr>pl_freelist_head := 0x10008\<rparr> = example_pool" by (simp add: example_pool_def)
  moreover have "?P = \<lparr>pl_allocator = cia_allocator_pages bump_kernel, pl_first = 0x10000,
      pl_freelist_head = 0, pl_buffer_size = 64, pl_bucket_size = pool_bucket_size 16 8, pl_alignment = 8\<rparr>"
    by (simp add: example_pool_def pool_bucket_size_def sizeof_pool_bucket_def cia_size_alignf_def)
  ultimately show thesis using that a(1) by (simp add: cia_pool_create_def)
qed

lemma example_pool_not_failed: "\<not> alloc_failed (pl_first example_pool)"
  by (simp add: example_pool_def alloc_failed_def errno_result_def page_size_def)

lemma example_pool_run:
  obtains w where "pool_run bump_kernel example_pool w {}" "growth_granted example_pool w"
proof -
  obtain w where c: "cia_pool_create (cia_allocator_pages bump_kernel) 64 16 8 bump_start = Inr (example_pool, w)"
    by (rule example_pool_create)
  have "pl_freelist_head example_pool \<noteq> 0" by (simp add: example_pool_def)
  then have "growth_granted example_pool w" by (simp add: growth_granted_def)
  with that pool_run.create [OF c example_pool_geom example_pool_not_failed] show thesis by blast
qed

theorem cia_pool_create_free_list_witness:
  "\<exists>w. cia_pool_create (cia_allocator_pages bump_kernel) 64 16 8 bump_start = Inr (example_pool, w)
     \<and> freelist (mem w) 0x10008 [0x10008, 0x10018, 0x10028]"
proof -
  obtain w where c: "cia_pool_create (cia_allocator_pages bump_kernel) 64 16 8 bump_start = Inr (example_pool, w)"
    by (rule example_pool_create)
  have "freelist (mem w) (pl_freelist_head example_pool)
      (map (\<lambda>i. pl_first example_pool + of_nat (8 + i * unat (pl_bucket_size example_pool))) [0..<3])"
    using cia_pool_create_free_list [OF bump_kernel_mmap_documented c example_pool_geom example_pool_not_failed]
    unfolding example_pool_header by blast
  with c show ?thesis by (simp add: example_pool_def upt_rec)
qed

theorem cia_pool_alloc_fresh_witness:
  "\<exists>w b P' w'. pool_run bump_kernel example_pool w {} \<and> cia_pool_alloc example_pool w = Inr (b, P', w')"
proof -
  obtain w where r: "pool_run bump_kernel example_pool w {}" "growth_granted example_pool w"
    by (rule example_pool_run)
  from cia_pool_alloc_fresh [OF bump_kernel_mmap_documented r] r(1) show ?thesis by blast
qed

lemma example_pool_take:
  obtains w w' b P' where "pool_run bump_kernel P' w' {b}"
    "cia_pool_alloc example_pool w = Inr (b, P', w')" "b = 0x10008"
proof -
  obtain w where r: "pool_run bump_kernel example_pool w {}" "growth_granted example_pool w"
    by (rule example_pool_run)
  obtain F where "pool_inv bump_kernel example_pool w F {}"
    using pool_run_inv [OF bump_kernel_mmap_documented r(1)] by blast
  then obtain b P' w' where a: "cia_pool_alloc example_pool w = Inr (b, P', w')"
    using pool_inv_alloc [OF bump_kernel_mmap_documented _ r(2)] by metis
  then have "b = 0x10008"
    by (auto simp: cia_pool_alloc_def pool_grow_def example_pool_def res_simps)
  with that pool_run.take [OF r a] a show thesis by blast
qed

theorem cia_pool_live_buckets_apart_witness:
  "\<exists>P w. pool_run bump_kernel P w {0x10008} \<and> mapped (mem w) 0x10008 (unat (pl_bucket_size P))"
proof -
  obtain w w' b P' where r: "pool_run bump_kernel P' w' {b}" "b = 0x10008"
    by (rule example_pool_take)
  from cia_pool_live_buckets_apart [OF bump_kernel_mmap_documented r(1)] r show ?thesis by auto
qed

theorem cia_pool_free_then_alloc_witness:
  "\<exists>P w P' w'. pool_run bump_kernel P w {0x10008} \<and> cia_pool_free P 0x10008 w = Inr (P', w')
     \<and> cia_pool_alloc P' w' = Inr (0x10008, P, w')"
proof -
  obtain w w' b P' where r: "pool_run bump_kernel P' w' {b}" "b = 0x10008"
    by (rule example_pool_take)
  from cia_pool_free_then_alloc [OF bump_kernel_mmap_documented r(1), of b] r show ?thesis by blast
qed

theorem cia_pool_free_all_keeps_memory_witness:
  "\<exists>P w P' w'. pool_run bump_kernel P w {0x10008} \<and> cia_pool_free_all P w = Inr (P', w')
     \<and> os w' = os w"
proof -
  obtain w w' b P' where r: "pool_run bump_kernel P' w' {b}" "b = 0x10008"
    by (rule example_pool_take)
  from cia_pool_free_all_keeps_memory [OF bump_kernel_mmap_documented r(1)] r show ?thesis by blast
qed

theorem cia_pool_destroy_faults_witness:
  "\<exists>w. pool_run bump_kernel example_pool w {} \<and> cia_pool_destroy example_pool w = Inl (Segv 0x10000)"
proof -
  obtain w where r: "pool_run bump_kernel example_pool w {}" by (rule example_pool_run)
  have "page_size dvd unat (pl_first example_pool)"
    by (simp add: example_pool_def page_size_def)
  from cia_pool_destroy_faults [OF bump_kernel_mmap_documented bump_kernel_munmap_documented r this]
  have "cia_pool_destroy example_pool w = Inl (Segv (pl_first example_pool))"
    by (simp add: sys_munmap_def syscall_def bump_kernel_def sys_consts)
  with r show ?thesis by (auto simp: example_pool_def)
qed

theorem cia_pool_create_unchecked_witness:
  "cia_pool_create cia_allocator_null 64 16 8 \<lparr>mem = Map.empty, os = ()\<rparr> = Inl (Segv 40)"
proof -
  let ?P = "\<lparr>pl_allocator = cia_allocator_null :: unit Cia_Allocator, pl_first = 0, pl_freelist_head = 0,
    pl_buffer_size = 64, pl_bucket_size = pool_bucket_size 16 8, pl_alignment = 8\<rparr>"
  have b: "pool_bucket_size 16 8 = 16"
    by (simp add: pool_bucket_size_def sizeof_pool_bucket_def cia_size_alignf_def)
  have h: "pool_header ?P = 8" "pool_count ?P = 3"
    by (simp_all add: b pool_header_def pool_count_def cia_size_alignf_def sizeof_pool_buffer_header_def)
  have "pool_geom ?P" using h by (simp add: pool_geom_def b is_pow2_8 fits_def)
  from cia_pool_create_unchecked [OF refl this refl, of "\<lparr>mem = Map.empty, os = ()\<rparr>"]
  show ?thesis using h by (simp add: b)
qed

end
