(* ===== verification/Pool_Stack.thy ===== *)
theory Pool_Stack
  imports Pool_Run "HOL-Library.Multiset"
begin

text \<open>
  A pool against its abstract specification: a stack of free buckets and a list of held buckets with the
  bytes their holder last wrote.  A script of requests is served by the code exactly as by the stack; it stops
  early only at an allocation that needs a new buffer which the kernel refuses.
\<close>

section \<open>Serving a script\<close>

text \<open>A script of requests, served until one of them is not ready; the rest is returned.\<close>

fun serve :: "('q \<Rightarrow> 'c \<Rightarrow> bool) \<Rightarrow> ('q \<Rightarrow> 'c \<Rightarrow> 'c res) \<Rightarrow> 'q list \<Rightarrow> 'c \<Rightarrow> ('q list \<times> 'c) res" where
  "serve ready step [] c = Inr ([], c)"
| "serve ready step (q # qs) c =
     (if ready q c then bind_res (step q c) (serve ready step qs) else Inr (q # qs, c))"

fun spec_run :: "('q \<Rightarrow> 'a \<Rightarrow> 'a \<Rightarrow> bool) \<Rightarrow> 'q list \<Rightarrow> 'a \<Rightarrow> 'a \<Rightarrow> bool" where
  "spec_run spec [] s t = (s = t)"
| "spec_run spec (q # qs) s t = (\<exists>u. spec q s u \<and> spec_run spec qs u t)"

text \<open>Forward simulation: a step that is ready and allowed does what the specification says, and no trap occurs.\<close>

locale forward_simulation =
  fixes rep :: "'c \<Rightarrow> 'a \<Rightarrow> bool" and ready :: "'q \<Rightarrow> 'c \<Rightarrow> bool" and step :: "'q \<Rightarrow> 'c \<Rightarrow> 'c res"
    and spec :: "'q \<Rightarrow> 'a \<Rightarrow> 'a \<Rightarrow> bool" and ok :: "'q list \<Rightarrow> 'a \<Rightarrow> bool"
  assumes simulates: "rep c s \<Longrightarrow> ready q c \<Longrightarrow> ok (q # qs) s \<Longrightarrow> \<exists>c' s'. step q c = Inr c' \<and> spec q s s' \<and> rep c' s'"
    and ok_step: "ok (q # qs) s \<Longrightarrow> spec q s s' \<Longrightarrow> ok qs s'"
begin

lemma serve_refines:
  "rep c s \<Longrightarrow> ok qs s \<Longrightarrow> \<exists>served rest c' s'. serve ready step qs c = Inr (rest, c') \<and> qs = served @ rest
     \<and> spec_run spec served s s' \<and> rep c' s' \<and> (case rest of [] \<Rightarrow> True | q # _ \<Rightarrow> \<not> ready q c')"
proof (induction qs arbitrary: c s)
  case Nil
  then show ?case by auto
next
  case (Cons q qs)
  show ?case
  proof (cases "ready q c")
    case True
    obtain c1 s1 where 1: "step q c = Inr c1" "spec q s s1" "rep c1 s1"
      using simulates [OF Cons.prems(1) True Cons.prems(2)] by blast
    obtain served rest c' s' where "serve ready step qs c1 = Inr (rest, c')" "qs = served @ rest"
        "spec_run spec served s1 s'" "rep c' s'" "case rest of [] \<Rightarrow> True | q # _ \<Rightarrow> \<not> ready q c'"
      using Cons.IH [OF 1(3) ok_step [OF Cons.prems(2) 1(2)]] by blast
    with 1 True show ?thesis by (intro exI [of _ "q # served"] exI [of _ rest] exI [of _ c'] exI [of _ s']) auto
  next
    case False
    with Cons.prems(1) show ?thesis by (intro exI [of _ "[]"] exI [of _ "q # qs"] exI [of _ c] exI [of _ s]) auto
  qed
qed

end

section \<open>Serving requests, abstractly\<close>

text \<open>Held buckets are named by their position in the list of held buckets.\<close>

datatype request = Take | Give nat | Fill nat "u8 list"

fun requests_ok :: "nat \<Rightarrow> nat \<Rightarrow> request list \<Rightarrow> bool" where
  "requests_ok n held [] = True"
| "requests_ok n held (Take # qs) = requests_ok n (Suc held) qs"
| "requests_ok n held (Give i # qs) = (i < held \<and> requests_ok n (held - 1) qs)"
| "requests_ok n held (Fill i bs # qs) = (i < held \<and> length bs \<le> n \<and> requests_ok n held qs)"

definition drop_nth :: "nat \<Rightarrow> 'a list \<Rightarrow> 'a list" where
  "drop_nth i xs = take i xs @ drop (Suc i) xs"

text \<open>
  The stack: the free buckets, the held ones with their contents, and the number of buffers.  A new buffer
  brings \<open>k\<close> buckets that are not in use.
\<close>

record bucket_stack =
  bk_free :: "addr list"
  bk_held :: "(addr \<times> u8 list) list"
  bk_buffers :: nat

inductive stack_step :: "nat \<Rightarrow> request \<Rightarrow> bucket_stack \<Rightarrow> bucket_stack \<Rightarrow> bool" for k where
  pop: "bk_free s = b # F \<Longrightarrow> stack_step k Take s (s\<lparr>bk_free := F, bk_held := bk_held s @ [(b, [])]\<rparr>)"
| grow: "bk_free s = [] \<Longrightarrow> length (b # F) = k \<Longrightarrow> distinct (b # F) \<Longrightarrow>
    set (b # F) \<inter> fst ` set (bk_held s) = {} \<Longrightarrow>
    stack_step k Take s
      (s\<lparr>bk_free := F, bk_held := bk_held s @ [(b, [])], bk_buffers := Suc (bk_buffers s)\<rparr>)"
| push: "i < length (bk_held s) \<Longrightarrow> stack_step k (Give i) s
    (s\<lparr>bk_free := fst (bk_held s ! i) # bk_free s, bk_held := drop_nth i (bk_held s)\<rparr>)"
| fill: "i < length (bk_held s) \<Longrightarrow> stack_step k (Fill i bs) s
    (s\<lparr>bk_held := (bk_held s)[i := (fst (bk_held s ! i), bs)]\<rparr>)"

inductive_cases stack_takeE: "stack_step k Take s s'"
inductive_cases stack_giveE: "stack_step k (Give i) s s'"
inductive_cases stack_fillE: "stack_step k (Fill i bs) s s'"

lemma length_drop_nth [simp]: "i < length xs \<Longrightarrow> length (drop_nth i xs) = length xs - 1"
  by (auto simp: drop_nth_def)

lemma mset_drop_nth: "i < length xs \<Longrightarrow> add_mset (xs ! i) (mset (drop_nth i xs)) = mset xs"
  by (subst (3) id_take_nth_drop [of i xs]) (simp_all add: drop_nth_def)

lemma map_drop_nth: "map f (drop_nth i xs) = drop_nth i (map f xs)"
  by (simp add: drop_nth_def take_map drop_map)

text \<open>No bucket is lost or handed out twice.\<close>

definition stack_sound :: "nat \<Rightarrow> bucket_stack \<Rightarrow> bool" where
  "stack_sound k s \<longleftrightarrow> distinct (bk_free s @ map fst (bk_held s))
     \<and> length (bk_free s) + length (bk_held s) = bk_buffers s * k"

lemma mset_distinct: "distinct xs \<Longrightarrow> mset xs = mset ys \<Longrightarrow> distinct ys"
  by (metis mset_eq_imp_distinct_iff)

lemma stack_step_sound:
  assumes "stack_step k q s t" "stack_sound k s"
  shows "stack_sound k t"
  using assms
proof (induction rule: stack_step.induct)
  case (push i s)
  let ?H = "map fst (bk_held s)"
  have "mset (bk_free s @ ?H) = mset (?H ! i # bk_free s @ drop_nth i ?H)"
    using mset_drop_nth [of i ?H] push(1) by simp
  then have d: "distinct (?H ! i # bk_free s @ drop_nth i ?H)"
    by (rule mset_distinct [rotated]) (use push(2) in \<open>simp add: stack_sound_def\<close>)
  show ?case
    unfolding stack_sound_def
  proof
    show "distinct (bk_free (s\<lparr>bk_free := fst (bk_held s ! i) # bk_free s, bk_held := drop_nth i (bk_held s)\<rparr>)
        @ map fst (bk_held (s\<lparr>bk_free := fst (bk_held s ! i) # bk_free s, bk_held := drop_nth i (bk_held s)\<rparr>)))"
      using d push(1) by (simp add: map_drop_nth)
  qed (use push in \<open>auto simp: stack_sound_def\<close>)
next
  case (fill i s bs)
  moreover have "map fst ((bk_held s)[i := (fst (bk_held s ! i), bs)]) = map fst (bk_held s)"
    using list_update_id [of "map fst (bk_held s)" i] fill(1) by (simp add: map_update)
  ultimately show ?case by (simp add: stack_sound_def)
qed (auto simp: stack_sound_def)

lemma stack_run_sound: "spec_run (stack_step k) qs s t \<Longrightarrow> stack_sound k s \<Longrightarrow> stack_sound k t"
  by (induction qs arbitrary: s) (auto dest: stack_step_sound)

section \<open>Serving requests with the code\<close>

type_synonym 'k pool_client = "'k Cia_Pool \<times> 'k world \<times> addr list"

text \<open>One request; a store is what the holder of a bucket does with it.\<close>

fun pool_request :: "request \<Rightarrow> 'k pool_client \<Rightarrow> 'k pool_client res" where
  "pool_request Take (P, w, held) = bind_res (cia_pool_alloc P w) (\<lambda>(b, P, w). Inr (P, w, held @ [b]))"
| "pool_request (Give i) (P, w, held) =
     bind_res (cia_pool_free P (held ! i) w) (\<lambda>(P, w). Inr (P, w, drop_nth i held))"
| "pool_request (Fill i bs) (P, w, held) =
     bind_res (store_bytes (mem w) (held ! i) bs) (\<lambda>m. Inr (P, w\<lparr>mem := m\<rparr>, held))"

text \<open>The memory that an allocation may need is granted.\<close>

definition pool_ready :: "request \<Rightarrow> 'k pool_client \<Rightarrow> bool" where
  "pool_ready q c = (case c of (P, w, held) \<Rightarrow> q = Take \<longrightarrow> growth_granted P w)"

section \<open>Simulation\<close>

text \<open>The pool represents the stack.\<close>

definition pool_rep :: "'k kernel \<Rightarrow> nat \<Rightarrow> nat \<Rightarrow> 'k pool_client \<Rightarrow> bucket_stack \<Rightarrow> bool" where
  "pool_rep K n k c s \<longleftrightarrow> (case c of (P, w, held) \<Rightarrow>
     pool_inv K P w (bk_free s) (set held) \<and> held = map fst (bk_held s) \<and> stack_sound k s
     \<and> unat (pl_bucket_size P) = n \<and> pool_count P = k
     \<and> (\<forall>(b, bs)\<in>set (bk_held s). length bs \<le> n \<and> peek (mem w) b (length bs) = bs))"


lemma peek_0 [simp]: "peek m a 0 = []"
  by (simp add: peek_def)

lemma pool_count_head [simp]: "pool_count (P\<lparr>pl_freelist_head := h\<rparr>) = pool_count P"
  by (simp add: pool_count_def pool_header_def)

lemma pool_inv_grow:
  assumes "mmap_documented K" "pool_inv K P w [] L" "growth_granted P w"
  obtains p h w' where "pool_grow P w = Inr (P\<lparr>pl_freelist_head := h\<rparr>, w')" "h \<noteq> 0"
    "pool_inv K (P\<lparr>pl_freelist_head := h\<rparr>) w' (pool_buckets P p) L" "\<And>x. mem w x \<noteq> None \<Longrightarrow> mem w' x = mem w x"
proof -
  have ok: "pool_ok P (mem w) [] L" "header_ok P (mem w) L" "pl_allocator P = cia_allocator_pages K"
    using assms(2) by (simp_all add: pool_inv_def)
  obtain p P' w' where r: "pool_grow P w = Inr (P', w')" "pool_ok P' (mem w') (pool_buckets P p) L"
      "header_ok P' (mem w') (set (pool_buckets P p) \<union> L)" "P' = P\<lparr>pl_freelist_head := hd (pool_buckets P p)\<rparr>"
      "\<And>x. mem w x \<noteq> None \<Longrightarrow> mem w' x = mem w x"
    by (rule pages.pool_grow_empty [OF assms(1) ok(3,1) assms(3) ok(2)]) (rule that)
  have i: "pool_inv K P' w' (pool_buckets P p) L" using r(2-4) ok(3) by (simp add: pool_inv_def)
  have "pool_buckets P p \<noteq> []"
    using pool_geom_count(1) [OF pool_ok_geom [OF ok(1)]] by (simp add: pool_buckets_def buckets_def)
  then have "hd (pool_buckets P p) \<noteq> 0" using r(2,4) by (cases "pool_buckets P p") (auto simp: pool_ok_def)
  from that [OF r(1) [unfolded r(4)] this i [unfolded r(4)] r(5)] show thesis .
qed

lemma pool_alloc_after_grow:
  "pool_grow P w = Inr (P', w') \<Longrightarrow> pl_freelist_head P' \<noteq> 0 \<Longrightarrow> cia_pool_alloc P w = cia_pool_alloc P' w'"
  by (simp add: cia_pool_alloc_def pool_grow_def)

lemma pool_rep_contents:
  assumes "pool_inv K P w F (set held)" "b \<in> set held" "\<And>x. mem w x \<noteq> None \<Longrightarrow> mem w' x = mem w x"
    and "n \<le> unat (pl_bucket_size P)"
  shows "peek (mem w') b n = peek (mem w) b n"
proof (rule peek_cong)
  have m: "mapped (mem w) b (unat (pl_bucket_size P))" using assms(1,2) by (simp add: pool_inv_def pool_ok_def bucket_ok_def)
  show "mem w' x = mem w x" if "in_range x b n" for x
    using assms(3) [of x] mappedD [OF m in_range_mono [OF that assms(4)]] by simp
  show "n \<le> 2 ^ 64" using assms(4) less_imp_le [OF unat_less_u64, of "pl_bucket_size P"] by simp
qed

lemma pool_rep_take:
  assumes "mmap_documented K" "pool_rep K n k (P, w, held) s" "growth_granted P w"
  obtains c' s' where "pool_request Take (P, w, held) = Inr c'" "stack_step k Take s s'" "pool_rep K n k c' s'"
proof -
  have i: "pool_inv K P w (bk_free s) (set held)" and h: "held = map fst (bk_held s)" and sd: "stack_sound k s"
    and g: "unat (pl_bucket_size P) = n" "pool_count P = k"
    and c: "\<And>b bs. (b, bs) \<in> set (bk_held s) \<Longrightarrow> length bs \<le> n \<and> peek (mem w) b (length bs) = bs"
    using assms(2) by (auto simp: pool_rep_def)
  show thesis
  proof (cases "bk_free s")
    case (Cons b F)
    obtain q where q: "cia_pool_alloc P w = Inr (b, P\<lparr>pl_freelist_head := q\<rparr>, w)"
        "pool_inv K (P\<lparr>pl_freelist_head := q\<rparr>) w F (insert b (set held))"
      by (rule pool_inv_take [OF i [unfolded Cons]]) (rule that)
    note step = stack_step.pop [OF Cons, of k]
    have "pool_rep K n k (P\<lparr>pl_freelist_head := q\<rparr>, w, held @ [b]) (s\<lparr>bk_free := F, bk_held := bk_held s @ [(b, [])]\<rparr>)"
      using q(2) h g c stack_step_sound [OF step sd] by (auto simp: pool_rep_def)
    with that [OF _ step] q(1) show thesis by simp
  next
    case Nil
    obtain p h' w' where r: "pool_grow P w = Inr (P\<lparr>pl_freelist_head := h'\<rparr>, w')" "h' \<noteq> 0"
        "pool_inv K (P\<lparr>pl_freelist_head := h'\<rparr>) w' (pool_buckets P p) (set held)" "\<And>x. mem w x \<noteq> None \<Longrightarrow> mem w' x = mem w x"
      by (rule pool_inv_grow [OF assms(1) i [unfolded Nil] assms(3)]) (rule that)
    have len: "length (pool_buckets P p) = k" "0 < k"
      using g(2) pool_geom_count(1) [of P] i by (auto simp: pool_buckets_def buckets_def pool_inv_def pool_ok_def)
    then obtain b F where bF: "pool_buckets P p = b # F" by (cases "pool_buckets P p") auto
    have fresh: "distinct (b # F)" "set (b # F) \<inter> fst ` set (bk_held s) = {}"
      using r(3) h by (auto simp: bF pool_inv_def pool_ok_def)
    obtain q where q: "cia_pool_alloc (P\<lparr>pl_freelist_head := h'\<rparr>) w' = Inr (b, P\<lparr>pl_freelist_head := q\<rparr>, w')"
        "pool_inv K (P\<lparr>pl_freelist_head := q\<rparr>) w' F (insert b (set held))"
      by (rule pool_inv_take [OF r(3) [unfolded bF]]) (rule that, simp_all)
    have a: "cia_pool_alloc P w = Inr (b, P\<lparr>pl_freelist_head := q\<rparr>, w')"
      using pool_alloc_after_grow [OF r(1)] r(2) q(1) by simp
    note step = stack_step.grow [OF Nil len(1) [unfolded bF] fresh]
    have "peek (mem w') d (length bs) = peek (mem w) d (length bs)" if "(d, bs) \<in> set (bk_held s)" for d bs
      using pool_rep_contents [OF i _ r(4), of d "length bs"] that h g c by force
    then have "pool_rep K n k (P\<lparr>pl_freelist_head := q\<rparr>, w', held @ [b])
        (s\<lparr>bk_free := F, bk_held := bk_held s @ [(b, [])], bk_buffers := Suc (bk_buffers s)\<rparr>)"
      using q(2) h g c stack_step_sound [OF step sd] by (auto simp: pool_rep_def)
    with that [OF _ step] a show thesis by simp
  qed
qed


lemma set_drop_nth: "distinct xs \<Longrightarrow> i < length xs \<Longrightarrow> set (drop_nth i xs) = set xs - {xs ! i}"
  by (subst (2) id_take_nth_drop [of i xs], simp, subst (asm) id_take_nth_drop [of i xs]) (auto simp: drop_nth_def)

text \<open>Held buckets are disjoint.\<close>

lemma pool_inv_apart:
  "pool_inv K P w F L \<Longrightarrow> b \<in> L \<Longrightarrow> c \<in> L \<Longrightarrow> b \<noteq> c \<Longrightarrow> i \<le> unat (pl_bucket_size P) \<Longrightarrow> j \<le> unat (pl_bucket_size P) \<Longrightarrow>
   disj_range b i c j"
  by (rule disj_range_mono [OF cells_apartD [of "set F \<union> L" "unat (pl_bucket_size P)"]]) (simp_all add: pool_inv_def pool_ok_def)

lemma pool_rep_give:
  assumes "pool_rep K n k (P, w, held) s" "i < length held"
  obtains c' s' where "pool_request (Give i) (P, w, held) = Inr c'" "stack_step k (Give i) s s'" "pool_rep K n k c' s'"
proof -
  have r: "pool_inv K P w (bk_free s) (set held)" and h: "held = map fst (bk_held s)" and sd: "stack_sound k s"
    and g: "unat (pl_bucket_size P) = n" "pool_count P = k"
    and c: "\<And>b bs. (b, bs) \<in> set (bk_held s) \<Longrightarrow> length bs \<le> n \<and> peek (mem w) b (length bs) = bs"
    using assms(1) by (auto simp: pool_rep_def)
  let ?b = "held ! i"
  let ?P = "P\<lparr>pl_freelist_head := ?b\<rparr>" and ?w = "w\<lparr>mem := poke (mem w) ?b (le_bytes 8 (pl_freelist_head P))\<rparr>"
  have b: "?b \<in> set held" using assms(2) by simp
  note f = pool_inv_free [OF r b]
  have i: "i < length (bk_held s)" "?b = fst (bk_held s ! i)" using assms(2) h by simp_all
  have d: "distinct held" using sd by (simp add: stack_sound_def h)
  note step = stack_step.push [OF i(1), of k]
  have rest: "set (drop_nth i held) = set held - {?b}" by (rule set_drop_nth [OF d assms(2)])
  have n8: "8 \<le> unat (pl_bucket_size P)" using r by (simp add: pool_inv_def pool_ok_def pool_geom_def)
  have keep: "length bs \<le> n \<and> peek (mem ?w) a (length bs) = bs" if "(a, bs) \<in> set (drop_nth i (bk_held s))" for a bs
  proof -
    have "a \<in> set (drop_nth i held)" using that by (force simp: h map_drop_nth [symmetric])
    then have a: "a \<in> set held" "?b \<noteq> a" by (auto simp: rest)
    have e: "(a, bs) \<in> set (bk_held s)" using that by (auto simp: drop_nth_def dest: in_set_takeD in_set_dropD)
    have "disj_range ?b 8 a (length bs)" using pool_inv_apart [OF r b a n8] c [OF e] g(1) by simp
    moreover have "length bs \<le> 2 ^ 64" using c [OF e] g(1) less_imp_le [OF unat_less_u64, of "pl_bucket_size P"] by simp
    ultimately show ?thesis using c [OF e] by (simp add: peek_poke_disj)
  qed
  have "pool_rep K n k (?P, ?w, drop_nth i held)
      (s\<lparr>bk_free := fst (bk_held s ! i) # bk_free s, bk_held := drop_nth i (bk_held s)\<rparr>)"
    using f(2) g keep stack_step_sound [OF step sd] rest i(2)
    by (auto simp: pool_rep_def map_drop_nth h [symmetric])
  with that [OF _ step] f(1) show thesis by simp
qed

lemma pool_rep_fill:
  assumes "pool_rep K n k (P, w, held) s" "i < length held" "length bs \<le> n"
  obtains c' s' where "pool_request (Fill i bs) (P, w, held) = Inr c'" "stack_step k (Fill i bs) s s'" "pool_rep K n k c' s'"
proof -
  have r: "pool_inv K P w (bk_free s) (set held)" and h: "held = map fst (bk_held s)" and sd: "stack_sound k s"
    and g: "unat (pl_bucket_size P) = n" "pool_count P = k"
    and c: "\<And>b bs. (b, bs) \<in> set (bk_held s) \<Longrightarrow> length bs \<le> n \<and> peek (mem w) b (length bs) = bs"
    using assms(1) by (auto simp: pool_rep_def)
  let ?b = "held ! i"
  let ?w = "w\<lparr>mem := poke (mem w) ?b bs\<rparr>" and ?H = "(bk_held s)[i := (fst (bk_held s ! i), bs)]"
  have b: "?b \<in> set held" using assms(2) by simp
  have i: "i < length (bk_held s)" "?b = fst (bk_held s ! i)" using assms(2) h by simp_all
  have n64: "n \<le> 2 ^ 64" using g(1) less_imp_le [OF unat_less_u64, of "pl_bucket_size P"] by simp
  have "mapped (mem w) ?b n" using r b g(1) by (simp add: pool_inv_def pool_ok_def bucket_ok_def)
  then have st: "store_bytes (mem w) ?b bs = Inr (poke (mem w) ?b bs)"
    using assms(3) n64 by (intro store_bytes_mapped) (auto intro: mapped_mono)
  have inv: "pool_inv K P ?w (bk_free s) (set held)"
    using in_range_mono [of _ ?b "length bs" n] assms(3) n64 g(1) by (intro pool_inv_use [OF r b st]) auto
  note step = stack_step.fill [OF i(1), of k bs]
  have names: "map fst ?H = held" using list_update_id [of held i] h i by (simp add: map_update)
  have d: "distinct held" using sd by (simp add: stack_sound_def h)
  have keep: "length as \<le> n \<and> peek (mem ?w) a (length as) = as" if e: "(a, as) \<in> set ?H" for a as
  proof -
    from e obtain j where j: "j < length ?H" "?H ! j = (a, as)" by (auto simp: in_set_conv_nth)
    show ?thesis
    proof (cases "j = i")
      case True
      then show ?thesis using j i assms(3) n64 by (simp add: peek_poke_same)
    next
      case False
      then have e: "(a, as) \<in> set (bk_held s)" "a = held ! j" using j i h nth_mem [of j "bk_held s"] by auto
      have "j < length held" using j(1) h by simp
      then have "a \<noteq> ?b" using False d assms(2) e(2) by (simp add: nth_eq_iff_index_eq)
      moreover have "a \<in> set held" using e(1) h by force
      ultimately have "disj_range ?b (length bs) a (length as)"
        using pool_inv_apart [OF r b, of a "length bs" "length as"] c [OF e(1)] g(1) assms(3) by simp
      then show ?thesis using c [OF e(1)] n64 by (simp add: peek_poke_disj)
    qed
  qed
  have "pool_rep K n k (P, ?w, held) (s\<lparr>bk_held := ?H\<rparr>)"
    using inv g keep stack_step_sound [OF step sd] names by (auto simp: pool_rep_def)
  with that [OF _ step] st show thesis by simp
qed


definition stack_ok :: "nat \<Rightarrow> request list \<Rightarrow> bucket_stack \<Rightarrow> bool" where
  "stack_ok n qs s \<longleftrightarrow> requests_ok n (length (bk_held s)) qs"

lemma pool_rep_length: "pool_rep K n k (P, w, held) s \<Longrightarrow> length held = length (bk_held s)"
  by (simp add: pool_rep_def)

interpretation pool_client:
  forward_simulation "\<lambda>c s. mmap_documented K \<and> pool_rep K n k c s" pool_ready pool_request "stack_step k" "stack_ok n"
  for K n k
proof unfold_locales
  fix c s q qs
  assume r: "mmap_documented K \<and> pool_rep K n k c s" and a: "pool_ready q c" and o: "stack_ok n (q # qs) s"
  obtain P w held where c: "c = (P, w, held)" by (cases c)
  have r': "pool_rep K n k (P, w, held) s" using r c by simp
  note len = pool_rep_length [OF r']
  show "\<exists>c' s'. pool_request q c = Inr c' \<and> stack_step k q s s' \<and> mmap_documented K \<and> pool_rep K n k c' s'"
  proof (cases q)
    case Take
    then have "growth_granted P w" using a c by (simp add: pool_ready_def)
    from pool_rep_take [OF conjunct1 [OF r] r' this] r show ?thesis by (metis Take c)
  next
    case (Give i)
    then have "i < length held" using o len by (simp add: stack_ok_def)
    from pool_rep_give [OF r' this] r show ?thesis by (metis Give c)
  next
    case (Fill i bs)
    then have "i < length held" "length bs \<le> n" using o len by (simp_all add: stack_ok_def)
    from pool_rep_fill [OF r' this] r show ?thesis by (metis Fill c)
  qed
next
  fix q qs s s'
  assume "stack_ok n (q # qs) s" "stack_step k q s s'"
  then show "stack_ok n qs s'"
    by (cases q) (auto simp: stack_ok_def elim: stack_takeE stack_giveE stack_fillE)
qed

section \<open>Properties\<close>

text \<open>C4: a pool is a stack of buckets.  A script of allocations, returns and stores, started on a new pool, is
  served without a trap exactly as the stack serves it, up to an allocation whose growth the kernel
  refuses: the code returns the buckets that the stack returns, every held bucket contains what was last written to it,
  no bucket is in use twice, and free and held buckets are together all that the buffers have.\<close>

theorem cia_pool_refines_stack:
  assumes "mmap_documented K" "cia_pool_create (cia_allocator_pages K) bsz bks al w0 = Inr (P, w)"
    and "pool_geom P" "\<not> alloc_failed (pl_first P)" "requests_ok (unat (pl_bucket_size P)) 0 qs"
  shows "\<exists>served rest P' w' held t. serve pool_ready pool_request qs (P, w, []) = Inr (rest, P', w', held)
    \<and> qs = served @ rest \<and> (case rest of [] \<Rightarrow> True | q # _ \<Rightarrow> q = Take \<and> \<not> growth_granted P' w')
    \<and> spec_run (stack_step (pool_count P)) served
        \<lparr>bk_free = pool_buckets P (pl_first P), bk_held = [], bk_buffers = 1\<rparr> t
    \<and> held = map fst (bk_held t) \<and> freelist (mem w') (pl_freelist_head P') (bk_free t)
    \<and> (\<forall>(b, bs)\<in>set (bk_held t). peek (mem w') b (length bs) = bs)
    \<and> distinct (bk_free t @ held) \<and> length (bk_free t) + length held = bk_buffers t * pool_count P"
proof -
  let ?n = "unat (pl_bucket_size P)" and ?k = "pool_count P"
  let ?s = "\<lparr>bk_free = pool_buckets P (pl_first P), bk_held = [], bk_buffers = 1\<rparr>"
  have i: "pool_inv K P w (pool_buckets P (pl_first P)) {}" by (rule pool_inv_create [OF assms(1-4)])
  then have "pool_rep K ?n ?k (P, w, []) ?s"
    by (auto simp: pool_rep_def stack_sound_def pool_inv_def pool_ok_def) (simp_all add: pool_buckets_def buckets_def)
  with assms(1,5) obtain served rest c' t where r: "serve pool_ready pool_request qs (P, w, []) = Inr (rest, c')"
      "qs = served @ rest" "spec_run (stack_step ?k) served ?s t" "pool_rep K ?n ?k c' t"
      "case rest of [] \<Rightarrow> True | q # _ \<Rightarrow> \<not> pool_ready q c'"
    using pool_client.serve_refines [of K ?n ?k "(P, w, [])" ?s qs] by (auto simp: stack_ok_def)
  obtain P' w' held where c: "c' = (P', w', held)" by (cases c')
  show ?thesis
    using r unfolding c
    by (intro exI [of _ served] exI [of _ rest] exI [of _ P'] exI [of _ w'] exI [of _ held] exI [of _ t])
      (auto simp: pool_rep_def pool_ready_def stack_sound_def pool_inv_def pool_ok_def split: list.splits)
qed


theorem cia_pool_refines_stack_witness:
  "\<exists>w P' w'. cia_pool_create (cia_allocator_pages bump_kernel) 64 16 8 bump_start = Inr (example_pool, w)
     \<and> serve pool_ready pool_request [Take, Fill 0 [7]] (example_pool, w, []) = Inr ([], P', w', [0x10008])
     \<and> peek (mem w') 0x10008 1 = [7]"
proof -
  let ?qs = "[Take, Fill 0 [7]]"
  have bs: "pool_buckets example_pool (pl_first example_pool) = [0x10008, 0x10018, 0x10028]"
    by (simp add: pool_buckets_def buckets_def example_pool_header upt_rec) (simp add: example_pool_def)
  obtain w where w: "cia_pool_create (cia_allocator_pages bump_kernel) 64 16 8 bump_start = Inr (example_pool, w)"
    by (rule example_pool_create)
  have ok: "requests_ok (unat (pl_bucket_size example_pool)) 0 ?qs" by (simp add: example_pool_def)
  from cia_pool_refines_stack [OF bump_kernel_mmap_documented w example_pool_geom example_pool_not_failed ok]
  obtain served rest P' w' held t where r: "serve pool_ready pool_request ?qs (example_pool, w, []) = Inr (rest, P', w', held)"
      "?qs = served @ rest" "case rest of [] \<Rightarrow> True | q # _ \<Rightarrow> q = Take \<and> \<not> growth_granted P' w'"
      "spec_run (stack_step (pool_count example_pool)) served
        \<lparr>bk_free = [0x10008, 0x10018, 0x10028], bk_held = [], bk_buffers = 1\<rparr> t"
      "held = map fst (bk_held t)" "freelist (mem w') (pl_freelist_head P') (bk_free t)"
      "\<forall>(b, bs)\<in>set (bk_held t). peek (mem w') b (length bs) = bs"
    unfolding bs by blast
  have "served \<noteq> []"
  proof
    assume "served = []"
    then have "pl_freelist_head P' \<noteq> 0" "\<not> growth_granted P' w'" using r(2-4,6) by (auto split: list.splits)
    then show False by (simp add: growth_granted_def)
  qed
  then have s: "served = ?qs" "rest = []" using r(2,3) by (auto simp: Cons_eq_append_conv split: list.splits)
  then have "bk_held t = [(0x10008, [7])]" using r(4) by (auto elim!: stack_takeE stack_fillE)
  then have "held = [0x10008]" "peek (mem w') 0x10008 1 = [7]" using r(5,7) by simp_all
  then show ?thesis using r(1) w unfolding s by blast
qed

end
