(* ===== verification/Mutex.thy ===== *)
theory Mutex
  imports Tinyrt
begin

text \<open>
  \<open>src/cia-sync/futex.c\<close> and \<open>src/cia-sync/mutex.c\<close>.  A mutex is a 32-bit tag in memory.  The theory
  models the functions as one thread runs them, then any number of threads that call \<open>lock\<close> and
  \<open>unlock\<close>, interleaved at every access to the tag and at every entry to and return from the kernel.
\<close>

section \<open>The functions\<close>

definition CIA_MUTEX_FREE :: u32 where "CIA_MUTEX_FREE = 0"
definition CIA_MUTEX_LOCK :: u32 where "CIA_MUTEX_LOCK = 1"

lemmas mutex_consts = CIA_MUTEX_FREE_def CIA_MUTEX_LOCK_def

text \<open>These wrappers have no \<open>return\<close> statement: their result is the effect alone.\<close>

definition cia_wait :: "'k kernel \<Rightarrow> addr \<Rightarrow> u32 \<Rightarrow> u64 \<Rightarrow> 'k world \<Rightarrow> 'k world" where
  "cia_wait K a compare_with time w = snd (rt_sync_wait K a compare_with time w)"

definition cia_wake_one :: "'k kernel \<Rightarrow> addr \<Rightarrow> addr \<Rightarrow> 'k world \<Rightarrow> 'k world res" where
  "cia_wake_one K a n_woken w = bind_res (rt_sync_wake_one K a n_woken w) (\<lambda>(_, w'). Inr w')"

definition cia_wake_all :: "'k kernel \<Rightarrow> addr \<Rightarrow> addr \<Rightarrow> 'k world \<Rightarrow> 'k world res" where
  "cia_wake_all K a n_woken w = bind_res (rt_sync_wake_all K a n_woken w) (\<lambda>(_, w'). Inr w')"

text \<open>
  The compare-exchange of \<open>cia_mutex_lock\<close>: what \<open>p_tag\<close> and the tag hold afterwards.
\<close>

definition mutex_cas :: "u32 \<Rightarrow> u32 \<times> u32" where
  "mutex_cas tag = (if tag = CIA_MUTEX_FREE then (CIA_MUTEX_FREE, CIA_MUTEX_LOCK) else (tag, tag))"

definition cia_mutex_init :: "addr \<Rightarrow> 'k world \<Rightarrow> 'k world res" where
  "cia_mutex_init mutex w =
     bind_res (store32 (mem w) mutex CIA_MUTEX_FREE) (\<lambda>m. Inr (w\<lparr>mem := m\<rparr>))"

partial_function (option) mutex_lock_loop :: "'k kernel \<Rightarrow> addr \<Rightarrow> 'k world \<Rightarrow> 'k world res option" where
  "mutex_lock_loop K mutex w =
     (case load32 (mem w) mutex of
        Inl e \<Rightarrow> Some (Inl e)
      | Inr tag \<Rightarrow>
          (case store32 (mem w) mutex (snd (mutex_cas tag)) of
             Inl e \<Rightarrow> Some (Inl e)
           | Inr m \<Rightarrow>
               if fst (mutex_cas tag) = CIA_MUTEX_FREE then Some (Inr (w\<lparr>mem := m\<rparr>))
               else mutex_lock_loop K mutex
                      (snd (rt_sync_wait K mutex CIA_MUTEX_LOCK RT_SYNC_WAIT_INFINITE (w\<lparr>mem := m\<rparr>)))))"

definition cia_mutex_lock :: "'k kernel \<Rightarrow> addr \<Rightarrow> 'k world \<Rightarrow> 'k world res" where
  "cia_mutex_lock K mutex w = loop_res (mutex_lock_loop K mutex w)"

definition cia_mutex_unlock :: "'k kernel \<Rightarrow> addr \<Rightarrow> 'k world \<Rightarrow> 'k world res" where
  "cia_mutex_unlock K mutex w =
     bind_res (store32 (mem w) mutex CIA_MUTEX_FREE) (\<lambda>m.
       bind_res (rt_sync_wake_one K mutex 0 (w\<lparr>mem := m\<rparr>)) (\<lambda>(_, w'). Inr w'))"

section \<open>One thread\<close>

lemma cia_mutex_init_mapped:
  "mapped (mem w) mutex 4 \<Longrightarrow> cia_mutex_init mutex w = Inr (w\<lparr>mem := poke (mem w) mutex (le_bytes 4 CIA_MUTEX_FREE)\<rparr>)"
  by (simp add: cia_mutex_init_def store32_mapped)

lemma cia_mutex_lock_free:
  assumes "load32 (mem w) mutex = Inr CIA_MUTEX_FREE"
  shows "cia_mutex_lock K mutex w = Inr (w\<lparr>mem := poke (mem w) mutex (le_bytes 4 CIA_MUTEX_LOCK)\<rparr>)"
  using assms load32_InrD [OF assms]
  by (simp add: cia_mutex_lock_def mutex_lock_loop.simps [of K mutex w] mutex_cas_def store32_mapped)

lemma cia_mutex_unlock_mapped:
  assumes "mapped (mem w) mutex 4"
  shows "\<exists>w'. cia_mutex_unlock K mutex w = Inr w'"
  using assms by (simp add: cia_mutex_unlock_def rt_sync_wake_one_def rt_sync_wake_def store32_mapped
      Let_def split: prod.splits)

text \<open>A kernel in which nobody else runs: a futex call leaves the memory as it is.\<close>

definition quiet_futex :: "'k kernel \<Rightarrow> bool" where
  "quiet_futex K \<longleftrightarrow> (\<forall>args w. mem (snd (syscall K SYS_futex args w)) = mem w)"

lemma quiet_futex_wait: "quiet_futex K \<Longrightarrow> mem (snd (rt_sync_wait K a c s w)) = mem w"
  unfolding rt_sync_wait_def quiet_futex_def by (auto simp: Let_def split: prod.splits) (metis snd_conv)+

lemma mutex_lock_loop_returns_free:
  assumes "mutex_lock_loop K mutex w = Some r" "quiet_futex K" "load32 (mem w) mutex = Inr tag"
  shows "tag = CIA_MUTEX_FREE"
proof -
  let ?P = "\<lambda>K mutex w (r :: 'a world res). quiet_futex K \<longrightarrow> load32 (mem w) mutex = Inr tag \<longrightarrow> tag = CIA_MUTEX_FREE"
  have "?P K mutex w r"
  proof (rule mutex_lock_loop.raw_induct [where P = ?P, OF _ assms(1)], intro impI, rule ccontr)
    fix lock K mutex and w :: "'a world" and r
    assume IH: "\<And>K mutex w r. lock K mutex w = Some r \<Longrightarrow> ?P K mutex w r"
      and body: "(case load32 (mem w) mutex of Inl e \<Rightarrow> Some (Inl e)
        | Inr tag \<Rightarrow> (case store32 (mem w) mutex (snd (mutex_cas tag)) of Inl e \<Rightarrow> Some (Inl e)
           | Inr m \<Rightarrow> if fst (mutex_cas tag) = CIA_MUTEX_FREE then Some (Inr (w\<lparr>mem := m\<rparr>))
               else lock K mutex
                      (snd (rt_sync_wait K mutex CIA_MUTEX_LOCK RT_SYNC_WAIT_INFINITE (w\<lparr>mem := m\<rparr>))))) = Some r"
      and q: "quiet_futex K" and l: "load32 (mem w) mutex = Inr tag" and f: "tag \<noteq> CIA_MUTEX_FREE"
    let ?w = "snd (rt_sync_wait K mutex CIA_MUTEX_LOCK RT_SYNC_WAIT_INFINITE
        (w\<lparr>mem := poke (mem w) mutex (le_bytes 4 tag)\<rparr>))"
    have m: "mapped (mem w) mutex 4" using l by (rule load32_InrD)
    have c: "fst (mutex_cas tag) = tag" "snd (mutex_cas tag) = tag" using f by (simp_all add: mutex_cas_def)
    from body have "lock K mutex ?w = Some r"
      by (simp only: l c f store32_mapped [OF m] sum.case if_False)
    moreover have "load32 (mem ?w) mutex = Inr tag"
      by (simp add: quiet_futex_wait [OF q] load32_poke_same [OF m])
    ultimately show False using IH q f by blast
  qed
  with assms(2,3) show ?thesis by simp
qed

section \<open>Many threads\<close>

text \<open>
  Where a thread is: outside; before the compare-exchange; decided to wait but not yet in the kernel;
  asleep on the futex; owning the mutex; past the store of \<open>unlock\<close> and before its wake call.
\<close>

datatype mutex_pc = Outside | TryCas | PreWait | Sleeping | Owns | PendingWake

record mutex_sys =
  ms_tag :: u32
  ms_pcs :: "mutex_pc list"

definition at :: "mutex_sys \<Rightarrow> nat \<Rightarrow> mutex_pc \<Rightarrow> bool" where
  "at s t p \<longleftrightarrow> t < length (ms_pcs s) \<and> ms_pcs s ! t = p"

definition goto :: "nat \<Rightarrow> mutex_pc \<Rightarrow> mutex_sys \<Rightarrow> mutex_sys" where
  "goto t p s = s\<lparr>ms_pcs := (ms_pcs s)[t := p]\<rparr>"

text \<open>
  A step of thread \<open>t\<close>.  The kernel's part is the documented futex: \<open>FUTEX_WAIT\<close> compares the tag
  with the expected value and puts the caller to sleep in one step, or returns at once;
  \<open>FUTEX_WAKE\<close> for one waiter resumes one sleeper if there is any.
\<close>

inductive mutex_step :: "mutex_sys \<Rightarrow> mutex_sys \<Rightarrow> bool" where
  cas: "at s t TryCas \<Longrightarrow> mutex_cas (ms_tag s) = (p_tag, tag) \<Longrightarrow>
    mutex_step s (goto t (if p_tag = CIA_MUTEX_FREE then Owns else PreWait) (s\<lparr>ms_tag := tag\<rparr>))"
| sleep: "at s t PreWait \<Longrightarrow> ms_tag s = CIA_MUTEX_LOCK \<Longrightarrow> mutex_step s (goto t Sleeping s)"
| again: "at s t PreWait \<Longrightarrow> ms_tag s \<noteq> CIA_MUTEX_LOCK \<Longrightarrow> mutex_step s (goto t TryCas s)"
| unlock: "at s t Owns \<Longrightarrow> mutex_step s (goto t PendingWake (s\<lparr>ms_tag := CIA_MUTEX_FREE\<rparr>))"
| wake: "at s t PendingWake \<Longrightarrow> at s u Sleeping \<Longrightarrow> mutex_step s (goto u TryCas (goto t Outside s))"
| wake_none: "at s t PendingWake \<Longrightarrow> (\<forall>u. \<not> at s u Sleeping) \<Longrightarrow> mutex_step s (goto t Outside s)"

text \<open>What the environment adds: a new call of \<open>cia_mutex_lock\<close>, and a wait cut short by a signal.\<close>

inductive mutex_env :: "mutex_sys \<Rightarrow> mutex_sys \<Rightarrow> bool" where
  lock_call: "at s t Outside \<Longrightarrow> mutex_env s (goto t TryCas s)"
| interrupted: "at s t Sleeping \<Longrightarrow> mutex_env s (goto t TryCas s)"

definition mutex_start :: "nat \<Rightarrow> mutex_sys" where
  "mutex_start n = \<lparr>ms_tag = CIA_MUTEX_FREE, ms_pcs = replicate n Outside\<rparr>"

inductive mutex_reach :: "nat \<Rightarrow> mutex_sys \<Rightarrow> bool" for n where
  start: "mutex_reach n (mutex_start n)"
| step: "mutex_reach n s \<Longrightarrow> mutex_step s s' \<Longrightarrow> mutex_reach n s'"
| env: "mutex_reach n s \<Longrightarrow> mutex_env s s' \<Longrightarrow> mutex_reach n s'"

inductive_cases mutex_stepE: "mutex_step s s'"
inductive_cases mutex_envE: "mutex_env s s'"

section \<open>The invariant\<close>

text \<open>How many threads are at \<open>p\<close>.\<close>

definition cnt :: "mutex_sys \<Rightarrow> mutex_pc \<Rightarrow> nat" where
  "cnt s p = count_list (ms_pcs s) p"

lemma count_list_update:
  "t < length xs \<Longrightarrow> count_list (xs[t := q]) p = count_list xs p + of_bool (q = p) - of_bool (xs ! t = p)
    \<and> (xs ! t = p \<longrightarrow> 0 < count_list xs p)"
  by (induction xs arbitrary: t) (auto split: nat.split)

lemma cnt_goto: "at s t r \<Longrightarrow> cnt (goto t q s) p = cnt s p + of_bool (q = p) - of_bool (r = p)"
  using count_list_update [of t "ms_pcs s" q p] by (simp add: at_def goto_def cnt_def)

lemma cnt_pos: "at s t r \<Longrightarrow> 0 < cnt s r"
  using count_list_update [of t "ms_pcs s" r r] by (simp add: at_def cnt_def)

lemma cnt_pos_at: "0 < cnt s p \<Longrightarrow> \<exists>t. at s t p"
  unfolding cnt_def at_def by (metis count_notin in_set_conv_nth less_irrefl)

lemma cnt_two:
  assumes "at s t p" "at s u p" "t \<noteq> u"
  shows "2 \<le> cnt s p"
proof -
  define q where "q = (if p = Outside then TryCas else Outside)"
  have q: "q \<noteq> p" by (simp add: q_def)
  have "at (goto t q s) u p" using assms by (simp add: at_def goto_def)
  from cnt_pos [OF this] cnt_pos [OF assms(1)] show ?thesis
    using q by (simp add: cnt_goto [OF assms(1)])
qed

lemma at_goto_other: "at s u q \<Longrightarrow> t \<noteq> u \<Longrightarrow> at (goto t p s) u q"
  by (simp add: at_def goto_def)

lemma at_neq: "at s t p \<Longrightarrow> at s u q \<Longrightarrow> p \<noteq> q \<Longrightarrow> t \<noteq> u"
  by (auto simp: at_def)

lemma goto_tag [simp]:
  "at (s\<lparr>ms_tag := v\<rparr>) u q = at s u q" "cnt (s\<lparr>ms_tag := v\<rparr>) p = cnt s p"
  "cnt (goto t q (s\<lparr>ms_tag := v\<rparr>)) p = cnt (goto t q s) p" "ms_tag (goto t q s) = ms_tag s"
  by (simp_all add: at_def cnt_def goto_def)

text \<open>
  The tag is locked exactly when one thread owns the mutex; and when it is free while a thread
  sleeps, some thread is on its way to the compare-exchange or to a wake call.
\<close>

definition mutex_inv :: "mutex_sys \<Rightarrow> bool" where
  "mutex_inv s \<longleftrightarrow> (if ms_tag s = CIA_MUTEX_FREE then cnt s Owns = 0 else ms_tag s = CIA_MUTEX_LOCK \<and> cnt s Owns = 1)
     \<and> (ms_tag s = CIA_MUTEX_FREE \<longrightarrow> 0 < cnt s Sleeping \<longrightarrow>
          0 < cnt s TryCas + cnt s PreWait + cnt s PendingWake)"

lemma mutex_tags [simp]: "CIA_MUTEX_FREE \<noteq> CIA_MUTEX_LOCK" "CIA_MUTEX_LOCK \<noteq> CIA_MUTEX_FREE"
  by (simp_all add: mutex_consts)

lemma mutex_inv_start: "mutex_inv (mutex_start n)"
proof -
  have "p \<noteq> Outside \<Longrightarrow> count_list (replicate n Outside) p = 0" for p
    by (induction n) simp_all
  then show ?thesis by (simp add: mutex_inv_def mutex_start_def cnt_def)
qed

lemma mutex_inv_step: "mutex_step s s' \<Longrightarrow> mutex_inv s \<Longrightarrow> mutex_inv s'"
proof (induction rule: mutex_step.induct)
  case (cas s t p_tag tag)
  with cnt_pos [OF cas(1)] show ?case
    by (cases "ms_tag s = CIA_MUTEX_FREE") (auto simp: mutex_inv_def mutex_cas_def cnt_goto [OF cas(1)])
next
  case (sleep s t)
  then show ?case by (simp add: mutex_inv_def cnt_goto [OF sleep(1)])
next
  case (again s t)
  then show ?case by (auto simp: mutex_inv_def cnt_goto [OF again(1)] split: if_splits)
next
  case (unlock s t)
  with cnt_pos [OF unlock(1)] show ?case by (auto simp: mutex_inv_def cnt_goto [OF unlock(1)] split: if_splits)
next
  case (wake s t u)
  have u: "at (goto t Outside s) u Sleeping"
    by (rule at_goto_other [OF wake(2) at_neq [OF wake(1,2)]]) simp
  with wake(3) cnt_pos [OF wake(1)] show ?case
    by (auto simp: mutex_inv_def cnt_goto [OF u] cnt_goto [OF wake(1)] split: if_splits)
next
  case (wake_none s t)
  then have "cnt s Sleeping = 0" using cnt_pos_at [of s Sleeping] by blast
  with wake_none(3) cnt_pos [OF wake_none(1)] show ?case
    by (auto simp: mutex_inv_def cnt_goto [OF wake_none(1)] split: if_splits)
qed

lemma mutex_inv_env: "mutex_env s s' \<Longrightarrow> mutex_inv s \<Longrightarrow> mutex_inv s'"
proof (induction rule: mutex_env.induct)
  case (lock_call s t)
  then show ?case by (auto simp: mutex_inv_def cnt_goto [OF lock_call(1)] split: if_splits)
next
  case (interrupted s t)
  then show ?case by (auto simp: mutex_inv_def cnt_goto [OF interrupted(1)] split: if_splits)
qed

lemma mutex_reach_inv: "mutex_reach n s \<Longrightarrow> mutex_inv s"
  by (induction rule: mutex_reach.induct)
    (auto intro: mutex_inv_start mutex_inv_step mutex_inv_env)

section \<open>Progress\<close>

text \<open>Every step of a thread makes this pair smaller (in the lexicographic order).\<close>

definition work_left :: "mutex_sys \<Rightarrow> nat" where
  "work_left s = 3 * (cnt s TryCas + cnt s PreWait + cnt s Sleeping) + 2 * cnt s Owns + cnt s PendingWake"

definition settling :: "mutex_sys \<Rightarrow> nat" where
  "settling s = (if ms_tag s = CIA_MUTEX_LOCK then 2 * cnt s TryCas + cnt s PreWait else cnt s PreWait)"

lemma mutex_step_decreases:
  "mutex_step s s' \<Longrightarrow> mutex_inv s \<Longrightarrow>
    work_left s' < work_left s \<or> work_left s' = work_left s \<and> settling s' < settling s"
proof (induction rule: mutex_step.induct)
  case (cas s t p_tag tag)
  with cnt_pos [OF cas(1)] show ?case
    by (cases "ms_tag s = CIA_MUTEX_FREE")
      (auto simp: mutex_inv_def mutex_cas_def cnt_goto [OF cas(1)] work_left_def settling_def)
next
  case (sleep s t)
  with cnt_pos [OF sleep(1)] show ?case
    by (simp add: cnt_goto [OF sleep(1)] work_left_def settling_def)
next
  case (again s t)
  with cnt_pos [OF again(1)] show ?case
    by (simp add: cnt_goto [OF again(1)] work_left_def settling_def)
next
  case (unlock s t)
  with cnt_pos [OF unlock(1)] show ?case
    by (cases "cnt s Owns") (simp_all add: cnt_goto [OF unlock(1)] work_left_def settling_def)
next
  case (wake s t u)
  have u: "at (goto t Outside s) u Sleeping"
    by (rule at_goto_other [OF wake(2) at_neq [OF wake(1,2)]]) simp
  from cnt_pos [OF wake(1)] cnt_pos [OF wake(2)] show ?case
    by (simp add: cnt_goto [OF u] cnt_goto [OF wake(1)] work_left_def settling_def)
next
  case (wake_none s t)
  with cnt_pos [OF wake_none(1)] show ?case
    by (simp add: cnt_goto [OF wake_none(1)] work_left_def settling_def)
qed

lemma mutex_step_enabled:
  assumes "mutex_inv s" "at s t p" "p \<noteq> Outside"
  shows "\<exists>s'. mutex_step s s'"
proof -
  have go: "\<exists>s'. mutex_step s s'" if "at s u q" "q \<in> {TryCas, PreWait, Owns, PendingWake}" for u q
    using that by (cases "mutex_cas (ms_tag s)") (blast intro: mutex_step.intros)
  show ?thesis
  proof (cases "p = Sleeping")
    case True
    then have s: "0 < cnt s Sleeping" using cnt_pos assms(2) by blast
    have "0 < cnt s Owns \<or> 0 < cnt s TryCas \<or> 0 < cnt s PreWait \<or> 0 < cnt s PendingWake"
      using assms(1) s by (auto simp: mutex_inv_def split: if_splits)
    then show ?thesis using cnt_pos_at go by blast
  next
    case False
    then have "p \<in> {TryCas, PreWait, Owns, PendingWake}" using assms(3) by (cases p) simp_all
    with go [OF assms(2)] show ?thesis .
  qed
qed

section \<open>Properties\<close>

text \<open>C12: mutual exclusion.  In every reachable state at most one of the threads owns the mutex, and
  the tag tells whether one does.\<close>

theorem cia_mutex_exclusion:
  assumes "mutex_reach n s"
  shows "(at s t Owns \<longrightarrow> at s u Owns \<longrightarrow> t = u) \<and> (ms_tag s = CIA_MUTEX_FREE \<longleftrightarrow> (\<nexists>t. at s t Owns))"
proof -
  have i: "mutex_inv s" using assms by (rule mutex_reach_inv)
  then have "cnt s Owns \<le> 1" by (auto simp: mutex_inv_def split: if_splits)
  moreover have "ms_tag s = CIA_MUTEX_FREE \<longleftrightarrow> cnt s Owns = 0"
    using i by (auto simp: mutex_inv_def split: if_splits)
  ultimately show ?thesis using cnt_two [of s t Owns u] cnt_pos cnt_pos_at by fastforce
qed

text \<open>C13: no lost wakeup and no deadlock.  In every reachable state in which some thread is inside
  \<open>lock\<close> or \<open>unlock\<close> or owns the mutex, even if all that are waiting sleep in the kernel, some thread
  can take a step.\<close>

theorem cia_mutex_no_deadlock:
  assumes "mutex_reach n s" "at s t p" "p \<noteq> Outside"
  shows "\<exists>s'. mutex_step s s'"
  using mutex_step_enabled [OF mutex_reach_inv [OF assms(1)] assms(2,3)] .

text \<open>C14: every request is served.  From a reachable state, without new calls and without
  interrupted waits, the threads take only finitely many steps, whatever their order, and a state
  in which no step is possible is one where every thread has got the mutex and released it.\<close>

theorem cia_mutex_all_served:
  assumes "mutex_reach n s"
  shows "(\<nexists>f. f 0 = s \<and> (\<forall>i. mutex_step (f i) (f (Suc i))))
    \<and> ((\<nexists>s'. mutex_step s s') \<longleftrightarrow> (\<nexists>t p. at s t p \<and> p \<noteq> Outside))"
proof
  show "\<nexists>f. f 0 = s \<and> (\<forall>i. mutex_step (f i) (f (Suc i)))"
  proof (rule notI, elim exE conjE)
    fix f assume f: "f 0 = s" "\<forall>i. mutex_step (f i) (f (Suc i))"
    have inv: "mutex_inv (f i)" for i
      by (induction i) (use f mutex_reach_inv [OF assms] mutex_inv_step in auto)
    let ?R = "less_than <*lex*> less_than"
    have "((work_left (f (Suc i)), settling (f (Suc i))), (work_left (f i), settling (f i))) \<in> ?R" for i
      using mutex_step_decreases [OF f(2) [rule_format, of i] inv] by auto
    then have "\<exists>g. \<forall>i. (g (Suc i), g i) \<in> ?R"
      by (intro exI [of _ "\<lambda>i. (work_left (f i), settling (f i))"] allI)
    moreover have "wf ?R" by (simp add: wf_lex_prod)
    ultimately show False unfolding wf_iff_no_infinite_down_chain by blast
  qed
  have "\<not> mutex_step s s'" if "\<nexists>t p. at s t p \<and> p \<noteq> Outside" for s'
    using that by (auto elim!: mutex_stepE)
  then show "(\<nexists>s'. mutex_step s s') \<longleftrightarrow> (\<nexists>t p. at s t p \<and> p \<noteq> Outside)"
    using mutex_step_enabled [OF mutex_reach_inv [OF assms]] by blast
qed

text \<open>One thread alone.  Locking a free mutex takes it without a system call, and writes nothing
  but the four bytes of the tag; unlocking it afterwards makes the same call of \<open>lock\<close> succeed
  again, whatever the kernel's wake call answers.\<close>

theorem cia_mutex_lock_unlock:
  assumes "load32 (mem w) mutex = Inr CIA_MUTEX_FREE" "quiet_futex K"
  shows "\<exists>w' w''. cia_mutex_lock K mutex w = Inr w' \<and> os w' = os w
    \<and> load32 (mem w') mutex = Inr CIA_MUTEX_LOCK \<and> (\<forall>x. \<not> in_range x mutex 4 \<longrightarrow> mem w' x = mem w x)
    \<and> cia_mutex_unlock K mutex w' = Inr w'' \<and> load32 (mem w'') mutex = Inr CIA_MUTEX_FREE"
proof -
  have m: "mapped (mem w) mutex 4" using assms(1) by (rule load32_InrD)
  let ?m = "poke (mem w) mutex (le_bytes 4 CIA_MUTEX_LOCK)"
  have m': "mapped ?m mutex 4" using m by simp
  let ?u = "w\<lparr>mem := poke ?m mutex (le_bytes 4 CIA_MUTEX_FREE)\<rparr>"
  obtain r u where u: "syscall K SYS_futex [mutex, FUTEX_WAKE_PRIVATE, 1, 0, 0, 0] ?u = (r, u)"
    by (metis surj_pair)
  then have "mem u = mem ?u" using assms(2) unfolding quiet_futex_def by (metis snd_conv)
  moreover have "cia_mutex_unlock K mutex (w\<lparr>mem := ?m\<rparr>) = Inr u"
    by (simp add: cia_mutex_unlock_def rt_sync_wake_one_def rt_sync_wake_def store32_mapped [OF m'] u)
  ultimately show ?thesis
    using cia_mutex_lock_free [OF assms(1), of K]
    by (simp add: load32_poke_same [OF m] load32_poke_same [OF m'] poke_out)
qed

text \<open>The mutex is not recursive.  A thread that locks a mutex it holds, with no other thread
  changing the tag, never returns from \<open>cia_mutex_lock\<close>.\<close>

theorem cia_mutex_relock_hangs:
  assumes "load32 (mem w) mutex = Inr CIA_MUTEX_LOCK" "quiet_futex K"
  shows "cia_mutex_lock K mutex w = Inl Hang"
proof (cases "mutex_lock_loop K mutex w")
  case None
  then show ?thesis by (simp add: cia_mutex_lock_def)
next
  case (Some r)
  from mutex_lock_loop_returns_free [OF Some assms(2,1)] show ?thesis by simp
qed

section \<open>Witnesses\<close>

text \<open>Two threads: the first takes the mutex, the second finds it taken and sleeps.\<close>

definition contended :: mutex_sys where
  "contended = \<lparr>ms_tag = CIA_MUTEX_LOCK, ms_pcs = [Owns, Sleeping]\<rparr>"

lemma contended_reach: "mutex_reach 2 contended"
proof -
  let ?s = "\<lambda>tag p q. \<lparr>ms_tag = tag, ms_pcs = [p, q]\<rparr>"
  have "mutex_reach 2 (?s CIA_MUTEX_FREE Outside Outside)"
    using mutex_reach.start [of 2] by (simp add: mutex_start_def numeral_2_eq_2)
  then have "mutex_reach 2 (?s CIA_MUTEX_FREE TryCas Outside)"
    by (rule mutex_reach.env) (use mutex_env.lock_call [of "?s CIA_MUTEX_FREE Outside Outside" 0] in \<open>simp add: goto_def at_def\<close>)
  then have "mutex_reach 2 (?s CIA_MUTEX_LOCK Owns Outside)"
    by (rule mutex_reach.step) (use mutex_step.cas [of "?s CIA_MUTEX_FREE TryCas Outside" 0] in \<open>simp add: goto_def at_def mutex_cas_def\<close>)
  then have "mutex_reach 2 (?s CIA_MUTEX_LOCK Owns TryCas)"
    by (rule mutex_reach.env) (use mutex_env.lock_call [of "?s CIA_MUTEX_LOCK Owns Outside" 1] in \<open>simp add: goto_def at_def\<close>)
  then have "mutex_reach 2 (?s CIA_MUTEX_LOCK Owns PreWait)"
    by (rule mutex_reach.step) (use mutex_step.cas [of "?s CIA_MUTEX_LOCK Owns TryCas" 1] in \<open>simp add: goto_def at_def mutex_cas_def\<close>)
  then show ?thesis unfolding contended_def
    by (rule mutex_reach.step) (use mutex_step.sleep [of "?s CIA_MUTEX_LOCK Owns PreWait" 1] in \<open>simp add: goto_def at_def\<close>)
qed

theorem cia_mutex_exclusion_witness: "ms_tag contended \<noteq> CIA_MUTEX_FREE \<and> at contended 0 Owns"
  using cia_mutex_exclusion [OF contended_reach, of 0 0] by (auto simp: contended_def at_def)

theorem cia_mutex_no_deadlock_witness: "at contended 1 Sleeping \<and> (\<exists>s'. mutex_step contended s')"
  using cia_mutex_no_deadlock [OF contended_reach, of 1 Sleeping] by (simp add: contended_def at_def)

theorem cia_mutex_all_served_witness:
  "\<exists>s'. mutex_step contended s'"
proof -
  have "at contended 0 Owns" by (simp add: contended_def at_def)
  with cia_mutex_all_served [OF contended_reach] show ?thesis by blast
qed

definition tag_world :: "u8 \<Rightarrow> unit world" where
  "tag_world b = \<lparr>mem = (\<lambda>x. if x = 0x100 then Some b else if x = 0x101 then Some 0
     else if x = 0x102 then Some 0 else if x = 0x103 then Some 0 else None), os = ()\<rparr>"

lemma tag_world_load: "load32 (mem (tag_world b)) 0x100 = Inr (ucast b)"
  by (simp add: load32_def load_bytes_4 load8_def tag_world_def)

theorem cia_mutex_lock_unlock_witness:
  "\<exists>w'. cia_mutex_lock enomem_kernel 0x100 (tag_world 0) = Inr w' \<and> load32 (mem w') 0x100 = Inr CIA_MUTEX_LOCK"
  using cia_mutex_lock_unlock [of "tag_world 0" "0x100" enomem_kernel] tag_world_load [of 0]
  by (auto simp: mutex_consts quiet_futex_def syscall_def enomem_kernel_def)

theorem cia_mutex_relock_hangs_witness:
  "cia_mutex_lock enomem_kernel 0x100 (tag_world 1) = Inl Hang"
  using cia_mutex_relock_hangs [of "tag_world 1" "0x100" enomem_kernel] tag_world_load [of 1]
  by (simp add: mutex_consts quiet_futex_def syscall_def enomem_kernel_def)

end
