(* ===== verification/StrMem.thy ===== *)
theory StrMem
  imports Memory
begin

text \<open>
  \<open>src/stdlib-string/mem.c\<close> and \<open>src/stdlib-string/str.c\<close>, with \<open>memset\<close> and \<open>_wcsicmp\<close> of
  \<open>os/windows/cia-init.c\<close>: the byte loops of the C library, over the byte memory, so that overlapping
  arguments behave as they do in the code.  The loops over \<open>size_t\<close> end because the distance to
  \<open>count\<close> shrinks; a signed index overflows instead of wrapping, which is a trap.
\<close>

section \<open>The loops\<close>

lemma unat_Suc_u64: "i < count \<Longrightarrow> unat (i + 1) = Suc (unat (i :: u64))"
  using unat_add_no_wrap [of i 1] unat_less_u64 [of count] by (simp add: word_less_nat_alt)

lemma unat_count_step: "i < count \<Longrightarrow> unat (count - (i + 1)) < unat (count - i :: u64)"
  using unat_Suc_u64 [of i count]
  by (simp add: unat_sub_le inc_le less_imp_le word_less_nat_alt)

function memcpy_loop :: "addr \<Rightarrow> addr \<Rightarrow> u64 \<Rightarrow> u64 \<Rightarrow> mem \<Rightarrow> mem res" where
  "memcpy_loop dst src count i m =
     (if i < count
      then bind_res (load8 m (src + i)) (\<lambda>b.
             bind_res (store8 m (dst + i) b) (\<lambda>m'. memcpy_loop dst src count (i + 1) m'))
      else Inr m)"
  by pat_completeness auto
termination
  by (relation "measure (\<lambda>(dst, src, count, i, m). unat (count - i))") (simp_all add: unat_count_step)

definition memcpy :: "addr \<Rightarrow> addr \<Rightarrow> u64 \<Rightarrow> mem \<Rightarrow> (addr \<times> mem) res" where
  "memcpy dst src count m = bind_res (memcpy_loop dst src count 0 m) (\<lambda>m'. Inr (dst, m'))"

text \<open>\<open>src_bytes[i] == c\<close>: the byte is promoted to \<open>int\<close> before it is compared.\<close>

function memccpy_loop :: "addr \<Rightarrow> addr \<Rightarrow> i32 \<Rightarrow> u64 \<Rightarrow> u64 \<Rightarrow> mem \<Rightarrow> (addr \<times> mem) res" where
  "memccpy_loop dst src c count i m =
     (if i < count
      then bind_res (load8 m (src + i)) (\<lambda>b.
             bind_res (store8 m (dst + i) b) (\<lambda>m'.
               bind_res (load8 m' (src + i)) (\<lambda>b'.
                 if ucast b' = c then Inr (src + (i + 1), m')
                 else memccpy_loop dst src c count (i + 1) m')))
      else Inr (0, m))"
  by pat_completeness auto
termination
  by (relation "measure (\<lambda>(dst, src, c, count, i, m). unat (count - i))") (simp_all add: unat_count_step)

definition memccpy :: "addr \<Rightarrow> addr \<Rightarrow> i32 \<Rightarrow> u64 \<Rightarrow> mem \<Rightarrow> (addr \<times> mem) res" where
  "memccpy dst src c count m = memccpy_loop dst src c count 0 m"

text \<open>\<open>for(size_t i = count-1; i-- != 0; )\<close>: test, then decrement, then the body.\<close>

function memmove_back_loop :: "addr \<Rightarrow> addr \<Rightarrow> u64 \<Rightarrow> mem \<Rightarrow> mem res" where
  "memmove_back_loop dst src i m =
     (if i = 0 then Inr m
      else bind_res (load8 m (src + (i - 1))) (\<lambda>b.
             bind_res (store8 m (dst + (i - 1)) b) (\<lambda>m'. memmove_back_loop dst src (i - 1) m')))"
  by pat_completeness auto
termination
  by (relation "measure (\<lambda>(dst, src, i, m). unat i)") (simp_all add: unat_minus_one unat_gt_0)

definition memmove :: "addr \<Rightarrow> addr \<Rightarrow> u64 \<Rightarrow> mem \<Rightarrow> (addr \<times> mem) res" where
  "memmove dst src count m =
     (if dst = src then Inr (dst, m)
      else bind_res (if dst < src then memcpy_loop dst src count 0 m
                     else memmove_back_loop dst src (count - 1) m)
             (\<lambda>m'. Inr (dst, m')))"

text \<open>Increment of an \<open>i64\<close> and of an \<open>int\<close>.\<close>

definition inc_i64 :: "i64 \<Rightarrow> i64 res" where
  "inc_i64 i = (if sint i = 2 ^ 63 - 1 then Inl (Undefined SignedOverflow) else Inr (i + 1))"

definition inc_i32 :: "i32 \<Rightarrow> i32 res" where
  "inc_i32 i = (if sint i = 2 ^ 31 - 1 then Inl (Undefined SignedOverflow) else Inr (i + 1))"

lemma sint_bounds_i64: "- (2 ^ 63) \<le> sint (i :: i64)" "sint i < 2 ^ 63"
  using sint_ge [of i] sint_lt [of i] by simp_all

lemma sint_bounds_i32: "- (2 ^ 31) \<le> sint (i :: i32)" "sint i < 2 ^ 31"
  using sint_ge [of i] sint_lt [of i] by simp_all

lemma sint_inc_i64:
  assumes "sint i \<noteq> 2 ^ 63 - 1"
  shows "sint (i + 1) = sint (i :: i64) + 1"
proof -
  have "sint (i + 1) = signed_take_bit 63 (sint i + 1)" by (simp add: sint_word_ariths)
  also have "\<dots> = sint i + 1"
    using sint_bounds_i64 [of i] assms by (intro signed_take_bit_int_eq_self) linarith+
  finally show ?thesis .
qed

lemma sint_inc_i32:
  assumes "sint i \<noteq> 2 ^ 31 - 1"
  shows "sint (i + 1) = sint (i :: i32) + 1"
proof -
  have "sint (i + 1) = signed_take_bit 31 (sint i + 1)" by (simp add: sint_word_ariths)
  also have "\<dots> = sint i + 1"
    using sint_bounds_i32 [of i] assms by (intro signed_take_bit_int_eq_self) linarith+
  finally show ?thesis .
qed

lemma inc_i64_InrD: "inc_i64 i = Inr j \<Longrightarrow> j = i + 1 \<and> sint j = sint i + 1"
  using sint_inc_i64 [of i] by (auto simp: inc_i64_def split: if_splits)

lemma inc_i32_InrD: "inc_i32 i = Inr j \<Longrightarrow> j = i + 1 \<and> sint j = sint i + 1"
  using sint_inc_i32 [of i] by (auto simp: inc_i32_def split: if_splits)

lemma inc_i64_measure: "inc_i64 i = Inr j \<Longrightarrow> nat (2 ^ 63 - sint j) < nat (2 ^ 63 - sint i)"
  using inc_i64_InrD [of i j] sint_bounds_i64 [of i] by linarith

lemma inc_i32_measure: "inc_i32 i = Inr j \<Longrightarrow> nat (2 ^ 31 - sint j) < nat (2 ^ 31 - sint i)"
  using inc_i32_InrD [of i j] sint_bounds_i32 [of i] by linarith

text \<open>\<open>str_len\<close> is counted apart from the index, as the code does.\<close>

function strcpy_loop :: "addr \<Rightarrow> addr \<Rightarrow> i64 \<Rightarrow> i64 \<Rightarrow> mem \<Rightarrow> (i64 \<times> mem) res" where
  "strcpy_loop dst src str_len i m =
     bind_res (load8 m (src + i)) (\<lambda>b.
       if b = 0 then Inr (str_len, m)
       else bind_res (store8 m (dst + i) b) (\<lambda>m'.
              bind_res (inc_i64 str_len) (\<lambda>str_len'.
                bind_res (inc_i64 i) (\<lambda>i'. strcpy_loop dst src str_len' i' m'))))"
  by pat_completeness auto
termination
  by (relation "measure (\<lambda>(dst, src, str_len, i, m). nat (2 ^ 63 - sint i))")
    (simp, simp only: in_measure prod.case, rule inc_i64_measure)

definition strcpy :: "addr \<Rightarrow> addr \<Rightarrow> mem \<Rightarrow> (addr \<times> mem) res" where
  "strcpy dst src m =
     bind_res (strcpy_loop dst src 0 0 m) (\<lambda>(str_len, m').
       bind_res (store8 m' (dst + str_len) 0) (\<lambda>m''. Inr (dst, m'')))"

text \<open>In \<open>i < count\<close> the index is converted to \<open>size_t\<close>: the comparison is unsigned.\<close>

function strncpy_copy_loop :: "addr \<Rightarrow> addr \<Rightarrow> u64 \<Rightarrow> i64 \<Rightarrow> i64 \<Rightarrow> mem \<Rightarrow> (i64 \<times> mem) res" where
  "strncpy_copy_loop dst src count str_len i m =
     (if i < count
      then bind_res (load8 m (src + i)) (\<lambda>b.
             if b = 0 then Inr (str_len, m)
             else bind_res (store8 m (dst + i) b) (\<lambda>m'.
                    bind_res (inc_i64 str_len) (\<lambda>str_len'.
                      bind_res (inc_i64 i) (\<lambda>i'. strncpy_copy_loop dst src count str_len' i' m'))))
      else Inr (str_len, m))"
  by pat_completeness auto
termination
  by (relation "measure (\<lambda>(dst, src, count, str_len, i, m). nat (2 ^ 63 - sint i))")
    (simp, simp only: in_measure prod.case, rule inc_i64_measure)

function strncpy_pad_loop :: "addr \<Rightarrow> u64 \<Rightarrow> i64 \<Rightarrow> mem \<Rightarrow> mem res" where
  "strncpy_pad_loop dst count i m =
     (if i < count
      then bind_res (store8 m (dst + i) 0) (\<lambda>m'.
             bind_res (inc_i64 i) (\<lambda>i'. strncpy_pad_loop dst count i' m'))
      else Inr m)"
  by pat_completeness auto
termination
  by (relation "measure (\<lambda>(dst, count, i, m). nat (2 ^ 63 - sint i))")
    (simp, simp only: in_measure prod.case, rule inc_i64_measure)

definition strncpy :: "addr \<Rightarrow> addr \<Rightarrow> u64 \<Rightarrow> mem \<Rightarrow> (addr \<times> mem) res" where
  "strncpy dst src count m =
     bind_res (strncpy_copy_loop dst src count 0 0 m) (\<lambda>(str_len, m').
       bind_res (strncpy_pad_loop dst count str_len m') (\<lambda>m''. Inr (dst, m'')))"

text \<open>\<open>memset\<close> counts with an \<open>int\<close>, converted to \<open>size_t\<close> (sign extended) for \<open>i != length\<close>.\<close>

function memset_loop :: "addr \<Rightarrow> i32 \<Rightarrow> u64 \<Rightarrow> i32 \<Rightarrow> mem \<Rightarrow> mem res" where
  "memset_loop dest ch len i m =
     (if scast i = len then Inr m
      else bind_res (store8 m (dest + scast i) (ucast ch)) (\<lambda>m'.
             bind_res (inc_i32 i) (\<lambda>i'. memset_loop dest ch len i' m')))"
  by pat_completeness auto
termination
  by (relation "measure (\<lambda>(dest, ch, len, i, m). nat (2 ^ 31 - sint i))")
    (simp, simp only: in_measure prod.case, rule inc_i32_measure)

definition memset :: "addr \<Rightarrow> i32 \<Rightarrow> u64 \<Rightarrow> mem \<Rightarrow> mem res" where
  "memset dest ch len m = memset_loop dest ch len 0 m"

text \<open>The loop of \<open>_wcsicmp\<close> advances neither pointer.\<close>

partial_function (option) wcsicmp_loop :: "addr \<Rightarrow> addr \<Rightarrow> mem \<Rightarrow> i32 option res option" where
  "wcsicmp_loop s1 s2 m =
     (case load16 m s1 of Inl e \<Rightarrow> Some (Inl e) | Inr c1 \<Rightarrow>
        if c1 = 0 then Some (Inr None)
        else (case load16 m s2 of Inl e \<Rightarrow> Some (Inl e) | Inr c2 \<Rightarrow>
               if c2 = 0 then Some (Inr None)
               else if c1 \<noteq> c2 then Some (Inr (Some (ucast c1 - ucast c2)))
               else wcsicmp_loop s1 s2 m))"

definition wcsicmp :: "addr \<Rightarrow> addr \<Rightarrow> mem \<Rightarrow> i32 res" where
  "wcsicmp s1 s2 m =
     bind_res (loop_res (wcsicmp_loop s1 s2 m)) (\<lambda>r.
       case r of Some d \<Rightarrow> Inr d
       | None \<Rightarrow>
           bind_res (load16 m s1) (\<lambda>c1. bind_res (load16 m s2) (\<lambda>c2.
             if c1 = 0 \<and> c2 \<noteq> 0 then Inr (-1) else if c1 \<noteq> 0 \<and> c2 = 0 then Inr 1 else Inr 0)))"

declare memcpy_loop.simps [simp del] memccpy_loop.simps [simp del] memmove_back_loop.simps [simp del]
  strcpy_loop.simps [simp del] strncpy_copy_loop.simps [simp del] strncpy_pad_loop.simps [simp del]
  memset_loop.simps [simp del]

section \<open>Copying forwards\<close>

text \<open>No byte is overwritten before it is read.\<close>

definition fwd_ok :: "addr \<Rightarrow> addr \<Rightarrow> nat \<Rightarrow> bool" where
  "fwd_ok dst src n \<longleftrightarrow> (\<forall>j k. j < k \<longrightarrow> k < n \<longrightarrow> dst + of_nat j \<noteq> src + of_nat k)"

lemma fwd_okI_disj: "disj_range dst n src n \<Longrightarrow> n \<le> 2 ^ 64 \<Longrightarrow> fwd_ok dst src n"
  unfolding fwd_ok_def disj_range_def by (metis in_range_offset order.strict_trans)

lemma unat_offset: "unat a + n \<le> 2 ^ 64 \<Longrightarrow> i < n \<Longrightarrow> unat (a + of_nat i :: addr) = unat a + i"
  by (subst unat_add_no_wrap) (simp_all add: unat_of_nat_u64)

lemma fwd_okI_below:
  assumes "dst < src" "unat src + n \<le> 2 ^ 64"
  shows "fwd_ok dst src n"
  unfolding fwd_ok_def
proof (intro allI impI)
  fix j k assume jk: "j < k" "k < n"
  have d: "unat dst < unat src" using assms(1) by (simp add: word_less_nat_alt)
  then have "unat dst + n \<le> 2 ^ 64" using assms(2) by linarith
  then have "unat (dst + of_nat j) = unat dst + j" by (rule unat_offset) (use jk in simp)
  moreover have "unat (src + of_nat k) = unat src + k" using assms(2) jk(2) by (rule unat_offset)
  ultimately have "unat (dst + of_nat j) < unat (src + of_nat k)" using d jk by linarith
  then show "dst + of_nat j \<noteq> src + of_nat k" by auto
qed

lemma peek_snoc: "peek m a (Suc n) = peek m a n @ [the (m (a + of_nat n))]"
  by (simp add: peek_def)

lemma poke_snoc:
  assumes "length bs < 2 ^ 64"
  shows "(poke m a bs)(a + of_nat (length bs) \<mapsto> b) = poke m a (bs @ [b])"
proof
  fix x
  show "((poke m a bs)(a + of_nat (length bs) \<mapsto> b)) x = poke m a (bs @ [b]) x"
  proof (cases "x = a + of_nat (length bs)")
    case True
    then show ?thesis using assms by (simp add: poke_def in_range_def unat_of_nat_u64 nth_append)
  next
    case False
    have "unat (x - a) \<noteq> length bs"
    proof
      assume "unat (x - a) = length bs"
      then have "x - a = of_nat (length bs)" by (metis of_nat_unat_u64)
      with False show False by (simp add: algebra_simps)
    qed
    then show ?thesis using False by (auto simp: poke_def in_range_def nth_append)
  qed
qed

lemma copy_step:
  assumes "mapped m src n" "mapped m dst n" "fwd_ok dst src n" "i < n" "n \<le> 2 ^ 64"
  shows "load8 (poke m dst (peek m src i)) (src + of_nat i) = Inr (the (m (src + of_nat i)))"
    and "store8 (poke m dst (peek m src i)) (dst + of_nat i) b = Inr (poke m dst (peek m src i @ [b]))"
proof -
  have s: "m (src + of_nat i) \<noteq> None" and d: "m (dst + of_nat i) \<noteq> None"
    using assms by (auto dest: mapped_offsetD)
  have "\<not> in_range (src + of_nat i) dst i"
  proof
    assume "in_range (src + of_nat i) dst i"
    then obtain j where "j < i" "src + of_nat i = dst + of_nat j" using in_range_nth by blast
    with assms(3,4) show False unfolding fwd_ok_def by metis
  qed
  then show "load8 (poke m dst (peek m src i)) (src + of_nat i) = Inr (the (m (src + of_nat i)))"
    using s by (auto simp: load8_def poke_def)
  have "poke m dst (peek m src i) (dst + of_nat i) \<noteq> None" using d by (auto simp: poke_def)
  then show "store8 (poke m dst (peek m src i)) (dst + of_nat i) b = Inr (poke m dst (peek m src i @ [b]))"
    using poke_snoc [of "peek m src i" m dst b] assms(4,5) by (auto simp: store8_def)
qed

lemma copy_step_peek:
  assumes "mapped m src n" "mapped m dst n" "fwd_ok dst src n" "i < n" "n \<le> 2 ^ 64"
  shows "store8 (poke m dst (peek m src i)) (dst + of_nat i) (the (m (src + of_nat i))) =
    Inr (poke m dst (peek m src (Suc i)))"
  unfolding peek_snoc by (rule copy_step(2) [OF assms])

lemma of_nat_less_count: "i < unat count \<Longrightarrow> of_nat i < (count :: u64)"
proof -
  assume i: "i < unat count"
  then have "unat (of_nat i :: u64) = i"
    using less_trans [OF i unat_less_u64] by (intro unat_of_nat_u64) simp
  with i show ?thesis by (simp add: word_less_nat_alt)
qed

lemma memcpy_loop_fwd:
  assumes "mapped m src n" "mapped m dst n" "fwd_ok dst src n" "n = unat count" "i \<le> n"
  shows "memcpy_loop dst src count (of_nat i) (poke m dst (peek m src i)) = Inr (poke m dst (peek m src n))"
  using assms(5)
proof (induction i rule: inc_induct)
  case base
  then show ?case by (subst memcpy_loop.simps) (simp add: assms(4))
next
  case (step i)
  have n: "n \<le> 2 ^ 64" using less_imp_le [OF unat_less_u64 [of count]] by (simp add: assms(4))
  have i: "of_nat i < count" by (rule of_nat_less_count) (use step(2) assms(4) in simp)
  note c = copy_step(1) [OF assms(1-3) step(2) n] copy_step_peek [OF assms(1-3) step(2) n]
  show ?case
    by (subst memcpy_loop.simps) (use i c step.IH in \<open>simp add: add.commute\<close>)
qed

lemma memcpy_fwd:
  assumes "mapped m src (unat count)" "mapped m dst (unat count)" "fwd_ok dst src (unat count)"
  shows "memcpy_loop dst src count 0 m = Inr (poke m dst (peek m src (unat count)))"
  using memcpy_loop_fwd [OF assms refl, of 0] by (simp add: peek_def)

section \<open>Copying backwards\<close>

lemma poke_cons_upd:
  assumes "length bs < 2 ^ 64"
  shows "(poke m (a + 1) bs)(a \<mapsto> b) = poke m a (b # bs)"
proof
  fix x
  have "poke (m(a \<mapsto> b)) (a + 1) bs x = poke m a (b # bs) x" using poke_Cons [OF assms] by simp
  moreover have "\<not> in_range a (a + 1) (length bs)"
  proof
    have "unat (- 1 :: u64) = 2 ^ 64 - 1" by (simp add: unsigned_minus_1_eq_mask mask_eq_exp_minus_1)
    moreover assume "in_range a (a + 1) (length bs)"
    ultimately show False using assms by (simp add: in_range_def)
  qed
  ultimately show "((poke m (a + 1) bs)(a \<mapsto> b)) x = poke m a (b # bs) x"
    by (auto simp: poke_def)
qed

lemma memmove_back_from:
  assumes "mapped m src n" "mapped m dst n" "src < dst" "unat dst + n \<le> 2 ^ 64" "i \<le> n"
  shows "memmove_back_loop dst src (of_nat i) (poke m (dst + of_nat i) (peek m (src + of_nat i) (n - i))) =
    Inr (poke m dst (peek m src n))"
  using assms(5)
proof (induction i)
  case 0
  then show ?case by (subst memmove_back_loop.simps) simp
next
  case (Suc i)
  have sd: "unat src < unat dst" using assms(3) by (simp add: word_less_nat_alt)
  have n: "n < 2 ^ 64" using assms(4) sd by linarith
  let ?M = "poke m (dst + of_nat (Suc i)) (peek m (src + of_nat (Suc i)) (n - Suc i))"
  have nz: "of_nat (Suc i) \<noteq> (0 :: u64)"
  proof
    assume "of_nat (Suc i) = (0 :: u64)"
    then have "unat (of_nat (Suc i) :: u64) = 0" by simp
    with unat_of_nat_u64 [of "Suc i"] Suc.prems n show False by simp
  qed
  have pred: "of_nat (Suc i) - 1 = (of_nat i :: u64)" by simp
  have s: "m (src + of_nat i) \<noteq> None" and d: "m (dst + of_nat i) \<noteq> None"
    using mapped_offsetD [OF assms(1), of i] mapped_offsetD [OF assms(2), of i] Suc.prems n by simp_all
  have "\<not> in_range (src + of_nat i) (dst + of_nat (Suc i)) (n - Suc i)"
  proof (cases "Suc i = n")
    case False
    have u: "unat (dst + of_nat (Suc i)) = unat dst + Suc i" by (rule unat_offset [OF assms(4)]) (use False Suc.prems in simp)
    have v: "unat (src + of_nat i) = unat src + i" by (rule unat_offset [of _ n]) (use sd assms(4) Suc.prems in simp_all)
    show ?thesis by (subst in_range_iff) (use u v sd assms(4) Suc.prems in simp_all)
  qed simp
  then have l: "load8 ?M (src + of_nat i) = Inr (the (m (src + of_nat i)))"
    using s by (auto simp: load8_def poke_def)
  have "?M (dst + of_nat i) \<noteq> None" using d by (auto simp: poke_def)
  moreover have "?M(dst + of_nat i \<mapsto> the (m (src + of_nat i))) =
      poke m (dst + of_nat i) (peek m (src + of_nat i) (n - i))"
  proof -
    have "n - i = Suc (n - Suc i)" using Suc.prems by simp
    then have "peek m (src + of_nat i) (n - i) = the (m (src + of_nat i)) # peek m (src + of_nat i + 1) (n - Suc i)"
      by (simp only: peek_Suc)
    moreover have "src + of_nat (Suc i) = src + of_nat i + 1" "dst + of_nat (Suc i) = dst + of_nat i + 1"
      by (simp_all add: add.commute add.left_commute)
    ultimately show ?thesis using n by (simp only: poke_cons_upd length_peek)
  qed
  ultimately have st: "store8 ?M (dst + of_nat i) (the (m (src + of_nat i))) =
      Inr (poke m (dst + of_nat i) (peek m (src + of_nat i) (n - i)))"
    by (auto simp: store8_def)
  show ?case
    by (subst memmove_back_loop.simps)
      (use Suc.IH Suc.prems in \<open>simp only: nz if_False pred l st bind_res_simps Suc_leD\<close>)
qed

lemma memmove_back:
  assumes "mapped m src n" "mapped m dst n" "src < dst" "unat dst + n \<le> 2 ^ 64" "n = unat i"
  shows "memmove_back_loop dst src i m = Inr (poke m dst (peek m src n))"
  using memmove_back_from [OF assms(1-4) order_refl] by (simp add: assms(5) peek_def)

section \<open>Strings\<close>

text \<open>A string of length \<open>k\<close> at \<open>src\<close>: \<open>k\<close> bytes that are not zero, then a zero.\<close>

definition c_string :: "mem \<Rightarrow> addr \<Rightarrow> nat \<Rightarrow> bool" where
  "c_string m src k \<longleftrightarrow> mapped m src (Suc k) \<and> (\<forall>i<k. m (src + of_nat i) \<noteq> Some 0)
     \<and> m (src + of_nat k) = Some 0"

lemma inc_i64_of_nat: "Suc i < 2 ^ 63 \<Longrightarrow> inc_i64 (of_nat i) = Inr (of_nat (Suc i))"
proof -
  assume i: "Suc i < 2 ^ 63"
  have "uint (of_nat i :: i64) = int i" using i by (simp add: uint_nat unat_of_nat_u64)
  then have "sint (of_nat i :: i64) = int i"
    using i by (simp add: sint_uint signed_take_bit_int_eq_self)
  with i show ?thesis by (simp add: inc_i64_def add.commute)
qed

lemma strcpy_loop_from:
  assumes "c_string m src k" "mapped m dst (Suc k)" "fwd_ok dst src (Suc k)" "Suc k < 2 ^ 63" "i \<le> k"
  shows "strcpy_loop dst src (of_nat i) (of_nat i) (poke m dst (peek m src i)) =
    Inr (of_nat k, poke m dst (peek m src k))"
  using assms(5)
proof (induction i rule: inc_induct)
  case base
  have ms: "mapped m src (Suc k)" using assms(1) by (simp add: c_string_def)
  from copy_step(1) [OF ms assms(2,3) lessI] assms(1,4) show ?case
    by (subst strcpy_loop.simps) (simp add: c_string_def)
next
  case (step i)
  have ms: "mapped m src (Suc k)" using assms(1) by (simp add: c_string_def)
  have i: "i < Suc k" "Suc k \<le> 2 ^ 64" using step(2) assms(4) by simp_all
  have nz: "the (m (src + of_nat i)) \<noteq> 0"
    using assms(1) step(2) mapped_offsetD [OF ms i] by (auto simp: c_string_def)
  have inc: "inc_i64 (of_nat i) = Inr (of_nat (Suc i))" by (rule inc_i64_of_nat) (use step(2) assms(4) in simp)
  show ?case
    by (subst strcpy_loop.simps) (simp only: copy_step(1) [OF ms assms(2,3) i] copy_step_peek [OF ms assms(2,3) i]
        nz inc bind_res_simps if_False step.IH)
qed

lemma strncpy_copy_loop_from:
  assumes "mapped m src n" "mapped m dst n" "fwd_ok dst src n" "n = unat count" "n < 2 ^ 63"
    and "k \<le> n" "\<forall>i<k. m (src + of_nat i) \<noteq> Some 0" "k < n \<longrightarrow> m (src + of_nat k) = Some 0" "i \<le> k"
  shows "strncpy_copy_loop dst src count (of_nat i) (of_nat i) (poke m dst (peek m src i)) =
    Inr (of_nat k, poke m dst (peek m src k))"
  using assms(9)
proof (induction i rule: inc_induct)
  case base
  have n: "n \<le> 2 ^ 64" using assms(5) by simp
  show ?case
  proof (cases "k < n")
    case True
    have "of_nat k < count" by (rule of_nat_less_count) (use True assms(4) in simp)
    with copy_step(1) [OF assms(1-3) True n] assms(8) True show ?thesis
      by (subst strncpy_copy_loop.simps) simp
  next
    case False
    then have "\<not> of_nat k < count" using assms(4,6) by simp
    then show ?thesis by (subst strncpy_copy_loop.simps) simp
  qed
next
  case (step i)
  have i: "i < n" "n \<le> 2 ^ 64" using step(2) assms(5,6) by simp_all
  have lt: "of_nat i < count" by (rule of_nat_less_count) (use i assms(4) in simp)
  have nz: "the (m (src + of_nat i)) \<noteq> 0"
    using assms(7) step(2) mapped_offsetD [OF assms(1) i] by auto
  have inc: "inc_i64 (of_nat i) = Inr (of_nat (Suc i))" by (rule inc_i64_of_nat) (use i assms(5) in simp)
  show ?case
    by (subst strncpy_copy_loop.simps) (simp only: lt if_True copy_step(1) [OF assms(1-3) i]
        copy_step_peek [OF assms(1-3) i] nz inc bind_res_simps if_False step.IH)
qed

lemma store8_append:
  assumes "m (a + of_nat n) \<noteq> None" "length bs = n" "n < 2 ^ 64"
  shows "store8 (poke m a bs) (a + of_nat n) c = Inr (poke m a (bs @ [c]))"
  using assms poke_snoc [of bs m a c] by (auto simp: store8_def poke_def)

lemma strncpy_pad_loop_from:
  assumes "mapped m dst n" "n = unat count" "n < 2 ^ 63" "length bs = k" "k \<le> i" "i \<le> n"
  shows "strncpy_pad_loop dst count (of_nat i) (poke m dst (bs @ replicate (i - k) 0)) =
    Inr (poke m dst (bs @ replicate (n - k) 0))"
  using assms(6,5)
proof (induction i rule: inc_induct)
  case base
  have "\<not> of_nat n < count" by (simp add: assms(2))
  then show ?case by (subst strncpy_pad_loop.simps) simp
next
  case (step i)
  let ?bs = "bs @ replicate (i - k) 0"
  have i: "i < n" "n \<le> 2 ^ 64" using step(2) assms(3) by simp_all
  have lt: "of_nat i < count" by (rule of_nat_less_count) (use i assms(2) in simp)
  have len: "length ?bs = i" using step.prems assms(4) by simp
  have "replicate (Suc i - k) (0 :: u8) = replicate (i - k) 0 @ [0]"
    using step.prems by (simp add: Suc_diff_le replicate_append_same)
  then have "store8 (poke m dst ?bs) (dst + of_nat i) 0 = Inr (poke m dst (bs @ replicate (Suc i - k) 0))"
    using store8_append [of m dst i ?bs 0] mapped_offsetD [OF assms(1) i] len i assms(3) by simp
  moreover have "inc_i64 (of_nat i) = Inr (of_nat (Suc i))" by (rule inc_i64_of_nat) (use i assms(3) in simp)
  ultimately show ?case using step.IH step.prems
    by (subst strncpy_pad_loop.simps) (simp only: lt if_True bind_res_simps le_SucI)
qed

lemma memccpy_loop_from:
  assumes "mapped m src n" "mapped m dst n" "disj_range dst n src n" "n = unat count"
    and "k < n" "m (src + of_nat k) = Some b" "ucast b = c"
    and "\<forall>i<k. \<forall>b. m (src + of_nat i) = Some b \<longrightarrow> ucast b \<noteq> c" "i \<le> k"
  shows "memccpy_loop dst src c count (of_nat i) (poke m dst (peek m src i)) =
    Inr (src + of_nat (Suc k), poke m dst (peek m src (Suc k)))"
  using assms(9)
proof (induction i rule: inc_induct)
  have n: "n \<le> 2 ^ 64" using less_imp_le [OF unat_less_u64 [of count]] by (simp add: assms(4))
  have f: "fwd_ok dst src n" by (rule fwd_okI_disj [OF assms(3) n])
  have again: "load8 (poke m dst (peek m src (Suc i))) (src + of_nat i) = Inr (the (m (src + of_nat i)))"
    if "i < n" for i
  proof -
    have "in_range (src + of_nat i) src n" using that n by (rule in_range_offset)
    then have "\<not> in_range (src + of_nat i) dst (Suc i)"
      using assms(3) that in_range_mono [of _ dst "Suc i" n] unfolding disj_range_def by auto
    then show ?thesis using mapped_offsetD [OF assms(1) that n] by (auto simp: load8_def poke_def)
  qed
  have lt: "of_nat i < count" if "i < n" for i by (rule of_nat_less_count) (use that assms(4) in simp)
  {
    case base
    have b: "the (m (src + of_nat k)) = b" using assms(6) by simp
    have s: "of_nat k + 1 = (of_nat (Suc k) :: u64)" by (simp add: add.commute)
    show ?case
      by (subst memccpy_loop.simps) (simp only: lt [OF assms(5)] if_True copy_step(1) [OF assms(1,2) f assms(5) n]
          copy_step_peek [OF assms(1,2) f assms(5) n, unfolded b] again [OF assms(5)] b bind_res_simps assms(7) s refl if_True)
  next
    case (step i)
    have i: "i < n" using step(2) assms(5) by simp
    have ne: "ucast (the (m (src + of_nat i))) \<noteq> c"
      using assms(8) step(2) mapped_offsetD [OF assms(1) i n] by auto
    have s: "of_nat i + 1 = (of_nat (Suc i) :: u64)" by (simp add: add.commute)
    show ?case
      by (subst memccpy_loop.simps) (simp only: lt [OF i] if_True copy_step(1) [OF assms(1,2) f i n]
          copy_step_peek [OF assms(1,2) f i n] again [OF i] bind_res_simps ne if_False s step.IH)
  }
qed

lemma wcsicmp_loop_returns:
  assumes "wcsicmp_loop s1 s2 m = Some r" "load16 m s1 = Inr c" "load16 m s2 = Inr c"
  shows "c = 0"
proof -
  let ?P = "\<lambda>s1 s2 m r. load16 m s1 = Inr c \<longrightarrow> load16 m s2 = Inr c \<longrightarrow> c = 0"
  have "?P s1 s2 m r"
    by (rule wcsicmp_loop.raw_induct [where P = ?P, OF _ assms(1)]) (auto split: if_splits)
  with assms(2,3) show ?thesis by simp
qed

section \<open>Properties\<close>

text \<open>C15: \<open>memmove\<close>.  With \<open>dst\<close> below \<open>src\<close> it moves \<open>count\<close> bytes, overlap or not, as it promises; with
  \<open>dst\<close> above \<open>src\<close> it moves one byte less, and leaves the last byte of the destination as it was.\<close>

theorem memmove_moves:
  assumes "mapped m src (unat count)" "mapped m dst (unat count)"
    and "unat src + unat count \<le> 2 ^ 64" "unat dst + unat count \<le> 2 ^ 64" "count \<noteq> 0" "dst \<noteq> src"
  shows "memmove dst src count m =
    Inr (dst, poke m dst (peek m src (if dst < src then unat count else unat count - 1)))"
proof (cases "dst < src")
  case True
  with memcpy_fwd [OF assms(1,2) fwd_okI_below [OF True assms(3)]] assms(6) show ?thesis
    by (simp add: memmove_def)
next
  case False
  have c: "unat (count - 1) = unat count - 1" using assms(5) by (rule unat_minus_one)
  have lt: "src < dst" using False assms(6) by simp
  have "mapped m src (unat count - 1)" "mapped m dst (unat count - 1)"
    using assms(1,2) by (auto elim: mapped_mono)
  from memmove_back [OF this lt _ c [symmetric]] assms(4,6) False show ?thesis
    by (simp add: memmove_def)
qed

text \<open>\<open>memccpy\<close> copies up to and including the first byte equal to \<open>c\<close>, but the pointer it returns
  points behind that byte in the source, not in the destination.\<close>

theorem memccpy_returns_source:
  assumes "mapped m src (unat count)" "mapped m dst (unat count)" "disj_range dst (unat count) src (unat count)"
    and "k < unat count" "m (src + of_nat k) = Some b" "ucast b = c"
    and "\<forall>i<k. \<forall>b. m (src + of_nat i) = Some b \<longrightarrow> ucast b \<noteq> c"
  shows "memccpy dst src c count m = Inr (src + of_nat (Suc k), poke m dst (peek m src (Suc k)))"
  using memccpy_loop_from [OF assms(1-3) refl assms(4-7), of 0] by (simp add: memccpy_def peek_def)

text \<open>\<open>strcpy\<close> of a string of length \<open>k\<close> copies the \<open>k\<close> characters and the terminating zero.\<close>

theorem strcpy_copies:
  assumes "c_string m src k" "mapped m dst (Suc k)" "fwd_ok dst src (Suc k)" "Suc k < 2 ^ 63"
  shows "strcpy dst src m = Inr (dst, poke m dst (peek m src (Suc k)))"
proof -
  have k: "the (m (src + of_nat k)) = 0" using assms(1) by (simp add: c_string_def)
  have "store8 (poke m dst (peek m src k)) (dst + of_nat k) 0 = Inr (poke m dst (peek m src (Suc k)))"
    using store8_append [of m dst k "peek m src k" 0] mapped_offsetD [OF assms(2), of k] assms(4)
    by (simp add: peek_snoc k)
  with strcpy_loop_from [OF assms, of 0] show ?thesis by (simp add: strcpy_def peek_def)
qed

text \<open>C16: \<open>strncpy\<close> copies the first \<open>k\<close> bytes, up to the first zero or \<open>count\<close>, and fills the rest of the
  \<open>count\<close> bytes with zeros; it writes no other byte.\<close>

theorem strncpy_copies_and_pads:
  assumes "mapped m src (unat count)" "mapped m dst (unat count)" "fwd_ok dst src (unat count)" "unat count < 2 ^ 63"
    and "k \<le> unat count" "\<forall>i<k. m (src + of_nat i) \<noteq> Some 0" "k < unat count \<longrightarrow> m (src + of_nat k) = Some 0"
  shows "strncpy dst src count m = Inr (dst, poke m dst (peek m src k @ replicate (unat count - k) 0))"
  using strncpy_copy_loop_from [OF assms(1-3) refl assms(4-7), of 0]
    strncpy_pad_loop_from [OF assms(2) refl assms(4) length_peek order_refl assms(5), of m src]
  by (simp add: strncpy_def peek_def)

text \<open>\<open>_wcsicmp\<close> never returns when both strings start with the same non-zero character.\<close>

theorem wcsicmp_hangs:
  assumes "load16 m s1 = Inr c" "load16 m s2 = Inr c" "c \<noteq> 0"
  shows "wcsicmp s1 s2 m = Inl Hang"
proof (cases "wcsicmp_loop s1 s2 m")
  case None
  then show ?thesis by (simp add: wcsicmp_def)
next
  case (Some r)
  from wcsicmp_loop_returns [OF Some assms(1,2)] assms(3) show ?thesis by simp
qed

section \<open>Witnesses\<close>

text \<open>Eight bytes at 0x100: the string ''hi'', its zero, and five more.\<close>

definition example_bytes :: mem where
  "example_bytes = poke Map.empty 0x100 [104, 105, 0, 7, 9, 9, 9, 9]"

lemma example_bytes_mapped:
  assumes "off + n \<le> 8" "a = 0x100 + of_nat off"
  shows "mapped example_bytes a n"
proof -
  have "mapped example_bytes 0x100 8"
    by (auto simp: mapped_def example_bytes_def poke_def numeral_eq_Suc)
  from mapped_sub [OF this assms(1)] show ?thesis by (simp add: assms(2))
qed

lemma example_bytes_at:
  "example_bytes 0x100 = Some 104" "example_bytes 0x101 = Some 105" "example_bytes 0x102 = Some 0"
  by (simp_all add: example_bytes_def poke_def in_range_def)

theorem memmove_moves_witness:
  "memmove 0x102 0x100 3 example_bytes = Inr (0x102, poke example_bytes 0x102 (peek example_bytes 0x100 2))"
  using memmove_moves [of example_bytes "0x100" 3 "0x102"] example_bytes_mapped [of 0 3 "0x100"]
    example_bytes_mapped [of 2 3 "0x102"]
  by simp

lemma example_apart: "n \<le> 4 \<Longrightarrow> disj_range 0x104 n 0x100 n"
  by (intro disj_range_sym [OF disj_rangeI_le]) simp_all

theorem memccpy_returns_source_witness:
  "fst (projr (memccpy 0x104 0x100 105 4 example_bytes)) = 0x102"
proof -
  have "\<forall>i<1. \<forall>b. example_bytes (0x100 + of_nat i) = Some b \<longrightarrow> ucast b \<noteq> (105 :: i32)"
    by (auto simp: example_bytes_at)
  with memccpy_returns_source [of example_bytes "0x100" 4 "0x104" 1 105 105] example_bytes_mapped [of 0 4 "0x100"]
    example_bytes_mapped [of 4 4 "0x104"] example_apart [of 4] show ?thesis
    by (simp add: example_bytes_at)
qed

lemma example_string: "c_string example_bytes 0x100 2"
  using example_bytes_mapped [of 0 3 "0x100"]
  by (simp add: c_string_def all_less_2 example_bytes_at)

theorem strcpy_copies_witness:
  "strcpy 0x104 0x100 example_bytes = Inr (0x104, poke example_bytes 0x104 (peek example_bytes 0x100 3))"
  using strcpy_copies [OF example_string, of "0x104"] example_bytes_mapped [of 4 3 "0x104"]
    fwd_okI_disj [OF example_apart [of 3]]
  by simp

theorem strncpy_copies_and_pads_witness:
  "strncpy 0x104 0x100 4 example_bytes =
     Inr (0x104, poke example_bytes 0x104 (peek example_bytes 0x100 2 @ [0, 0]))"
proof -
  have "\<forall>i<2. example_bytes (0x100 + of_nat i) \<noteq> Some 0"
    by (simp add: all_less_2 example_bytes_at)
  with strncpy_copies_and_pads [of example_bytes "0x100" 4 "0x104" 2] example_bytes_mapped [of 0 4 "0x100"]
    example_bytes_mapped [of 4 4 "0x104"] fwd_okI_disj [OF example_apart [of 4]]
  show ?thesis by (simp add: example_bytes_at replicate_2)
qed

theorem wcsicmp_hangs_witness: "wcsicmp 0x100 0x100 example_bytes = Inl Hang"
proof -
  have "load16 example_bytes 0x100 = Inr 0x6968"
    by (simp add: load16_def load_bytes_2 load8_def example_bytes_at)
  from wcsicmp_hangs [OF this this] show ?thesis by simp
qed

end
