(* ===== verification/Program.thy ===== *)
theory Program
  imports Tinyrt
begin

text \<open>
  \<open>src/stdlib-program/program.c\<close>: the two tables of exit handlers and the functions that end the
  program.  A handler is code of the caller: \<open>call\<close> is a parameter that gives the effect of calling
  the function at an address, which may itself end the program or change the tables.
\<close>

section \<open>Tables and operations\<close>

definition MAX_ATEXIT_HANDLERS :: u64 where "MAX_ATEXIT_HANDLERS = 32"
definition MAX_AT_QUICK_EXIT_HANDLERS :: u64 where "MAX_AT_QUICK_EXIT_HANDLERS = 32"

record 'k program =
  atexit_handlers :: "addr list"
  at_quick_exit_handlers :: "addr list"
  n_atexit_handlers :: u64
  n_at_quick_exit_handlers :: u64
  pg_world :: "'k world"

type_synonym 'k handler_call = "addr \<Rightarrow> 'k program \<Rightarrow> 'k program res"

text \<open>The static tables are zero when the program starts.\<close>

definition program_start :: "'k world \<Rightarrow> 'k program" where
  "program_start w = \<lparr>atexit_handlers = replicate (unat MAX_ATEXIT_HANDLERS) 0,
     at_quick_exit_handlers = replicate (unat MAX_AT_QUICK_EXIT_HANDLERS) 0,
     n_atexit_handlers = 0, n_at_quick_exit_handlers = 0, pg_world = w\<rparr>"

definition atexit :: "addr \<Rightarrow> 'k program \<Rightarrow> (i32 \<times> 'k program) res" where
  "atexit func p =
     (if n_atexit_handlers p = MAX_ATEXIT_HANDLERS then Inr (ucast MAX_ATEXIT_HANDLERS, p)
      else bind_res (array_write (atexit_handlers p) (unat (n_atexit_handlers p)) func) (\<lambda>t.
        Inr (0, p\<lparr>atexit_handlers := t, n_atexit_handlers := n_atexit_handlers p + 1\<rparr>)))"

definition at_quick_exit :: "addr \<Rightarrow> 'k program \<Rightarrow> (i32 \<times> 'k program) res" where
  "at_quick_exit func p =
     (if n_at_quick_exit_handlers p = MAX_AT_QUICK_EXIT_HANDLERS then Inr (ucast MAX_AT_QUICK_EXIT_HANDLERS, p)
      else bind_res (array_write (at_quick_exit_handlers p) (unat (n_at_quick_exit_handlers p)) func) (\<lambda>t.
        Inr (0, p\<lparr>at_quick_exit_handlers := t, n_at_quick_exit_handlers := n_at_quick_exit_handlers p + 1\<rparr>)))"

text \<open>\<open>_rt_program_exit\<close> does not return, whatever the kernel does with the call.\<close>

definition rt_program_exit :: "'k kernel \<Rightarrow> i32 \<Rightarrow> 'k world \<Rightarrow> 'a res" where
  "rt_program_exit K code w = (case syscall K SYS_exit [scast code] w of (_, _) \<Rightarrow> Inl (Exited code))"

definition abort :: "'k kernel \<Rightarrow> 'k program \<Rightarrow> 'a res" where
  "abort K p = rt_program_exit K 1 (pg_world p)"

lemma sint_pred: "0 <s i \<Longrightarrow> sint (i - 1) = sint (i :: i64) - 1"
proof -
  assume "0 <s i"
  then have p: "0 < sint i" by (simp add: word_sless_alt)
  have "sint (i - 1) = signed_take_bit 63 (sint i - 1)" by (simp add: sint_word_ariths)
  also have "\<dots> = sint i - 1"
    using p sint_lt [of i] by (intro signed_take_bit_int_eq_self) simp_all
  finally show ?thesis .
qed

text \<open>\<open>for(i64 i = n-1; i-- > 0; )\<close>, with the handler read from the table at each turn.\<close>

function handlers_loop ::
  "('k program \<Rightarrow> addr list) \<Rightarrow> 'k handler_call \<Rightarrow> i64 \<Rightarrow> 'k program \<Rightarrow> 'k program res" where
  "handlers_loop table call i p =
     (if 0 <s i
      then bind_res (array_read (table p) (unat (i - 1))) (\<lambda>handler.
             bind_res (call handler p) (\<lambda>p'. handlers_loop table call (i - 1) p'))
      else Inr p)"
  by pat_completeness auto
termination
proof (relation "measure (\<lambda>(table, call, i, p). nat (sint i))")
  fix table :: "'k program \<Rightarrow> addr list" and call :: "'k handler_call" and i :: i64 and p handler p'
  assume i: "0 <s i"
  then have "0 < sint i" by (simp add: word_sless_alt)
  with sint_pred [OF i] show "((table, call, i - 1, p'), table, call, i, p) \<in> measure (\<lambda>(table, call, i, p). nat (sint i))"
    by simp
qed simp

declare handlers_loop.simps [simp del]

definition exit_program :: "'k kernel \<Rightarrow> 'k handler_call \<Rightarrow> i32 \<Rightarrow> 'k program \<Rightarrow> 'a res" where
  "exit_program K call code p =
     bind_res (handlers_loop atexit_handlers call (n_atexit_handlers p - 1) p) (\<lambda>p'.
       rt_program_exit K code (pg_world p'))"

definition Exit_immediate :: "'k kernel \<Rightarrow> i32 \<Rightarrow> 'k program \<Rightarrow> 'a res" where
  "Exit_immediate K code p = rt_program_exit K code (pg_world p)"

definition quick_exit :: "'k kernel \<Rightarrow> 'k handler_call \<Rightarrow> i32 \<Rightarrow> 'k program \<Rightarrow> 'a res" where
  "quick_exit K call code p =
     bind_res (handlers_loop at_quick_exit_handlers call (n_at_quick_exit_handlers p - 1) p) (\<lambda>p'.
       rt_program_exit K code (pg_world p'))"

section \<open>The tables\<close>

definition program_ok :: "'k program \<Rightarrow> bool" where
  "program_ok p \<longleftrightarrow> length (atexit_handlers p) = 32 \<and> length (at_quick_exit_handlers p) = 32
     \<and> unat (n_atexit_handlers p) \<le> 32 \<and> unat (n_at_quick_exit_handlers p) \<le> 32"

definition registered :: "'k program \<Rightarrow> addr list" where
  "registered p = take (unat (n_atexit_handlers p)) (atexit_handlers p)"

lemma program_ok_start: "program_ok (program_start w)"
  by (simp add: program_ok_def program_start_def MAX_ATEXIT_HANDLERS_def MAX_AT_QUICK_EXIT_HANDLERS_def)

lemma take_Suc_update: "n < length xs \<Longrightarrow> take (Suc n) (xs[n := x]) = take n xs @ [x]"
  by (simp add: take_Suc_conv_app_nth)

text \<open>Running a list of handlers in order.\<close>

fun run_handlers :: "'k handler_call \<Rightarrow> addr list \<Rightarrow> 'k program \<Rightarrow> 'k program res" where
  "run_handlers call [] p = Inr p"
| "run_handlers call (f # fs) p = bind_res (call f p) (run_handlers call fs)"

text \<open>A call that leaves the table alone.\<close>

definition keeps_table :: "('k program \<Rightarrow> addr list) \<Rightarrow> 'k handler_call \<Rightarrow> bool" where
  "keeps_table table call \<longleftrightarrow> (\<forall>f p p'. call f p = Inr p' \<longrightarrow> table p' = table p)"

lemma handlers_loop_run:
  assumes "keeps_table table call" "n \<le> length (table p)" "n < 2 ^ 63"
  shows "handlers_loop table call (of_nat n) p = run_handlers call (rev (take n (table p))) p"
  using assms(2,3)
proof (induction n arbitrary: p)
  case 0
  then show ?case by (subst handlers_loop.simps) simp
next
  case (Suc n)
  have "0 <s (of_nat (Suc n) :: i64)"
    using sint_small [OF Suc.prems(2)] by (simp add: word_sless_alt)
  moreover have pred: "of_nat (Suc n) - 1 = (of_nat n :: i64)" by simp
  moreover have "unat (of_nat n :: i64) = n" using Suc.prems(2) by (intro unat_of_nat_u64) simp
  moreover have "handlers_loop table call (of_nat n) p' = run_handlers call (rev (take n (table p))) p'"
    if "call (table p ! n) p = Inr p'" for p'
  proof -
    have "table p' = table p" using assms(1) that by (simp add: keeps_table_def)
    with Suc.IH [of p'] Suc.prems show ?thesis by simp
  qed
  ultimately show ?case
    using Suc.prems by (subst handlers_loop.simps)
      (simp add: array_read_def take_Suc_conv_app_nth del: of_nat_Suc cong: bind_res_cong)
qed

text \<open>Registering a handler is total on well-formed tables and keeps them well formed.\<close>

lemma count_step: "unat n \<le> 32 \<Longrightarrow> n \<noteq> 32 \<Longrightarrow> unat n < 32 \<and> unat (n + 1) = Suc (unat (n :: u64))"
proof -
  assume n: "unat n \<le> 32" "n \<noteq> 32"
  have "unat n \<noteq> 32" using n(2) of_nat_unat_u64 [of n] by (metis of_nat_numeral)
  with n(1) show ?thesis by (simp add: unat_add_no_wrap)
qed

lemma atexit_total:
  assumes "program_ok p"
  shows "\<exists>r p'. atexit f p = Inr (r, p') \<and> program_ok p'"
  using assms count_step [of "n_atexit_handlers p"]
  by (auto simp: atexit_def MAX_ATEXIT_HANDLERS_def array_write_def program_ok_def)

lemma at_quick_exit_total:
  assumes "program_ok p"
  shows "\<exists>r p'. at_quick_exit f p = Inr (r, p') \<and> program_ok p'"
  using assms count_step [of "n_at_quick_exit_handlers p"]
  by (auto simp: at_quick_exit_def MAX_AT_QUICK_EXIT_HANDLERS_def array_write_def program_ok_def)

text \<open>The states of the tables: from the start, by the two registering functions and by other code.\<close>

inductive program_reach :: "'k program \<Rightarrow> bool" where
  start: "program_reach (program_start w)"
| atexit: "program_reach p \<Longrightarrow> atexit f p = Inr (r, p') \<Longrightarrow> program_reach p'"
| at_quick_exit: "program_reach p \<Longrightarrow> at_quick_exit f p = Inr (r, p') \<Longrightarrow> program_reach p'"
| other: "program_reach p \<Longrightarrow> program_reach (p\<lparr>pg_world := w\<rparr>)"

lemma program_reach_ok: "program_reach p \<Longrightarrow> program_ok p"
proof (induction rule: program_reach.induct)
  case (start w)
  show ?case by (rule program_ok_start)
next
  case (atexit p f r p')
  with atexit_total [of p f] show ?case by auto
next
  case (at_quick_exit p f r p')
  with at_quick_exit_total [of p f] show ?case by auto
next
  case (other p w)
  then show ?case by (simp add: program_ok_def)
qed

section \<open>Properties\<close>

text \<open>\<open>atexit\<close> appends to the registered handlers and returns 0 while there are fewer than 32;
  then it returns 32 and changes nothing.\<close>

theorem atexit_registers:
  assumes "program_ok p"
  shows "if unat (n_atexit_handlers p) = 32 then atexit f p = Inr (32, p)
    else \<exists>p'. atexit f p = Inr (0, p') \<and> program_ok p' \<and> registered p' = registered p @ [f]"
proof (cases "unat (n_atexit_handlers p) = 32")
  case True
  then have "n_atexit_handlers p = 32" by (metis of_nat_numeral of_nat_unat_u64)
  then show ?thesis by (simp add: atexit_def MAX_ATEXIT_HANDLERS_def)
next
  case False
  let ?n = "n_atexit_handlers p"
  have n: "unat ?n < 32" "?n \<noteq> 32" using assms False by (auto simp: program_ok_def)
  then have s: "unat (?n + 1) = Suc (unat ?n)" by (subst unat_add_no_wrap) simp_all
  show ?thesis
    using assms n s False
    by (simp add: atexit_def MAX_ATEXIT_HANDLERS_def array_write_def program_ok_def registered_def take_Suc_update)
qed

text \<open>C17: the tables stay well formed.  In every state that is reached from the start by registering
  handlers and by anything that does not touch the tables, both have their 32 elements and counts of at
  most 32, and registering never writes outside of them: it returns, with the new count or with 32.\<close>

theorem program_tables_ok:
  assumes "program_reach p"
  shows "program_ok p \<and> (\<exists>r p'. atexit f p = Inr (r, p') \<and> program_ok p')
    \<and> (\<exists>r p'. at_quick_exit f p = Inr (r, p') \<and> program_ok p')"
  using program_reach_ok [OF assms] atexit_total at_quick_exit_total by blast

text \<open>C18: \<open>exit\<close> runs the registered handlers in reverse order of registration, except the last one
  registered, which it never calls; then it ends the process with the given status.\<close>

theorem exit_skips_last_handler:
  assumes "program_ok p" "keeps_table atexit_handlers call"
  shows "exit_program K call code p =
    bind_res (run_handlers call (rev (butlast (registered p))) p) (\<lambda>_. Inl (Exited code))"
proof (cases "n_atexit_handlers p = 0")
  case True
  have "\<not> 0 <s (-1 :: i64)" by (simp add: word_sless_alt)
  then have "handlers_loop atexit_handlers call (- 1) p = Inr p" by (subst handlers_loop.simps) simp
  with True show ?thesis
    by (simp add: exit_program_def rt_program_exit_def registered_def split: prod.splits)
next
  case False
  let ?n = "unat (n_atexit_handlers p)"
  have n: "?n \<le> 32" "length (atexit_handlers p) = 32" using assms(1) by (simp_all add: program_ok_def)
  have "n_atexit_handlers p - 1 = of_nat (?n - 1)"
    using False by (metis of_nat_unat_u64 unat_minus_one)
  moreover have "handlers_loop atexit_handlers call (of_nat (?n - 1)) p =
      run_handlers call (rev (take (?n - 1) (atexit_handlers p))) p"
    by (rule handlers_loop_run [OF assms(2)]) (use n in simp_all)
  moreover have "take (?n - 1) (atexit_handlers p) = butlast (registered p)"
    using n by (simp add: registered_def butlast_take)
  ultimately show ?thesis
    by (simp add: exit_program_def rt_program_exit_def split: prod.splits)
qed

section \<open>Witnesses\<close>

definition one_handler :: "unit program" where
  "one_handler = (program_start \<lparr>mem = Map.empty, os = ()\<rparr>)
     \<lparr>atexit_handlers := 0x400 # replicate 31 0, n_atexit_handlers := 1\<rparr>"

lemma one_handler_ok: "program_ok one_handler"
  by (simp add: program_ok_def one_handler_def program_start_def MAX_AT_QUICK_EXIT_HANDLERS_def)

theorem atexit_registers_witness:
  "\<exists>p'. atexit 0x500 one_handler = Inr (0, p') \<and> registered p' = [0x400, 0x500]"
  using atexit_registers [OF one_handler_ok, of "0x500"]
  by (auto simp: one_handler_def registered_def)

theorem program_tables_ok_witness:
  "\<exists>r p'. atexit 0x500 (program_start \<lparr>mem = Map.empty, os = ()\<rparr>) = Inr (r, p') \<and> program_ok p'"
  using program_tables_ok [OF program_reach.start] by blast

text \<open>The only handler registered would end the process with status 7; \<open>exit\<close> never calls it.\<close>

theorem exit_skips_last_handler_witness:
  "exit_program enomem_kernel (\<lambda>_ _. Inl (Exited 7)) 0 one_handler = (Inl (Exited 0) :: unit res)"
  using exit_skips_last_handler [OF one_handler_ok, of "\<lambda>_ _. Inl (Exited 7)" enomem_kernel 0]
  by (simp add: keeps_table_def registered_def one_handler_def)

end
