(* ===== verification/File.thy ===== *)
theory File
  imports Pool_Run Mutex
begin

text \<open>
  \<open>src/stdlib-file/common.c\<close> and \<open>src/stdlib-file/file.c\<close>: the \<open>FILE\<close> objects, kept in a pool of their
  own, and the functions on them.  A \<open>FILE\<close> lies in memory: descriptor at offset 0, flags at 8, the
  tag of its mutex at 16.  A local variable whose address is passed on lives at an address given as
  the argument \<open>frame\<close>.
\<close>

section \<open>Objects and state\<close>

definition sizeof_FILE :: u64 where "sizeof_FILE = 24"

definition file_flags :: "addr \<Rightarrow> addr" where "file_flags f = f + 8"
definition file_mutex :: "addr \<Rightarrow> addr" where "file_mutex f = f + 16"

definition EOF :: i32 where "EOF = -1"

record 'k stdio =
  io_stdin :: addr
  io_stdout :: addr
  io_stderr :: addr
  file_pool :: "'k Cia_Pool"
  g_pool_mutex :: addr
  io_handles :: std_handles

text \<open>\<open>file->rt_file = rt\<close>: the two fields; the padding keeps what it held.\<close>

definition set_rt_file :: "addr \<Rightarrow> RT_File \<Rightarrow> mem \<Rightarrow> mem res" where
  "set_rt_file file rt m =
     bind_res (store64 m file (rf_fd rt)) (\<lambda>m'. store32 m' (file_flags file) (rf_flags rt))"

definition lift_mem :: "'k world \<Rightarrow> mem res \<Rightarrow> 'k world res" where
  "lift_mem w r = bind_res r (\<lambda>m. Inr (w\<lparr>mem := m\<rparr>))"

section \<open>Operations\<close>

definition fileapi_init :: "'k kernel \<Rightarrow> 'k stdio \<Rightarrow> 'k world \<Rightarrow> ('k stdio \<times> 'k world) res" where
  "fileapi_init K s w =
     bind_res (cia_pool_create (cia_allocator_pages K) 0x1000 sizeof_FILE 16 w) (\<lambda>(pool, w).
     bind_res (cia_pool_alloc pool w) (\<lambda>(fin, pool, w).
     bind_res (cia_pool_alloc pool w) (\<lambda>(fout, pool, w).
     bind_res (cia_pool_alloc pool w) (\<lambda>(ferr, pool, w).
     let (_, h) = rt_file_std_handles_init (io_handles s) in
     bind_res (lift_mem w (set_rt_file fin (rt_file_stdin h) (mem w))) (\<lambda>w.
     bind_res (lift_mem w (set_rt_file fout (rt_file_stdout h) (mem w))) (\<lambda>w.
     bind_res (lift_mem w (set_rt_file ferr (rt_file_stderr h) (mem w))) (\<lambda>w.
     bind_res (cia_mutex_init (file_mutex fin) w) (\<lambda>w.
     bind_res (cia_mutex_init (file_mutex fout) w) (\<lambda>w.
     bind_res (cia_mutex_init (file_mutex ferr) w) (\<lambda>w.
       Inr (s\<lparr>io_stdin := fin, io_stdout := fout, io_stderr := ferr, file_pool := pool,
              io_handles := h\<rparr>, w)))))))))))"

text \<open>The loop over the \<open>mode\<close> string; 114 and 119 are the characters r and w.\<close>

partial_function (option) fopen_flags :: "mem \<Rightarrow> addr \<Rightarrow> i32 \<Rightarrow> i32 res option" where
  "fopen_flags m mode flags =
     (case load8 m mode of
        Inl e \<Rightarrow> Some (Inl e)
      | Inr c \<Rightarrow>
          if c = 0 then Some (Inr flags)
          else fopen_flags m (mode + 1)
                 (let f = (if c = 114 then flags OR RT_FILE_READ else flags)
                  in if c = 119 then f OR RT_FILE_WRITE else f))"

definition fopen ::
  "'k kernel \<Rightarrow> 'k stdio \<Rightarrow> addr \<Rightarrow> addr \<Rightarrow> 'k world \<Rightarrow> (addr \<times> 'k stdio \<times> 'k world) res" where
  "fopen K s filename mode w =
     bind_res (loop_res (fopen_flags (mem w) mode 0)) (\<lambda>flags.
     case rt_file_open K filename flags w of ((status, rt), w) \<Rightarrow>
       if status \<noteq> RT_STATUS_OK then Inr (0, s, w)
       else
         bind_res (cia_mutex_lock K (g_pool_mutex s) w) (\<lambda>w.
         bind_res (cia_pool_alloc (file_pool s) w) (\<lambda>(file, pool, w).
         bind_res (cia_mutex_unlock K (g_pool_mutex s) w) (\<lambda>w.
         case rt of None \<Rightarrow> Inl (Undefined Uninitialised) | Some rt_file \<Rightarrow>
         bind_res (lift_mem w (set_rt_file file rt_file (mem w))) (\<lambda>w.
           Inr (file, s\<lparr>file_pool := pool\<rparr>, w))))))"

text \<open>\<open>frame\<close> is the address of the local \<open>c\<close>.\<close>

definition fgetc :: "'k kernel \<Rightarrow> addr \<Rightarrow> addr \<Rightarrow> 'k world \<Rightarrow> (i32 \<times> 'k world) res" where
  "fgetc K frame file w =
     bind_res (lift_mem w (store32 (mem w) frame 0)) (\<lambda>w.
     bind_res (cia_mutex_lock K (file_mutex file) w) (\<lambda>w.
     bind_res (rt_file_read K 1 frame file w) (\<lambda>((status, bytes_read), w).
     bind_res (cia_mutex_unlock K (file_mutex file) w) (\<lambda>w.
       if status = RT_STATUS_FILE_EOF then Inr (EOF, w)
       else if status \<noteq> RT_STATUS_OK then Inr (EOF, w)
       else bind_res (load32 (mem w) frame) (\<lambda>c. Inr (c, w))))))"

text \<open>\<open>frame\<close> is the address of the parameter \<open>c\<close>.\<close>

definition fputc :: "'k kernel \<Rightarrow> addr \<Rightarrow> i32 \<Rightarrow> addr \<Rightarrow> 'k world \<Rightarrow> (i32 \<times> 'k world) res" where
  "fputc K frame c file w =
     bind_res (lift_mem w (store32 (mem w) frame c)) (\<lambda>w.
     bind_res (cia_mutex_lock K (file_mutex file) w) (\<lambda>w.
     bind_res (rt_file_write K file 1 frame w) (\<lambda>((status, bytes_written), w).
     bind_res (cia_mutex_unlock K (file_mutex file) w) (\<lambda>w.
       if status \<noteq> RT_STATUS_OK then Inr (EOF, w)
       else bind_res (load32 (mem w) frame) (\<lambda>c'. Inr (c', w))))))"

text \<open>The quotient \<open>bytes / size\<close>, with its two ways to go wrong.\<close>

definition items :: "u64 option \<Rightarrow> u64 \<Rightarrow> u64 res" where
  "items bytes sz =
     (case bytes of None \<Rightarrow> Inl (Undefined Uninitialised)
      | Some n \<Rightarrow> if sz = 0 then Inl DivByZero else Inr (n div sz))"

definition fread ::
  "'k kernel \<Rightarrow> addr \<Rightarrow> u64 \<Rightarrow> u64 \<Rightarrow> addr \<Rightarrow> 'k world \<Rightarrow> (u64 \<times> 'k world) res" where
  "fread K buf sz count file w =
     bind_res (cia_mutex_lock K (file_mutex file) w) (\<lambda>w.
     bind_res (rt_file_read K (sz * count) buf file w) (\<lambda>((status, bytes_read), w).
     bind_res (cia_mutex_unlock K (file_mutex file) w) (\<lambda>w.
       if status \<noteq> RT_STATUS_OK then Inr (0, w)
       else bind_res (items bytes_read sz) (\<lambda>n. Inr (n, w)))))"

definition fwrite ::
  "'k kernel \<Rightarrow> addr \<Rightarrow> u64 \<Rightarrow> u64 \<Rightarrow> addr \<Rightarrow> 'k world \<Rightarrow> (u64 \<times> 'k world) res" where
  "fwrite K buf sz count file w =
     bind_res (cia_mutex_lock K (file_mutex file) w) (\<lambda>w.
     bind_res (rt_file_write K file (sz * count) buf w) (\<lambda>((status, bytes_written), w).
     bind_res (cia_mutex_unlock K (file_mutex file) w) (\<lambda>w.
       if status \<noteq> RT_STATUS_OK then Inr (0, w)
       else bind_res (items bytes_written sz) (\<lambda>n. Inr (n, w)))))"

definition fclose :: "'k kernel \<Rightarrow> 'k stdio \<Rightarrow> addr \<Rightarrow> 'k world \<Rightarrow> (i32 \<times> 'k stdio \<times> 'k world) res" where
  "fclose K s file w =
     bind_res (rt_file_close K file w) (\<lambda>(status, w).
       if status \<noteq> RT_STATUS_OK then Inr (EOF, s, w)
       else
         bind_res (cia_mutex_lock K (g_pool_mutex s) w) (\<lambda>w.
         bind_res (cia_pool_free (file_pool s) file w) (\<lambda>(pool, w).
         bind_res (cia_mutex_unlock K (g_pool_mutex s) w) (\<lambda>w.
           Inr (0, s\<lparr>file_pool := pool\<rparr>, w)))))"

section \<open>A free mutex around a call\<close>

lemma mutex_lock_poke:
  assumes "load32 (mem w) mutex = Inr CIA_MUTEX_FREE"
  shows "cia_mutex_lock K mutex w = Inr (w\<lparr>mem := poke (mem w) mutex (le_bytes 4 CIA_MUTEX_LOCK)\<rparr>)"
  using assms by (rule cia_mutex_lock_free)

lemma mutex_unlock_poke:
  assumes "mapped (mem w) mutex 4" "quiet_futex K"
  obtains w' where "cia_mutex_unlock K mutex w = Inr w'"
    "mem w' = poke (mem w) mutex (le_bytes 4 CIA_MUTEX_FREE)"
proof -
  let ?u = "w\<lparr>mem := poke (mem w) mutex (le_bytes 4 CIA_MUTEX_FREE)\<rparr>"
  obtain r u where u: "syscall K SYS_futex [mutex, FUTEX_WAKE_PRIVATE, 1, 0, 0, 0] ?u = (r, u)"
    by (metis surj_pair)
  then have "mem u = mem ?u" using assms(2) unfolding quiet_futex_def by (metis snd_conv)
  moreover have "cia_mutex_unlock K mutex w = Inr u"
    by (simp add: cia_mutex_unlock_def rt_sync_wake_one_def rt_sync_wake_def store32_mapped [OF assms(1)] u)
  ultimately show thesis using that by simp
qed

section \<open>Writing a FILE\<close>

lemma dom_poke_mapped: "mapped m a (length bs) \<Longrightarrow> dom (poke m a bs) = dom m"
  by (auto simp: dom_def poke_def mapped_def split: if_splits)

lemma range_sub:
  "in_range x (a + of_nat off) n \<Longrightarrow> off + n \<le> k \<Longrightarrow> unat a + k \<le> 2 ^ 64 \<Longrightarrow> in_range x a k"
  by (cases "n = 0") (auto intro: sub_range_in_range)

lemma set_rt_file_mapped:
  assumes "mapped m f 32" "unat f + 32 \<le> 2 ^ 64"
  obtains m' where "set_rt_file f rt m = Inr m'" "load64 m' f = Inr (rf_fd rt)"
    "load32 m' (file_flags f) = Inr (rf_flags rt)" "dom m' = dom m"
    "\<And>x. \<not> in_range x f 16 \<Longrightarrow> m' x = m x"
proof -
  have m1: "mapped m f 8" using assms(1) by (rule mapped_mono) simp
  have m2: "mapped m (file_flags f) 4"
    using mapped_sub [OF assms(1) _ assms(2), of 8 4] by (simp add: file_flags_def)
  let ?m1 = "poke m f (le_bytes 8 (rf_fd rt))"
  let ?m2 = "poke ?m1 (file_flags f) (le_bytes 4 (rf_flags rt))"
  have m2': "mapped ?m1 (file_flags f) 4" using m1 m2 by simp
  have "unat (f + 8) = unat f + 8" using assms(2) by (subst unat_add_no_wrap) simp_all
  then have d: "disj_range (file_flags f) 4 f 8"
    using assms(2) by (intro disj_range_sym [OF disj_rangeI_le]) (simp_all add: file_flags_def)
  have "?m2 x = m x" if "\<not> in_range x f 16" for x
  proof -
    have "\<not> in_range x f 8" using that in_range_mono by fastforce
    moreover have "\<not> in_range x (file_flags f) 4"
      using that range_sub [of x f 8 4 16] assms(2) by (auto simp: file_flags_def)
    ultimately show ?thesis by (simp add: poke_out)
  qed
  moreover have "set_rt_file f rt m = Inr ?m2"
    using m1 m2' by (simp add: set_rt_file_def store64_mapped store32_mapped)
  moreover have "load64 ?m2 f = Inr (rf_fd rt)"
    using d load64_poke_same [OF m1] by (simp add: load64_poke_disj)
  moreover have "load32 ?m2 (file_flags f) = Inr (rf_flags rt)" by (rule load32_poke_same [OF m2'])
  moreover have "dom ?m2 = dom m" using m1 m2' by (simp add: dom_poke_mapped)
  ultimately show thesis using that by blast
qed

lemma file_mutex_init:
  assumes "mapped (mem w) f 32" "unat f + 32 \<le> 2 ^ 64"
  obtains m' where "cia_mutex_init (file_mutex f) w = Inr (w\<lparr>mem := m'\<rparr>)"
    "load32 m' (file_mutex f) = Inr CIA_MUTEX_FREE" "dom m' = dom (mem w)"
    "\<And>x. \<not> in_range x (file_mutex f) 4 \<Longrightarrow> m' x = mem w x"
    "\<And>x. \<not> in_range x f 32 \<Longrightarrow> m' x = mem w x"
proof -
  let ?m = "poke (mem w) (file_mutex f) (le_bytes 4 CIA_MUTEX_FREE)"
  have m: "mapped (mem w) (file_mutex f) 4"
    using mapped_sub [OF assms(1) _ assms(2), of 16 4] by (simp add: file_mutex_def)
  have "?m x = mem w x" if "\<not> in_range x f 32" for x
  proof -
    have "\<not> in_range x (file_mutex f) 4"
      using that range_sub [of x f 16 4 32] assms(2) by (auto simp: file_mutex_def)
    then show ?thesis by (simp add: poke_out)
  qed
  moreover have "?m x = mem w x" if "\<not> in_range x (file_mutex f) 4" for x using that by (simp add: poke_out)
  ultimately show thesis
    using that [of ?m] cia_mutex_init_mapped [OF m] load32_poke_same [OF m] m by (simp add: dom_poke_mapped)
qed

section \<open>The pool of FILE objects\<close>

definition file_pool_at :: "'k kernel \<Rightarrow> addr \<Rightarrow> addr \<Rightarrow> 'k Cia_Pool" where
  "file_pool_at K a h = \<lparr>pl_allocator = cia_allocator_pages K, pl_first = a, pl_freelist_head = h,
     pl_buffer_size = 0x1000, pl_bucket_size = 32, pl_alignment = 16\<rparr>"

lemma file_pool_fields [simp]:
  "pl_first (file_pool_at K a h) = a" "pl_freelist_head (file_pool_at K a h) = h"
  "pl_bucket_size (file_pool_at K a h) = 32" "pl_buffer_size (file_pool_at K a h) = 0x1000"
  "pl_alignment (file_pool_at K a h) = 16" "pl_allocator (file_pool_at K a h) = cia_allocator_pages K"
  "(file_pool_at K a h)\<lparr>pl_freelist_head := g\<rparr> = file_pool_at K a g"
  by (simp_all add: file_pool_at_def)

lemma is_pow2_16: "is_pow2 16"
  by (auto simp: is_pow2_def intro: exI [of _ 4])

lemma file_pool_header: "pool_header (file_pool_at K a h) = 16" "pool_count (file_pool_at K a h) = 127"
  by (simp_all add: pool_header_def pool_count_def cia_size_alignf_def sizeof_pool_buffer_header_def)

lemma file_pool_geom: "pool_geom (file_pool_at K a h)"
  by (simp add: pool_geom_def file_pool_header is_pow2_16 fits_def)

lemma file_pool_create:
  assumes "mmap_documented K"
    and "sys_mmap K 0 0x1000 (PROT_READ OR PROT_WRITE) (MAP_PRIVATE OR MAP_ANONYMOUS) (-1) 0 w = (a, w1)"
    and "\<not> errno_result a"
  obtains h w' F where "cia_pool_create (cia_allocator_pages K) 0x1000 sizeof_FILE 16 w = Inr (file_pool_at K a h, w')"
    "pool_inv K (file_pool_at K a h) w' F {}" "length F = 127"
    "F = pool_buckets (file_pool_at K a h) a" "\<And>x. mem w x \<noteq> None \<Longrightarrow> mem w' x = mem w x"
    "\<And>b x. b \<in> set F \<Longrightarrow> in_range x b 32 \<Longrightarrow> mem w x = None" "\<And>x. in_range x a 8 \<Longrightarrow> mem w x = None"
proof -
  have P: "file_pool_at K a 0 = \<lparr>pl_allocator = cia_allocator_pages K, pl_first = a, pl_freelist_head = 0, pl_buffer_size = 0x1000,
      pl_bucket_size = pool_bucket_size sizeof_FILE 16, pl_alignment = 16\<rparr>"
    by (simp add: file_pool_at_def pool_bucket_size_def sizeof_pool_bucket_def sizeof_FILE_def cia_size_alignf_def)
  have r: "page_round (unat (0x1000 :: u64)) = 4096" and al: "(16 :: u64) \<le> 0x1000" by (simp_all add: page_round_small)
  obtain h w' where c: "cia_pool_create (cia_allocator_pages K) 0x1000 sizeof_FILE 16 w = Inr (file_pool_at K a h, w')"
    "pool_inv K (file_pool_at K a h) w' (pool_buckets (file_pool_at K a 0) a) {}"
    "\<And>x. mem w x \<noteq> None \<Longrightarrow> mem w' x = mem w x" "\<And>x. in_range x a 4096 \<Longrightarrow> mem w x = None"
    by (rule pages_pool_create [OF assms(1) file_pool_geom al P assms(2,3), unfolded r file_pool_fields]) (rule that)
  have f: "pool_buckets (file_pool_at K a 0) a = pool_buckets (file_pool_at K a h) a"
    by (simp add: pool_buckets_def file_pool_header)
  have bok: "buffer_ok (file_pool_at K a h) a (mem w')" using c(2) by (simp add: pool_inv_def header_ok_def)
  have "mem w x = None" if "b \<in> set (pool_buckets (file_pool_at K a h) a)" "in_range x b 32" for b x
    using bucket_in_buffer(1) [OF file_pool_geom bok that(1), of x] that(2) c(4) [of x] by simp
  moreover have "mem w x = None" if "in_range x a 8" for x using c(4) [of x] in_range_mono [OF that, of 4096] by simp
  moreover have "length (pool_buckets (file_pool_at K a h) a) = 127" by (simp add: pool_buckets_def buckets_def file_pool_header)
  ultimately show thesis using that [OF c(1) c(2) [unfolded f] _ refl c(3)] by blast
qed

lemma file_pool_bucket:
  assumes "pool_inv K (file_pool_at K a h) w F L" "f \<in> L"
  shows "mapped (mem w) f 32" "unat f + 32 \<le> 2 ^ 64"
    and "g \<in> L \<Longrightarrow> f \<noteq> g \<Longrightarrow> disj_range f 32 g 32"
  using assms by (auto simp: pool_inv_def pool_ok_def bucket_ok_def intro: cells_apartD [of _ 32])

text \<open>What \<open>_fileapi_init\<close> writes into three new objects.\<close>

lemma in_file_parts:
  assumes "unat f + 32 \<le> 2 ^ 64"
  shows "in_range x f 16 \<Longrightarrow> in_range x f 32 \<and> \<not> in_range x (file_mutex f) 4"
    and "in_range x (file_mutex f) 4 \<Longrightarrow> in_range x f 32 \<and> \<not> in_range x f 16"
proof -
  have u: "unat (file_mutex f) = unat f + 16"
    using assms unfolding file_mutex_def by (subst unat_add_no_wrap) simp_all
  then show "in_range x f 16 \<Longrightarrow> in_range x f 32 \<and> \<not> in_range x (file_mutex f) 4"
    and "in_range x (file_mutex f) 4 \<Longrightarrow> in_range x f 32 \<and> \<not> in_range x f 16"
    using assms by (simp_all add: in_range_iff)
qed

definition file_is :: "mem \<Rightarrow> addr \<Rightarrow> RT_File \<Rightarrow> bool" where
  "file_is m f rt \<longleftrightarrow> load64 m f = Inr (rf_fd rt) \<and> load32 m (file_flags f) = Inr (rf_flags rt)"

lemma file_is_cong:
  assumes "file_is m f rt" "\<And>x. in_range x f 16 \<Longrightarrow> m' x = m x" "unat f + 32 \<le> 2 ^ 64"
  shows "file_is m' f rt"
proof -
  have "load64 m' f = load64 m f"
    by (rule load64_cong, rule assms(2), erule in_range_mono) simp
  moreover have "load32 m' (file_flags f) = load32 m (file_flags f)"
    by (rule load32_cong, rule assms(2)) (use range_sub [of _ f 8 4 16] assms(3) in \<open>simp add: file_flags_def\<close>)
  ultimately show ?thesis using assms(1) by (simp add: file_is_def)
qed

lemma init_three_files:
  fixes w :: "'k world"
  assumes "mapped (mem w) f 32" "unat f + 32 \<le> 2 ^ 64" "mapped (mem w) g 32" "unat g + 32 \<le> 2 ^ 64"
    and "mapped (mem w) e 32" "unat e + 32 \<le> 2 ^ 64"
    and "disj_range f 32 g 32" "disj_range f 32 e 32" "disj_range g 32 e 32"
  obtains m1 m2 m3 m4 m5 m6 where
    "set_rt_file f rf (mem w) = Inr m1" "set_rt_file g rg m1 = Inr m2" "set_rt_file e re m2 = Inr m3"
    "\<forall>v :: 'k world. cia_mutex_init (file_mutex f) (v\<lparr>mem := m3\<rparr>) = Inr (v\<lparr>mem := m4\<rparr>)"
    "\<forall>v :: 'k world. cia_mutex_init (file_mutex g) (v\<lparr>mem := m4\<rparr>) = Inr (v\<lparr>mem := m5\<rparr>)"
    "\<forall>v :: 'k world. cia_mutex_init (file_mutex e) (v\<lparr>mem := m5\<rparr>) = Inr (v\<lparr>mem := m6\<rparr>)"
    "dom m6 = dom (mem w)"
    "\<forall>x. \<not> in_range x f 32 \<longrightarrow> \<not> in_range x g 32 \<longrightarrow> \<not> in_range x e 32 \<longrightarrow> m6 x = mem w x"
    "file_is m6 f rf" "file_is m6 g rg" "file_is m6 e re"
    "\<forall>h\<in>{f, g, e}. load32 m6 (file_mutex h) = Inr CIA_MUTEX_FREE"
proof -
  note parts = in_file_parts [OF assms(2)] in_file_parts [OF assms(4)] in_file_parts [OF assms(6)]
  have apart: "in_range x f 32 \<Longrightarrow> \<not> in_range x g 32 \<and> \<not> in_range x e 32"
      "in_range x g 32 \<Longrightarrow> \<not> in_range x f 32 \<and> \<not> in_range x e 32"
      "in_range x e 32 \<Longrightarrow> \<not> in_range x f 32 \<and> \<not> in_range x g 32" for x
    using assms(7-9) by (auto simp: disj_range_def)
  obtain m1 where m1: "set_rt_file f rf (mem w) = Inr m1" "load64 m1 f = Inr (rf_fd rf)"
      "load32 m1 (file_flags f) = Inr (rf_flags rf)" "dom m1 = dom (mem w)"
      "\<And>x. \<not> in_range x f 16 \<Longrightarrow> m1 x = mem w x"
    using set_rt_file_mapped [OF assms(1,2)] by metis
  have "mapped m1 g 32" using assms(3) by (simp add: mapped_dom [OF m1(4)])
  then obtain m2 where m2: "set_rt_file g rg m1 = Inr m2" "load64 m2 g = Inr (rf_fd rg)"
      "load32 m2 (file_flags g) = Inr (rf_flags rg)" "dom m2 = dom m1"
      "\<And>x. \<not> in_range x g 16 \<Longrightarrow> m2 x = m1 x"
    using set_rt_file_mapped [OF _ assms(4)] by metis
  have "mapped m2 e 32" using assms(5) by (simp add: mapped_dom [OF m1(4)] mapped_dom [OF m2(4)])
  then obtain m3 where m3: "set_rt_file e re m2 = Inr m3" "load64 m3 e = Inr (rf_fd re)"
      "load32 m3 (file_flags e) = Inr (rf_flags re)" "dom m3 = dom m2"
      "\<And>x. \<not> in_range x e 16 \<Longrightarrow> m3 x = m2 x"
    using set_rt_file_mapped [OF _ assms(6)] by metis
  have d3: "dom m3 = dom (mem w)" by (simp add: m1(4) m2(4) m3(4))
  define m4 where "m4 = poke m3 (file_mutex f) (le_bytes 4 CIA_MUTEX_FREE)"
  define m5 where "m5 = poke m4 (file_mutex g) (le_bytes 4 CIA_MUTEX_FREE)"
  define m6 where "m6 = poke m5 (file_mutex e) (le_bytes 4 CIA_MUTEX_FREE)"
  have tags: "mapped m3 (file_mutex f) 4" "mapped m3 (file_mutex g) 4" "mapped m3 (file_mutex e) 4"
    using mapped_sub [of m3 f 32 16 4] mapped_sub [of m3 g 32 16 4] mapped_sub [of m3 e 32 16 4] assms(1-6)
    by (simp_all add: mapped_dom [OF d3] file_mutex_def)
  have t4: "mapped m4 a n = mapped m3 a n" "mapped m5 a n = mapped m3 a n" for a n
    using tags by (simp_all add: m4_def m5_def)
  have o4: "\<not> in_range x (file_mutex f) 4 \<Longrightarrow> m4 x = m3 x" for x by (simp add: m4_def poke_out)
  have o5: "\<not> in_range x (file_mutex g) 4 \<Longrightarrow> m5 x = m4 x" for x by (simp add: m5_def poke_out)
  have o6: "\<not> in_range x (file_mutex e) 4 \<Longrightarrow> m6 x = m5 x" for x by (simp add: m6_def poke_out)
  have f16: "m6 x = m1 x" if "in_range x f 16" for x
    using that apart parts o4 [of x] o5 [of x] o6 [of x] m2(5) [of x] m3(5) [of x] in_range_mono [of x _ 16 32]
    by (metis numeral_le_iff semiring_norm(68,69,71))
  have g16: "m6 x = m2 x" if "in_range x g 16" for x
    using that apart parts o4 [of x] o5 [of x] o6 [of x] m3(5) [of x] in_range_mono [of x _ 16 32]
    by (metis numeral_le_iff semiring_norm(68,69,71))
  have e16: "m6 x = m3 x" if "in_range x e 16" for x
    using that apart parts o4 [of x] o5 [of x] o6 [of x] by metis
  have files: "file_is m6 f rf" "file_is m6 g rg" "file_is m6 e re"
    using file_is_cong [OF _ f16 assms(2)] file_is_cong [OF _ g16 assms(4)] file_is_cong [OF _ e16 assms(6)]
      m1(2,3) m2(2,3) m3(2,3) by (simp_all add: file_is_def)
  have "load32 m6 (file_mutex f) = Inr CIA_MUTEX_FREE"
  proof -
    have "load32 m6 (file_mutex f) = load32 m4 (file_mutex f)"
      by (rule load32_cong) (use apart parts o5 o6 in metis)
    then show ?thesis using tags(1) by (simp add: m4_def load32_poke_same)
  qed
  moreover have "load32 m6 (file_mutex g) = Inr CIA_MUTEX_FREE"
  proof -
    have "load32 m6 (file_mutex g) = load32 m5 (file_mutex g)"
      by (rule load32_cong) (use apart parts o6 in metis)
    then show ?thesis using tags(2) t4 by (simp add: m5_def load32_poke_same)
  qed
  moreover have "load32 m6 (file_mutex e) = Inr CIA_MUTEX_FREE"
    using tags(3) t4 by (simp add: m6_def load32_poke_same)
  ultimately have locks: "\<forall>h\<in>{f, g, e}. load32 m6 (file_mutex h) = Inr CIA_MUTEX_FREE" by simp
  have d6: "dom m6 = dom (mem w)"
    using tags t4 d3 by (simp add: m6_def m5_def m4_def dom_poke_mapped)
  have out: "m6 x = mem w x" if "\<not> in_range x f 32" "\<not> in_range x g 32" "\<not> in_range x e 32" for x
    using that parts o4 [of x] o5 [of x] o6 [of x] m1(5) [of x] m2(5) [of x] m3(5) [of x] by metis
  have i4: "\<forall>v :: 'k world. cia_mutex_init (file_mutex f) (v\<lparr>mem := m3\<rparr>) = Inr (v\<lparr>mem := m4\<rparr>)"
    by (simp add: cia_mutex_init_def store32_mapped tags(1) m4_def)
  have i5: "\<forall>v :: 'k world. cia_mutex_init (file_mutex g) (v\<lparr>mem := m4\<rparr>) = Inr (v\<lparr>mem := m5\<rparr>)"
    using tags(2) by (simp add: cia_mutex_init_def store32_mapped t4 m5_def)
  have i6: "\<forall>v :: 'k world. cia_mutex_init (file_mutex e) (v\<lparr>mem := m5\<rparr>) = Inr (v\<lparr>mem := m6\<rparr>)"
    using tags(3) by (simp add: cia_mutex_init_def store32_mapped t4 m6_def)
  show thesis by (rule that [OF m1(1) m2(1) m3(1) i4 i5 i6 d6 _ files locks]) (simp add: out)
qed

lemma fileapi_init_runs:
  fixes w :: "'k world"
  assumes "mmap_documented K"
    and "sys_mmap K 0 0x1000 (PROT_READ OR PROT_WRITE) (MAP_PRIVATE OR MAP_ANONYMOUS) (-1) 0 w = (a, w1)"
    and "\<not> errno_result a"
  shows "\<exists>s' w' F. fileapi_init K s w = Inr (s', w')
    \<and> pool_inv K (file_pool s') w' F {io_stdin s', io_stdout s', io_stderr s'} \<and> length F = 124
    \<and> distinct [io_stdin s', io_stdout s', io_stderr s']
    \<and> file_is (mem w') (io_stdin s') \<lparr>rf_fd = 0, rf_flags = RT_FILE_READ\<rparr>
    \<and> file_is (mem w') (io_stdout s') \<lparr>rf_fd = 1, rf_flags = RT_FILE_WRITE\<rparr>
    \<and> file_is (mem w') (io_stderr s') \<lparr>rf_fd = 2, rf_flags = rf_flags (rt_file_stderr (io_handles s))\<rparr>
    \<and> (\<forall>f\<in>{io_stdin s', io_stdout s', io_stderr s'}. load32 (mem w') (file_mutex f) = Inr CIA_MUTEX_FREE)
    \<and> (\<forall>x. mem w x \<noteq> None \<longrightarrow> mem w' x = mem w x)
    \<and> (\<forall>b \<in> set F \<union> {io_stdin s', io_stdout s', io_stderr s'}. \<forall>x. in_range x b 32 \<longrightarrow> mem w x = None)
    \<and> (\<forall>x. in_range x (pl_first (file_pool s')) 8 \<longrightarrow> mem w x = None) \<and> pl_bucket_size (file_pool s') = 32"
proof -
  obtain h w2 F0 where c: "cia_pool_create (cia_allocator_pages K) 0x1000 sizeof_FILE 16 w = Inr (file_pool_at K a h, w2)"
    "pool_inv K (file_pool_at K a h) w2 F0 {}" "length F0 = 127" "\<And>x. mem w x \<noteq> None \<Longrightarrow> mem w2 x = mem w x"
    "\<And>b x. b \<in> set F0 \<Longrightarrow> in_range x b 32 \<Longrightarrow> mem w x = None" "\<And>x. in_range x a 8 \<Longrightarrow> mem w x = None"
    by (rule file_pool_create [OF assms]) (rule that)
  then obtain f g e F where F0: "F0 = f # g # e # F" "length F = 124"
    by (auto simp: length_Suc_conv numeral_eq_Suc)
  obtain h1 where p1: "cia_pool_alloc (file_pool_at K a h) w2 = Inr (f, file_pool_at K a h1, w2)"
      "pool_inv K (file_pool_at K a h1) w2 (g # e # F) {f}"
    using pool_inv_take [OF c(2) [unfolded F0]] by (metis file_pool_fields(7))
  obtain h2 where p2: "cia_pool_alloc (file_pool_at K a h1) w2 = Inr (g, file_pool_at K a h2, w2)"
      "g \<notin> {f}" "pool_inv K (file_pool_at K a h2) w2 (e # F) {g, f}"
    using pool_inv_take [OF p1(2)] by (metis file_pool_fields(7))
  obtain h3 where p3: "cia_pool_alloc (file_pool_at K a h2) w2 = Inr (e, file_pool_at K a h3, w2)"
      "e \<notin> {g, f}" "pool_inv K (file_pool_at K a h3) w2 F {e, g, f}"
    using pool_inv_take [OF p2(3)] by (metis file_pool_fields(7))
  let ?h = "snd (rt_file_std_handles_init (io_handles s))"
  note b = file_pool_bucket [OF p3(3)]
  have bf: "mapped (mem w2) f 32" "unat f + 32 \<le> 2 ^ 64" and bg: "mapped (mem w2) g 32" "unat g + 32 \<le> 2 ^ 64"
    and be: "mapped (mem w2) e 32" "unat e + 32 \<le> 2 ^ 64"
    using b(1,2) [of f] b(1,2) [of g] b(1,2) [of e] by simp_all
  have d: "disj_range f 32 g 32" "disj_range f 32 e 32" "disj_range g 32 e 32"
    using b(3) p2(2) p3(2) by auto
  obtain m1 m2 m3 m4 m5 m6 where i:
    "set_rt_file f (rt_file_stdin ?h) (mem w2) = Inr m1" "set_rt_file g (rt_file_stdout ?h) m1 = Inr m2"
    "set_rt_file e (rt_file_stderr ?h) m2 = Inr m3"
    "\<forall>v :: 'k world. cia_mutex_init (file_mutex f) (v\<lparr>mem := m3\<rparr>) = Inr (v\<lparr>mem := m4\<rparr>)"
    "\<forall>v :: 'k world. cia_mutex_init (file_mutex g) (v\<lparr>mem := m4\<rparr>) = Inr (v\<lparr>mem := m5\<rparr>)"
    "\<forall>v :: 'k world. cia_mutex_init (file_mutex e) (v\<lparr>mem := m5\<rparr>) = Inr (v\<lparr>mem := m6\<rparr>)"
    "dom m6 = dom (mem w2)"
    "\<forall>x. \<not> in_range x f 32 \<longrightarrow> \<not> in_range x g 32 \<longrightarrow> \<not> in_range x e 32 \<longrightarrow> m6 x = mem w2 x"
    "file_is m6 f (rt_file_stdin ?h)" "file_is m6 g (rt_file_stdout ?h)" "file_is m6 e (rt_file_stderr ?h)"
    "\<forall>h\<in>{f, g, e}. load32 m6 (file_mutex h) = Inr CIA_MUTEX_FREE"
    by (rule init_three_files [OF bf bg be d, of "rt_file_stdin ?h" "rt_file_stdout ?h" "rt_file_stderr ?h"])
      (rule that)
  let ?s = "s\<lparr>io_stdin := f, io_stdout := g, io_stderr := e, file_pool := file_pool_at K a h3, io_handles := ?h\<rparr>"
  have "fileapi_init K s w = Inr (?s, w2\<lparr>mem := m6\<rparr>)"
    using c(1) p1(1) p2(1) p3(1) i(1-6)
    by (simp add: fileapi_init_def lift_mem_def case_prod_beta)
  moreover have "pool_inv K (file_pool_at K a h3) (w2\<lparr>mem := m6\<rparr>) F {e, g, f}"
    by (rule pool_inv_change [OF p3(3) i(7)]) (simp add: i(8))
  moreover have "{f, g, e} = {e, g, f}" by blast
  moreover have "?h = \<lparr>rt_file_stdin = \<lparr>rf_fd = 0, rf_flags = RT_FILE_READ\<rparr>,
      rt_file_stdout = \<lparr>rf_fd = 1, rf_flags = RT_FILE_WRITE\<rparr>,
      rt_file_stderr = (rt_file_stderr (io_handles s))\<lparr>rf_fd := 2\<rparr>\<rparr>"
    by (simp add: rt_file_std_handles_init_def Let_def)
  moreover have "mem w x = None" if "b \<in> set F \<union> {e, g, f}" "in_range x b 32" for b x
    using c(5) [of b x] that F0(1) by auto
  moreover have "m6 x = mem w x" if "mem w x \<noteq> None" for x
  proof -
    have "\<not> in_range x f 32 \<and> \<not> in_range x g 32 \<and> \<not> in_range x e 32"
      using c(5) [of f x] c(5) [of g x] c(5) [of e x] F0(1) that by auto
    then show ?thesis using i(8) c(4) [OF that] by simp
  qed
  ultimately show ?thesis
    using i(9-12) p2(2) p3(2) F0(2) c(6)
    by (intro exI [of _ ?s] exI [of _ "w2\<lparr>mem := m6\<rparr>"] exI [of _ F])
      (auto simp: file_is_def)
qed

section \<open>Properties\<close>

text \<open>C19: once the kernel grants one page, \<open>_fileapi_init\<close> returns.  The three standard streams are
  distinct objects of a well-formed pool that has 124 more free, their descriptors are 0, 1 and 2,
  their mutexes are free; and \<open>stderr\<close> keeps the flags its static handle had, because
  \<open>_rt_file_std_handles_init\<close> sets those of \<open>stdout\<close> twice instead.\<close>

theorem fileapi_init_streams:
  fixes w :: "'k world"
  assumes "mmap_documented K"
    and "sys_mmap K 0 0x1000 (PROT_READ OR PROT_WRITE) (MAP_PRIVATE OR MAP_ANONYMOUS) (-1) 0 w = (a, w1)"
    and "\<not> errno_result a"
  shows "\<exists>s' w' F. fileapi_init K s w = Inr (s', w')
    \<and> pool_inv K (file_pool s') w' F {io_stdin s', io_stdout s', io_stderr s'} \<and> length F = 124
    \<and> distinct [io_stdin s', io_stdout s', io_stderr s']
    \<and> file_is (mem w') (io_stdin s') \<lparr>rf_fd = 0, rf_flags = RT_FILE_READ\<rparr>
    \<and> file_is (mem w') (io_stdout s') \<lparr>rf_fd = 1, rf_flags = RT_FILE_WRITE\<rparr>
    \<and> file_is (mem w') (io_stderr s') \<lparr>rf_fd = 2, rf_flags = rf_flags (rt_file_stderr (io_handles s))\<rparr>
    \<and> (\<forall>f\<in>{io_stdin s', io_stdout s', io_stderr s'}. load32 (mem w') (file_mutex f) = Inr CIA_MUTEX_FREE)"
  using fileapi_init_runs [OF assms, of s] by blast

text \<open>What the kernel does here, as documented: opening, reading a byte, writing nothing.\<close>

definition open_quiet :: "'k kernel \<Rightarrow> bool" where
  "open_quiet K \<longleftrightarrow> (\<forall>name flags mode w. mem (snd (sys_open K name flags mode w)) = mem w)"

definition reads_byte :: "'k kernel \<Rightarrow> u32 \<Rightarrow> u8 \<Rightarrow> bool" where
  "reads_byte K fd b \<longleftrightarrow> (\<forall>buf w. mem w buf \<noteq> None \<longrightarrow>
     (\<exists>w'. sys_read K fd buf 1 w = (1, w') \<and> mem w' = (mem w)(buf \<mapsto> b)))"

definition writes_nothing :: "'k kernel \<Rightarrow> bool" where
  "writes_nothing K \<longleftrightarrow> (\<forall>fd buf w. \<exists>w'. sys_write K fd buf 0 w = (0, w') \<and> mem w' = mem w)"

lemma load32_mapped_range: "load32 m a = Inr v \<Longrightarrow> in_range x a 4 \<Longrightarrow> m x \<noteq> None"
  using load32_InrD [of m a v] by (auto simp: mapped_def)

text \<open>\<open>fgetc\<close> on an unlocked stream returns the byte the kernel delivers, between 0 and 255, and
  leaves the stream unlocked.\<close>

theorem fgetc_returns_byte:
  assumes "quiet_futex K" "reads_byte K (ucast fdes) b" "load64 (mem w) file = Inr fdes"
    and "load32 (mem w) (file_mutex file) = Inr CIA_MUTEX_FREE" "unat file + 32 \<le> 2 ^ 64"
    and "mapped (mem w) frame 4" "disj_range frame 4 file 32"
  shows "\<exists>w'. fgetc K frame file w = Inr (ucast b, w') \<and> load32 (mem w') (file_mutex file) = Inr CIA_MUTEX_FREE"
proof -
  have in_file: "in_range x file 32" if "in_range x (file_mutex file) 4 \<or> in_range x file 8" for x
    using that in_file_parts [OF assms(5)] in_range_mono [of x "file" 8 32] by auto
  have d: "disj_range frame 4 (file_mutex file) 4" "disj_range frame 4 file 8"
    using assms(7) in_file by (auto simp: disj_range_def)
  have t: "disj_range (file_mutex file) 4 file 8"
    using in_file_parts [OF assms(5)] in_range_mono [of _ "file" 8 16] by (fastforce simp: disj_range_def)
  let ?m1 = "poke (mem w) frame (le_bytes 4 (0 :: u32))"
  let ?m2 = "poke ?m1 (file_mutex file) (le_bytes 4 CIA_MUTEX_LOCK)"
  let ?m3 = "?m2(frame \<mapsto> b)"
  let ?m4 = "poke ?m3 (file_mutex file) (le_bytes 4 CIA_MUTEX_FREE)"
  have mt: "mapped (mem w) (file_mutex file) 4" using assms(4) by (rule load32_InrD)
  have f: "?m2 frame \<noteq> None" using mappedD [OF assms(6), of frame] by (auto simp: poke_def in_range_def)
  have l: "cia_mutex_lock K (file_mutex file) (w\<lparr>mem := ?m1\<rparr>) = Inr (w\<lparr>mem := ?m2\<rparr>)"
    using mutex_lock_poke [of "w\<lparr>mem := ?m1\<rparr>" "file_mutex file" K] assms(4) d(1) by (simp add: load32_poke_disj)
  have "mem (w\<lparr>mem := ?m2\<rparr>) frame \<noteq> None" using f by simp
  then obtain w3 where r1: "sys_read K (ucast fdes) frame 1 (w\<lparr>mem := ?m2\<rparr>) = (1, w3)"
      "mem w3 = (mem (w\<lparr>mem := ?m2\<rparr>))(frame \<mapsto> b)"
    using assms(2) unfolding reads_byte_def by blast
  then have r: "sys_read K (ucast fdes) frame 1 (w\<lparr>mem := ?m2\<rparr>) = (1, w3)" "mem w3 = ?m3" by simp_all
  have rd: "rt_file_read K 1 frame file (w\<lparr>mem := ?m2\<rparr>) = Inr ((RT_STATUS_OK, Some 1), w3)"
    using assms(3) d(2) t r(1) by (simp add: rt_file_read_def load64_poke_disj Let_def word_sless_alt)
  have m3: "mapped (mem w3) (file_mutex file) 4"
    using mt assms(6) f by (simp add: r(2))
  obtain w4 where u: "cia_mutex_unlock K (file_mutex file) w3 = Inr w4" "mem w4 = ?m4"
    by (rule mutex_unlock_poke [OF m3 assms(1)]) (rule that, simp_all only: r(2))
  have "load32 ?m4 frame = Inr (ucast b)"
  proof -
    have "load32 ?m4 frame = load32 ?m3 frame"
      by (rule load32_poke_disj) (use disj_range_sym [OF d(1)] in simp)
    also have "\<dots> = load32 (poke Map.empty frame [b, 0, 0, 0]) frame"
    proof (rule load32_cong)
      fix x assume x: "in_range x frame 4"
      then have n: "\<not> in_range x (file_mutex file) 4" using d(1) by (auto simp: disj_range_def)
      have z: "le_bytes 4 (0 :: u32) = [0, 0, 0, 0]" by (simp add: numeral_eq_Suc)
      have c: "unat (x - frame) = 0 \<longleftrightarrow> x = frame" by (simp add: unat_eq_0)
      show "?m3 x = poke Map.empty frame [b, 0, 0, 0] x"
        using x n c by (auto simp: poke_out) (auto simp: poke_def z nth_Cons numeral_eq_Suc split: nat.splits)
    qed
    also have "\<dots> = Inr (ucast b)" by (simp add: load32_poke_list)
    finally show ?thesis .
  qed
  moreover have "load32 ?m4 (file_mutex file) = Inr CIA_MUTEX_FREE"
    using load32_poke_same [of ?m3 "file_mutex file" CIA_MUTEX_FREE] m3 r(2) by simp
  moreover have "RT_STATUS_OK \<noteq> RT_STATUS_FILE_EOF" by (simp add: rt_consts)
  ultimately show ?thesis
    using l rd u assms(6) by (simp add: fgetc_def lift_mem_def store32_mapped)
qed

text \<open>\<open>fwrite\<close> with a size of 0 writes nothing, as it should, and then divides by the size.\<close>

theorem fwrite_zero_size:
  assumes "quiet_futex K" "writes_nothing K" "load64 (mem w) file = Inr fdes"
    and "load32 (mem w) (file_mutex file) = Inr CIA_MUTEX_FREE" "unat file + 32 \<le> 2 ^ 64"
  shows "fwrite K buf 0 count file w = Inl DivByZero"
proof -
  have t: "disj_range (file_mutex file) 4 file 8"
    using in_file_parts [OF assms(5)] in_range_mono [of _ "file" 8 16] by (fastforce simp: disj_range_def)
  let ?w1 = "w\<lparr>mem := poke (mem w) (file_mutex file) (le_bytes 4 CIA_MUTEX_LOCK)\<rparr>"
  have m: "mapped (mem ?w1) (file_mutex file) 4" using load32_InrD [OF assms(4)] by simp
  obtain w2 where r: "sys_write K (ucast fdes) buf 0 ?w1 = (0, w2)" "mem w2 = mem ?w1"
    using assms(2) unfolding writes_nothing_def by blast
  have "rt_file_write K file 0 buf ?w1 = Inr ((RT_STATUS_OK, Some 0), w2)"
    using assms(3) t r(1) by (simp add: rt_file_write_def load64_poke_disj sys_consts)
  moreover obtain w3 where "cia_mutex_unlock K (file_mutex file) w2 = Inr w3"
    using mutex_unlock_poke [OF _ assms(1), of w2] m r(2) by metis
  ultimately show ?thesis
    by (simp add: fwrite_def mutex_lock_poke [OF assms(4)] items_def)
qed

text \<open>The pool does not notice a write outside its buckets and its first header.\<close>

lemma pool_inv_outside:
  assumes "pool_inv K P w F L" "mapped (mem w) a (length bs)" "pl_bucket_size P = 32"
    and "\<And>f. f \<in> set F \<Longrightarrow> disj_range a (length bs) f 32" "disj_range a (length bs) (pl_first P) 8"
    and "mem w' = poke (mem w) a bs"
  shows "pool_inv K P w' F L"
proof -
  have "\<not> in_range x a (length bs)" if "f \<in> set F" "in_range x f 32" for f x
    using assms(4) [OF that(1)] that(2) unfolding disj_range_def by blast
  moreover have "\<not> in_range x a (length bs)" if "in_range x (pl_first P) 8" for x
    using assms(5) that unfolding disj_range_def by blast
  ultimately have "pool_inv K P (w\<lparr>mem := poke (mem w) a bs\<rparr>) F L"
    by (intro pool_inv_agree [OF assms(1) dom_poke_mapped [OF assms(2)]]) (simp_all add: poke_out assms(3))
  then show ?thesis by (simp add: pool_inv_def assms(6))
qed

text \<open>C20: \<open>fopen\<close> gives every open file an object of its own.  When the open succeeds and the pool has
  a free bucket, the result is not one of the objects in use, it holds the new descriptor, and the
  pool stays well formed; but the mutex of the object is left as the memory holds it.\<close>

theorem fopen_fresh:
  assumes "pool_inv K (file_pool s) w (b # F) L" "pl_bucket_size (file_pool s) = 32"
    and "quiet_futex K" "open_quiet K" "fopen_flags (mem w) mode 0 = Some (Inr flags)"
    and "rt_file_open K name flags w = ((RT_STATUS_OK, Some rt), w1)"
    and "load32 (mem w) (g_pool_mutex s) = Inr CIA_MUTEX_FREE"
    and "\<forall>f\<in>set (b # F). disj_range (g_pool_mutex s) 4 f 32"
    and "disj_range (g_pool_mutex s) 4 (pl_first (file_pool s)) 8"
  shows "\<exists>s' w'. fopen K s name mode w = Inr (b, s', w') \<and> b \<notin> L
    \<and> pool_inv K (file_pool s') w' F (insert b L) \<and> file_is (mem w') b rt
    \<and> load32 (mem w') (file_mutex b) = load32 (mem w) (file_mutex b)"
proof -
  let ?g = "g_pool_mutex s" and ?P = "file_pool s"
  have w1: "mem w1 = mem w"
  proof -
    have "mem (snd (sys_open K name (open_flags flags) (open_mode flags) w)) = mem w"
      using assms(4) by (simp add: open_quiet_def)
    then show ?thesis using assms(6) by (auto simp: rt_file_open_def Let_def split: if_splits prod.splits)
  qed
  have mg: "mapped (mem w) ?g 4" using assms(7) by (rule load32_InrD)
  let ?m2 = "poke (mem w) ?g (le_bytes 4 CIA_MUTEX_LOCK)"
  let ?w2 = "w1\<lparr>mem := ?m2\<rparr>"
  have l: "cia_mutex_lock K ?g w1 = Inr ?w2"
    using mutex_lock_poke [of w1 ?g K] assms(7) by (simp add: w1)
  have i2: "pool_inv K ?P ?w2 (b # F) L"
    by (rule pool_inv_outside [OF assms(1) _ assms(2)]) (use mg assms(8,9) in auto)
  obtain q where t: "cia_pool_alloc ?P ?w2 = Inr (b, ?P\<lparr>pl_freelist_head := q\<rparr>, ?w2)" "b \<notin> L"
    "pool_inv K (?P\<lparr>pl_freelist_head := q\<rparr>) ?w2 F (insert b L)"
    by (rule pool_inv_take [OF i2]) (rule that)
  have mg2: "mapped (mem ?w2) ?g 4" using mg by simp
  obtain w3 where u: "cia_mutex_unlock K ?g ?w2 = Inr w3" "mem w3 = poke (mem ?w2) ?g (le_bytes 4 CIA_MUTEX_FREE)"
    by (rule mutex_unlock_poke [OF mg2 assms(3)]) (rule that)
  let ?P' = "?P\<lparr>pl_freelist_head := q\<rparr>"
  have i3: "pool_inv K ?P' w3 F (insert b L)"
    by (rule pool_inv_outside [OF t(3) _ _ _ _ u(2)]) (use mg2 assms(2,8,9) in auto)
  have b: "mapped (mem w3) b 32" "unat b + 32 \<le> 2 ^ 64"
    using i3 assms(2) by (auto simp: pool_inv_def pool_ok_def bucket_ok_def)
  obtain m4 where r: "set_rt_file b rt (mem w3) = Inr m4" "load64 m4 b = Inr (rf_fd rt)"
      "load32 m4 (file_flags b) = Inr (rf_flags rt)" "dom m4 = dom (mem w3)"
      "\<And>x. \<not> in_range x b 16 \<Longrightarrow> m4 x = mem w3 x"
    by (rule set_rt_file_mapped [OF b]) (rule that)
  have i4: "pool_inv K ?P' (w3\<lparr>mem := m4\<rparr>) F (insert b L)"
    using in_range_mono [of _ b 16 32] by (intro pool_inv_change [OF i3 r(4)] r(5)) (auto simp: assms(2))
  have "load32 m4 (file_mutex b) = load32 (mem w) (file_mutex b)"
  proof (rule load32_cong)
    fix x assume x: "in_range x (file_mutex b) 4"
    have "\<not> in_range x ?g 4" using assms(8) in_file_parts(2) [OF b(2) x] by (auto simp: disj_range_def)
    then show "m4 x = mem w x" using r(5) [of x] in_file_parts(2) [OF b(2) x] u(2) by (simp add: poke_out)
  qed
  moreover have "fopen K s name mode w = Inr (b, s\<lparr>file_pool := ?P'\<rparr>, w3\<lparr>mem := m4\<rparr>)"
    using assms(5,6) l t(1) u(1) r(1) by (simp add: fopen_def lift_mem_def)
  ultimately show ?thesis
    using t(2) i4 r(2,3)
    by (intro exI [of _ "s\<lparr>file_pool := ?P'\<rparr>"] exI [of _ "w3\<lparr>mem := m4\<rparr>"]) (simp add: file_is_def)
qed

section \<open>Witnesses\<close>

definition no_stdio :: "addr stdio" where
  "no_stdio = \<lparr>io_stdin = 0, io_stdout = 0, io_stderr = 0, file_pool = file_pool_at bump_kernel 0 0,
     g_pool_mutex = 0, io_handles = static_handles\<rparr>"

theorem fileapi_init_streams_witness:
  "\<exists>s' w'. fileapi_init bump_kernel no_stdio bump_start = Inr (s', w')
     \<and> file_is (mem w') (io_stderr s') \<lparr>rf_fd = 2, rf_flags = 0\<rparr>"
proof -
  have "\<not> errno_result 0x10000" by (simp add: errno_result_def page_size_def)
  from fileapi_init_streams [OF bump_kernel_mmap_documented bump_start_mmap this, of no_stdio]
  show ?thesis by (auto simp: no_stdio_def static_handles_def)
qed

text \<open>A kernel whose every open gives descriptor 3 and whose every read gives one byte, 65.\<close>

definition echo_kernel :: "'k kernel" where
  "echo_kernel n args w =
     (if n = SYS_open then (3, w)
      else if n = SYS_read then
        (case mem w (args ! 1) of None \<Rightarrow> (- EIO, w) | Some _ \<Rightarrow> (1, w\<lparr>mem := (mem w)(args ! 1 \<mapsto> 65)\<rparr>))
      else (0, w))"

lemma echo_kernel_quiet: "quiet_futex echo_kernel" "open_quiet echo_kernel" "writes_nothing echo_kernel"
  by (simp_all add: quiet_futex_def open_quiet_def writes_nothing_def syscall_def echo_kernel_def
      sys_open_def sys_write_def sys_consts)

lemma echo_kernel_reads: "reads_byte echo_kernel fd 65"
  by (auto simp: reads_byte_def sys_read_def syscall_def echo_kernel_def sys_consts)

text \<open>A stream object of zeros at 0x100 and a local variable at 0x200.\<close>

definition zero_file :: "unit world" where
  "zero_file = \<lparr>mem = (\<lambda>x. if in_range x 0x100 32 \<or> in_range x 0x200 4 then Some 0 else None), os = ()\<rparr>"

lemma zero_file_reads:
  "load64 (mem zero_file) 0x100 = Inr 0" "load32 (mem zero_file) (file_mutex 0x100) = Inr CIA_MUTEX_FREE"
proof -
  have z: "peek (mem zero_file) a n = replicate n 0" if "mapped (mem zero_file) a n" "n \<le> 2 ^ 64" for a n
    using that by (intro nth_equalityI)
      (auto simp: nth_peek zero_file_def mapped_def split: if_splits dest: in_range_offset [of _ n a])
  have m: "mapped (mem zero_file) 0x100 32" by (simp add: mapped_def zero_file_def)
  have m8: "mapped (mem zero_file) 0x100 8" using m by (rule mapped_mono) simp
  have m4: "mapped (mem zero_file) (file_mutex 0x100) 4"
    using mapped_sub [OF m, of 16 4] by (simp add: file_mutex_def)
  show "load64 (mem zero_file) 0x100 = Inr 0" using z [OF m8] m8 by (simp add: load64_mapped le_word_zeros)
  show "load32 (mem zero_file) (file_mutex 0x100) = Inr CIA_MUTEX_FREE"
    using z [OF m4] m4 by (simp add: load32_mapped le_word_zeros mutex_consts)
qed

theorem fgetc_returns_byte_witness:
  "\<exists>w'. fgetc echo_kernel 0x200 0x100 zero_file = Inr (65, w')"
proof -
  have "mapped (mem zero_file) 0x200 4" by (simp add: mapped_def zero_file_def)
  moreover have "disj_range 0x200 4 0x100 32" by (intro disj_range_sym [OF disj_rangeI_le]) simp_all
  ultimately show ?thesis
    using fgetc_returns_byte [OF echo_kernel_quiet(1) echo_kernel_reads zero_file_reads, of "0x200"] by auto
qed

theorem fwrite_zero_size_witness: "fwrite echo_kernel 0x200 0 5 0x100 zero_file = Inl DivByZero"
  using fwrite_zero_size [OF echo_kernel_quiet(1,3) zero_file_reads] by simp

text \<open>A free mutex at 0x100 and the mode string ''r'' at 0x104, before the pool is made.\<close>

definition mode_world :: "addr world" where
  "mode_world = \<lparr>mem = poke Map.empty 0x100 [0, 0, 0, 0, 114, 0], os = 0x10000\<rparr>"

lemma mode_world_mmap:
  "\<exists>w1. sys_mmap bump_kernel 0 0x1000 prot fl fd off mode_world = (0x10000, w1)"
proof -
  have "mem mode_world (0x10000 + of_nat i) = None" if "i < 4096" for i
  proof -
    have "unat (0xFF00 + of_nat i :: addr) = 0xFF00 + i"
      using that by (subst unat_add_no_wrap) (simp_all add: unat_of_nat_u64)
    then show ?thesis by (simp add: mode_world_def poke_def in_range_def algebra_simps)
  qed
  then show ?thesis
    by (simp add: sys_mmap_def syscall_def bump_kernel_def page_round_small Let_def list_all_iff page_size_def)
      (simp add: mode_world_def)
qed

theorem fopen_fresh_witness:
  "\<exists>s w s' w'. fopen bump_kernel s 0 0x104 w = Inr (0x10010, s', w')
     \<and> file_is (mem w') 0x10010 \<lparr>rf_fd = 0, rf_flags = RT_FILE_READ\<rparr>"
proof -
  obtain w1 where mm: "sys_mmap bump_kernel 0 0x1000 (PROT_READ OR PROT_WRITE) (MAP_PRIVATE OR MAP_ANONYMOUS) (-1) 0 mode_world
      = (0x10000, w1)"
    using mode_world_mmap by blast
  have "\<not> errno_result 0x10000" by (simp add: errno_result_def page_size_def)
  then obtain h w F where c: "pool_inv bump_kernel (file_pool_at bump_kernel 0x10000 h) w F {}"
      "F = pool_buckets (file_pool_at bump_kernel 0x10000 h) 0x10000"
      "\<And>x. mem mode_world x \<noteq> None \<Longrightarrow> mem w x = mem mode_world x"
    using file_pool_create [OF bump_kernel_mmap_documented mm] by metis
  let ?P = "file_pool_at bump_kernel 0x10000 h"
  let ?s = "no_stdio\<lparr>file_pool := ?P, g_pool_mutex := 0x100\<rparr>"
  obtain F' where F: "F = 0x10010 # F'"
    unfolding c(2) pool_buckets_def buckets_def file_pool_header by (simp add: upt_conv_Cons)
  have s: "file_pool ?s = ?P" "g_pool_mutex ?s = 0x100" by simp_all
  have m: "mem w 0x100 = Some 0" "mem w 0x101 = Some 0" "mem w 0x102 = Some 0" "mem w 0x103 = Some 0"
      "mem w 0x104 = Some 114" "mem w 0x105 = Some 0"
    using c(3) by (simp_all add: mode_world_def poke_def in_range_def)
  have t: "load32 (mem w) 0x100 = Inr CIA_MUTEX_FREE"
    by (simp add: load32_def load_bytes_4 load8_def m mutex_consts)
  have q: "quiet_futex bump_kernel" "open_quiet bump_kernel"
    by (simp_all add: quiet_futex_def open_quiet_def sys_open_def syscall_def bump_kernel_def sys_consts)
  have fl: "fopen_flags (mem w) 0x104 0 = Some (Inr RT_FILE_READ)"
    by (simp add: fopen_flags.simps load8_def m Let_def)
  have op: "rt_file_open bump_kernel 0 RT_FILE_READ w = ((RT_STATUS_OK, Some \<lparr>rf_fd = 0, rf_flags = RT_FILE_READ\<rparr>), w)"
    by (simp add: rt_file_open_def sys_open_def syscall_def bump_kernel_def sys_consts rt_consts open_result_def)
  have far: "disj_range 0x100 4 f 32" if f: "f \<in> set (0x10010 # F')" for f
  proof -
    have "bucket_ok ?P (mem w) f" using c(1) f unfolding F pool_inv_def pool_ok_def by blast
    then have fb: "unat f + 32 \<le> 2 ^ 64" by (simp add: bucket_ok_def)
    have bok: "buffer_ok ?P 0x10000 (mem w)" using c(1) by (simp add: pool_inv_def header_ok_def)
    have "in_range f f 32" by (simp add: in_range_def)
    then have "in_range f 0x10000 4096"
      using bucket_in_buffer(1) [OF file_pool_geom bok, of f f] f F c(2) by simp
    then have "0x10000 \<le> unat f" by (simp add: in_range_iff)
    then show ?thesis using fb by (intro disj_rangeI_le) simp_all
  qed
  have hd: "disj_range 0x100 4 0x10000 8" by (intro disj_rangeI_le) simp_all
  have "\<exists>s' w'. fopen bump_kernel ?s 0 0x104 w = Inr (0x10010, s', w') \<and> 0x10010 \<notin> ({} :: addr set)
    \<and> pool_inv bump_kernel (file_pool s') w' F' (insert 0x10010 {})
    \<and> file_is (mem w') 0x10010 \<lparr>rf_fd = 0, rf_flags = RT_FILE_READ\<rparr>
    \<and> load32 (mem w') (file_mutex 0x10010) = load32 (mem w) (file_mutex 0x10010)"
    by (rule fopen_fresh [of bump_kernel ?s w "0x10010" F' "{}" "0x104" RT_FILE_READ 0 "\<lparr>rf_fd = 0, rf_flags = RT_FILE_READ\<rparr>" w])
      (use c(1) F q fl op t far hd in \<open>simp_all add: s\<close>)
  then show ?thesis by blast
qed

end
