(* ===== verification/Fmt.thy ===== *)
theory Fmt
  imports File StrMem
begin

text \<open>
  \<open>src/stdlib-file/fmt.c\<close>: the number printers and \<open>printf\<close>.  The local buffer of a printer is the 20
  bytes at the address \<open>frame\<close>; the pointer that runs down in it is an index, and a step below the
  buffer is undefined.  The variable arguments are a list of 64-bit slots, as the calling convention
  passes them; taking one too many is undefined.
\<close>

section \<open>Signed counters\<close>

definition add_i64 :: "i64 \<Rightarrow> i64 \<Rightarrow> i64 res" where
  "add_i64 a b = (if - (2 ^ 63) \<le> sint a + sint b \<and> sint a + sint b < 2 ^ 63 then Inr (a + b)
     else Inl (Undefined SignedOverflow))"

definition sub_i64 :: "i64 \<Rightarrow> i64 \<Rightarrow> i64 res" where
  "sub_i64 a b = (if - (2 ^ 63) \<le> sint a - sint b \<and> sint a - sint b < 2 ^ 63 then Inr (a - b)
     else Inl (Undefined SignedOverflow))"

section \<open>The printers\<close>

text \<open>The tail that the printers share: write \<open>n\<close> bytes at \<open>p\<close> to standard output.\<close>

definition print_bytes :: "'k kernel \<Rightarrow> addr \<Rightarrow> i32 \<Rightarrow> addr \<Rightarrow> 'k world \<Rightarrow> (i32 \<times> 'k world) res" where
  "print_bytes K out n p w =
     bind_res (rt_file_write K out (scast n) p w) (\<lambda>((status, _), w').
       if status \<noteq> RT_STATUS_OK then Inr (-1, w') else Inr (n, w'))"

partial_function (option) str_len_loop :: "mem \<Rightarrow> addr \<Rightarrow> i32 \<Rightarrow> i32 res option" where
  "str_len_loop m str n =
     (case load8 m (str + scast n) of
        Inl e \<Rightarrow> Some (Inl e)
      | Inr c \<Rightarrow> if c = 0 then Some (Inr n)
                else (case inc_i32 n of Inl e \<Rightarrow> Some (Inl e) | Inr n' \<Rightarrow> str_len_loop m str n'))"

definition print_string :: "'k kernel \<Rightarrow> addr \<Rightarrow> addr \<Rightarrow> 'k world \<Rightarrow> (i32 \<times> 'k world) res" where
  "print_string K out str w =
     bind_res (loop_res (str_len_loop (mem w) str 0)) (\<lambda>n. print_bytes K out n str w)"

definition buf_size :: nat where "buf_size = 20"

text \<open>\<open>*--p = c\<close> in the buffer at \<open>frame\<close>, with \<open>p = frame + i\<close>.\<close>

definition push_char :: "addr \<Rightarrow> nat \<Rightarrow> u8 \<Rightarrow> mem \<Rightarrow> (nat \<times> mem) res" where
  "push_char frame i c m =
     (if i = 0 then Inl (Undefined IndexOutOfBounds)
      else bind_res (store8 m (frame + of_nat (i - 1)) c) (\<lambda>m'. Inr (i - 1, m')))"

text \<open>The \<open>do ... while\<close> loop over the decimal digits; \<open>ucast\<close> is the conversion to \<open>char\<close>, 48 is the
  character 0.\<close>

function digits_loop :: "addr \<Rightarrow> nat \<Rightarrow> u64 \<Rightarrow> mem \<Rightarrow> (nat \<times> mem) res" where
  "digits_loop frame i number m =
     bind_res (push_char frame i (ucast (number mod 10) + 48) m) (\<lambda>(i', m').
       if 0 < number div 10 then digits_loop frame i' (number div 10) m' else Inr (i', m'))"
  by pat_completeness auto
termination
  by (relation "measure (\<lambda>(frame, i, number, m). unat number)")
    (auto simp: unat_div word_less_nat_alt)

declare digits_loop.simps [simp del]

definition init_buf :: "addr \<Rightarrow> mem \<Rightarrow> mem res" where
  "init_buf frame m = store8 m (frame + of_nat (buf_size - 1)) 0"

definition print_uint :: "'k kernel \<Rightarrow> addr \<Rightarrow> addr \<Rightarrow> u64 \<Rightarrow> 'k world \<Rightarrow> (i32 \<times> 'k world) res" where
  "print_uint K out frame number w =
     bind_res (init_buf frame (mem w)) (\<lambda>m.
     bind_res (digits_loop frame (buf_size - 1) number m) (\<lambda>(i, m).
       print_bytes K out (of_nat (buf_size - i)) (frame + of_nat i) (w\<lparr>mem := m\<rparr>)))"

text \<open>Negating the least \<open>i64\<close> overflows; 45 is the minus sign.  The digits of a non-negative \<open>i64\<close>
  are those of its word.\<close>

definition print_int :: "'k kernel \<Rightarrow> addr \<Rightarrow> addr \<Rightarrow> i64 \<Rightarrow> 'k world \<Rightarrow> (i32 \<times> 'k world) res" where
  "print_int K out frame number w =
     (let negative = number <s 0 in
      bind_res (if negative then sub_i64 0 number else Inr number) (\<lambda>number.
      bind_res (init_buf frame (mem w)) (\<lambda>m.
      bind_res (digits_loop frame (buf_size - 1) number m) (\<lambda>(i, m).
      bind_res (if negative then push_char frame i 45 m else Inr (i, m)) (\<lambda>(i, m).
        print_bytes K out (of_nat (buf_size - i)) (frame + of_nat i) (w\<lparr>mem := m\<rparr>))))))"

definition hex_digit :: "u64 \<Rightarrow> u8" where
  "hex_digit bits = (if bits < 10 then 48 + ucast bits else 87 + ucast bits)"

text \<open>\<open>for(int i = 0; i < 64; i += 4)\<close>: sixteen turns; \<open>k\<close> is \<open>i div 4\<close>.\<close>

function hex_loop :: "addr \<Rightarrow> u64 \<Rightarrow> nat \<Rightarrow> nat \<Rightarrow> mem \<Rightarrow> (nat \<times> mem) res" where
  "hex_loop frame number k i m =
     (if 4 * k < 64
      then bind_res (push_char frame i (hex_digit (drop_bit (4 * k) number AND 0x0f)) m) (\<lambda>(i', m').
             hex_loop frame number (Suc k) i' m')
      else Inr (i, m))"
  by pat_completeness auto
termination
  by (relation "measure (\<lambda>(frame, number, k, i, m). 16 - k)") auto

declare hex_loop.simps [simp del]

definition print_hex :: "'k kernel \<Rightarrow> addr \<Rightarrow> addr \<Rightarrow> u64 \<Rightarrow> 'k world \<Rightarrow> (i32 \<times> 'k world) res" where
  "print_hex K out frame number w =
     bind_res (init_buf frame (mem w)) (\<lambda>m.
     bind_res (hex_loop frame number 0 (buf_size - 1) m) (\<lambda>(i, m).
     bind_res (push_char frame i 120 m) (\<lambda>(i, m).
     bind_res (push_char frame i 48 m) (\<lambda>(i, m).
       print_bytes K out (of_nat (buf_size - i)) (frame + of_nat i) (w\<lparr>mem := m\<rparr>)))))"

section \<open>printf\<close>

text \<open>The inner \<open>while\<close>: from \<open>i\<close> to the next percent sign (37) or zero.\<close>

partial_function (option) span_loop :: "mem \<Rightarrow> addr \<Rightarrow> i64 \<Rightarrow> i64 \<Rightarrow> (i64 \<times> i64) res option" where
  "span_loop m fmt buf_end i =
     (case load8 m (fmt + i) of
        Inl e \<Rightarrow> Some (Inl e)
      | Inr c \<Rightarrow>
          if c = 37 \<or> c = 0 then Some (Inr (buf_end, i))
          else (case inc_i64 buf_end of Inl e \<Rightarrow> Some (Inl e) | Inr buf_end' \<Rightarrow>
                 (case inc_i64 i of Inl e \<Rightarrow> Some (Inl e) | Inr i' \<Rightarrow>
                   span_loop m fmt buf_end' i')))"

text \<open>
  The size modifier after the percent sign: \<open>I32\<close>, \<open>I64\<close> or none (73 is I; 51, 50, 54, 52 are 3, 2, 6,
  4).  The result is the size with the index behind the modifier, or \<open>None\<close> for \<open>goto _error\<close>.
\<close>

definition size_modifier :: "mem \<Rightarrow> addr \<Rightarrow> i64 \<Rightarrow> (nat \<times> i64) option res" where
  "size_modifier m fmt i =
     bind_res (load8 m (fmt + i)) (\<lambda>c.
       if c \<noteq> 73 then Inr (Some (32, i))
       else
         bind_res (load8 m (fmt + (i + 1))) (\<lambda>c1.
         bind_res (if c1 = 51 then bind_res (load8 m (fmt + (i + 2))) (\<lambda>c2. Inr (c2 = 50)) else Inr False) (\<lambda>is32.
         bind_res (if c1 = 54 then bind_res (load8 m (fmt + (i + 2))) (\<lambda>c2. Inr (c2 = 52)) else Inr False) (\<lambda>is64.
           if is32 then bind_res (add_i64 i 3) (\<lambda>i'. Inr (Some (32, i')))
           else if is64 then bind_res (add_i64 i 3) (\<lambda>i'. Inr (Some (64, i')))
           else Inr None))))"

definition va_arg :: "u64 list \<Rightarrow> (u64 \<times> u64 list) res" where
  "va_arg args = (case args of [] \<Rightarrow> Inl (Undefined MissingArgument) | a # as \<Rightarrow> Inr (a, as))"

text \<open>The value of an argument of the two sizes, sign extended (d) or zero extended (u, x).\<close>

definition int_arg :: "nat \<Rightarrow> u64 \<Rightarrow> i64" where
  "int_arg sz a = (if sz = 32 then scast (ucast a :: i32) else a)"

definition uint_arg :: "nat \<Rightarrow> u64 \<Rightarrow> u64" where
  "uint_arg sz a = (if sz = 32 then ucast (ucast a :: u32) else a)"

text \<open>
  One conversion.  \<open>arg_chars\<close> is a local without initialiser: \<open>None\<close> where no branch assigns it.
  The outer \<open>None\<close> is \<open>goto _error\<close>.  \<open>frame\<close> holds the printers' buffer, \<open>frame + 24\<close> the local \<open>ch\<close>.
\<close>

definition conversion ::
  "'k kernel \<Rightarrow> addr \<Rightarrow> addr \<Rightarrow> u8 \<Rightarrow> nat \<Rightarrow> u64 list \<Rightarrow> 'k world \<Rightarrow>
    ((i32 option \<times> u64 list) option \<times> 'k world) res" where
  "conversion K out frame c sz args w =
     (if c = 100 then
        bind_res (va_arg args) (\<lambda>(a, as).
        bind_res (print_int K out frame (int_arg sz a) w) (\<lambda>(n, w). Inr (Some (Some n, as), w)))
      else if c = 117 then
        bind_res (va_arg args) (\<lambda>(a, as).
        bind_res (print_uint K out frame (uint_arg sz a) w) (\<lambda>(n, w). Inr (Some (Some n, as), w)))
      else if c = 120 then
        bind_res (va_arg args) (\<lambda>(a, as).
        bind_res (print_hex K out frame (uint_arg sz a) w) (\<lambda>(_, w). Inr (Some (None, as), w)))
      else if c = 112 then
        bind_res (va_arg args) (\<lambda>(a, as).
        bind_res (print_hex K out frame a w) (\<lambda>(n, w). Inr (Some (Some n, as), w)))
      else if c = 115 then
        bind_res (va_arg args) (\<lambda>(a, as).
        bind_res (print_string K out a w) (\<lambda>(n, w). Inr (Some (Some n, as), w)))
      else if c = 99 then
        bind_res (va_arg args) (\<lambda>(a, as).
        bind_res (lift_mem w (store32 (mem w) (frame + 24) (ucast a))) (\<lambda>w.
        bind_res (rt_file_write K out 1 (frame + 24) w) (\<lambda>((status, _), w).
          if status \<noteq> RT_STATUS_OK then Inr (None, w) else Inr (Some (Some 1, as), w))))
      else Inr (Some (None, args), w))"

text \<open>The main loop; the result is the count, or \<open>None\<close> when it ends in \<open>goto _error\<close>.\<close>

definition printf_turn ::
  "'k kernel \<Rightarrow> addr \<Rightarrow> addr \<Rightarrow> addr \<Rightarrow> i64 \<Rightarrow> i64 \<Rightarrow> u64 list \<Rightarrow> 'k world \<Rightarrow>
    ((i64 option + i64 \<times> i64 \<times> u64 list) \<times> 'k world) res" where
  "printf_turn K out frame fmt i printed args w =
     bind_res (load8 (mem w) (fmt + i)) (\<lambda>c0.
     if c0 = 0 then Inr (Inl (Some printed), w)
     else
       bind_res (loop_res (span_loop (mem w) fmt i i)) (\<lambda>(buf_end, j).
       bind_res (sub_i64 buf_end i) (\<lambda>buf_len.
       bind_res (if buf_len \<noteq> 0
                 then bind_res (rt_file_write K out buf_len (fmt + i) w) (\<lambda>((status, _), w).
                        if status \<noteq> RT_STATUS_OK then Inr (None, w)
                        else bind_res (add_i64 printed buf_len) (\<lambda>p. Inr (Some p, w)))
                 else Inr (Some printed, w)) (\<lambda>(printed', w).
       case printed' of None \<Rightarrow> Inr (Inl None, w) | Some printed \<Rightarrow>
       bind_res (load8 (mem w) (fmt + j)) (\<lambda>c.
       if c = 0 then Inr (Inl (Some printed), w)
       else
         bind_res (inc_i64 j) (\<lambda>j.
         bind_res (size_modifier (mem w) fmt j) (\<lambda>sm.
         case sm of None \<Rightarrow> Inr (Inl None, w) | Some (sz, j) \<Rightarrow>
         bind_res (load8 (mem w) (fmt + j)) (\<lambda>c.
         bind_res (conversion K out frame c sz args w) (\<lambda>(conv, w).
         case conv of None \<Rightarrow> Inr (Inl None, w) | Some (chars, args) \<Rightarrow>
         bind_res (inc_i64 j) (\<lambda>j.
         case chars of None \<Rightarrow> Inl (Undefined Uninitialised) | Some arg_chars \<Rightarrow>
           if arg_chars <s 0 then Inr (Inl None, w)
           else bind_res (add_i64 printed (scast arg_chars)) (\<lambda>printed.
                  Inr (Inr (j, printed, args), w))))))))))))"

partial_function (option) printf_loop ::
  "'k kernel \<Rightarrow> addr \<Rightarrow> addr \<Rightarrow> addr \<Rightarrow> i64 \<Rightarrow> i64 \<Rightarrow> u64 list \<Rightarrow> 'k world \<Rightarrow>
    (i64 option \<times> 'k world) res option" where
  "printf_loop K out frame fmt i printed args w =
     (case printf_turn K out frame fmt i printed args w of
        Inl e \<Rightarrow> Some (Inl e)
      | Inr (Inl r, w') \<Rightarrow> Some (Inr (r, w'))
      | Inr (Inr (j, printed', args'), w') \<Rightarrow> printf_loop K out frame fmt j printed' args' w')"

definition printf ::
  "'k kernel \<Rightarrow> 'k stdio \<Rightarrow> addr \<Rightarrow> addr \<Rightarrow> u64 list \<Rightarrow> 'k world \<Rightarrow> (i32 \<times> 'k world) res" where
  "printf K s frame fmt args w =
     bind_res (cia_mutex_lock K (file_mutex (io_stdout s)) w) (\<lambda>w.
     bind_res (loop_res (printf_loop K (io_stdout s) frame fmt 0 0 args w)) (\<lambda>(r, w).
     bind_res (cia_mutex_unlock K (file_mutex (io_stdout s)) w) (\<lambda>w.
       case r of None \<Rightarrow> Inr (-1, w) | Some printed \<Rightarrow> Inr (ucast printed, w))))"

section \<open>Decimal digits\<close>

function dec_digits :: "nat \<Rightarrow> u8 list" where
  "dec_digits n = (if n < 10 then [48 + of_nat n] else dec_digits (n div 10) @ [48 + of_nat (n mod 10)])"
  by pat_completeness auto
termination by (relation "measure id") auto

declare dec_digits.simps [simp del]

lemma dec_digits_length: "0 < k \<Longrightarrow> length (dec_digits n) \<le> k \<longleftrightarrow> n < 10 ^ k"
proof (induction n arbitrary: k rule: dec_digits.induct)
  case (1 n)
  obtain j where j: "k = Suc j" using "1.prems" gr0_conv_Suc by blast
  show ?case
  proof (cases "n < 10")
    case True
    then have "n < 10 * 10 ^ j" by (metis le_add2 less_le_trans mult.right_neutral mult_le_mono2 one_le_numeral one_le_power add_0)
    with True show ?thesis by (simp add: dec_digits.simps [of n] j)
  next
    case False
    show ?thesis
    proof (cases "j = 0")
      case True
      have "dec_digits (n div 10) \<noteq> []" by (subst dec_digits.simps) simp
      with True False show ?thesis by (simp add: dec_digits.simps [of n] j)
    next
      case jn: False
      have "n div 10 < 10 ^ j \<longleftrightarrow> n < 10 * 10 ^ j" by (simp add: div_less_iff_less_mult mult.commute)
      with False "1.IH" [of j] jn show ?thesis by (simp add: dec_digits.simps [of n] j)
    qed
  qed
qed

lemma dec_digits_nonempty: "0 < length (dec_digits n)"
  by (subst dec_digits.simps) simp

lemma poke_snoc_first:
  assumes "length bs < 2 ^ 64"
  shows "poke (m(a + of_nat (length bs) \<mapsto> b)) a bs = poke m a (bs @ [b])"
proof
  fix x
  have "\<not> in_range (a + of_nat (length bs)) a (length bs)"
    using assms by (simp add: in_range_def unat_of_nat_u64)
  then show "poke (m(a + of_nat (length bs) \<mapsto> b)) a bs x = poke m a (bs @ [b]) x"
    unfolding poke_snoc [OF assms, symmetric] by (auto simp: poke_def)
qed

lemma ucast_digit: "ucast (number mod 10 :: u64) + 48 = (48 + of_nat (unat number mod 10) :: u8)"
proof -
  have a: "unat (number mod 10) = unat number mod 10" by (simp add: unat_mod)
  have "ucast (number mod 10) = (of_nat (unat (number mod 10)) :: u8)"
    by simp
  then show ?thesis by (simp only: a add.commute)
qed

lemma digits_loop_writes:
  assumes "mapped m frame 20" "i \<le> 20" "length (dec_digits (unat number)) \<le> i"
  shows "digits_loop frame i number m =
    Inr (i - length (dec_digits (unat number)),
         poke m (frame + of_nat (i - length (dec_digits (unat number)))) (dec_digits (unat number)))"
  using assms
proof (induction frame i number m rule: digits_loop.induct)
  case (1 frame i number m)
  let ?d = "48 + of_nat (unat number mod 10) :: u8"
  have i: "0 < i" using "1.prems"(3) dec_digits_nonempty [of "unat number"] by linarith
  have n: "m (frame + of_nat (i - 1)) \<noteq> None"
    by (rule mapped_offsetD [OF "1.prems"(1)]) (use i "1.prems"(2) in simp_all)
  define m1 where "m1 = m(frame + of_nat (i - 1) \<mapsto> ?d)"
  have push: "push_char frame i (ucast (number mod 10) + 48) m = Inr (i - 1, m1)"
    using i n by (auto simp: push_char_def store8_def ucast_digit m1_def)
  show ?case
  proof (cases "unat number < 10")
    case True
    then have "\<not> 0 < number div 10" by (simp add: word_less_nat_alt unat_div)
    moreover have "dec_digits (unat number) = [?d]" using True by (simp add: dec_digits.simps [of "unat number"])
    moreover have "m1 = poke m (frame + of_nat (i - 1)) [?d]"
      using poke_snoc [of "[]" m "frame + of_nat (i - 1)" ?d] by (simp add: m1_def)
    ultimately show ?thesis by (subst digits_loop.simps) (simp add: push)
  next
    case False
    then have more: "0 < number div 10" by (simp add: word_less_nat_alt unat_div)
    let ?ds = "dec_digits (unat number div 10)"
    have ds: "dec_digits (unat number) = ?ds @ [?d]" using False by (simp add: dec_digits.simps [of "unat number"])
    have u: "unat (number div 10) = unat number div 10" by (simp add: unat_div)
    have m: "mapped m1 frame 20" unfolding m1_def using "1.prems"(1) n by simp
    have len: "length ?ds \<le> i - 1" using "1.prems"(3) by (simp add: ds)
    have "digits_loop frame (i - 1) (number div 10) m1 = Inr (i - 1 - length ?ds, poke m1 (frame + of_nat (i - 1 - length ?ds)) ?ds)"
      by (rule "1.IH" [OF push refl more m, unfolded u]) (use "1.prems"(2) len in simp_all)
    moreover have "poke m1 (frame + of_nat (i - 1 - length ?ds)) ?ds =
        poke m (frame + of_nat (i - 1 - length ?ds)) (?ds @ [?d])"
    proof -
      obtain k where k: "i - 1 = k + length ?ds" using len by (metis add.commute le_Suc_ex)
      have "frame + of_nat (i - 1) = frame + of_nat (i - 1 - length ?ds) + of_nat (length ?ds)"
        unfolding k diff_add_inverse2 of_nat_add add.assoc ..
      moreover have "length ?ds < 2 ^ 64" using "1.prems"(2) len by simp
      ultimately show ?thesis unfolding m1_def by (simp only: poke_snoc_first)
    qed
    ultimately show ?thesis using more
      by (subst digits_loop.simps) (simp add: push ds)
  qed
qed

lemma digits_loop_underflows:
  assumes "mapped m frame 20" "i \<le> 20" "i < length (dec_digits (unat number))"
  shows "digits_loop frame i number m = Inl (Undefined IndexOutOfBounds)"
  using assms
proof (induction frame i number m rule: digits_loop.induct)
  case (1 frame i number m)
  let ?d = "48 + of_nat (unat number mod 10) :: u8"
  show ?case
  proof (cases "i = 0")
    case True
    then show ?thesis by (subst digits_loop.simps) (simp add: push_char_def)
  next
    case False
    then have "\<not> unat number < 10" using "1.prems"(3) by (auto simp: dec_digits.simps [of "unat number"])
    then have more: "0 < number div 10" and ds: "length (dec_digits (unat number)) = Suc (length (dec_digits (unat number div 10)))"
      by (simp_all add: word_less_nat_alt unat_div dec_digits.simps [of "unat number"])
    have u: "unat (number div 10) = unat number div 10" by (simp add: unat_div)
    have n: "m (frame + of_nat (i - 1)) \<noteq> None"
      by (rule mapped_offsetD [OF "1.prems"(1)]) (use False "1.prems"(2) in simp_all)
    define m1 where "m1 = m(frame + of_nat (i - 1) \<mapsto> ?d)"
    have push: "push_char frame i (ucast (number mod 10) + 48) m = Inr (i - 1, m1)"
      using False n by (auto simp: push_char_def store8_def ucast_digit m1_def)
    have m: "mapped m1 frame 20" unfolding m1_def using "1.prems"(1) n by simp
    have "digits_loop frame (i - 1) (number div 10) m1 = Inl (Undefined IndexOutOfBounds)"
      by (rule "1.IH" [OF push refl more m, unfolded u]) (use "1.prems"(2,3) False ds in simp_all)
    then show ?thesis using more by (subst digits_loop.simps) (simp add: push)
  qed
qed

section \<open>Writing to a stream\<close>

text \<open>
  A descriptor that takes every byte it is given: the documented \<open>write\<close> without errors or short
  counts.  \<open>sent\<close> reads off the kernel's state what it has received.
\<close>

definition takes_all :: "'k kernel \<Rightarrow> u32 \<Rightarrow> ('k \<Rightarrow> u8 list) \<Rightarrow> bool" where
  "takes_all K fd sent \<longleftrightarrow> (\<forall>n buf w. n < 2 ^ 31 \<longrightarrow> mapped (mem w) buf n \<longrightarrow>
     (\<exists>w'. sys_write K fd buf (of_nat n) w = (of_nat n, w') \<and> mem w' = mem w
        \<and> sent (os w') = sent (os w) @ peek (mem w) buf n))"

lemma rt_file_write_all:
  assumes "takes_all K (ucast fdes) sent" "load64 (mem w) out = Inr fdes" "n < 2 ^ 31" "mapped (mem w) buf n"
  obtains w' where "rt_file_write K out (of_nat n) buf w = Inr ((RT_STATUS_OK, Some (of_nat n)), w')"
    "mem w' = mem w" "sent (os w') = sent (os w) @ peek (mem w) buf n"
proof -
  obtain w' where w: "sys_write K (ucast fdes) buf (of_nat n) w = (of_nat n, w')" "mem w' = mem w"
      "sent (os w') = sent (os w) @ peek (mem w) buf n"
    using assms(1,3,4) unfolding takes_all_def by blast
  have n: "sint (of_nat n :: i64) = int n" using assms(3) by (intro sint_small) simp
  have e: "- of_nat n \<noteq> EBADF" "- of_nat n \<noteq> EIO"
  proof -
    have "of_nat n = (- EBADF) \<Longrightarrow> sint (- EBADF) = int n" "of_nat n = (- EIO) \<Longrightarrow> sint (- EIO) = int n"
      using n by simp_all
    then show "- of_nat n \<noteq> EBADF" "- of_nat n \<noteq> EIO"
      by (auto simp: sys_consts minus_equation_iff [of "of_nat n"])
  qed
  have "\<not> 0 <s - (of_nat n :: i64)"
  proof -
    have "sint (- of_nat n :: i64) = - int n"
      using assms(3) n by (simp add: sint_word_ariths) (intro signed_take_bit_int_eq_self, simp_all)
    then show ?thesis by (simp add: word_sless_alt)
  qed
  then have "rt_file_write K out (of_nat n) buf w = Inr ((RT_STATUS_OK, Some (of_nat n)), w')"
    using assms(2,3) w(1) e by (simp add: rt_file_write_def Let_def scast_small)
  with that w(2,3) show thesis by blast
qed

lemma print_bytes_all:
  assumes "takes_all K (ucast fdes) sent" "load64 (mem w) out = Inr fdes" "n < 2 ^ 31" "mapped (mem w) p n"
  obtains w' where "print_bytes K out (of_nat n) p w = Inr (of_nat n, w')"
    "mem w' = mem w" "sent (os w') = sent (os w) @ peek (mem w) p n"
  by (rule rt_file_write_all [OF assms]) (rule that, simp_all add: print_bytes_def scast_small [OF assms(3)])

section \<open>Text without conversions\<close>

lemma span_loop_to_end:
  assumes "c_string m fmt k" "\<forall>i<k. m (fmt + of_nat i) \<noteq> Some 37" "k < 2 ^ 31" "i \<le> k"
  shows "span_loop m fmt (of_nat i) (of_nat i) = Some (Inr (of_nat k, of_nat k))"
  using assms(4)
proof (induction i rule: inc_induct)
  case base
  show ?case using assms(1) by (subst span_loop.simps) (simp add: c_string_def load8_def)
next
  case (step i)
  obtain c where c: "m (fmt + of_nat i) = Some c" "c \<noteq> 0" "c \<noteq> 37"
    using assms(1,2) step(2) mapped_offsetD [of m fmt "Suc k" i] assms(3) by (auto simp: c_string_def)
  have "inc_i64 (of_nat i) = Inr (of_nat (Suc i))" by (rule inc_i64_of_nat) (use step(2) assms(3) in simp)
  with step.IH c show ?case by (subst span_loop.simps) (simp add: load8_def)
qed

lemma sub_add_small:
  assumes "n < 2 ^ 31"
  shows "sub_i64 (of_nat n) 0 = Inr (of_nat n)" "add_i64 0 (of_nat n) = Inr (of_nat n)"
  using assms sint_small [of n] by (simp_all add: sub_i64_def add_i64_def)

lemma printf_loop_text:
  assumes "takes_all K (ucast fdes) sent" "load64 (mem w) out = Inr fdes"
    and "c_string (mem w) fmt k" "\<forall>i<k. mem w (fmt + of_nat i) \<noteq> Some 37" "k < 2 ^ 31"
  obtains w' where "printf_loop K out frame fmt 0 0 args w = Some (Inr (Some (of_nat k), w'))"
    "mem w' = mem w" "sent (os w') = sent (os w) @ peek (mem w) fmt k"
proof (cases "k = 0")
  case True
  then have "printf_loop K out frame fmt 0 0 args w = Some (Inr (Some (of_nat k), w))"
    using assms(3) by (subst printf_loop.simps) (simp add: printf_turn_def c_string_def load8_def)
  with that True show thesis by (simp add: peek_def)
next
  case False
  have mk: "mapped (mem w) fmt k" using assms(3) by (auto simp: c_string_def elim: mapped_mono)
  obtain w' where w': "rt_file_write K out (of_nat k) fmt w = Inr ((RT_STATUS_OK, Some (of_nat k)), w')"
      "mem w' = mem w" "sent (os w') = sent (os w) @ peek (mem w) fmt k"
    by (rule rt_file_write_all [OF assms(1,2,5) mk]) (rule that)
  have k: "of_nat k \<noteq> (0 :: i64)"
    using False assms(5) unat_of_nat_u64 [of k] by auto
  obtain c where c: "mem w fmt = Some c" "c \<noteq> 0"
    using assms(3) False mapped_offsetD [of "mem w" fmt "Suc k" 0] assms(5) by (auto simp: c_string_def)
  have z: "mem w (fmt + of_nat k) = Some 0" using assms(3) by (simp add: c_string_def)
  have sp: "span_loop (mem w) fmt 0 0 = Some (Inr (of_nat k, of_nat k))"
    using span_loop_to_end [OF assms(3,4,5), of 0] by simp
  have "printf_turn K out frame fmt 0 0 args w = Inr (Inl (Some (of_nat k)), w')"
    using c z k w'(1,2) sub_add_small [OF assms(5)] by (simp add: printf_turn_def load8_def sp)
  then have "printf_loop K out frame fmt 0 0 args w = Some (Inr (Some (of_nat k), w'))"
    by (subst printf_loop.simps) simp
  with that w'(2,3) show thesis by blast
qed

section \<open>Properties\<close>

text \<open>C21: \<open>print_uint\<close> writes the decimal digits of its argument followed by a zero byte, and counts
  that byte, when there are at most 19 digits; with 20 digits it writes below its buffer.\<close>

theorem print_uint_digits:
  assumes "takes_all K (ucast fdes) sent" "load64 (mem w) out = Inr fdes" "mapped (mem w) frame 20"
    and "disj_range frame 20 out 8" "unat frame + 20 \<le> 2 ^ 64"
  shows "if unat number < 10 ^ 19
    then \<exists>w'. print_uint K out frame number w = Inr (of_nat (Suc (length (dec_digits (unat number)))), w')
           \<and> sent (os w') = sent (os w) @ dec_digits (unat number) @ [0]
    else print_uint K out frame number w = Inl (Undefined IndexOutOfBounds)"
proof -
  let ?ds = "dec_digits (unat number)"
  define m1 where "m1 = (mem w)(frame + of_nat 19 \<mapsto> 0)"
  have n: "mem w (frame + of_nat 19) \<noteq> None" by (rule mapped_offsetD [OF assms(3)]) simp_all
  then have i: "init_buf frame (mem w) = Inr m1" by (auto simp: init_buf_def store8_def buf_size_def m1_def)
  have m: "mapped m1 frame 20" unfolding m1_def using assms(3) n by simp
  show ?thesis
  proof (cases "unat number < 10 ^ 19")
    case True
    then have len: "length ?ds \<le> 19" using dec_digits_length [of 19 "unat number"] by simp
    let ?p = "frame + of_nat (19 - length ?ds)"
    let ?m = "poke (mem w) ?p (?ds @ [0])"
    obtain k where k: "19 = k + length ?ds" using len by (metis add.commute le_Suc_ex)
    have "frame + of_nat 19 = ?p + of_nat (length ?ds)"
      unfolding k diff_add_inverse2 of_nat_add add.assoc ..
    moreover have "length ?ds < 2 ^ 64" using len by simp
    ultimately have pm: "poke m1 ?p ?ds = ?m" unfolding m1_def by (simp only: poke_snoc_first)
    have d: "digits_loop frame 19 number m1 = Inr (19 - length ?ds, ?m)"
      unfolding pm [symmetric] by (rule digits_loop_writes [OF m _ len]) simp
    have mp: "mapped (mem w) ?p (length (?ds @ [0]))"
      by (rule mapped_sub [OF assms(3)]) (use len assms(5) in simp_all)
    have "disj_range ?p (length (?ds @ [0])) out 8"
      using assms(4) range_sub [of _ frame "19 - length ?ds" "Suc (length ?ds)" 20] len assms(5)
      unfolding disj_range_def by auto
    then have l: "load64 (mem (w\<lparr>mem := ?m\<rparr>)) out = Inr fdes" using assms(2) by (simp add: load64_poke_disj)
    have mp': "mapped (mem (w\<lparr>mem := ?m\<rparr>)) ?p (Suc (length ?ds))" using mp by simp
    have pk: "peek ?m ?p (Suc (length ?ds)) = ?ds @ [0]" using peek_poke_same [of "?ds @ [0]" "mem w" ?p] len by simp
    have s: "20 - (19 - length ?ds) = Suc (length ?ds)" using len by simp
    obtain w' where "print_bytes K out (of_nat (Suc (length ?ds))) ?p (w\<lparr>mem := ?m\<rparr>) = Inr (of_nat (Suc (length ?ds)), w')"
        "sent (os w') = sent (os w) @ ?ds @ [0]"
      by (rule print_bytes_all [OF assms(1) l _ mp']) (use len in simp, rule that, simp_all add: pk)
    then have "print_uint K out frame number w = Inr (of_nat (Suc (length ?ds)), w')" "sent (os w') = sent (os w) @ ?ds @ [0]"
      using i d s by (simp_all add: print_uint_def buf_size_def del: of_nat_Suc)
    with True show ?thesis by auto
  next
    case False
    then have "19 < length ?ds" using dec_digits_length [of 19 "unat number"] by (simp add: not_le [symmetric])
    from digits_loop_underflows [OF m _ this] False i show ?thesis by (simp add: print_uint_def buf_size_def)
  qed
qed

text \<open>\<open>printf\<close> of a format without a percent sign writes the format and returns its length.\<close>

theorem printf_text:
  assumes "takes_all K (ucast fdes) sent" "load64 (mem w) (io_stdout s) = Inr fdes"
    and "load32 (mem w) (file_mutex (io_stdout s)) = Inr CIA_MUTEX_FREE" "unat (io_stdout s) + 32 \<le> 2 ^ 64"
    and "quiet_futex K" "\<forall>args w. sent (os (snd (syscall K SYS_futex args w))) = sent (os w)"
    and "c_string (mem w) fmt k" "\<forall>i<k. mem w (fmt + of_nat i) \<noteq> Some 37" "k < 2 ^ 31"
    and "disj_range (file_mutex (io_stdout s)) 4 fmt (Suc k)"
  shows "\<exists>w'. printf K s frame fmt args w = Inr (of_nat k, w')
    \<and> sent (os w') = sent (os w) @ peek (mem w) fmt k"
proof -
  let ?out = "io_stdout s"
  let ?t = "file_mutex ?out"
  let ?m = "poke (mem w) ?t (le_bytes 4 CIA_MUTEX_LOCK)"
  have t: "disj_range ?t 4 ?out 8"
    using in_file_parts [OF assms(4)] in_range_mono [of _ ?out 8 16] by (fastforce simp: disj_range_def)
  have l: "load64 ?m ?out = Inr fdes" using assms(2) t by (simp add: load64_poke_disj)
  have same: "?m (fmt + of_nat i) = mem w (fmt + of_nat i)" if "i \<le> k" for i
  proof -
    have "in_range (fmt + of_nat i) fmt (Suc k)" using that assms(9) by (intro in_range_offset) simp_all
    then show ?thesis using assms(10) by (intro poke_disj [of _ _ fmt "Suc k"]) simp_all
  qed
  have mt: "mapped (mem w) ?t 4" using assms(3) by (rule load32_InrD)
  have c: "c_string ?m fmt k" using assms(7) same mt by (simp add: c_string_def)
  have n37: "\<forall>i<k. ?m (fmt + of_nat i) \<noteq> Some 37" using assms(8) same by simp
  have pk: "peek ?m fmt k = peek (mem w) fmt k" by (rule nth_equalityI) (simp_all add: nth_peek same)
  obtain w1 where w1: "printf_loop K ?out frame fmt 0 0 args (w\<lparr>mem := ?m\<rparr>) = Some (Inr (Some (of_nat k), w1))"
      "mem w1 = ?m" "sent (os w1) = sent (os w) @ peek (mem w) fmt k"
    using printf_loop_text [of K fdes sent "w\<lparr>mem := ?m\<rparr>" ?out fmt k frame args] assms(1,9) l c n37 pk by auto
  let ?u = "w1\<lparr>mem := poke (mem w1) ?t (le_bytes 4 CIA_MUTEX_FREE)\<rparr>"
  obtain r w2 where u: "syscall K SYS_futex [?t, FUTEX_WAKE_PRIVATE, 1, 0, 0, 0] ?u = (r, w2)"
    by (metis surj_pair)
  then have "sent (os w2) = sent (os ?u)" using assms(6) by (metis snd_conv)
  moreover have "mapped (mem w1) ?t 4" using mt by (simp add: w1(2))
  then have "cia_mutex_unlock K ?t w1 = Inr w2"
    by (simp add: cia_mutex_unlock_def rt_sync_wake_one_def rt_sync_wake_def store32_mapped u)
  moreover have "ucast (of_nat k :: i64) = (of_nat k :: i32)" using assms(9) by (intro ucast_small) simp
  ultimately show ?thesis
    using w1(1,3) mutex_lock_poke [OF assms(3), of K] by (simp add: printf_def)
qed

section \<open>Witnesses\<close>

text \<open>A kernel that collects what is written, and a world with a stream of zeros at 0x100, a frame at
  0x200 and a format at 0x300.\<close>

definition console_kernel :: "u8 list kernel" where
  "console_kernel n args w =
     (if n = SYS_write then (args ! 2, w\<lparr>os := os w @ peek (mem w) (args ! 1) (unat (args ! 2))\<rparr>) else (0, w))"

lemma console_takes_all: "takes_all console_kernel fd (\<lambda>s. s)"
  unfolding takes_all_def
proof (intro allI impI)
  fix n buf and w :: "u8 list world"
  assume n: "n < 2 ^ 31" "mapped (mem w) buf n"
  then have "unat (of_nat n :: u64) = n" "ucast (of_nat n :: u64) = (of_nat n :: i32)"
    by (simp_all add: unat_of_nat_u64 ucast_small)
  then show "\<exists>w'. sys_write console_kernel fd buf (of_nat n) w = (of_nat n, w') \<and> mem w' = mem w
      \<and> os w' = os w @ peek (mem w) buf n"
    by (simp add: sys_write_def syscall_def console_kernel_def)
qed

lemma console_quiet: "quiet_futex console_kernel"
  "\<forall>args w. os (snd (syscall console_kernel SYS_futex args w)) = os w"
  by (simp_all add: quiet_futex_def syscall_def console_kernel_def sys_consts)

definition fmt_world :: "u8 list \<Rightarrow> u8 list world" where
  "fmt_world text = \<lparr>mem = poke (\<lambda>x. if in_range x 0x100 32 \<or> in_range x 0x200 20 then Some 0 else None) 0x300 text,
     os = []\<rparr>"

lemma fmt_world_reads:
  assumes "length text \<le> 16"
  shows "load64 (mem (fmt_world text)) 0x100 = Inr 0"
    and "load32 (mem (fmt_world text)) (file_mutex 0x100) = Inr CIA_MUTEX_FREE"
    and "mapped (mem (fmt_world text)) 0x200 20"
    and "\<And>i. i < length text \<Longrightarrow> mem (fmt_world text) (0x300 + of_nat i) = Some (text ! i)"
proof -
  let ?m = "\<lambda>x. if in_range x 0x100 32 \<or> in_range x 0x200 20 then Some (0 :: u8) else None"
  have d: "disj_range 0x300 (length text) 0x100 32" "disj_range 0x300 (length text) 0x200 20"
    using assms by (auto intro!: disj_range_sym [OF disj_rangeI_le])
  have keep: "mem (fmt_world text) x = Some 0" if "in_range x 0x100 32 \<or> in_range x 0x200 20" for x
    using that poke_disj [OF d(1), of x ?m] poke_disj [OF d(2), of x ?m] by (auto simp: fmt_world_def)
  have m: "mapped (mem (fmt_world text)) 0x100 32" by (simp add: mapped_def keep)
  show "mapped (mem (fmt_world text)) 0x200 20" by (simp add: mapped_def keep)
  have z: "peek (mem (fmt_world text)) (0x100 + of_nat off) n = replicate n 0" if "off + n \<le> 32" for off n
  proof (rule nth_equalityI)
    fix i assume i: "i < length (peek (mem (fmt_world text)) (0x100 + of_nat off) n)"
    then have "in_range (0x100 + of_nat (off + i)) 0x100 32" using that by (intro in_range_offset) simp_all
    then show "peek (mem (fmt_world text)) (0x100 + of_nat off) n ! i = replicate n 0 ! i"
      using i keep by (simp add: nth_peek add.assoc)
  qed simp
  have m8: "mapped (mem (fmt_world text)) 0x100 8" using m by (rule mapped_mono) simp
  have m4: "mapped (mem (fmt_world text)) (file_mutex 0x100) 4"
    using mapped_sub [OF m, of 16 4] by (simp add: file_mutex_def)
  show "load64 (mem (fmt_world text)) 0x100 = Inr 0"
    using z [of 0 8] m8 by (simp add: load64_mapped le_word_zeros)
  show "load32 (mem (fmt_world text)) (file_mutex 0x100) = Inr CIA_MUTEX_FREE"
    using z [of 16 4] m4 by (simp add: load32_mapped le_word_zeros mutex_consts file_mutex_def)
  fix i assume i: "i < length text"
  then have "unat (of_nat i :: addr) = i" using assms by (intro unat_of_nat_u64) simp
  with i show "mem (fmt_world text) (0x300 + of_nat i) = Some (text ! i)"
    by (simp add: fmt_world_def poke_def in_range_def)
qed

theorem print_uint_digits_witness:
  "\<exists>w'. print_uint console_kernel 0x100 0x200 42 (fmt_world []) = Inr (3, w') \<and> os w' = [52, 50, 0]"
proof -
  have "dec_digits 42 = [52, 50]" by (simp add: dec_digits.simps)
  moreover have "disj_range 0x200 20 0x100 8" by (intro disj_range_sym [OF disj_rangeI_le]) simp_all
  ultimately show ?thesis
    using print_uint_digits [OF console_takes_all fmt_world_reads(1,3), of "[]" 42]
    by (simp add: fmt_world_def)
qed

definition fmt_stdio :: "u8 list stdio" where
  "fmt_stdio = \<lparr>io_stdin = 0, io_stdout = 0x100, io_stderr = 0, file_pool = file_pool_at console_kernel 0 0,
     g_pool_mutex = 0, io_handles = static_handles\<rparr>"

theorem printf_text_witness:
  "\<exists>w'. printf console_kernel fmt_stdio 0x200 0x300 [] (fmt_world [104, 105, 0]) = Inr (2, w')
     \<and> os w' = [104, 105]"
proof -
  let ?w = "fmt_world [104, 105, 0]"
  have m: "mem ?w 0x300 = Some 104" "mem ?w 0x301 = Some 105" "mem ?w 0x302 = Some 0"
    using fmt_world_reads(4) [of "[104, 105, 0]" 0] fmt_world_reads(4) [of "[104, 105, 0]" 1]
      fmt_world_reads(4) [of "[104, 105, 0]" 2] by simp_all
  have "mapped (mem ?w) 0x300 3"
    unfolding fmt_world_def world.simps by (rule mapped_poke_self) simp
  then have c: "c_string (mem ?w) 0x300 2" by (simp add: c_string_def all_less_2 m)
  have n: "\<forall>i<2. mem ?w (0x300 + of_nat i) \<noteq> Some 37" by (simp add: all_less_2 m)
  have d: "disj_range (file_mutex 0x100) 4 0x300 (Suc 2)"
    by (intro disj_rangeI_le) (simp_all add: file_mutex_def)
  have p: "peek (mem ?w) 0x300 2 = [104, 105]" by (simp add: numeral_2_eq_2 peek_snoc) (simp add: peek_def m)
  have o: "io_stdout fmt_stdio = 0x100" by (simp add: fmt_stdio_def)
  have "\<exists>w'. printf console_kernel fmt_stdio 0x200 0x300 [] ?w = Inr (of_nat 2, w')
      \<and> os w' = os ?w @ peek (mem ?w) 0x300 2"
    by (rule printf_text [OF console_takes_all _ _ _ console_quiet c n])
      (use fmt_world_reads(1,2) [of "[104, 105, 0]"] d in \<open>simp_all add: o\<close>)
  moreover have "os ?w = []" by (simp add: fmt_world_def)
  ultimately show ?thesis by (simp add: p)
qed

end
