(* ===== verification/Printf_Correct.thy ===== *)
theory Printf_Correct
  imports Fmt
begin

text \<open>
  \<open>printf\<close> against a description of its output: a format is a sequence of texts and conversions, every
  conversion turns one argument into bytes, and \<open>printf\<close> writes the texts and these bytes in order.
\<close>

section \<open>The frame of printf\<close>

text \<open>The buffer of the printers and the local \<open>ch\<close> lie in 28 bytes at \<open>frame\<close>; nothing else is written while
  the stream is locked.\<close>

definition only_frame :: "addr \<Rightarrow> mem \<Rightarrow> mem \<Rightarrow> bool" where
  "only_frame frame m m' \<longleftrightarrow> mapped m' frame 28 \<and> (\<forall>x. \<not> in_range x frame 28 \<longrightarrow> m' x = m x)"

definition console :: "'k kernel \<Rightarrow> ('k \<Rightarrow> u8 list) \<Rightarrow> u64 \<Rightarrow> addr \<Rightarrow> addr \<Rightarrow> mem \<Rightarrow> bool" where
  "console K sent fdes out frame m \<longleftrightarrow>
     takes_all K (ucast fdes) sent \<and> load64 m out = Inr fdes \<and> mapped m frame 28
     \<and> disj_range frame 28 out 8 \<and> unat frame + 28 \<le> 2 ^ 64"

lemma only_frame_trans: "only_frame frame m m' \<Longrightarrow> only_frame frame m' m'' \<Longrightarrow> only_frame frame m m''"
  by (simp add: only_frame_def)

lemma only_frame_refl: "mapped m frame 28 \<Longrightarrow> only_frame frame m m"
  by (simp add: only_frame_def)

lemma only_frame_at: "only_frame frame m m' \<Longrightarrow> \<not> in_range x frame 28 \<Longrightarrow> m' x = m x"
  by (simp add: only_frame_def)

lemma only_frame_console:
  assumes "console K sent fdes out frame m" "only_frame frame m m'"
  shows "console K sent fdes out frame m'"
proof -
  have "load64 m' out = load64 m out"
    by (rule load64_cong) (use assms in \<open>auto simp: console_def only_frame_def disj_range_def\<close>)
  with assms show ?thesis by (simp add: console_def only_frame_def)
qed

lemma only_frame_poke:
  assumes "mapped m frame 28" "off + length bs \<le> 28" "unat frame + 28 \<le> 2 ^ 64"
  shows "mapped m (frame + of_nat off) (length bs)" "only_frame frame m (poke m (frame + of_nat off) bs)"
proof -
  show m: "mapped m (frame + of_nat off) (length bs)" using assms by (intro mapped_sub)
  have "in_range x frame 28" if "in_range x (frame + of_nat off) (length bs)" for x
    using range_sub [OF that assms(2,3)] .
  with m assms(1) show "only_frame frame m (poke m (frame + of_nat off) bs)"
    by (auto simp: only_frame_def intro: poke_out)
qed

text \<open>What the printers share: the digits stand at the end of the buffer and are written to the stream.\<close>

lemma buffer_print:
  assumes "console K sent fdes out frame (mem w)" "i + length bs = 20"
  obtains w' where
    "print_bytes K out (of_nat (20 - i)) (frame + of_nat i) (w\<lparr>mem := poke (mem w) (frame + of_nat i) bs\<rparr>)
       = Inr (of_nat (length bs), w')"
    "only_frame frame (mem w) (mem w')" "sent (os w') = sent (os w) @ bs"
proof -
  let ?m = "poke (mem w) (frame + of_nat i) bs"
  have c: "takes_all K (ucast fdes) sent" "mapped (mem w) frame 28" "unat frame + 28 \<le> 2 ^ 64"
    using assms(1) by (simp_all add: console_def)
  have o: "mapped (mem w) (frame + of_nat i) (length bs)" "only_frame frame (mem w) ?m"
    using only_frame_poke [OF c(2) _ c(3), of i bs] assms(2) by simp_all
  have l: "load64 ?m out = Inr fdes"
    using only_frame_console [OF assms(1) o(2)] by (simp add: console_def)
  have s: "20 - i = length bs" "length bs < 2 ^ 31" using assms(2) by simp_all
  have pk: "peek ?m (frame + of_nat i) (length bs) = bs" using s by (intro peek_poke_same) simp
  obtain w' where "print_bytes K out (of_nat (length bs)) (frame + of_nat i) (w\<lparr>mem := ?m\<rparr>) = Inr (of_nat (length bs), w')"
      "mem w' = ?m" "sent (os w') = sent (os w) @ bs"
    using print_bytes_all [of K fdes sent "w\<lparr>mem := ?m\<rparr>" out "length bs" "frame + of_nat i"] c(1) l o(1) s pk by auto
  with that o(2) s(1) show thesis by simp
qed

section \<open>The printers\<close>

lemma init_buf_poke:
  assumes "mapped m frame 28"
  shows "init_buf frame m = Inr (m(frame + of_nat 19 \<mapsto> 0))" "mapped (m(frame + of_nat 19 \<mapsto> 0)) frame 20"
proof -
  have n: "m (frame + of_nat 19) \<noteq> None" by (rule mapped_offsetD [OF assms]) simp_all
  then show "init_buf frame m = Inr (m(frame + of_nat 19 \<mapsto> 0))" by (auto simp: init_buf_def store8_def buf_size_def)
  show "mapped (m(frame + of_nat 19 \<mapsto> 0)) frame 20" using n mapped_mono [OF assms, of 20] by simp
qed

lemma poke_before:
  assumes "i = k + length bs" "length bs < 2 ^ 64"
  shows "poke (m(frame + of_nat i \<mapsto> b)) (frame + of_nat k) bs = poke m (frame + of_nat k) (bs @ [b])"
  using poke_snoc_first [OF assms(2), of m "frame + of_nat k" b] by (simp only: assms(1) of_nat_add add.assoc)

lemma push_char_front:
  assumes "mapped m frame 20" "Suc k + length bs \<le> 20"
  shows "push_char frame (Suc k) c (poke m (frame + of_nat (Suc k)) bs) = Inr (k, poke m (frame + of_nat k) (c # bs))"
proof -
  have a: "frame + of_nat (Suc k) = frame + of_nat k + 1" by (simp add: add.assoc)
  have l: "length bs < 2 ^ 64" using assms(2) by simp
  have n: "m (frame + of_nat k) \<noteq> None" using assms mapped_offsetD [OF assms(1), of k] by simp
  have "poke m (frame + of_nat k + 1) bs (frame + of_nat k) = m (frame + of_nat k)"
  proof -
    have "unat (- 1 :: u64) = 2 ^ 64 - 1" by (simp add: unsigned_minus_1_eq_mask mask_eq_exp_minus_1)
    with l show ?thesis by (simp add: poke_def in_range_def)
  qed
  moreover have "(poke m (frame + of_nat k + 1) bs)(frame + of_nat k \<mapsto> c) = poke m (frame + of_nat k) (c # bs)"
  proof -
    have "\<not> in_range (frame + of_nat k) (frame + of_nat k + 1) (length bs)"
    proof -
      have "unat (- 1 :: u64) = 2 ^ 64 - 1" by (simp add: unsigned_minus_1_eq_mask mask_eq_exp_minus_1)
      with l show ?thesis by (simp add: in_range_def)
    qed
    then have "(poke m (frame + of_nat k + 1) bs)(frame + of_nat k \<mapsto> c) = poke (m(frame + of_nat k \<mapsto> c)) (frame + of_nat k + 1) bs"
      by (auto simp: poke_def)
    with l show ?thesis by (simp only: poke_Cons)
  qed
  ultimately show ?thesis using n unfolding a by (auto simp: push_char_def store8_def)
qed

definition hex_digits :: "u64 \<Rightarrow> u8 list" where
  "hex_digits n = map (\<lambda>k. hex_digit (drop_bit (4 * k) n AND 0x0f)) (rev [0..<16])"

lemma hex_loop_writes:
  assumes "mapped m frame 20" "k \<le> 16" "16 - k \<le> i" "i \<le> 20"
  shows "hex_loop frame number k i m = Inr (i - (16 - k),
    poke m (frame + of_nat (i - (16 - k))) (map (\<lambda>k. hex_digit (drop_bit (4 * k) number AND 0x0f)) (rev [k..<16])))"
  using assms
proof (induction frame number k i m rule: hex_loop.induct)
  case (1 frame number k i m)
  let ?d = "\<lambda>k. hex_digit (drop_bit (4 * k) number AND 0x0f)"
  show ?case
  proof (cases "k = 16")
    case True
    then show ?thesis by (subst hex_loop.simps) simp
  next
    case False
    then have k: "k < 16" "4 * k < 64" and i: "0 < i" using "1.prems" by simp_all
    define m1 where "m1 = m(frame + of_nat (i - 1) \<mapsto> ?d k)"
    have n: "m (frame + of_nat (i - 1)) \<noteq> None"
      by (rule mapped_offsetD [OF "1.prems"(1)]) (use i "1.prems"(4) in simp_all)
    have push: "push_char frame i (?d k) m = Inr (i - 1, m1)"
      using i n by (auto simp: push_char_def store8_def m1_def)
    have m: "mapped m1 frame 20" unfolding m1_def using "1.prems"(1) n by simp
    have s: "i - 1 - (16 - Suc k) = i - (16 - k)" using k(1) by simp
    have e: "i - 1 = (i - (16 - k)) + length (map ?d (rev [Suc k..<16]))" using k(1) "1.prems"(3) by simp
    have "hex_loop frame number (Suc k) (i - 1) m1 = Inr (i - (16 - k), poke m1 (frame + of_nat (i - (16 - k))) (map ?d (rev [Suc k..<16])))"
      using "1.IH" [OF k(2) push refl m] k(1) "1.prems"(3,4) s by simp
    moreover have "poke m1 (frame + of_nat (i - (16 - k))) (map ?d (rev [Suc k..<16]))
        = poke m (frame + of_nat (i - (16 - k))) (map ?d (rev [k..<16]))"
      unfolding m1_def using poke_before [OF e, of m frame "?d k"] k(1) by (simp add: upt_conv_Cons)
    ultimately show ?thesis using k(2) by (subst hex_loop.simps) (simp add: push)
  qed
qed

text \<open>The three number printers, with the zero byte that they write after the digits.\<close>

lemma print_uint_writes:
  assumes "console K sent fdes out frame (mem w)" "unat number < 10 ^ 19"
  obtains w' where "print_uint K out frame number w = Inr (of_nat (Suc (length (dec_digits (unat number)))), w')"
    "only_frame frame (mem w) (mem w')" "sent (os w') = sent (os w) @ dec_digits (unat number) @ [0]"
proof -
  let ?ds = "dec_digits (unat number)" and ?m = "(mem w)(frame + of_nat 19 \<mapsto> 0)"
  have len: "length ?ds \<le> 19" using dec_digits_length [of 19 "unat number"] assms(2) by simp
  have i: "init_buf frame (mem w) = Inr ?m" "mapped ?m frame 20"
    using assms(1) init_buf_poke [of "mem w" frame] by (simp_all add: console_def)
  have e: "19 = (19 - length ?ds) + length ?ds" using len by simp
  have "digits_loop frame 19 number ?m = Inr (19 - length ?ds, poke (mem w) (frame + of_nat (19 - length ?ds)) (?ds @ [0]))"
    using digits_loop_writes [OF i(2) _ len] poke_before [OF e, of "mem w" frame 0] len by simp
  then have p: "print_uint K out frame number w = print_bytes K out (of_nat (20 - (19 - length ?ds))) (frame + of_nat (19 - length ?ds))
      (w\<lparr>mem := poke (mem w) (frame + of_nat (19 - length ?ds)) (?ds @ [0])\<rparr>)"
    using i(1) by (simp add: print_uint_def buf_size_def)
  have "19 - length ?ds + length (?ds @ [0]) = 20" using len by simp
  from buffer_print [OF assms(1) this] p that show thesis by (metis length_append_singleton)
qed

definition int_text :: "int \<Rightarrow> u8 list" where
  "int_text n = (if n < 0 then 45 # dec_digits (nat (- n)) else dec_digits (nat n))"

lemma unat_sint_nonneg:
  assumes "\<not> number <s (0 :: i64)"
  shows "unat number = nat (sint number)"
proof -
  have s: "0 \<le> sint number" "sint number < 2 ^ 63"
    using assms sint_bounds_i64 [of number] by (simp_all add: word_sless_alt)
  have "uint (word_of_int i :: i64) = i" if "0 \<le> i" "i < 2 ^ 63" for i
    using that by (simp add: uint_word_of_int)
  from this [OF s] have "uint number = sint number" by simp
  then show ?thesis by (simp add: unat_eq_nat_uint)
qed

lemma negate_i64:
  assumes "number <s 0" "- (10 ^ 18) < sint (number :: i64)"
  shows "sub_i64 0 number = Inr (- number)" "unat (- number) = nat (- sint number)"
proof -
  have n: "sint number < 0" using assms(1) by (simp add: word_sless_alt)
  then show "sub_i64 0 number = Inr (- number)" using assms(2) by (simp add: sub_i64_def)
  have "sint (- number) = - sint number"
    using assms(2) n by (simp add: sint_word_ariths) (intro signed_take_bit_int_eq_self, simp_all)
  moreover from this n have "\<not> (- number) <s 0" by (simp add: word_sless_alt)
  ultimately show "unat (- number) = nat (- sint number)" using unat_sint_nonneg [of "- number"] by simp
qed

lemma print_int_writes:
  assumes "console K sent fdes out frame (mem w)" "- (10 ^ 18) < sint number"
  obtains w' where "print_int K out frame number w = Inr (of_nat (Suc (length (int_text (sint number)))), w')"
    "only_frame frame (mem w) (mem w')" "sent (os w') = sent (os w) @ int_text (sint number) @ [0]"
proof -
  let ?m = "(mem w)(frame + of_nat 19 \<mapsto> 0)"
  have i: "init_buf frame (mem w) = Inr ?m" "mapped ?m frame 20" and m20: "mapped (mem w) frame 20"
    using assms(1) init_buf_poke [of "mem w" frame] by (auto simp: console_def elim: mapped_mono)
  have digits: "digits_loop frame 19 v ?m = Inr (19 - length (dec_digits (unat v)),
      poke (mem w) (frame + of_nat (19 - length (dec_digits (unat v)))) (dec_digits (unat v) @ [0]))"
    if "length (dec_digits (unat v)) \<le> 19" for v
  proof -
    have e: "19 = (19 - length (dec_digits (unat v))) + length (dec_digits (unat v))" using that by simp
    show ?thesis using digits_loop_writes [OF i(2) _ that] poke_before [OF e, of "mem w" frame 0] that by simp
  qed
  show thesis
  proof (cases "number <s 0")
    case False
    let ?ds = "dec_digits (unat number)"
    have "nat (sint number) < 10 ^ 19" using sint_bounds_i64 [of number] by simp
    then have len: "length ?ds \<le> 19"
      using dec_digits_length [of 19 "unat number"] unat_sint_nonneg [OF False] by simp
    have t: "int_text (sint number) = ?ds"
      using False unat_sint_nonneg [OF False] by (simp add: int_text_def word_sless_alt)
    have p: "print_int K out frame number w = print_bytes K out (of_nat (20 - (19 - length ?ds)))
        (frame + of_nat (19 - length ?ds)) (w\<lparr>mem := poke (mem w) (frame + of_nat (19 - length ?ds)) (?ds @ [0])\<rparr>)"
      using False i(1) digits [OF len] by (simp add: print_int_def buf_size_def)
    have "19 - length ?ds + length (?ds @ [0]) = 20" using len by simp
    from buffer_print [OF assms(1) this] p that show thesis unfolding t by (metis length_append_singleton)
  next
    case True
    let ?v = "- number"
    let ?ds = "dec_digits (unat ?v)"
    have n: "sub_i64 0 number = Inr ?v" "unat ?v = nat (- sint number)" using negate_i64 [OF True assms(2)] by simp_all
    have "nat (- sint number) < 10 ^ 18" using assms(2) by simp
    then have len: "length ?ds \<le> 18" using dec_digits_length [of 18 "unat ?v"] n(2) by simp
    have t: "int_text (sint number) = 45 # ?ds" using True n(2) by (simp add: int_text_def word_sless_alt)
    obtain k where k: "19 - length ?ds = Suc k" using len by (metis Suc_diff_le diff_Suc_Suc numeral_nat(7) eval_nat_numeral(3))
    have p1: "push_char frame (Suc k) 45 (poke (mem w) (frame + of_nat (Suc k)) (?ds @ [0]))
        = Inr (k, poke (mem w) (frame + of_nat k) (45 # ?ds @ [0]))"
      by (rule push_char_front [OF m20]) (use k len in simp)
    have p: "print_int K out frame number w = print_bytes K out (of_nat (20 - k)) (frame + of_nat k)
        (w\<lparr>mem := poke (mem w) (frame + of_nat k) (45 # ?ds @ [0])\<rparr>)"
      using True i(1) n(1) digits [of ?v] len k p1 by (simp add: print_int_def buf_size_def del: of_nat_Suc)
    have "k + length (45 # ?ds @ [0]) = 20" using k len by simp
    from buffer_print [OF assms(1) this] p that show thesis
      unfolding t by (metis append_Cons length_Cons length_append_singleton)
  qed
qed

lemma print_hex_writes:
  assumes "console K sent fdes out frame (mem w)"
  obtains w' where "print_hex K out frame number w = Inr (19, w')"
    "only_frame frame (mem w) (mem w')" "sent (os w') = sent (os w) @ [48, 120] @ hex_digits number @ [0]"
proof -
  let ?m = "(mem w)(frame + of_nat 19 \<mapsto> 0)"
  have i: "init_buf frame (mem w) = Inr ?m" "mapped ?m frame 20" and m20: "mapped (mem w) frame 20"
    using assms(1) init_buf_poke [of "mem w" frame] by (auto simp: console_def elim: mapped_mono)
  have len: "length (hex_digits number) = 16" by (simp add: hex_digits_def)
  have h: "hex_loop frame number 0 19 ?m = Inr (3, poke (mem w) (frame + of_nat 3) (hex_digits number @ [0]))"
    using hex_loop_writes [OF i(2), of 0 19 number] poke_before [of 19 3 "hex_digits number" "mem w" frame 0] len
    by (simp add: hex_digits_def)
  have x: "push_char frame 3 120 (poke (mem w) (frame + of_nat 3) (hex_digits number @ [0]))
      = Inr (2, poke (mem w) (frame + of_nat 2) (120 # hex_digits number @ [0]))"
    using push_char_front [OF m20, of 2 "hex_digits number @ [0]" 120] len by (simp add: numeral_3_eq_3)
  have z: "push_char frame 2 48 (poke (mem w) (frame + of_nat 2) (120 # hex_digits number @ [0]))
      = Inr (1, poke (mem w) (frame + of_nat 1) (48 # 120 # hex_digits number @ [0]))"
    using push_char_front [OF m20, of 1 "120 # hex_digits number @ [0]" 48] len by (simp add: numeral_2_eq_2)
  have p: "print_hex K out frame number w = print_bytes K out (of_nat (20 - 1)) (frame + of_nat 1)
      (w\<lparr>mem := poke (mem w) (frame + of_nat 1) (48 # 120 # hex_digits number @ [0])\<rparr>)"
    using i(1) h x z by (simp add: print_hex_def buf_size_def)
  have "1 + length (48 # 120 # hex_digits number @ [0]) = 20" using len by simp
  from buffer_print [OF assms this] obtain w' where
    "print_bytes K out (of_nat (20 - 1)) (frame + of_nat 1)
      (w\<lparr>mem := poke (mem w) (frame + of_nat 1) (48 # 120 # hex_digits number @ [0])\<rparr>) = Inr (of_nat 19, w')"
    "only_frame frame (mem w) (mem w')" "sent (os w') = sent (os w) @ 48 # 120 # hex_digits number @ [0]"
    using len by auto
  with p that show thesis by simp
qed

lemma str_len_loop_string:
  assumes "c_string m str k" "k < 2 ^ 31" "i \<le> k"
  shows "str_len_loop m str (of_nat i) = Some (Inr (of_nat k))"
  using assms(3)
proof (induction i rule: inc_induct)
  case base
  show ?case using assms(1,2) by (subst str_len_loop.simps) (simp add: c_string_def load8_def scast_small)
next
  case (step i)
  obtain c where c: "m (str + of_nat i) = Some c" "c \<noteq> 0"
    using assms(1,2) step(2) mapped_offsetD [of m str "Suc k" i] by (auto simp: c_string_def)
  have "inc_i32 (of_nat i) = Inr (of_nat (Suc i))"
    using sint_small_i32 [of i] step(2) assms(2) by (simp add: inc_i32_def add.commute)
  with step c assms(2) show ?case by (subst str_len_loop.simps) (simp add: load8_def scast_small del: of_nat_Suc)
qed

lemma print_string_writes:
  assumes "console K sent fdes out frame (mem w)" "c_string (mem w) str k" "k < 2 ^ 31"
  obtains w' where "print_string K out str w = Inr (of_nat k, w')"
    "mem w' = mem w" "sent (os w') = sent (os w) @ peek (mem w) str k"
proof -
  have "mapped (mem w) str k" using assms(2) by (auto simp: c_string_def elim: mapped_mono)
  moreover have "print_string K out str w = print_bytes K out (of_nat k) str w"
    using str_len_loop_string [OF assms(2,3), of 0] by (simp add: print_string_def)
  ultimately show thesis
    using print_bytes_all [of K fdes sent w out k str] assms(1,3) that by (auto simp: console_def)
qed

section \<open>Formats and their output\<close>

datatype size_mod = No_Mod | Mod_I32 | Mod_I64

datatype conv = Conv_d size_mod | Conv_u size_mod | Conv_p | Conv_s | Conv_c

fun mod_bytes :: "size_mod \<Rightarrow> u8 list" where
  "mod_bytes No_Mod = []"
| "mod_bytes Mod_I32 = [73, 51, 50]"
| "mod_bytes Mod_I64 = [73, 54, 52]"

fun mod_size :: "size_mod \<Rightarrow> nat" where
  "mod_size No_Mod = 32" | "mod_size Mod_I32 = 32" | "mod_size Mod_I64 = 64"

fun conv_mod :: "conv \<Rightarrow> size_mod" where
  "conv_mod (Conv_d s) = s" | "conv_mod (Conv_u s) = s" | "conv_mod Conv_p = No_Mod"
| "conv_mod Conv_s = No_Mod" | "conv_mod Conv_c = No_Mod"

fun conv_char :: "conv \<Rightarrow> u8" where
  "conv_char (Conv_d s) = 100" | "conv_char (Conv_u s) = 117" | "conv_char Conv_p = 112"
| "conv_char Conv_s = 115" | "conv_char Conv_c = 99"

definition conv_format :: "conv \<Rightarrow> u8 list" where
  "conv_format c = 37 # mod_bytes (conv_mod c) @ [conv_char c]"

text \<open>The bytes of a format: texts with conversions between them.\<close>

fun format_bytes :: "(u8 list \<times> conv) list \<Rightarrow> u8 list \<Rightarrow> u8 list" where
  "format_bytes [] end_text = end_text"
| "format_bytes ((t, c) # cs) end_text = t @ conv_format c @ format_bytes cs end_text"

definition plain_text :: "u8 list \<Rightarrow> bool" where
  "plain_text t \<longleftrightarrow> 0 \<notin> set t \<and> 37 \<notin> set t"

text \<open>What a conversion makes of its argument; a string must not lie where \<open>printf\<close> writes (\<open>A\<close>).\<close>

fun conv_output :: "(addr \<Rightarrow> bool) \<Rightarrow> mem \<Rightarrow> conv \<Rightarrow> u64 \<Rightarrow> u8 list \<Rightarrow> bool" where
  "conv_output A m (Conv_d s) a bs \<longleftrightarrow>
     - (10 ^ 18) < sint (int_arg (mod_size s) a) \<and> bs = int_text (sint (int_arg (mod_size s) a)) @ [0]"
| "conv_output A m (Conv_u s) a bs \<longleftrightarrow>
     unat (uint_arg (mod_size s) a) < 10 ^ 19 \<and> bs = dec_digits (unat (uint_arg (mod_size s) a)) @ [0]"
| "conv_output A m Conv_p a bs \<longleftrightarrow> bs = [48, 120] @ hex_digits a @ [0]"
| "conv_output A m Conv_s a bs \<longleftrightarrow>
     c_string m a (length bs) \<and> (\<forall>i \<le> length bs. \<not> A (a + of_nat i)) \<and> bs = peek m a (length bs)"
| "conv_output A m Conv_c a bs \<longleftrightarrow> bs = [ucast a]"

fun format_output :: "(addr \<Rightarrow> bool) \<Rightarrow> mem \<Rightarrow> (u8 list \<times> conv) list \<Rightarrow> u8 list \<Rightarrow> u64 list \<Rightarrow> u8 list \<Rightarrow> bool" where
  "format_output A m [] end_text args bs \<longleftrightarrow> bs = end_text"
| "format_output A m ((t, c) # cs) end_text [] bs \<longleftrightarrow> False"
| "format_output A m ((t, c) # cs) end_text (a # as) bs \<longleftrightarrow>
     (\<exists>xs ys. conv_output A m c a xs \<and> format_output A m cs end_text as ys \<and> bs = t @ xs @ ys)"

section \<open>The format in memory\<close>

fun fmt_at :: "mem \<Rightarrow> addr \<Rightarrow> nat \<Rightarrow> u8 list \<Rightarrow> bool" where
  "fmt_at m fmt p [] \<longleftrightarrow> True"
| "fmt_at m fmt p (b # bs) \<longleftrightarrow> m (fmt + of_nat p) = Some b \<and> fmt_at m fmt (Suc p) bs"

lemma fmt_at_append: "fmt_at m fmt p (xs @ ys) \<longleftrightarrow> fmt_at m fmt p xs \<and> fmt_at m fmt (p + length xs) ys"
  by (induction xs arbitrary: p) simp_all

lemma fmt_at_nth: "fmt_at m fmt p bs \<Longrightarrow> i < length bs \<Longrightarrow> m (fmt + of_nat (p + i)) = Some (bs ! i)"
proof (induction bs arbitrary: p i)
  case (Cons b bs)
  then show ?case using Cons.IH [of "Suc p" "i - 1"] by (cases i) simp_all
qed simp

lemma fmt_at_peek:
  assumes "fmt_at m fmt p bs"
  shows "mapped m (fmt + of_nat p) (length bs)" "peek m (fmt + of_nat p) (length bs) = bs"
proof -
  have b: "m (fmt + of_nat p + of_nat i) = Some (bs ! i)" if "i < length bs" for i
    using fmt_at_nth [OF assms that] by (simp add: add.assoc)
  then show "mapped m (fmt + of_nat p) (length bs)" by (intro mapped_by_offset) simp
  show "peek m (fmt + of_nat p) (length bs) = bs" by (rule nth_equalityI) (simp_all add: nth_peek b)
qed

lemma fmt_at_cong:
  "fmt_at m fmt p bs \<Longrightarrow> (\<And>i. i < length bs \<Longrightarrow> m' (fmt + of_nat (p + i)) = m (fmt + of_nat (p + i))) \<Longrightarrow> fmt_at m' fmt p bs"
proof (induction bs arbitrary: p)
  case (Cons b bs)
  have "m' (fmt + of_nat (Suc p + i)) = m (fmt + of_nat (Suc p + i))" if "i < length bs" for i
    using Cons.prems(2) [of "Suc i"] that by (simp del: of_nat_add of_nat_Suc)
  with Cons.IH [of "Suc p"] Cons.prems(1) Cons.prems(2) [of 0] show ?case by (simp del: of_nat_Suc)
qed simp

lemma span_loop_text:
  assumes "fmt_at m fmt p (t @ [s])" "plain_text t" "s = 37 \<or> s = 0" "p + length t < 2 ^ 31"
  shows "span_loop m fmt (of_nat p) (of_nat p) = Some (Inr (of_nat (p + length t), of_nat (p + length t)))"
  using assms
proof (induction t arbitrary: p)
  case Nil
  then show ?case by (subst span_loop.simps) (auto simp: load8_def)
next
  case (Cons b t)
  have "inc_i64 (of_nat p) = Inr (of_nat (Suc p))" by (rule inc_i64_of_nat) (use Cons.prems(4) in simp)
  moreover have "b \<noteq> 37" "b \<noteq> 0" using Cons.prems(2) by (auto simp: plain_text_def)
  ultimately show ?case
    using Cons.IH [of "Suc p"] Cons.prems
    by (subst span_loop.simps) (simp add: load8_def plain_text_def del: of_nat_Suc of_nat_add)
qed

lemma size_modifier_reads:
  assumes "fmt_at m fmt p (mod_bytes sm @ [ch])" "p + length (mod_bytes sm) < 2 ^ 31" "ch \<noteq> 73"
  shows "size_modifier m fmt (of_nat p) = Inr (Some (mod_size sm, of_nat (p + length (mod_bytes sm))))"
proof -
  have a: "add_i64 (of_nat p) 3 = Inr (of_nat (p + 3))" if "p + 3 < 2 ^ 31"
    using that sint_small [of p] by (simp add: add_i64_def)
  show ?thesis
    using assms a by (cases sm) (simp_all add: size_modifier_def load8_def ac_simps)
qed

lemma conv_char_not_I: "conv_char c \<noteq> 73"
  by (cases c) simp_all

section \<open>One conversion\<close>

lemma conversion_writes:
  assumes "console K sent fdes out frame (mem w)" "conv_output A m c a bs" "length bs < 2 ^ 31"
    and "\<And>x. \<not> A x \<Longrightarrow> mem w x = m x"
  obtains w' where
    "conversion K out frame (conv_char c) (mod_size (conv_mod c)) (a # as) w
       = Inr (Some (Some (of_nat (length bs)), as), w')"
    "only_frame frame (mem w) (mem w')" "sent (os w') = sent (os w) @ bs"
proof (cases c)
  case (Conv_d s)
  with assms(2) have b: "- (10 ^ 18) < sint (int_arg (mod_size s) a)"
      "bs = int_text (sint (int_arg (mod_size s) a)) @ [0]" by simp_all
  show thesis
    by (rule print_int_writes [OF assms(1) b(1)]) (rule that, simp_all add: Conv_d b(2) conversion_def va_arg_def)
next
  case (Conv_u s)
  with assms(2) have b: "unat (uint_arg (mod_size s) a) < 10 ^ 19"
      "bs = dec_digits (unat (uint_arg (mod_size s) a)) @ [0]" by simp_all
  show thesis
    by (rule print_uint_writes [OF assms(1) b(1)]) (rule that, simp_all add: Conv_u b(2) conversion_def va_arg_def)
next
  case Conv_p
  with assms(2) have b: "bs = [48, 120] @ hex_digits a @ [0]" by simp
  obtain w' where "print_hex K out frame a w = Inr (19, w')" "only_frame frame (mem w) (mem w')"
      "sent (os w') = sent (os w) @ [48, 120] @ hex_digits a @ [0]"
    by (rule print_hex_writes [OF assms(1)])
  moreover have "length bs = 19" by (simp add: b hex_digits_def)
  ultimately show thesis using that by (simp add: Conv_p b conversion_def va_arg_def)
next
  case Conv_s
  with assms(2) have b: "c_string m a (length bs)" "\<forall>i \<le> length bs. \<not> A (a + of_nat i)"
      "bs = peek m a (length bs)" by simp_all
  have same: "mem w (a + of_nat i) = m (a + of_nat i)" if "i \<le> length bs" for i
    using b(2) assms(4) that by blast
  have "mapped m a (Suc (length bs))" using b(1) by (simp add: c_string_def)
  then have "mapped (mem w) a (Suc (length bs))"
    using mapped_offsetD [of m a "Suc (length bs)"] assms(3) same by (intro mapped_by_offset) simp
  then have s: "c_string (mem w) a (length bs)" using b(1) same by (simp add: c_string_def)
  have p: "peek (mem w) a (length bs) = bs"
    by (subst (2) b(3), rule nth_equalityI) (simp_all add: nth_peek same)
  have f: "only_frame frame (mem w) (mem w)" using assms(1) by (simp add: console_def only_frame_refl)
  show thesis
    by (rule print_string_writes [OF assms(1) s assms(3)]) (rule that, simp_all add: Conv_s p conversion_def va_arg_def f)
next
  case Conv_c
  let ?bs = "le_bytes 4 (ucast a :: u32)"
  let ?m = "poke (mem w) (frame + of_nat 24) ?bs"
  have k: "takes_all K (ucast fdes) sent" "mapped (mem w) frame 28" "unat frame + 28 \<le> 2 ^ 64"
    using assms(1) by (simp_all add: console_def)
  have o: "mapped (mem w) (frame + of_nat 24) 4" "only_frame frame (mem w) ?m"
    using only_frame_poke [OF k(2) _ k(3), of 24 ?bs] by simp_all
  have l: "load64 ?m out = Inr fdes" using only_frame_console [OF assms(1) o(2)] by (simp add: console_def)
  have m1: "mapped ?m (frame + of_nat 24) 1" using o(1) mapped_mono [OF o(1), of 1] by simp
  have "le_bytes 4 (ucast a :: u32) ! 0 = ucast (ucast a :: u32)" by (simp add: numeral_eq_Suc)
  then have "peek ?m (frame + of_nat 24) 1 = [ucast (ucast a :: u32)]"
    by (simp add: peek_def poke_def in_range_def)
  moreover have "ucast (ucast a :: u32) = (ucast a :: u8)" by (rule bit_word_eqI) (auto simp: bit_simps)
  ultimately have p: "peek ?m (frame + of_nat 24) 1 = bs" using assms(2) Conv_c by simp
  have st: "store32 (mem w) (frame + of_nat 24) (ucast a) = Inr ?m" using o(1) by (rule store32_mapped)
  obtain w' where w': "rt_file_write K out (of_nat 1) (frame + of_nat 24) (w\<lparr>mem := ?m\<rparr>) = Inr ((RT_STATUS_OK, Some (of_nat 1)), w')"
      "mem w' = ?m" "sent (os w') = sent (os w) @ bs"
    using rt_file_write_all [of K fdes sent "w\<lparr>mem := ?m\<rparr>" out 1 "frame + of_nat 24"] k(1) l m1 p by auto
  have "length bs = 1" using assms(2) Conv_c by simp
  then have "conversion K out frame (conv_char c) (mod_size (conv_mod c)) (a # as) w = Inr (Some (Some (of_nat (length bs)), as), w')"
    using w'(1) st by (simp add: Conv_c conversion_def va_arg_def lift_mem_def)
  with that w'(2,3) o(2) show thesis by simp
qed

section \<open>The main loop\<close>

text \<open>The part of a turn that writes the text in front of the next conversion.\<close>

lemma printf_text_part:
  assumes "console K sent fdes out frame (mem w)" "fmt_at (mem w) fmt p t" "length t < 2 ^ 31" "n + length t < 2 ^ 31"
  obtains w' where
    "(if of_nat (length t) \<noteq> (0 :: i64)
      then bind_res (rt_file_write K out (of_nat (length t)) (fmt + of_nat p) w) (\<lambda>((status, _), w).
             if status \<noteq> RT_STATUS_OK then Inr (None, w)
             else bind_res (add_i64 (of_nat n) (of_nat (length t))) (\<lambda>p. Inr (Some p, w)))
      else Inr (Some (of_nat n), w)) = Inr (Some (of_nat (n + length t)), w')"
    "mem w' = mem w" "sent (os w') = sent (os w) @ t"
proof (cases "t = []")
  case True
  then show thesis using that [of w] by simp
next
  case False
  have k: "of_nat (length t) \<noteq> (0 :: i64)"
    using False assms(3) unat_of_nat_u64 [of "length t"] by auto
  have a: "add_i64 (of_nat n) (of_nat (length t)) = Inr (of_nat (n + length t))"
    using assms(4) sint_small [of n] sint_small [of "length t"] by (simp add: add_i64_def)
  obtain w' where "rt_file_write K out (of_nat (length t)) (fmt + of_nat p) w = Inr ((RT_STATUS_OK, Some (of_nat (length t))), w')"
      "mem w' = mem w" "sent (os w') = sent (os w) @ peek (mem w) (fmt + of_nat p) (length t)"
    using rt_file_write_all [of K fdes sent w out "length t" "fmt + of_nat p"] fmt_at_peek(1) [OF assms(2)] assms(1,3)
    by (auto simp: console_def)
  with that k a fmt_at_peek(2) [OF assms(2)] show thesis by simp
qed

lemma sub_i64_span: "p + k < 2 ^ 31 \<Longrightarrow> sub_i64 (of_nat (p + k)) (of_nat p) = Inr (of_nat k)"
  using sint_small [of "p + k"] sint_small [of p] by (simp add: sub_i64_def)

text \<open>A turn up to its conversion: the text, the percent sign and the size modifier.\<close>

lemma printf_turn_to_conversion:
  assumes "console K sent fdes out frame (mem w)" "fmt_at (mem w) fmt p (t @ 37 # mod_bytes sm @ [ch])" "plain_text t" "ch \<noteq> 73"
    and "p + length (t @ 37 # mod_bytes sm @ [ch]) < 2 ^ 31" "n + length t < 2 ^ 31"
  obtains w1 where
    "printf_turn K out frame fmt (of_nat p) (of_nat n) args w =
       bind_res (conversion K out frame ch (mod_size sm) args w1) (\<lambda>(conv, w).
         case conv of None \<Rightarrow> Inr (Inl None, w) | Some (chars, args) \<Rightarrow>
         case chars of None \<Rightarrow> Inl (Undefined Uninitialised) | Some arg_chars \<Rightarrow>
           if arg_chars <s 0 then Inr (Inl None, w)
           else bind_res (add_i64 (of_nat (n + length t)) (scast arg_chars)) (\<lambda>printed.
                  Inr (Inr (of_nat (p + length (t @ 37 # mod_bytes sm @ [ch])), printed, args), w)))"
    "mem w1 = mem w" "sent (os w1) = sent (os w) @ t"
proof -
  let ?q = "p + length t" and ?mb = "mod_bytes sm"
  have f: "fmt_at (mem w) fmt p (t @ [37])" "fmt_at (mem w) fmt p t" "fmt_at (mem w) fmt (Suc ?q) (?mb @ [ch])"
      "mem w (fmt + of_nat ?q) = Some 37"
    using assms(2) by (simp_all add: fmt_at_append)
  have cc: "mem w (fmt + of_nat (Suc ?q + length ?mb)) = Some ch"
    using f(3) by (simp add: fmt_at_append)
  have L: "p + length (t @ 37 # ?mb @ [ch]) = Suc (Suc ?q + length ?mb)" by simp
  have z: "(37 :: u8) \<noteq> 0" by simp
  have small: "p \<le> ?q" "?q < 2 ^ 31" "length t < 2 ^ 31"
    using assms(5,6) by simp_all
  have c0: "\<exists>b. mem w (fmt + of_nat p) = Some b \<and> b \<noteq> 0"
    using f(1) assms(3) by (cases t) (auto simp: plain_text_def)
  have sp: "span_loop (mem w) fmt (of_nat p) (of_nat p) = Some (Inr (of_nat ?q, of_nat ?q))"
    using span_loop_text [OF f(1) assms(3)] small(2) by simp
  have sub: "sub_i64 (of_nat ?q) (of_nat p) = Inr (of_nat (length t))" by (rule sub_i64_span [OF small(2)])
  have i1: "inc_i64 (of_nat ?q) = Inr (of_nat (Suc ?q))" by (rule inc_i64_of_nat) (use small(2) in simp)
  have sm: "size_modifier (mem w) fmt (of_nat (Suc ?q)) = Inr (Some (mod_size sm, of_nat (Suc ?q + length ?mb)))"
    by (rule size_modifier_reads [OF f(3)]) (use assms(4,5) in simp_all)
  have i2: "inc_i64 (of_nat (Suc ?q + length ?mb)) = Inr (of_nat (Suc (Suc ?q + length ?mb)))"
    by (rule inc_i64_of_nat) (use assms(5) L in simp)
  obtain w1 where w1: "(if of_nat (length t) \<noteq> (0 :: i64)
      then bind_res (rt_file_write K out (of_nat (length t)) (fmt + of_nat p) w) (\<lambda>((status, _), w).
             if status \<noteq> RT_STATUS_OK then Inr (None, w)
             else bind_res (add_i64 (of_nat n) (of_nat (length t))) (\<lambda>p. Inr (Some p, w)))
      else Inr (Some (of_nat n), w)) = Inr (Some (of_nat (n + length t)), w1)"
      "mem w1 = mem w" "sent (os w1) = sent (os w) @ t"
    by (rule printf_text_part [OF assms(1) f(2) small(3) assms(6)])
  show thesis
    by (rule that [OF _ w1(2,3)], unfold printf_turn_def L, use c0 in
      \<open>auto simp only: load8_def option.case bind_res_simps sp loop_res_simps prod.case sub w1(1,2) f(4) cc i1 sm i2 z if_False\<close>)
qed

lemma printf_turn_conversion:
  assumes "console K sent fdes out frame (mem w)" "fmt_at (mem w) fmt p (t @ conv_format c)" "plain_text t"
    and "p + length (t @ conv_format c) < 2 ^ 31" "conv_output A m c a bs" "\<And>x. \<not> A x \<Longrightarrow> mem w x = m x"
    and "n + length t + length bs < 2 ^ 31"
  obtains w' where
    "printf_turn K out frame fmt (of_nat p) (of_nat n) (a # as) w
       = Inr (Inr (of_nat (p + length (t @ conv_format c)), of_nat (n + length t + length bs), as), w')"
    "only_frame frame (mem w) (mem w')" "sent (os w') = sent (os w) @ t @ bs"
proof -
  have small: "n + length t < 2 ^ 31" "length bs < 2 ^ 31" using assms(7) by simp_all
  obtain w1 where w1: "printf_turn K out frame fmt (of_nat p) (of_nat n) (a # as) w =
       bind_res (conversion K out frame (conv_char c) (mod_size (conv_mod c)) (a # as) w1) (\<lambda>(conv, w).
         case conv of None \<Rightarrow> Inr (Inl None, w) | Some (chars, args) \<Rightarrow>
         case chars of None \<Rightarrow> Inl (Undefined Uninitialised) | Some arg_chars \<Rightarrow>
           if arg_chars <s 0 then Inr (Inl None, w)
           else bind_res (add_i64 (of_nat (n + length t)) (scast arg_chars)) (\<lambda>printed.
                  Inr (Inr (of_nat (p + length (t @ conv_format c)), printed, args), w)))"
    "mem w1 = mem w" "sent (os w1) = sent (os w) @ t"
    unfolding conv_format_def
    by (rule printf_turn_to_conversion [OF assms(1) assms(2) [unfolded conv_format_def] assms(3) conv_char_not_I
        assms(4) [unfolded conv_format_def] small(1)])
  have con: "console K sent fdes out frame (mem w1)" "\<And>x. \<not> A x \<Longrightarrow> mem w1 x = m x"
    using assms(1,6) w1(2) by simp_all
  obtain w2 where w2: "conversion K out frame (conv_char c) (mod_size (conv_mod c)) (a # as) w1 = Inr (Some (Some (of_nat (length bs)), as), w2)"
      "only_frame frame (mem w1) (mem w2)" "sent (os w2) = sent (os w1) @ bs"
    by (rule conversion_writes [OF con(1) assms(5) small(2) con(2)])
  have ad: "add_i64 (of_nat (n + length t)) (scast (of_nat (length bs) :: i32)) = Inr (of_nat (n + length t + length bs))"
    using assms(7) sint_small [of "n + length t"] sint_small [of "length bs"] by (simp add: add_i64_def scast_small)
  have neg: "\<not> (of_nat (length bs) :: i32) <s 0"
    using sint_small_i32 [of "length bs"] small(2) by (simp add: word_sless_alt)
  show thesis
    by (rule that [of w2]) (use w1 w2 ad neg in \<open>simp_all del: of_nat_add\<close>)
qed

text \<open>A conversion that sets no \<open>arg_chars\<close>: the hexadecimal one, and every character that is none.\<close>

definition sets_no_chars :: "u8 \<Rightarrow> u64 list \<Rightarrow> bool" where
  "sets_no_chars ch args \<longleftrightarrow> (if ch = 120 then args \<noteq> [] else ch \<notin> {73, 100, 117, 112, 115, 99})"

lemma printf_turn_undefined:
  assumes "console K sent fdes out frame (mem w)" "fmt_at (mem w) fmt p (t @ 37 # mod_bytes sm @ [ch])" "plain_text t"
    and "p + length (t @ 37 # mod_bytes sm @ [ch]) < 2 ^ 31" "n + length t < 2 ^ 31" "sets_no_chars ch args"
  shows "printf_turn K out frame fmt (of_nat p) (of_nat n) args w = Inl (Undefined Uninitialised)"
proof -
  have ch: "ch \<noteq> 73" using assms(6) by (auto simp: sets_no_chars_def split: if_splits)
  obtain w1 where w1: "printf_turn K out frame fmt (of_nat p) (of_nat n) args w =
       bind_res (conversion K out frame ch (mod_size sm) args w1) (\<lambda>(conv, w).
         case conv of None \<Rightarrow> Inr (Inl None, w) | Some (chars, args) \<Rightarrow>
         case chars of None \<Rightarrow> Inl (Undefined Uninitialised) | Some arg_chars \<Rightarrow>
           if arg_chars <s 0 then Inr (Inl None, w)
           else bind_res (add_i64 (of_nat (n + length t)) (scast arg_chars)) (\<lambda>printed.
                  Inr (Inr (of_nat (p + length (t @ 37 # mod_bytes sm @ [ch])), printed, args), w)))"
    "mem w1 = mem w"
    by (rule printf_turn_to_conversion [OF assms(1-3) ch assms(4,5)])
  have con: "console K sent fdes out frame (mem w1)" using assms(1) w1(2) by simp
  have "\<exists>as w2. conversion K out frame ch (mod_size sm) args w1 = Inr (Some (None, as), w2)"
  proof (cases "ch = 120")
    case True
    then obtain a as where "args = a # as" using assms(6) by (cases args) (auto simp: sets_no_chars_def)
    moreover obtain w2 where "print_hex K out frame (uint_arg (mod_size sm) a) w1 = Inr (19, w2)"
      by (rule print_hex_writes [OF con])
    ultimately show ?thesis using True by (simp add: conversion_def va_arg_def)
  qed (use assms(6) in \<open>auto simp: sets_no_chars_def conversion_def\<close>)
  then show ?thesis using w1(1) by auto
qed

lemma printf_turn_end:
  assumes "console K sent fdes out frame (mem w)" "fmt_at (mem w) fmt p (t @ [0])" "plain_text t"
    and "p + length t < 2 ^ 31" "n + length t < 2 ^ 31"
  obtains w' where
    "printf_turn K out frame fmt (of_nat p) (of_nat n) args w = Inr (Inl (Some (of_nat (n + length t))), w')"
    "mem w' = mem w" "sent (os w') = sent (os w) @ t"
proof (cases "t = []")
  case True
  with assms(2) have "printf_turn K out frame fmt (of_nat p) (of_nat n) args w = Inr (Inl (Some (of_nat n)), w)"
    by (simp add: printf_turn_def load8_def)
  with that True show thesis by simp
next
  case False
  let ?q = "p + length t"
  have f: "fmt_at (mem w) fmt p t" "mem w (fmt + of_nat ?q) = Some 0" using assms(2) by (simp_all add: fmt_at_append)
  have c0: "\<exists>b. mem w (fmt + of_nat p) = Some b \<and> b \<noteq> 0"
    using f(1) assms(3) False by (cases t) (auto simp: plain_text_def)
  have sp: "span_loop (mem w) fmt (of_nat p) (of_nat p) = Some (Inr (of_nat ?q, of_nat ?q))"
    using span_loop_text [OF assms(2,3)] assms(4) by simp
  have sub: "sub_i64 (of_nat ?q) (of_nat p) = Inr (of_nat (length t))" by (rule sub_i64_span [OF assms(4)])
  have small: "length t < 2 ^ 31" using assms(4) by simp
  obtain w1 where w1: "(if of_nat (length t) \<noteq> (0 :: i64)
      then bind_res (rt_file_write K out (of_nat (length t)) (fmt + of_nat p) w) (\<lambda>((status, _), w).
             if status \<noteq> RT_STATUS_OK then Inr (None, w)
             else bind_res (add_i64 (of_nat n) (of_nat (length t))) (\<lambda>p. Inr (Some p, w)))
      else Inr (Some (of_nat n), w)) = Inr (Some (of_nat (n + length t)), w1)"
      "mem w1 = mem w" "sent (os w1) = sent (os w) @ t"
    by (rule printf_text_part [OF assms(1) f(1) small assms(5)])
  have "printf_turn K out frame fmt (of_nat p) (of_nat n) args w = Inr (Inl (Some (of_nat (n + length t))), w1)"
    using c0 unfolding printf_turn_def
    by (auto simp only: load8_def option.case bind_res_simps sp loop_res_simps prod.case sub w1 f(2) if_True if_False simp_thms)
  with that w1(2,3) show thesis by simp
qed

text \<open>The texts and conversions at the start of a format, whatever follows.\<close>

lemma format_bytes_end: "format_bytes cs end_text = format_bytes cs [] @ end_text"
  by (induction cs) auto

lemma format_output_end:
  "format_output A m cs end_text args bs \<longleftrightarrow> (\<exists>xs. format_output A m cs [] args xs \<and> bs = xs @ end_text)"
proof (induction cs arbitrary: args bs)
  case (Cons tc cs)
  then show ?case by (cases tc; cases args) (auto, blast+)
qed simp

lemma printf_loop_prefix:
  assumes "console K sent fdes out frame (mem w)" "fmt_at (mem w) fmt p (format_bytes cs rest)"
    and "list_all (\<lambda>(t, c). plain_text t) cs" "p + length (format_bytes cs rest) < 2 ^ 31" "format_output A m cs [] args bs"
    and "n + length bs < 2 ^ 31" "\<And>x. \<not> A x \<Longrightarrow> mem w x = m x" "\<And>x. in_range x frame 28 \<Longrightarrow> A x"
    and "\<And>i. i < length (format_bytes cs rest) \<Longrightarrow> \<not> in_range (fmt + of_nat (p + i)) frame 28"
  shows "\<exists>w'. printf_loop K out frame fmt (of_nat p) (of_nat n) args w =
      printf_loop K out frame fmt (of_nat (p + length (format_bytes cs []))) (of_nat (n + length bs)) (drop (length cs) args) w'
    \<and> only_frame frame (mem w) (mem w') \<and> sent (os w') = sent (os w) @ bs"
  using assms
proof (induction cs arbitrary: p n args w bs)
  case Nil
  have f: "only_frame frame (mem w) (mem w)" using Nil.prems(1) by (simp add: console_def only_frame_refl)
  then show ?case using Nil.prems(5) by (intro exI [of _ w]) simp
next
  case (Cons tc cs)
  obtain t c where tc: "tc = (t, c)" by (cases tc)
  let ?h = "t @ conv_format c" and ?r = "format_bytes cs rest"
  have fb: "format_bytes (tc # cs) e = ?h @ format_bytes cs e" for e by (simp add: tc)
  obtain a as xs ys where args: "args = a # as" "conv_output A m c a xs" "format_output A m cs [] as ys" "bs = t @ xs @ ys"
    using Cons.prems(5) by (cases args) (auto simp: tc)
  have f: "fmt_at (mem w) fmt p ?h" "fmt_at (mem w) fmt (p + length ?h) ?r"
    using Cons.prems(2) by (simp_all add: fb fmt_at_append add.assoc)
  have pt: "plain_text t" "list_all (\<lambda>(t, c). plain_text t) cs" using Cons.prems(3) by (simp_all add: tc)
  have len: "p + length ?h < 2 ^ 31" "p + length ?h + length ?r < 2 ^ 31" "n + length t + length xs < 2 ^ 31"
      "n + length t + length xs + length ys < 2 ^ 31"
    using Cons.prems(4,6) by (simp_all add: fb args(4))
  obtain w1 where w1: "printf_turn K out frame fmt (of_nat p) (of_nat n) (a # as) w
        = Inr (Inr (of_nat (p + length ?h), of_nat (n + length t + length xs), as), w1)"
      "only_frame frame (mem w) (mem w1)" "sent (os w1) = sent (os w) @ t @ xs"
    by (rule printf_turn_conversion [OF Cons.prems(1) f(1) pt(1) len(1) args(2) Cons.prems(7) len(3)])
  have out: "\<not> in_range (fmt + of_nat (p + length ?h + i)) frame 28" if "i < length ?r" for i
    using Cons.prems(9) [of "length ?h + i"] that by (simp add: fb add.assoc del: of_nat_add)
  have c1: "console K sent fdes out frame (mem w1)" by (rule only_frame_console [OF Cons.prems(1) w1(2)])
  have f1: "fmt_at (mem w1) fmt (p + length ?h) ?r"
    by (rule fmt_at_cong [OF f(2)]) (use only_frame_at [OF w1(2)] out in \<open>simp del: of_nat_add\<close>)
  have m1: "mem w1 x = m x" if "\<not> A x" for x
    using only_frame_at [OF w1(2)] Cons.prems(7,8) that by metis
  obtain w2 where w2: "printf_loop K out frame fmt (of_nat (p + length ?h)) (of_nat (n + length t + length xs)) as w1
        = printf_loop K out frame fmt (of_nat (p + length ?h + length (format_bytes cs [])))
            (of_nat (n + length t + length xs + length ys)) (drop (length cs) as) w2"
      "only_frame frame (mem w1) (mem w2)" "sent (os w2) = sent (os w1) @ ys"
    using Cons.IH [OF c1 f1 pt(2) len(2) args(3) len(4) m1 Cons.prems(8) out] by blast
  have "printf_loop K out frame fmt (of_nat p) (of_nat n) args w
      = printf_loop K out frame fmt (of_nat (p + length ?h)) (of_nat (n + length t + length xs)) as w1"
    by (subst printf_loop.simps) (simp add: args(1) w1(1) del: of_nat_add)
  with w1 w2 show ?case
    using only_frame_trans [OF w1(2) w2(2)]
    by (intro exI [of _ w2]) (simp add: fb args(1,4) add.assoc del: of_nat_add)
qed

lemma printf_loop_output:
  assumes "console K sent fdes out frame (mem w)" "fmt_at (mem w) fmt p (format_bytes cs end_text @ [0])"
    and "list_all (\<lambda>(t, c). plain_text t) cs" "plain_text end_text"
    and "p + length (format_bytes cs end_text) < 2 ^ 31" "format_output A m cs end_text args bs"
    and "n + length bs < 2 ^ 31" "\<And>x. \<not> A x \<Longrightarrow> mem w x = m x" "\<And>x. in_range x frame 28 \<Longrightarrow> A x"
    and "\<And>i. i \<le> length (format_bytes cs end_text) \<Longrightarrow> \<not> in_range (fmt + of_nat (p + i)) frame 28"
  shows "\<exists>w'. printf_loop K out frame fmt (of_nat p) (of_nat n) args w = Some (Inr (Some (of_nat (n + length bs)), w'))
    \<and> only_frame frame (mem w) (mem w') \<and> sent (os w') = sent (os w) @ bs"
proof -
  let ?p = "p + length (format_bytes cs [])"
  have fb: "format_bytes cs end_text = format_bytes cs [] @ end_text" by (rule format_bytes_end)
  obtain xs where xs: "format_output A m cs [] args xs" "bs = xs @ end_text"
    using assms(6) format_output_end by blast
  have f: "fmt_at (mem w) fmt p (format_bytes cs end_text)" "fmt_at (mem w) fmt ?p (end_text @ [0])"
    using assms(2) by (simp_all add: fb fmt_at_append add.assoc)
  have n: "n + length xs < 2 ^ 31" "n + length xs + length end_text < 2 ^ 31" "?p + length end_text < 2 ^ 31"
    using assms(5,7) by (simp_all add: xs(2) fb)
  obtain w1 where w1: "printf_loop K out frame fmt (of_nat p) (of_nat n) args w =
      printf_loop K out frame fmt (of_nat ?p) (of_nat (n + length xs)) (drop (length cs) args) w1"
    "only_frame frame (mem w) (mem w1)" "sent (os w1) = sent (os w) @ xs"
    using printf_loop_prefix [OF assms(1) f(1) assms(3,5) xs(1) n(1) assms(8,9)] assms(10) by fastforce
  have c1: "console K sent fdes out frame (mem w1)" by (rule only_frame_console [OF assms(1) w1(2)])
  have "\<not> in_range (fmt + of_nat (?p + i)) frame 28" if "i < length (end_text @ [0])" for i
    using assms(10) [of "length (format_bytes cs []) + i"] that by (simp add: fb add.assoc del: of_nat_add)
  then have f1: "fmt_at (mem w1) fmt ?p (end_text @ [0])"
    by (intro fmt_at_cong [OF f(2)] only_frame_at [OF w1(2)])
  obtain w2 where "printf_turn K out frame fmt (of_nat ?p) (of_nat (n + length xs)) (drop (length cs) args) w1
      = Inr (Inl (Some (of_nat (n + length xs + length end_text))), w2)"
    "mem w2 = mem w1" "sent (os w2) = sent (os w1) @ end_text"
    by (rule printf_turn_end [OF c1 f1 assms(4) n(3,2)])
  with w1 show ?thesis
    by (intro exI [of _ w2]) (subst w1(1), subst printf_loop.simps, simp add: xs(2) add.assoc del: of_nat_add)
qed

section \<open>Properties\<close>

text \<open>C22: \<open>printf\<close> of a format of texts and conversions (\<open>%d\<close>, \<open>%u\<close> with their size modifiers, \<open>%p\<close>, \<open>%s\<close>, \<open>%c\<close>) writes the
  texts and, in between, what each conversion makes of its argument, returns the number of bytes written, leaves
  the stream unlocked and changes no other memory than its own frame.\<close>

theorem printf_renders:
  assumes "console K sent fdes (io_stdout s) frame (mem w)"
    and "load32 (mem w) (file_mutex (io_stdout s)) = Inr CIA_MUTEX_FREE" "unat (io_stdout s) + 32 \<le> 2 ^ 64"
    and "disj_range frame 28 (file_mutex (io_stdout s)) 4"
    and "quiet_futex K" "\<forall>args w. sent (os (snd (syscall K SYS_futex args w))) = sent (os w)"
    and "fmt_at (mem w) fmt 0 (format_bytes cs end_text @ [0])" "list_all (\<lambda>(t, c). plain_text t) cs" "plain_text end_text"
    and "format_output (\<lambda>x. in_range x frame 28 \<or> in_range x (file_mutex (io_stdout s)) 4) (mem w) cs end_text args bs"
    and "length (format_bytes cs end_text) < 2 ^ 31" "length bs < 2 ^ 31"
    and "disj_range frame 28 fmt (Suc (length (format_bytes cs end_text)))"
    and "disj_range (file_mutex (io_stdout s)) 4 fmt (Suc (length (format_bytes cs end_text)))"
  shows "\<exists>w'. printf K s frame fmt args w = Inr (of_nat (length bs), w')
    \<and> sent (os w') = sent (os w) @ bs \<and> load32 (mem w') (file_mutex (io_stdout s)) = Inr CIA_MUTEX_FREE
    \<and> (\<forall>x. in_range x frame 28 \<or> in_range x (file_mutex (io_stdout s)) 4 \<or> mem w' x = mem w x)"
proof -
  let ?out = "io_stdout s" and ?fb = "format_bytes cs end_text"
  let ?t = "file_mutex ?out"
  let ?A = "\<lambda>x. in_range x frame 28 \<or> in_range x ?t 4"
  let ?m = "poke (mem w) ?t (le_bytes 4 CIA_MUTEX_LOCK)"
  have t: "disj_range ?t 4 ?out 8"
    using in_file_parts [OF assms(3)] in_range_mono [of _ ?out 8 16] by (fastforce simp: disj_range_def)
  have mt: "mapped (mem w) ?t 4" using assms(2) by (rule load32_InrD)
  have c: "console K sent fdes ?out frame (mem (w\<lparr>mem := ?m\<rparr>))"
    using assms(1) t mt by (simp add: console_def load64_poke_disj)
  have inr: "in_range (fmt + of_nat i) fmt (Suc (length ?fb))" if "i \<le> length ?fb" for i
    using that assms(11) by (intro in_range_offset) simp_all
  have f: "fmt_at (mem (w\<lparr>mem := ?m\<rparr>)) fmt 0 (?fb @ [0])"
  proof (rule fmt_at_cong [OF assms(7)])
    fix i assume "i < length (?fb @ [0])"
    then have "in_range (fmt + of_nat (0 + i)) fmt (Suc (length ?fb))" using inr [of i] by simp
    then have "?m (fmt + of_nat (0 + i)) = mem w (fmt + of_nat (0 + i))"
      using assms(14) by (intro poke_disj [of _ _ fmt "Suc (length ?fb)"]) simp_all
    then show "mem (w\<lparr>mem := ?m\<rparr>) (fmt + of_nat (0 + i)) = mem w (fmt + of_nat (0 + i))" by simp
  qed
  have A: "mem (w\<lparr>mem := ?m\<rparr>) x = mem w x" if "\<not> ?A x" for x using that by (simp add: poke_out)
  have out: "\<not> in_range (fmt + of_nat (0 + i)) frame 28" if "i \<le> length ?fb" for i
    using assms(13) inr [OF that] by (auto simp: disj_range_def)
  obtain w1 where w1: "printf_loop K ?out frame fmt (of_nat 0) (of_nat 0) args (w\<lparr>mem := ?m\<rparr>) = Some (Inr (Some (of_nat (0 + length bs)), w1))"
      "only_frame frame ?m (mem w1)" "sent (os w1) = sent (os w) @ bs"
    using printf_loop_output [OF c f assms(8,9) _ assms(10) _ A _ out, of 0] assms(11,12) by auto
  have in_t: "mem w1 x = ?m x" if "in_range x ?t 4" for x
    using only_frame_at [OF w1(2)] that assms(4) by (auto simp: disj_range_def)
  have m1: "mapped (mem w1) ?t 4" using in_t mapped_poke_self [of "le_bytes 4 CIA_MUTEX_LOCK" 4 "mem w" ?t] by (simp add: mapped_def)
  let ?u = "w1\<lparr>mem := poke (mem w1) ?t (le_bytes 4 CIA_MUTEX_FREE)\<rparr>"
  obtain r w2 where u: "syscall K SYS_futex [?t, FUTEX_WAKE_PRIVATE, 1, 0, 0, 0] ?u = (r, w2)"
    by (metis surj_pair)
  have "sent (os (snd (syscall K SYS_futex [?t, FUTEX_WAKE_PRIVATE, 1, 0, 0, 0] ?u))) = sent (os ?u)"
    using assms(6) by blast
  moreover have "mem (snd (syscall K SYS_futex [?t, FUTEX_WAKE_PRIVATE, 1, 0, 0, 0] ?u)) = mem ?u"
    using assms(5) unfolding quiet_futex_def by blast
  ultimately have w2: "sent (os w2) = sent (os w1)" "mem w2 = mem ?u" by (simp_all add: u)
  have un: "cia_mutex_unlock K ?t w1 = Inr w2"
    using m1 u by (simp add: cia_mutex_unlock_def rt_sync_wake_one_def rt_sync_wake_def store32_mapped)
  have same: "mem w2 x = mem w x" if "\<not> in_range x frame 28" "\<not> in_range x ?t 4" for x
    using only_frame_at [OF w1(2) that(1)] that(2) by (simp add: w2(2) poke_out)
  have "ucast (of_nat (length bs) :: i64) = (of_nat (length bs) :: i32)" using assms(12) by (intro ucast_small) simp
  then have "printf K s frame fmt args w = Inr (of_nat (length bs), w2)"
    using w1(1) un mutex_lock_poke [OF assms(2), of K] by (simp add: printf_def)
  moreover have "load32 (mem w2) ?t = Inr CIA_MUTEX_FREE"
    using w2(2) by (simp add: load32_poke_list le_word_bytes_id)
  moreover have "sent (os w2) = sent (os w) @ bs" using w1(3) w2(1) by simp
  ultimately show ?thesis using same by blast
qed

text \<open>C23: a conversion that assigns no result.  When a format of texts and defined conversions goes on with \<open>%x\<close> (with or without a
  size modifier), or with a percent sign before a character that is no conversion, \<open>printf\<close> reads \<open>arg_chars\<close> in the turn of that
  conversion, where no statement has set it: the run is undefined, and the trap is that read.\<close>

theorem printf_hex_undefined:
  assumes "console K sent fdes (io_stdout s) frame (mem w)"
    and "load32 (mem w) (file_mutex (io_stdout s)) = Inr CIA_MUTEX_FREE" "unat (io_stdout s) + 32 \<le> 2 ^ 64"
    and "fmt_at (mem w) fmt 0 fbs" "fbs = format_bytes cs (t @ 37 # mod_bytes sm @ [ch])"
    and "list_all (\<lambda>(t, c). plain_text t) cs" "plain_text t" "sets_no_chars ch (drop (length cs) args)"
    and "format_output (\<lambda>x. in_range x frame 28 \<or> in_range x (file_mutex (io_stdout s)) 4) (mem w) cs t args bs"
    and "length fbs < 2 ^ 31" "length bs < 2 ^ 31"
    and "disj_range frame 28 fmt (length fbs)" "disj_range (file_mutex (io_stdout s)) 4 fmt (length fbs)"
  shows "printf K s frame fmt args w = Inl (Undefined Uninitialised)"
proof -
  let ?out = "io_stdout s" and ?rest = "t @ 37 # mod_bytes sm @ [ch]" and ?p = "length (format_bytes cs [])"
  let ?t = "file_mutex ?out"
  let ?A = "\<lambda>x. in_range x frame 28 \<or> in_range x ?t 4"
  let ?w = "w\<lparr>mem := poke (mem w) ?t (le_bytes 4 CIA_MUTEX_LOCK)\<rparr>"
  have t: "disj_range ?t 4 ?out 8"
    using in_file_parts [OF assms(3)] in_range_mono [of _ ?out 8 16] by (fastforce simp: disj_range_def)
  have mt: "mapped (mem w) ?t 4" using assms(2) by (rule load32_InrD)
  have c: "console K sent fdes ?out frame (mem ?w)"
    using assms(1) t mt by (simp add: console_def load64_poke_disj)
  have inr: "in_range (fmt + of_nat (0 + i)) fmt (length fbs)" if "i < length fbs" for i
    using that assms(10) by (simp only: add_0) (intro in_range_offset, simp_all)
  have f: "fmt_at (mem ?w) fmt 0 fbs"
    by (rule fmt_at_cong [OF assms(4)]) (use poke_disj [of ?t "le_bytes 4 CIA_MUTEX_LOCK" fmt "length fbs"] assms(13) inr in simp)
  have A: "mem ?w x = mem w x" if "\<not> ?A x" for x using that by (simp add: poke_out)
  have out: "\<not> in_range (fmt + of_nat (0 + i)) frame 28" if "i < length fbs" for i
    using assms(12) inr [OF that] by (auto simp: disj_range_def)
  obtain xs where xs: "format_output ?A (mem w) cs [] args xs" "bs = xs @ t"
    using assms(9) format_output_end by blast
  have fb: "fbs = format_bytes cs [] @ ?rest" unfolding assms(5) by (rule format_bytes_end)
  have n: "0 + length fbs < 2 ^ 31" "0 + length xs < 2 ^ 31" "0 + length xs + length t < 2 ^ 31" "0 + ?p + length ?rest < 2 ^ 31"
    using assms(10,11) by (simp_all add: xs(2) fb)
  obtain w1 where w1: "printf_loop K ?out frame fmt (of_nat 0) (of_nat 0) args ?w =
      printf_loop K ?out frame fmt (of_nat (0 + ?p)) (of_nat (0 + length xs)) (drop (length cs) args) w1"
    "only_frame frame (mem ?w) (mem w1)"
    using printf_loop_prefix [OF c f [unfolded assms(5)] assms(6) n(1) [unfolded assms(5)] xs(1) n(2) A _ out [unfolded assms(5)]] by blast
  have c1: "console K sent fdes ?out frame (mem w1)" by (rule only_frame_console [OF c w1(2)])
  have "fmt_at (mem ?w) fmt (0 + ?p) ?rest" using f by (simp add: fb fmt_at_append)
  then have f1: "fmt_at (mem w1) fmt (0 + ?p) ?rest"
  proof (rule fmt_at_cong)
    fix i assume "i < length ?rest"
    then show "mem w1 (fmt + of_nat (0 + ?p + i)) = mem ?w (fmt + of_nat (0 + ?p + i))"
      using out [of "?p + i"] by (intro only_frame_at [OF w1(2)]) (simp add: fb del: of_nat_add)
  qed
  have "printf_turn K ?out frame fmt (of_nat (0 + ?p)) (of_nat (0 + length xs)) (drop (length cs) args) w1 = Inl (Undefined Uninitialised)"
    by (rule printf_turn_undefined [OF c1 f1 assms(7) n(4,3) assms(8)])
  then have "printf_loop K ?out frame fmt (of_nat 0) (of_nat 0) args ?w = Some (Inl (Undefined Uninitialised))"
    by (subst w1(1), subst printf_loop.simps) simp
  then show ?thesis using mutex_lock_poke [OF assms(2), of K] by (simp add: printf_def)
qed

section \<open>Witnesses\<close>

text \<open>The format \<open>"n=%d;%s"\<close> with the arguments -42 and \<open>"ok"\<close>: stream at 0x100, frame at 0x200, format at 0x300,
  string at 0x340.\<close>

definition printf_format :: "(u8 list \<times> conv) list" where
  "printf_format = [([110, 61], Conv_d No_Mod), ([59], Conv_s)]"

definition printf_world :: "u8 list world" where
  "printf_world = \<lparr>mem = poke (poke (\<lambda>x. if in_range x 0x100 32 \<or> in_range x 0x200 28 then Some 0 else None)
     0x300 (format_bytes printf_format [] @ [0])) 0x340 [111, 107, 0], os = []\<rparr>"

lemma printf_format_bytes: "format_bytes printf_format [] = [110, 61, 37, 100, 59, 37, 115]"
  by (simp add: printf_format_def conv_format_def)

lemma printf_world_at:
  "in_range x 0x100 32 \<or> in_range x 0x200 28 \<Longrightarrow> mem printf_world x = Some 0"
  "i < 8 \<Longrightarrow> mem printf_world (0x300 + of_nat i) = Some ([110, 61, 37, 100, 59, 37, 115, 0] ! i)"
  "i < 3 \<Longrightarrow> mem printf_world (0x340 + of_nat i) = Some ([111, 107, 0] ! i)"
proof -
  have r: "in_range x a n \<longleftrightarrow> unat a \<le> unat x \<and> unat x < unat a + n" if "unat a + n \<le> 2 ^ 64" for x a n
    using that by (rule in_range_iff)
  have u: "unat (a + of_nat i :: addr) = unat a + i" if "unat a + i < 2 ^ 64" for a i
    using that unat_of_nat_u64 [of i] by (subst unat_add_no_wrap) simp_all
  show "in_range x 0x100 32 \<or> in_range x 0x200 28 \<Longrightarrow> mem printf_world x = Some 0"
    by (auto simp: printf_world_def poke_def printf_format_bytes r)
  show "i < 8 \<Longrightarrow> mem printf_world (0x300 + of_nat i) = Some ([110, 61, 37, 100, 59, 37, 115, 0] ! i)"
    using u [of "0x300" i] by (simp add: printf_world_def poke_def printf_format_bytes r unat_of_nat_u64)
  show "i < 3 \<Longrightarrow> mem printf_world (0x340 + of_nat i) = Some ([111, 107, 0] ! i)"
    using u [of "0x340" i] by (simp add: printf_world_def poke_def printf_format_bytes r unat_of_nat_u64)
qed

theorem printf_renders_witness:
  "\<exists>w'. printf console_kernel fmt_stdio 0x200 0x300 [- 42, 0x340] printf_world = Inr (9, w')
    \<and> os w' = [110, 61, 45, 52, 50, 0, 59, 111, 107]"
proof -
  let ?w = printf_world and ?bs = "[110, 61, 45, 52, 50, 0, 59, 111, 107] :: u8 list"
  have o: "io_stdout fmt_stdio = 0x100" by (simp add: fmt_stdio_def)
  have m: "mapped (mem ?w) 0x100 32" "mapped (mem ?w) 0x200 28" by (simp_all add: mapped_def printf_world_at(1))
  have z: "peek (mem ?w) (0x100 + of_nat off) n = replicate n 0" if "off + n \<le> 32" for off n
  proof (rule nth_equalityI)
    fix i assume i: "i < length (peek (mem ?w) (0x100 + of_nat off) n)"
    then have "in_range (0x100 + of_nat (off + i)) 0x100 32" using that by (intro in_range_offset) simp_all
    then show "peek (mem ?w) (0x100 + of_nat off) n ! i = replicate n 0 ! i"
      using i printf_world_at(1) by (simp add: nth_peek add.assoc)
  qed simp
  have r: "load64 (mem ?w) 0x100 = Inr 0" "load32 (mem ?w) (file_mutex 0x100) = Inr CIA_MUTEX_FREE"
    using z [of 0 8] z [of 16 4] mapped_mono [OF m(1), of 8] mapped_sub [OF m(1), of 16 4]
    by (simp_all add: load64_mapped load32_mapped le_word_zeros mutex_consts file_mutex_def)
  have c: "console console_kernel (\<lambda>s. s) 0 (io_stdout fmt_stdio) 0x200 (mem ?w)"
    using console_takes_all r(1) m(2) disj_range_sym [OF disj_rangeI_le [of "0x100" 8 "0x200" 28]]
    by (simp add: console_def o)
  have f: "fmt_at (mem ?w) 0x300 0 (format_bytes printf_format [] @ [0])"
    using printf_world_at(2) [of 0] printf_world_at(2) [of 1] printf_world_at(2) [of 2] printf_world_at(2) [of 3]
      printf_world_at(2) [of 4] printf_world_at(2) [of 5] printf_world_at(2) [of 6] printf_world_at(2) [of 7]
    by (simp add: printf_format_bytes)
  have s: "mem ?w 0x340 = Some 111" "mem ?w 0x341 = Some 107" "mem ?w 0x342 = Some 0"
    using printf_world_at(3) [of 0] printf_world_at(3) [of 1] printf_world_at(3) [of 2] by simp_all
  have "mapped (mem ?w) 0x340 3" by (rule mapped_by_offset) (use printf_world_at(3) in auto)
  then have str: "c_string (mem ?w) 0x340 2" "peek (mem ?w) 0x340 2 = [111, 107]"
    by (simp add: c_string_def all_less_2 s) (simp add: peek_def s numeral_2_eq_2)
  let ?A = "\<lambda>x. in_range x 0x200 28 \<or> in_range x (file_mutex (io_stdout fmt_stdio)) 4"
  have "sint (- 42 :: i32) = - 42" "dec_digits 42 = [52, 50]" by (simp_all add: dec_digits.simps)
  then have d: "conv_output ?A (mem ?w) (Conv_d No_Mod) (- 42) [45, 52, 50, 0]"
    by (simp add: int_arg_def int_text_def)
  have "\<not> ?A (0x340 + of_nat i)" if "i \<le> 2" for i
  proof -
    have "i = 0 \<or> i = 1 \<or> i = 2" using that by linarith
    then show ?thesis by (auto simp: in_range_def o file_mutex_def)
  qed
  then have st: "conv_output ?A (mem ?w) Conv_s 0x340 [111, 107]" using str by (simp add: numeral_2_eq_2)
  have out: "format_output ?A (mem ?w) printf_format [] [- 42, 0x340] ?bs"
    unfolding printf_format_def format_output.simps
    by (intro exI [of _ "[45, 52, 50, 0]"] exI [of _ "[59, 111, 107]"] exI [of _ "[111, 107]"] exI [of _ "[]"] conjI d st) simp_all
  have plain: "list_all (\<lambda>(t, c). plain_text t) printf_format" by (simp add: printf_format_def plain_text_def)
  have "\<exists>w'. printf console_kernel fmt_stdio 0x200 0x300 [- 42, 0x340] ?w = Inr (of_nat (length ?bs), w')
    \<and> os w' = os ?w @ ?bs \<and> load32 (mem w') (file_mutex (io_stdout fmt_stdio)) = Inr CIA_MUTEX_FREE
    \<and> (\<forall>x. in_range x 0x200 28 \<or> in_range x (file_mutex (io_stdout fmt_stdio)) 4 \<or> mem w' x = mem ?w x)"
    by (rule printf_renders [OF c _ _ _ console_quiet f _ _ out])
      (use r(2) plain in \<open>auto simp: o printf_format_bytes file_mutex_def plain_text_def
        intro: disj_rangeI_le disj_range_sym [OF disj_rangeI_le]\<close>)
  moreover have "os ?w = []" by (simp add: printf_world_def)
  ultimately show ?thesis by auto
qed

text \<open>The format \<open>"c=%c %I64x"\<close>, at the same places.\<close>

definition hex_format :: "u8 list" where
  "hex_format = [99, 61, 37, 99, 32, 37, 73, 54, 52, 120]"

definition hex_world :: "u8 list world" where
  "hex_world = \<lparr>mem = poke (\<lambda>x. if in_range x 0x100 32 \<or> in_range x 0x200 28 then Some 0 else None) 0x300 hex_format, os = []\<rparr>"

theorem printf_hex_undefined_witness:
  "printf console_kernel fmt_stdio 0x200 0x300 [65, 255] hex_world = Inl (Undefined Uninitialised)"
proof -
  let ?w = hex_world and ?cs = "[([99, 61], Conv_c)]"
  have o: "io_stdout fmt_stdio = 0x100" by (simp add: fmt_stdio_def)
  have old: "mem ?w x = Some 0" if "in_range x 0x100 32 \<or> in_range x 0x200 28" for x
    using that by (auto simp: hex_world_def hex_format_def poke_def in_range_iff)
  then have m: "mapped (mem ?w) 0x100 32" "mapped (mem ?w) 0x200 28" by (simp_all add: mapped_def)
  have z: "peek (mem ?w) (0x100 + of_nat off) n = replicate n 0" if "off + n \<le> 32" for off n
  proof (rule nth_equalityI)
    fix i assume i: "i < length (peek (mem ?w) (0x100 + of_nat off) n)"
    then have "in_range (0x100 + of_nat (off + i)) 0x100 32" using that by (intro in_range_offset) simp_all
    then show "peek (mem ?w) (0x100 + of_nat off) n ! i = replicate n 0 ! i"
      using i old by (simp add: nth_peek add.assoc)
  qed simp
  have r: "load64 (mem ?w) 0x100 = Inr 0" "load32 (mem ?w) (file_mutex 0x100) = Inr CIA_MUTEX_FREE"
    using z [of 0 8] z [of 16 4] mapped_mono [OF m(1), of 8] mapped_sub [OF m(1), of 16 4]
    by (simp_all add: load64_mapped load32_mapped le_word_zeros mutex_consts file_mutex_def)
  have c: "console console_kernel (\<lambda>s. s) 0 (io_stdout fmt_stdio) 0x200 (mem ?w)"
    using console_takes_all r(1) m(2) disj_range_sym [OF disj_rangeI_le [of "0x100" 8 "0x200" 28]]
    by (simp add: console_def o)
  have "mem ?w (0x300 + of_nat i) = Some (hex_format ! i)" if "i < 10" for i
    using that by (simp add: hex_world_def poke_def in_range_def hex_format_def unat_of_nat_u64)
  from this [of 0] this [of 1] this [of 2] this [of 3] this [of 4] this [of 5] this [of 6] this [of 7] this [of 8] this [of 9]
  have f: "fmt_at (mem ?w) 0x300 0 hex_format" by (simp add: hex_format_def)
  have fb: "hex_format = format_bytes ?cs ([32] @ 37 # mod_bytes Mod_I64 @ [120])"
    by (simp add: hex_format_def conv_format_def)
  have out: "format_output (\<lambda>x. in_range x 0x200 28 \<or> in_range x (file_mutex (io_stdout fmt_stdio)) 4) (mem ?w) ?cs [32] [65, 255] [99, 61, 65, 32]"
    by simp
  show ?thesis
    by (rule printf_hex_undefined [OF c _ _ f fb _ _ _ out])
      (use r(2) in \<open>auto simp: o file_mutex_def plain_text_def sets_no_chars_def hex_format_def
        intro: disj_rangeI_le disj_range_sym [OF disj_rangeI_le]\<close>)
qed

end
