(* ===== verification/Threads.thy ===== *)
theory Threads
  imports Mutex StrMem Align
begin

text \<open>
  \<open>os/linux/tinyrt-threads.c\<close> with \<open>include/cia-ld/tcb.h\<close>, the clone stub of
  \<open>arch/sysv_x86-64/thread-entry.asm\<close> and \<open>src/stdlib-thread/thread.c\<close>.  A thread control block
  (TCB) lies in memory at the base of the thread's stack; a function finds its own by masking its
  frame address, which is the argument \<open>frame\<close> here.
\<close>

section \<open>Constants, the control block, the globals\<close>

definition SYS_rt_sigaction :: u64 where "SYS_rt_sigaction = 13"
definition SYS_sched_yield :: u64 where "SYS_sched_yield = 24"
definition SYS_getpid :: u64 where "SYS_getpid = 39"
definition SYS_clone :: u64 where "SYS_clone = 56"
definition SYS_tkill :: u64 where "SYS_tkill = 200"

definition SIGCANCEL :: u64 where "SIGCANCEL = 33"
definition SA_SIGINFO :: u32 where "SA_SIGINFO = 4"
definition SA_RESTART :: u32 where "SA_RESTART = 0x10000000"

definition CLONE_VM :: u64 where "CLONE_VM = 0x100"
definition CLONE_FS :: u64 where "CLONE_FS = 0x200"
definition CLONE_FILES :: u64 where "CLONE_FILES = 0x400"
definition CLONE_SIGHAND :: u64 where "CLONE_SIGHAND = 0x800"
definition CLONE_THREAD :: u64 where "CLONE_THREAD = 0x10000"
definition CLONE_SYSVSEM :: u64 where "CLONE_SYSVSEM = 0x40000"
definition CLONE_PARENT_SETTID :: u64 where "CLONE_PARENT_SETTID = 0x100000"
definition CLONE_CHILD_CLEARTID :: u64 where "CLONE_CHILD_CLEARTID = 0x200000"

definition LD_THREAD_STATE_NOT_YET :: u32 where "LD_THREAD_STATE_NOT_YET = 0"
definition LD_THREAD_STATE_DETACHED :: u32 where "LD_THREAD_STATE_DETACHED = 1"
definition LD_THREAD_STATE_JOINED :: u32 where "LD_THREAD_STATE_JOINED = 2"

definition tcb_thread_id :: "addr \<Rightarrow> addr" where "tcb_thread_id t = t"
definition tcb_state_finish :: "addr \<Rightarrow> addr" where "tcb_state_finish t = t + 4"
definition tcb_state_detach :: "addr \<Rightarrow> addr" where "tcb_state_detach t = t + 8"
definition tcb_exit_code :: "addr \<Rightarrow> addr" where "tcb_exit_code t = t + 0xc"
definition tcb_stack_canary :: "addr \<Rightarrow> addr" where "tcb_stack_canary t = t + 0x28"
definition tcb_next :: "addr \<Rightarrow> addr" where "tcb_next t = t + 0x30"
definition tcb_prev :: "addr \<Rightarrow> addr" where "tcb_prev t = t + 0x38"
definition tcb_is_cancelled :: "addr \<Rightarrow> addr" where "tcb_is_cancelled t = t + 0x40"

record rt_globals =
  cia_stack_size :: u64
  cia_tls_image_size :: u64
  cia_tls_image_base :: addr
  thread_blocks_head :: addr

definition tcb_of_frame :: "rt_globals \<Rightarrow> addr \<Rightarrow> addr" where
  "tcb_of_frame g frame = frame AND NOT (cia_stack_size g - 1)"

definition write32 :: "addr \<Rightarrow> u32 \<Rightarrow> 'k world \<Rightarrow> 'k world res" where
  "write32 a v w = bind_res (store32 (mem w) a v) (\<lambda>m. Inr (w\<lparr>mem := m\<rparr>))"

definition write64 :: "addr \<Rightarrow> u64 \<Rightarrow> 'k world \<Rightarrow> 'k world res" where
  "write64 a v w = bind_res (store64 (mem w) a v) (\<lambda>m. Inr (w\<lparr>mem := m\<rparr>))"

section \<open>Setup and cancellation\<close>

text \<open>\<open>Inl (Exited 0)\<close> is the end of the calling thread.\<close>

definition thread_sigcancel_handler :: "'k kernel \<Rightarrow> rt_globals \<Rightarrow> addr \<Rightarrow> 'k world \<Rightarrow> 'k world res" where
  "thread_sigcancel_handler K g frame w =
     bind_res (load32 (mem w) (tcb_is_cancelled (tcb_of_frame g frame))) (\<lambda>is_cancelled.
       if is_cancelled \<noteq> 0 then
         (case syscall K SYS_getpid [] w of (_, w') \<Rightarrow>
            case syscall K SYS_exit [0] w' of (_, _) \<Rightarrow> Inl (Exited 0))
       else Inr w)"

text \<open>
  The \<open>struct sigaction\<close> at \<open>frame\<close>, in the order of \<open>linux/signal.h\<close>: handler at offset 0, mask
  at 8, flags (four bytes) at 16, restorer at 24; \<open>handler\<close> is the address of the function above.
\<close>

definition rt_threads_setup :: "'k kernel \<Rightarrow> addr \<Rightarrow> addr \<Rightarrow> 'k world \<Rightarrow> 'k world res" where
  "rt_threads_setup K frame handler w =
     bind_res (write64 frame handler w) (\<lambda>w.
     bind_res (write64 (frame + 8) 0xfffffffc7fffffff w) (\<lambda>w.
     bind_res (write32 (frame + 16) (SA_SIGINFO OR SA_RESTART) w) (\<lambda>w.
     bind_res (write64 (frame + 24) 0 w) (\<lambda>w.
       Inr (snd (syscall K SYS_rt_sigaction [SIGCANCEL, frame, 0, 8] w))))))"

section \<open>Creation\<close>

function tls_copy_loop :: "addr \<Rightarrow> addr \<Rightarrow> u64 \<Rightarrow> i32 \<Rightarrow> mem \<Rightarrow> mem res" where
  "tls_copy_loop tls_base img img_size i m =
     (if scast i < img_size
      then bind_res (load8 m (img + scast i)) (\<lambda>b.
             bind_res (store8 m (tls_base + scast i) b) (\<lambda>m'.
               bind_res (inc_i32 i) (\<lambda>i'. tls_copy_loop tls_base img img_size i' m')))
      else Inr m)"
  by pat_completeness auto
termination
  by (relation "measure (\<lambda>(tls_base, img, img_size, i, m). nat (2 ^ 31 - sint i))")
    (simp, simp only: in_measure prod.case, rule inc_i32_measure)

declare tls_copy_loop.simps [simp del]

text \<open>
  The clone stub: it puts its return address, \<open>ctx\<close> and \<open>thread_fn\<close> on the child's stack and makes
  the system call with the stack pointer below them.
\<close>

definition rt_thread_start ::
  "'k kernel \<Rightarrow> addr \<Rightarrow> u64 \<Rightarrow> addr \<Rightarrow> addr \<Rightarrow> addr \<Rightarrow> addr \<Rightarrow> addr \<Rightarrow> addr \<Rightarrow> 'k world \<Rightarrow> (i64 \<times> 'k world) res" where
  "rt_thread_start K ret_addr flags stack parent_tid child_tid tls thread_fn ctx w =
     (let rsi = stack - 24 in
      bind_res (write64 (rsi + 16) ret_addr w) (\<lambda>w.
      bind_res (write64 (rsi + 8) ctx w) (\<lambda>w.
      bind_res (write64 rsi thread_fn w) (\<lambda>w.
        Inr (syscall K SYS_clone [flags, rsi, parent_tid, child_tid, tls] w)))))"

definition thread_clone_flags :: u64 where
  "thread_clone_flags = CLONE_CHILD_CLEARTID OR CLONE_PARENT_SETTID OR CLONE_FS OR CLONE_FILES
     OR CLONE_SIGHAND OR CLONE_THREAD OR CLONE_VM OR CLONE_SYSVSEM"

definition tcb_of_stack :: "rt_globals \<Rightarrow> addr \<Rightarrow> addr" where
  "tcb_of_stack g stack = (stack - 1) AND NOT (cia_stack_size g - 1)"

text \<open>The result has the handle that \<open>thread\<close> points to, when it was written.\<close>

definition rt_thread_create ::
  "'k kernel \<Rightarrow> addr \<Rightarrow> rt_globals \<Rightarrow> addr \<Rightarrow> addr \<Rightarrow> 'k world \<Rightarrow>
    ((i32 \<times> addr option) \<times> rt_globals \<times> 'k world) res" where
  "rt_thread_create K ret_addr g thread_fn ctx w =
     (case sys_mmap K 0 (2 * cia_stack_size g) (PROT_READ OR PROT_WRITE)
             (MAP_PRIVATE OR MAP_ANONYMOUS OR MAP_NORESERVE) (-1) 0 w of (stack_base, w) \<Rightarrow>
      if stack_base <s 0 then Inr ((RT_ERROR_GENERIC, None), g, w)
      else
        let stack = stack_base + 2 * cia_stack_size g;
            tcb = tcb_of_stack g stack;
            tls_base = tcb - cia_tls_image_size g
        in
        bind_res (tls_copy_loop tls_base (cia_tls_image_base g) (cia_tls_image_size g) 0 (mem w)) (\<lambda>m.
        bind_res (write64 (tcb_stack_canary tcb) 0x12345678deadbeef (w\<lparr>mem := m\<rparr>)) (\<lambda>w.
        bind_res (write64 (tcb_next tcb) 0 w) (\<lambda>w.
        bind_res (write64 (tcb_prev tcb) (thread_blocks_head g) w) (\<lambda>w.
        bind_res (write32 (tcb_is_cancelled tcb) 0 w) (\<lambda>w.
        bind_res (if thread_blocks_head g \<noteq> 0 then write64 (tcb_next (thread_blocks_head g)) tcb w else Inr w) (\<lambda>w.
        let g = g\<lparr>thread_blocks_head := tcb\<rparr> in
        bind_res (write32 (tcb_state_finish tcb) 1 w) (\<lambda>w.
        bind_res (rt_thread_start K ret_addr thread_clone_flags stack (tcb_thread_id tcb) (tcb_state_finish tcb)
                    0 thread_fn ctx w) (\<lambda>(ret, w).
          if ret <s 0 then Inr ((RT_ERROR_GENERIC, Some tcb), g, w)
          else Inr ((RT_STATUS_OK, Some tcb), g, w))))))))))"

definition rt_thread_current :: "rt_globals \<Rightarrow> addr \<Rightarrow> i32 \<times> addr" where
  "rt_thread_current g frame = (RT_STATUS_OK, tcb_of_frame g frame)"

text \<open>The entry of the child is the caller's function.\<close>

definition rt_thread_setup :: "(addr \<Rightarrow> addr \<Rightarrow> 'k world \<Rightarrow> (i32 \<times> 'k world) res) \<Rightarrow> addr \<Rightarrow> addr \<Rightarrow> 'k world \<Rightarrow> (i32 \<times> 'k world) res" where
  "rt_thread_setup call thread_fn ctx w = call thread_fn ctx w"

section \<open>End, join, detach\<close>

partial_function (option) detach_wait_loop :: "'k kernel \<Rightarrow> addr \<Rightarrow> 'k world \<Rightarrow> 'k world res option" where
  "detach_wait_loop K tcb w =
     (case load32 (mem w) (tcb_state_detach tcb) of
        Inl e \<Rightarrow> Some (Inl e)
      | Inr st \<Rightarrow>
          if st = LD_THREAD_STATE_NOT_YET
          then detach_wait_loop K tcb
                 (snd (syscall K SYS_futex [tcb_state_detach tcb, FUTEX_WAIT, ucast LD_THREAD_STATE_NOT_YET, 0, 0, 0] w))
          else Some (Inr w))"

definition rt_thread_finish :: "'k kernel \<Rightarrow> rt_globals \<Rightarrow> addr \<Rightarrow> i32 \<Rightarrow> 'k world \<Rightarrow> 'k world res" where
  "rt_thread_finish K g frame exit_code w =
     (let tcb = tcb_of_frame g frame in
      bind_res (loop_res (detach_wait_loop K tcb w)) (\<lambda>w.
      bind_res (write32 (tcb_exit_code tcb) exit_code w) (\<lambda>w.
        case syscall K SYS_exit [scast exit_code] w of (_, _) \<Rightarrow> Inl (Exited exit_code))))"

partial_function (option) join_wait_loop :: "'k kernel \<Rightarrow> addr \<Rightarrow> 'k world \<Rightarrow> 'k world res option" where
  "join_wait_loop K tcb w =
     (case load32 (mem w) (tcb_state_finish tcb) of
        Inl e \<Rightarrow> Some (Inl e)
      | Inr st \<Rightarrow>
          if st \<noteq> 0
          then join_wait_loop K tcb (snd (syscall K SYS_futex [tcb_state_finish tcb, FUTEX_WAIT, 0, 0, 0, 0] w))
          else Some (Inr w))"

definition rt_thread_join :: "'k kernel \<Rightarrow> addr \<Rightarrow> 'k world \<Rightarrow> ((i32 \<times> i32) \<times> 'k world) res" where
  "rt_thread_join K tcb w =
     bind_res (write32 (tcb_state_detach tcb) LD_THREAD_STATE_JOINED w) (\<lambda>w.
     bind_res (loop_res (join_wait_loop K tcb
                (snd (syscall K SYS_futex [tcb_state_detach tcb, FUTEX_WAKE, 0, 0, 0, 0] w)))) (\<lambda>w.
     bind_res (load32 (mem w) (tcb_exit_code tcb)) (\<lambda>code. Inr ((RT_STATUS_OK, code), w))))"

definition rt_thread_detach :: "addr \<Rightarrow> 'k world \<Rightarrow> (i32 \<times> 'k world) res" where
  "rt_thread_detach tcb w =
     bind_res (write32 (tcb_state_detach tcb) LD_THREAD_STATE_DETACHED w) (\<lambda>w. Inr (RT_STATUS_OK, w))"

definition rt_thread_yield :: "'k kernel \<Rightarrow> 'k world \<Rightarrow> i32 \<times> 'k world" where
  "rt_thread_yield K w =
     (let (status, w') = syscall K SYS_sched_yield [] w
      in if status \<noteq> 0 then (RT_ERROR_GENERIC, w') else (RT_STATUS_OK, w'))"

definition rt_thread_terminate :: "'k kernel \<Rightarrow> addr \<Rightarrow> 'k world \<Rightarrow> (i32 \<times> 'k world) res" where
  "rt_thread_terminate K tcb w =
     (let (_, w) = syscall K SYS_getpid [] w in
      bind_res (write32 (tcb_is_cancelled tcb) 1 w) (\<lambda>w.
      bind_res (load32 (mem w) (tcb_thread_id tcb)) (\<lambda>tid.
        Inr (RT_STATUS_OK, snd (syscall K SYS_tkill [ucast tid, SIGCANCEL] w)))))"

definition rt_thread_sleep :: "u64 \<Rightarrow> i32" where
  "rt_thread_sleep time = RT_ERROR_NOT_IMPLEMENTED"

definition rt_thread_get_timer_freq :: i32 where
  "rt_thread_get_timer_freq = RT_ERROR_NOT_IMPLEMENTED"

partial_function (option) cancel_loop :: "addr \<Rightarrow> 'k world \<Rightarrow> 'k world res option" where
  "cancel_loop tcb_cur w =
     (if tcb_cur = 0 then Some (Inr w)
      else case load64 (mem w) (tcb_next tcb_cur) of
             Inl e \<Rightarrow> Some (Inl e)
           | Inr tcb_next' \<Rightarrow> (case load32 (mem w) (tcb_thread_id tcb_cur) of
               Inl e \<Rightarrow> Some (Inl e)
             | Inr _ \<Rightarrow> (case write32 (tcb_is_cancelled tcb_cur) 1 w of
                 Inl e \<Rightarrow> Some (Inl e)
               | Inr w' \<Rightarrow> cancel_loop tcb_next' w')))"

definition rt_thread_cancell_all_running :: "'k kernel \<Rightarrow> rt_globals \<Rightarrow> 'k world \<Rightarrow> (i32 \<times> 'k world) res" where
  "rt_thread_cancell_all_running K g w =
     (let (_, w) = syscall K SYS_getpid [] w in
      bind_res (loop_res (cancel_loop (thread_blocks_head g) w)) (\<lambda>w. Inr (RT_STATUS_OK, w)))"

section \<open>The threads of the C library\<close>

definition thrd_success :: i32 where "thrd_success = 0"
definition thrd_error :: i32 where "thrd_error = -4"

definition thrd_status :: "i32 \<Rightarrow> i32" where
  "thrd_status status = (if status = RT_STATUS_OK then thrd_success else thrd_error)"

definition thrd_create ::
  "'k kernel \<Rightarrow> addr \<Rightarrow> rt_globals \<Rightarrow> addr \<Rightarrow> addr \<Rightarrow> 'k world \<Rightarrow>
    ((i32 \<times> addr option) \<times> rt_globals \<times> 'k world) res" where
  "thrd_create K ret_addr g func arg w =
     bind_res (rt_thread_create K ret_addr g func arg w) (\<lambda>((status, thr), g, w).
       Inr ((thrd_status status, thr), g, w))"

definition thrd_detach :: "addr \<Rightarrow> 'k world \<Rightarrow> (i32 \<times> 'k world) res" where
  "thrd_detach thr w = bind_res (rt_thread_detach thr w) (\<lambda>(status, w). Inr (thrd_status status, w))"

definition thrd_join :: "'k kernel \<Rightarrow> addr \<Rightarrow> 'k world \<Rightarrow> ((i32 \<times> i32) \<times> 'k world) res" where
  "thrd_join K thr w =
     bind_res (rt_thread_join K thr w) (\<lambda>((status, code), w). Inr ((thrd_status status, code), w))"

definition thrd_yield :: "'k kernel \<Rightarrow> 'k world \<Rightarrow> 'k world" where
  "thrd_yield K w = snd (rt_thread_yield K w)"

definition thrd_terminate :: "'k kernel \<Rightarrow> addr \<Rightarrow> 'k world \<Rightarrow> 'k world res" where
  "thrd_terminate K thr w = bind_res (rt_thread_terminate K thr w) (\<lambda>(_, w). Inr w)"

section \<open>The region of a new thread\<close>

text \<open>The address at an offset of a region.\<close>

definition region_at :: "addr \<Rightarrow> nat \<Rightarrow> addr" where
  "region_at b i = b + of_nat i"

lemma unat_region_at: "unat b + i < 2 ^ 64 \<Longrightarrow> unat (region_at b i) = unat b + i"
  unfolding region_at_def by (subst unat_add_no_wrap) (simp_all add: unat_of_nat_u64)

lemma region_disj:
  assumes "unat b + l < 2 ^ 64" "i + n \<le> l" "j + k \<le> l" "i + n \<le> j \<or> j + k \<le> i"
  shows "disj_range (region_at b i) n (region_at b j) k"
  using assms(4)
proof
  assume "i + n \<le> j"
  then show ?thesis using assms by (intro disj_rangeI_le) (simp_all add: unat_region_at)
next
  assume "j + k \<le> i"
  then show ?thesis using assms
    by (intro disj_range_sym [OF disj_rangeI_le]) (simp_all add: unat_region_at)
qed

lemma region_mapped:
  "mapped m b l \<Longrightarrow> unat b + l < 2 ^ 64 \<Longrightarrow> i + n \<le> l \<Longrightarrow> mapped m (region_at b i) n"
  unfolding region_at_def by (erule mapped_sub) linarith+

lemma region_in_range:
  assumes "in_range x (region_at b i) n" "i + n \<le> l" "unat b + l < 2 ^ 64"
  shows "in_range x b l"
proof (cases "n = 0")
  case False
  then show ?thesis using sub_range_in_range [OF assms(1) [unfolded region_at_def] assms(2)] assms(3) by simp
qed (use assms(1) in simp)

lemma write64_mapped: "mapped (mem w) a 8 \<Longrightarrow> write64 a v w = Inr (w\<lparr>mem := poke (mem w) a (le_bytes 8 v)\<rparr>)"
  by (simp add: write64_def store64_mapped)

lemma write32_mapped: "mapped (mem w) a 4 \<Longrightarrow> write32 a v w = Inr (w\<lparr>mem := poke (mem w) a (le_bytes 4 v)\<rparr>)"
  by (simp add: write32_def store32_mapped)

text \<open>Where the control block lies: at the last multiple of the stack size below the top of the stack.\<close>

lemma tcb_of_stack_offset:
  assumes S: "cia_stack_size g = 2 ^ k" "12 \<le> k" "k \<le> 46"
    and b: "page_size dvd unat b" "unat b + 2 * 2 ^ k \<le> 2 ^ 47" "0 < unat b"
  obtains t where "tcb_of_stack g (b + 2 * cia_stack_size g) = region_at b t"
    "2 ^ k \<le> t" "t + 4096 \<le> 2 * 2 ^ k" "2 ^ k dvd unat (region_at b t)"
proof -
  let ?S = "2 ^ k :: nat" and ?st = "b + 2 * cia_stack_size g"
  have k: "k < 64" using S(3) by simp
  have two: "2 * (2 ^ k :: u64) = 2 ^ Suc k" by simp
  have u2: "unat (2 * cia_stack_size g) = 2 * ?S"
    unfolding S(1) two using S(3) by (subst unat_pow2) simp_all
  have st: "unat ?st = unat b + 2 * ?S"
    using b(2) by (subst unat_add_no_wrap) (simp_all add: u2)
  have pos: "0 < unat ?st" using st b(3) by simp
  have st1: "unat (?st - 1) = unat b + 2 * ?S - 1"
  proof -
    have "?st \<noteq> 0" using pos by (metis less_irrefl unat_0)
    from unat_minus_one [OF this] show ?thesis unfolding st .
  qed
  let ?top = "unat b + 2 * ?S - 1"
  define q where "q = ?top div ?S * ?S"
  have tcb: "unat (tcb_of_stack g ?st) = q"
    unfolding tcb_of_stack_def S(1) clear_low_bits [OF k] by (simp add: st1 [unfolded S(1)] q_def)
  have q1: "q \<le> ?top" and q2: "?top < q + ?S"
  proof -
    have "q + ?top mod ?S = ?top" unfolding q_def by (rule div_mult_mod_eq)
    moreover have "?top mod ?S < ?S" by simp
    ultimately show "q \<le> ?top" "?top < q + ?S" by linarith+
  qed
  have qb: "unat b + ?S \<le> q" using q2 by simp
  have pg: "(4096 :: nat) dvd ?S"
  proof -
    have "(2 :: nat) ^ 12 dvd 2 ^ k" using S(2) by (rule le_imp_power_dvd)
    then show ?thesis by simp
  qed
  have dq: "4096 dvd q" unfolding q_def using pg by simp
  have db: "4096 dvd unat b + 2 * ?S" using b(1) pg by (simp add: page_size_def)
  have gap: "4096 dvd unat b + 2 * ?S - q" using db dq by (rule dvd_diff_nat)
  have "0 < unat b + 2 * ?S - q" using q1 b(3) by linarith
  then have q4: "q + 4096 \<le> unat b + 2 * ?S" using dvd_imp_le [OF gap] by simp
  define t where "t = q - unat b"
  have qt: "q = unat b + t" using qb by (simp add: t_def)
  have "unat b + t < 2 ^ 64" using q4 b(2) unfolding qt by simp
  then have r: "unat (region_at b t) = q" by (simp add: unat_region_at qt)
  show ?thesis
  proof (rule that [of t])
    show "tcb_of_stack g ?st = region_at b t" by (rule word_unat_eq_iff [THEN iffD2]) (simp only: tcb r)
    show "2 ^ k \<le> t" using qb unfolding qt by simp
    show "t + 4096 \<le> 2 * 2 ^ k" using q4 unfolding qt by simp
    show "2 ^ k dvd unat (region_at b t)" unfolding r q_def by simp
  qed
qed

section \<open>The copy of the thread-local image\<close>

lemma tls_copy_loop_from:
  assumes "mapped m src n" "mapped m dst n" "fwd_ok dst src n" "n = unat count" "n < 2 ^ 31" "i \<le> n"
  shows "tls_copy_loop dst src count (of_nat i) (poke m dst (peek m src i)) = Inr (poke m dst (peek m src n))"
  using assms(6)
proof (induction i rule: inc_induct)
  case base
  have "scast (of_nat n :: i32) = count" using scast_small [OF assms(5)] by (simp add: assms(4))
  then show ?case by (subst tls_copy_loop.simps) simp
next
  case (step i)
  have n: "n \<le> 2 ^ 64" using assms(5) by simp
  have i: "of_nat i < count" by (rule of_nat_less_count) (use step(2) assms(4) in simp)
  have inc: "inc_i32 (of_nat i) = Inr (of_nat (Suc i))"
    using step(2) assms(5) by (simp add: inc_i32_def sint_small_i32 add.commute)
  have s: "scast (of_nat i :: i32) = (of_nat i :: u64)" using step(2) assms(5) by (intro scast_small) simp
  note c = copy_step(1) [OF assms(1-3) step(2) n] copy_step_peek [OF assms(1-3) step(2) n]
  show ?case
    by (subst tls_copy_loop.simps) (simp add: s i c inc step.IH del: of_nat_Suc)
qed

lemma tls_copy_loop_copies:
  assumes "mapped m src (unat count)" "mapped m dst (unat count)" "fwd_ok dst src (unat count)"
    "unat count < 2 ^ 31"
  shows "tls_copy_loop dst src count 0 m = Inr (poke m dst (peek m src (unat count)))"
  using tls_copy_loop_from [OF assms(1-3) refl assms(4), of 0] by (simp add: peek_def)

section \<open>What a new thread finds\<close>

text \<open>The memory when \<open>clone\<close> is called: \<open>m\<close> is the memory before the creation.\<close>

definition thread_ready :: "rt_globals \<Rightarrow> addr \<Rightarrow> addr \<Rightarrow> addr \<Rightarrow> addr \<Rightarrow> mem \<Rightarrow> mem \<Rightarrow> bool" where
  "thread_ready g tcb stack thread_fn ctx m m' \<longleftrightarrow>
     peek m' (tcb - cia_tls_image_size g) (unat (cia_tls_image_size g)) =
       peek m (cia_tls_image_base g) (unat (cia_tls_image_size g))
     \<and> load32 m' (tcb_state_finish tcb) = Inr 1
     \<and> load32 m' (tcb_state_detach tcb) = Inr LD_THREAD_STATE_NOT_YET
     \<and> load32 m' (tcb_is_cancelled tcb) = Inr 0
     \<and> load64 m' (tcb_stack_canary tcb) = Inr 0x12345678deadbeef
     \<and> load64 m' (tcb_next tcb) = Inr 0
     \<and> load64 m' (tcb_prev tcb) = Inr (thread_blocks_head g)
     \<and> load64 m' (stack - 24) = Inr thread_fn \<and> load64 m' (stack - 16) = Inr ctx
     \<and> (thread_blocks_head g \<noteq> 0 \<longrightarrow> load64 m' (tcb_next (thread_blocks_head g)) = Inr tcb)
     \<and> (\<forall>x. m x \<noteq> None \<longrightarrow> \<not> in_range x (tcb_next (thread_blocks_head g)) 8 \<longrightarrow> m' x = m x)"

text \<open>The writes, over a region at \<open>b\<close> of \<open>l\<close> bytes with the control block at offset \<open>t\<close>.\<close>

definition region_writes :: "rt_globals \<Rightarrow> addr \<Rightarrow> nat \<Rightarrow> nat \<Rightarrow> addr \<Rightarrow> addr \<Rightarrow> addr \<Rightarrow> mem \<Rightarrow> mem" where
  "region_writes g b l t ret_addr thread_fn ctx m =
     (let n = unat (cia_tls_image_size g);
          m1 = poke m (region_at b (t - n)) (peek m (cia_tls_image_base g) n);
          m2 = poke m1 (region_at b (t + 0x28)) (le_bytes 8 (0x12345678deadbeef :: u64));
          m3 = poke m2 (region_at b (t + 0x30)) (le_bytes 8 (0 :: u64));
          m4 = poke m3 (region_at b (t + 0x38)) (le_bytes 8 (thread_blocks_head g));
          m5 = poke m4 (region_at b (t + 0x40)) (le_bytes 4 (0 :: u32));
          m6 = (if thread_blocks_head g = 0 then m5
                else poke m5 (tcb_next (thread_blocks_head g)) (le_bytes 8 (region_at b t)));
          m7 = poke m6 (region_at b (t + 4)) (le_bytes 4 (1 :: u32));
          m8 = poke m7 (region_at b (l - 8)) (le_bytes 8 ret_addr);
          m9 = poke m8 (region_at b (l - 16)) (le_bytes 8 ctx)
      in poke m9 (region_at b (l - 24)) (le_bytes 8 thread_fn))"

lemma region_at_arith:
  "region_at b i + of_nat j = region_at b (i + j)"
  "j \<le> i \<Longrightarrow> region_at b i - of_nat j = region_at b (i - j)"
  by (simp_all add: region_at_def of_nat_diff)

lemma tcb_fields_region:
  "tcb_state_finish (region_at b t) = region_at b (t + 4)"
  "tcb_state_detach (region_at b t) = region_at b (t + 8)"
  "tcb_stack_canary (region_at b t) = region_at b (t + 0x28)"
  "tcb_next (region_at b t) = region_at b (t + 0x30)"
  "tcb_prev (region_at b t) = region_at b (t + 0x38)"
  "tcb_is_cancelled (region_at b t) = region_at b (t + 0x40)"
  by (simp_all add: tcb_state_finish_def tcb_state_detach_def tcb_stack_canary_def tcb_next_def
      tcb_prev_def tcb_is_cancelled_def region_at_def)

lemma fresh_zeroed_load32:
  assumes "fresh_zeroed b l m m0" "j + 4 \<le> l"
  shows "load32 m0 (region_at b j) = Inr 0"
proof -
  have l: "unat b + l < 2 ^ 64" using assms(1) by (simp add: fresh_zeroed_def)
  have z: "m0 x = Some 0" if "in_range x (region_at b j) 4" for x
    using region_in_range [OF that assms(2) l] assms(1) by (simp add: fresh_zeroed_def)
  then have "mapped m0 (region_at b j) 4" by (simp add: mapped_def)
  moreover have "peek m0 (region_at b j) 4 = replicate 4 0"
    by (rule nth_equalityI) (simp_all add: nth_peek z in_range_offset)
  ultimately show ?thesis by (simp add: load32_mapped numeral_eq_Suc)
qed

lemma thread_ready_region:
  assumes f: "fresh_zeroed b l m m0" and t: "unat (cia_tls_image_size g) \<le> t" "t + 4096 \<le> l"
    and i: "mapped m (cia_tls_image_base g) (unat (cia_tls_image_size g))"
    and h: "thread_blocks_head g \<noteq> 0 \<longrightarrow> mapped m (tcb_next (thread_blocks_head g)) 8"
  shows "thread_ready g (region_at b t) (region_at b l) thread_fn ctx m
    (region_writes g b l t ret_addr thread_fn ctx m0)"
proof -
  let ?n = "unat (cia_tls_image_size g)" and ?h = "tcb_next (thread_blocks_head g)"
  have l: "unat b + l < 2 ^ 64" using f by (simp add: fresh_zeroed_def)
  have mb: "mapped m0 b l" using f by (rule fresh_zeroed_mapped) simp
  note D = region_disj [OF l]
  have H: "disj_range ?h 8 (region_at b j) k" "disj_range (region_at b j) k ?h 8"
    if "thread_blocks_head g \<noteq> 0" "j + k \<le> l" for j k
  proof -
    have "disj_range ?h 8 b l"
      using fresh_zeroed_disjoint [OF f] h that(1) by simp
    then show "disj_range ?h 8 (region_at b j) k"
      unfolding disj_range_def using region_in_range [OF _ that(2) l] by blast
    then show "disj_range (region_at b j) k ?h 8" by (rule disj_range_sym)
  qed
  have M: "mapped m0 (region_at b j) k" if "j + k \<le> l" for j k using mb l that by (rule region_mapped)
  have Mh: "mapped m0 ?h 8" if "thread_blocks_head g \<noteq> 0"
    using fresh_zeroed_old_mapped [OF f] h that by simp
  have len: "24 \<le> l" "16 \<le> l" using t(2) by simp_all
  have st: "region_at b l - 24 = region_at b (l - 24)" "region_at b l - 16 = region_at b (l - 16)"
    using region_at_arith(2) [OF len(1), of b] region_at_arith(2) [OF len(2), of b] by simp_all
  have tls: "region_at b t - cia_tls_image_size g = region_at b (t - ?n)"
    using region_at_arith(2) [OF t(1), of b] by simp
  have n64: "?n \<le> 2 ^ 64" by (rule less_imp_le) (use unat_less_u64 in simp)
  have img: "peek m0 (cia_tls_image_base g) ?n = peek m (cia_tls_image_base g) ?n"
    using i by (intro peek_cong n64) (auto dest: mappedD intro: fresh_zeroed_old [OF f])
  define bs where "bs = peek m (cia_tls_image_base g) ?n"
  have bs: "length bs = ?n" by (simp add: bs_def)
  have detach: "load32 m0 (region_at b (t + 8)) = Inr 0" using f by (rule fresh_zeroed_load32) (use t in simp)
  have same: "peek (poke m1 (region_at b (t - ?n)) bs) (region_at b (t - ?n)) ?n = bs" for m1
    using peek_poke_same [of bs m1 "region_at b (t - ?n)"] n64 by (simp add: bs)
  have old: "poke m1 (region_at b j) cs x = m1 x" if "m x \<noteq> None" "j + length cs \<le> l" for m1 j cs x
  proof (rule poke_out)
    have "\<not> in_range x b l" using f that(1) by (auto simp: fresh_zeroed_def)
    then show "\<not> in_range x (region_at b j) (length cs)" using region_in_range [OF _ that(2) l] by blast
  qed
  obtain u where u: "l = u + 24" using len(1) by (metis le_add_diff_inverse2)
  obtain v where v: "t = v + ?n" using t(1) by (metis le_add_diff_inverse2)
  have uv: "v + ?n + 4072 \<le> u" using t(2) by (simp add: u v)
  note S = mem_simps D [unfolded u] H [unfolded u] M [unfolded u] Mh length_le_bytes bs
  show ?thesis
    unfolding thread_ready_def tcb_fields_region st tls region_writes_def Let_def img bs_def [symmetric]
    using uv n64 by (cases "thread_blocks_head g = 0")
      (simp_all add: u v S same [unfolded v, simplified] n64 detach [unfolded v] LD_THREAD_STATE_NOT_YET_def old [unfolded u] poke_out fresh_zeroed_old [OF f])
qed

lemma page_round_dvd: "page_size dvd n \<Longrightarrow> page_round n = n"
  by (elim dvdE) (simp add: page_round_def page_size_def)

lemma rt_thread_create_clones:
  assumes K: "mmap_documented K" and S: "cia_stack_size g = 2 ^ k" "12 \<le> k" "k \<le> 46"
    and mm: "sys_mmap K 0 (2 * cia_stack_size g) (PROT_READ OR PROT_WRITE)
      (MAP_PRIVATE OR MAP_ANONYMOUS OR MAP_NORESERVE) (-1) 0 w = (b, w0)" "\<not> errno_result b"
    and n: "unat (cia_tls_image_size g) \<le> 2 ^ k" "unat (cia_tls_image_size g) < 2 ^ 31"
    and i: "mapped (mem w) (cia_tls_image_base g) (unat (cia_tls_image_size g))"
    and h: "thread_blocks_head g \<noteq> 0 \<longrightarrow> mapped (mem w) (tcb_next (thread_blocks_head g)) 8"
  obtains t where "tcb_of_stack g (b + 2 * cia_stack_size g) = region_at b t"
    "2 ^ k \<le> t" "t + 4096 \<le> 2 * 2 ^ k" "2 ^ k dvd unat (region_at b t)"
    "fresh_zeroed b (2 * 2 ^ k) (mem w) (mem w0)"
    "rt_thread_create K ret_addr g thread_fn ctx w =
      (case syscall K SYS_clone [thread_clone_flags, region_at b (2 * 2 ^ k - 24), region_at b t, region_at b (t + 4), 0]
          (w0\<lparr>mem := region_writes g b (2 * 2 ^ k) t ret_addr thread_fn ctx (mem w0)\<rparr>) of (ret, w') \<Rightarrow>
        Inr ((if ret <s 0 then RT_ERROR_GENERIC else RT_STATUS_OK, Some (region_at b t)),
          g\<lparr>thread_blocks_head := region_at b t\<rparr>, w'))"
proof -
  let ?l = "2 * 2 ^ k :: nat" and ?n = "unat (cia_tls_image_size g)" and ?h = "tcb_next (thread_blocks_head g)"
  have u2: "unat (2 * cia_stack_size g) = ?l"
  proof -
    have "2 * cia_stack_size g = 2 ^ Suc k" by (simp add: S(1))
    then show ?thesis using unat_pow2 [of "Suc k"] S(3) by simp
  qed
  have rnd: "page_round ?l = ?l"
  proof (rule page_round_dvd)
    have "(2 :: nat) ^ 12 dvd 2 ^ k" using S(2) by (rule le_imp_power_dvd)
    then show "page_size dvd ?l" by (simp add: page_size_def)
  qed
  have pos: "0 < 2 * cia_stack_size g" using u2 by (simp add: word_less_nat_alt)
  note fz = mmap_noreserveD [OF K pos mm, unfolded u2 rnd]
  have f: "fresh_zeroed b ?l (mem w) (mem w0)" and pg: "page_size dvd unat b" using fz by simp_all
  have b: "unat b + ?l \<le> 2 ^ 47" "0 < unat b" using f by (simp_all add: fresh_zeroed_def)
  obtain t where t: "tcb_of_stack g (b + 2 * cia_stack_size g) = region_at b t"
    "2 ^ k \<le> t" "t + 4096 \<le> ?l" "2 ^ k dvd unat (region_at b t)"
    using tcb_of_stack_offset [OF S pg b] .
  have l: "unat b + ?l < 2 ^ 64" using b by simp
  have top: "b + 2 * cia_stack_size g = region_at b ?l"
    unfolding region_at_def using u2 by (metis of_nat_unat_u64)
  have len: "24 \<le> ?l" using t(3) by linarith
  have st: "region_at b ?l - 24 = region_at b (?l - 24)"
    using region_at_arith(2) [OF len, of b] by simp
  have st8: "region_at b ?l - 16 = region_at b (?l - 16)" "region_at b ?l - 8 = region_at b (?l - 8)"
    using region_at_arith(2) [of 16 ?l b] region_at_arith(2) [of 8 ?l b] len by simp_all
  have nt: "?n \<le> t" using n(1) t(2) by linarith
  have tls: "region_at b t - cia_tls_image_size g = region_at b (t - ?n)"
    using region_at_arith(2) [OF nt, of b] by simp
  have M: "mapped (mem w0) (region_at b j) c" if "j + c \<le> ?l" for j c
    using fresh_zeroed_mapped [OF f order.refl] l that by (rule region_mapped)
  have Mh: "mapped (mem w0) (tcb_next (thread_blocks_head g)) 8" if "thread_blocks_head g \<noteq> 0"
    using fresh_zeroed_old_mapped [OF f] h that by simp
  have fwd: "fwd_ok (region_at b (t - ?n)) (cia_tls_image_base g) ?n"
  proof (rule fwd_okI_disj)
    have j: "t - ?n + ?n \<le> ?l" using nt t(3) by linarith
    have d: "disj_range (cia_tls_image_base g) ?n b ?l" using fresh_zeroed_disjoint [OF f i] .
    show "disj_range (region_at b (t - ?n)) ?n (cia_tls_image_base g) ?n"
      unfolding disj_range_def
    proof (intro allI notI, elim conjE)
      fix x assume "in_range x (region_at b (t - ?n)) ?n" and x: "in_range x (cia_tls_image_base g) ?n"
      then have "in_range x b ?l" using j l by (blast intro: region_in_range)
      with d x show False by (auto simp: disj_range_def)
    qed
  qed (use n(2) in simp)
  have copy: "tls_copy_loop (region_at b (t - ?n)) (cia_tls_image_base g) (cia_tls_image_size g) 0 (mem w0) =
      Inr (poke (mem w0) (region_at b (t - ?n)) (peek (mem w0) (cia_tls_image_base g) ?n))"
    by (rule tls_copy_loop_copies [OF fresh_zeroed_old_mapped [OF f i] _ fwd n(2)]) (rule M, use nt t in linarith)
  have nneg: "\<not> b <s 0" 
  proof -
    have "sint (of_nat (unat b) :: i64) = int (unat b)" using b(1) by (intro sint_small) simp
    then show ?thesis by (simp add: word_sless_alt)
  qed
  show ?thesis
  proof (rule that [OF t f])
    show "rt_thread_create K ret_addr g thread_fn ctx w =
      (case syscall K SYS_clone [thread_clone_flags, region_at b (?l - 24), region_at b t, region_at b (t + 4), 0]
          (w0\<lparr>mem := region_writes g b ?l t ret_addr thread_fn ctx (mem w0)\<rparr>) of (ret, w') \<Rightarrow>
        Inr ((if ret <s 0 then RT_ERROR_GENERIC else RT_STATUS_OK, Some (region_at b t)),
          g\<lparr>thread_blocks_head := region_at b t\<rparr>, w'))"
      using t(3) nt len
      by (cases "thread_blocks_head g = 0")
       (simp_all add: rt_thread_create_def mm(1) nneg t(1) [unfolded top] top st st8 tls copy Let_def tcb_fields_region M Mh
         write64_mapped write32_mapped rt_thread_start_def region_writes_def tcb_thread_id_def split: prod.splits)
  qed
qed

lemma tcb_of_frame_stack:
  assumes "cia_stack_size g = 2 ^ k" "k < 64" "2 ^ k dvd unat tcb" "unat tcb \<le> unat f" "unat f < unat tcb + 2 ^ k"
  shows "tcb_of_frame g f = tcb"
proof -
  obtain c where c: "unat tcb = 2 ^ k * c" using assms(3) by (rule dvdE)
  have "unat f div 2 ^ k = c"
    using assms(4,5) by (intro div_nat_eqI) (simp_all add: c algebra_simps)
  then have "unat (tcb_of_frame g f) = unat tcb"
    unfolding tcb_of_frame_def assms(1) clear_low_bits [OF assms(2)] by (simp add: c)
  then show ?thesis by (simp add: word_unat_eq_iff)
qed

section \<open>Properties\<close>

text \<open>Creating a thread.  With a stack size that is a power of two of at least a page, and a
  thread-local image that fits, the call of \<open>clone\<close> finds everything in place: the control block
  lies in the fresh region at the base of the stack, all its fields are initialised, the image is
  copied right below it, the child's stack holds its function and argument, and of the memory
  mapped before only the link field of the newest block has changed.  Every frame address on that
  stack leads back to the block.\<close>

theorem rt_thread_create_ready:
  assumes "mmap_documented K" "cia_stack_size g = 2 ^ k" "12 \<le> k" "k \<le> 46"
    and "sys_mmap K 0 (2 * cia_stack_size g) (PROT_READ OR PROT_WRITE)
      (MAP_PRIVATE OR MAP_ANONYMOUS OR MAP_NORESERVE) (-1) 0 w = (b, w0)" "\<not> errno_result b"
    and "unat (cia_tls_image_size g) \<le> 2 ^ k" "unat (cia_tls_image_size g) < 2 ^ 31"
    and "mapped (mem w) (cia_tls_image_base g) (unat (cia_tls_image_size g))"
    and "thread_blocks_head g \<noteq> 0 \<longrightarrow> mapped (mem w) (tcb_next (thread_blocks_head g)) 8"
  shows "\<exists>tcb stack w1. rt_thread_create K ret_addr g thread_fn ctx w =
      (case syscall K SYS_clone [thread_clone_flags, stack - 24, tcb_thread_id tcb, tcb_state_finish tcb, 0] w1 of
        (ret, w') \<Rightarrow> Inr ((if ret <s 0 then RT_ERROR_GENERIC else RT_STATUS_OK, Some tcb),
          g\<lparr>thread_blocks_head := tcb\<rparr>, w'))
    \<and> thread_ready g tcb stack thread_fn ctx (mem w) (mem w1)
    \<and> unat b + 2 ^ k \<le> unat tcb \<and> unat tcb + 4096 \<le> unat stack \<and> unat stack = unat b + 2 * 2 ^ k
    \<and> (\<forall>f. unat tcb \<le> unat f \<and> unat f < unat stack \<longrightarrow> tcb_of_frame g f = tcb)"
proof -
  obtain t where t: "2 ^ k \<le> t" "t + 4096 \<le> 2 * 2 ^ k" "2 ^ k dvd unat (region_at b t)"
    and f: "fresh_zeroed b (2 * 2 ^ k) (mem w) (mem w0)"
    and c: "rt_thread_create K ret_addr g thread_fn ctx w =
      (case syscall K SYS_clone [thread_clone_flags, region_at b (2 * 2 ^ k - 24), region_at b t, region_at b (t + 4), 0]
          (w0\<lparr>mem := region_writes g b (2 * 2 ^ k) t ret_addr thread_fn ctx (mem w0)\<rparr>) of (ret, w') \<Rightarrow>
        Inr ((if ret <s 0 then RT_ERROR_GENERIC else RT_STATUS_OK, Some (region_at b t)),
          g\<lparr>thread_blocks_head := region_at b t\<rparr>, w'))"
    using rt_thread_create_clones [OF assms] by blast
  let ?stack = "region_at b (2 * 2 ^ k)"
  have n: "unat (cia_tls_image_size g) \<le> t" using assms(7) t(1) by linarith
  have "unat b + 2 * 2 ^ k \<le> 2 ^ 47" using f by (simp add: fresh_zeroed_def)
  then have u: "unat (region_at b t) = unat b + t" "unat ?stack = unat b + 2 * 2 ^ k"
    using t(2) by (simp_all add: unat_region_at)
  have len: "24 \<le> (2 * 2 ^ k :: nat)" using t(2) by linarith
  have st: "?stack - 24 = region_at b (2 * 2 ^ k - 24)"
    using region_at_arith(2) [OF len, of b] by simp
  have frames: "tcb_of_frame g x = region_at b t" if "unat (region_at b t) \<le> unat x" "unat x < unat ?stack" for x
    using assms(4) t that by (intro tcb_of_frame_stack [OF assms(2)]) (simp_all add: u)
  show ?thesis
    by (rule exI [of _ "region_at b t"], rule exI [of _ ?stack],
        rule exI [of _ "w0\<lparr>mem := region_writes g b (2 * 2 ^ k) t ret_addr thread_fn ctx (mem w0)\<rparr>"])
      (use c frames thread_ready_region [OF f n t(2) assms(9,10)] t u in
        \<open>simp add: st tcb_thread_id_def tcb_fields_region\<close>)
qed

section \<open>Witnesses\<close>

text \<open>Stacks of one page, no thread-local image, no thread yet.\<close>

definition one_page_stacks :: rt_globals where
  "one_page_stacks = \<lparr>cia_stack_size = 0x1000, cia_tls_image_size = 0, cia_tls_image_base = 0, thread_blocks_head = 0\<rparr>"

lemma bump_start_mmap_two:
  "sys_mmap bump_kernel 0 0x2000 prot flags fd off bump_start =
     (0x10000, \<lparr>mem = (\<lambda>x. if in_range x 0x10000 8192 then Some 0 else None), os = 0x12000\<rparr>)"
  using page_round_dvd [of 8192]
  by (simp add: sys_mmap_def syscall_def bump_kernel_def bump_start_def Let_def
      list_all_iff page_size_def fun_eq_iff)

theorem rt_thread_create_ready_witness:
  "\<exists>tcb stack w1. thread_ready one_page_stacks tcb stack 0x500 0x600 Map.empty (mem (w1 :: addr world)) \<and> unat stack = 0x12000"
proof -
  have "sys_mmap bump_kernel 0 (2 * cia_stack_size one_page_stacks) (PROT_READ OR PROT_WRITE)
      (MAP_PRIVATE OR MAP_ANONYMOUS OR MAP_NORESERVE) (-1) 0 bump_start =
     (0x10000, \<lparr>mem = (\<lambda>x. if in_range x 0x10000 8192 then Some 0 else None), os = 0x12000\<rparr>)"
    using bump_start_mmap_two by (simp add: one_page_stacks_def)
  from rt_thread_create_ready [OF bump_kernel_mmap_documented _ _ _ this, of 12 0 "0x500" "0x600"]
  show ?thesis
    by (auto simp: one_page_stacks_def bump_start_def errno_result_def page_size_def)
qed

end
