(* ===== verification/Thread_Start.thy ===== *)
theory Thread_Start
  imports Threads
begin

text \<open>
  The other side of \<open>clone\<close>: the part of \<open>arch/sysv_x86-64/thread-entry.asm\<close> after the system call, and
  the life of a new thread from there to its end.
\<close>

section \<open>After the system call\<close>

text \<open>
  The child pops its function and argument, aligns the stack, and calls \<open>_rt_thread_setup\<close> and
  \<open>_rt_thread_finish\<close>.  A call pushes the address after it, \<open>ret_setup\<close> or \<open>ret_finish\<close>; the frame of the function
  called begins one word lower, where it saves \<open>rbp\<close>.  Behind the second call is \<open>hlt\<close>, which no process may execute.
\<close>

definition rt_thread_start_child ::
  "'k kernel \<Rightarrow> rt_globals \<Rightarrow> (addr \<Rightarrow> addr \<Rightarrow> 'k world \<Rightarrow> (i32 \<times> 'k world) res) \<Rightarrow> addr \<Rightarrow> addr \<Rightarrow> addr \<Rightarrow> 'k world \<Rightarrow> 'a res" where
  "rt_thread_start_child K g call ret_setup ret_finish rsp w =
     bind_res (load64 (mem w) rsp) (\<lambda>thread_fn.
     bind_res (load64 (mem w) (rsp + 8)) (\<lambda>ctx.
     let rsp = (rsp + 16) AND -16 in
     bind_res (write64 (rsp - 8) ret_setup w) (\<lambda>w.
     bind_res (rt_thread_setup call thread_fn ctx w) (\<lambda>(exit_code, w).
     bind_res (write64 (rsp - 8) ret_finish w) (\<lambda>w.
     bind_res (rt_thread_finish K g (rsp - 16) exit_code w) (\<lambda>_. Inl (Undefined RunsOffEnd)))))))"

text \<open>Only the low half of the result tells the child from the creator, which returns the result.\<close>

definition rt_thread_start_after ::
  "'k kernel \<Rightarrow> rt_globals \<Rightarrow> (addr \<Rightarrow> addr \<Rightarrow> 'k world \<Rightarrow> (i32 \<times> 'k world) res) \<Rightarrow> addr \<Rightarrow> addr \<Rightarrow> i64 \<Rightarrow> addr \<Rightarrow> 'k world \<Rightarrow>
    (i64 \<times> 'k world) res" where
  "rt_thread_start_after K g call ret_setup ret_finish rax rsp w =
     (if (ucast rax :: u32) \<noteq> 0 then Inr (rax, w)
      else rt_thread_start_child K g call ret_setup ret_finish rsp w)"

section \<open>The end of a thread\<close>

text \<open>What \<open>_rt_thread_finish\<close> does with the block it finds.\<close>

definition end_in_block :: "'k kernel \<Rightarrow> addr \<Rightarrow> i32 \<Rightarrow> 'k world \<Rightarrow> 'a res" where
  "end_in_block K tcb exit_code w =
     bind_res (loop_res (detach_wait_loop K tcb w)) (\<lambda>w.
     bind_res (write32 (tcb_exit_code tcb) exit_code w) (\<lambda>_. Inl (Exited exit_code)))"

lemma rt_thread_finish_ends:
  "bind_res (rt_thread_finish K g frame exit_code w) f = end_in_block K (tcb_of_frame g frame) exit_code w"
  by (auto simp: rt_thread_finish_def end_in_block_def Let_def bind_res_def split: sum.splits prod.splits)

lemma end_in_block_joined:
  assumes "load32 (mem w) (tcb_state_detach tcb) = Inr st" "st \<noteq> LD_THREAD_STATE_NOT_YET" "mapped (mem w) (tcb_exit_code tcb) 4"
  shows "end_in_block K tcb exit_code w = Inl (Exited exit_code)"
  using assms by (simp add: end_in_block_def detach_wait_loop.simps loop_res_def write32_mapped)

section \<open>The stack of the child\<close>

lemma align_down_16:
  fixes s :: u64
  assumes "16 dvd unat s" "16 \<le> unat s"
  shows "(s - 8) AND -16 = s - 16"
proof (rule word_unat_eq_iff [THEN iffD2])
  obtain c where c: "unat s = 16 * c" using assms(1) by (rule dvdE)
  have "unat (s - 8) = unat s - 8" "unat (s - 16) = unat s - 16"
    using assms(2) by (simp_all add: unat_sub_le word_le_nat_alt)
  moreover have "(- 16 :: u64) = NOT (2 ^ 4 - 1)" by simp
  ultimately have "unat ((s - 8) AND -16) = (unat s - 8) div 16 * 16" "unat (s - 16) = unat s - 16"
    using clear_low_bits [of 4 "s - 8"] by simp_all
  then show "unat ((s - 8) AND -16) = unat (s - 16)" unfolding c using assms(2) by (cases c) (simp_all add: c)
qed

lemma rt_thread_start_child_runs:
  assumes s: "16 dvd unat stack" "4096 \<le> unat stack"
    and l: "load64 (mem w) (stack - 24) = Inr thread_fn" "load64 (mem w) (stack - 16) = Inr ctx"
    and f: "tcb_of_frame g (stack - 32) = tcb"
  shows "rt_thread_start_child K g call ret_setup ret_finish (stack - 24) w =
    bind_res (call thread_fn ctx (w\<lparr>mem := poke (mem w) (stack - 24) (le_bytes 8 ret_setup)\<rparr>)) (\<lambda>(exit_code, w).
      bind_res (write64 (stack - 24) ret_finish w) (end_in_block K tcb exit_code))"
proof -
  have a: "stack - 24 + 16 = stack - 8" "stack - 24 + 8 = stack - 16"
    "stack - 16 - 8 = stack - 24" "stack - 16 - 16 = stack - 32" by simp_all
  moreover have "(stack - 8) AND -16 = stack - 16" using align_down_16 [OF s(1)] s(2) by simp
  moreover have "mapped (mem w) (stack - 24) 8" using l(1) by (rule load64_InrD)
  ultimately show ?thesis
    by (simp add: rt_thread_start_child_def Let_def l f rt_thread_setup_def write64_mapped rt_thread_finish_ends)
qed

section \<open>Properties\<close>

text \<open>C24: the life of a thread.  Creating a thread prepares its block and stack and calls \<open>clone\<close>.  The child, in which the
  call returns 0 and which finds the two words on its stack as they were written, calls its function with its context
  and, when that returns, waits in the very block that the creator holds as its handle for the decision to join or
  detach, stores the value returned there and ends with it.\<close>

theorem new_thread_runs_its_function:
  fixes w :: "'k world"
  assumes "mmap_documented K" "cia_stack_size g = 2 ^ k" "12 \<le> k" "k \<le> 46"
    and "sys_mmap K 0 (2 * cia_stack_size g) (PROT_READ OR PROT_WRITE)
      (MAP_PRIVATE OR MAP_ANONYMOUS OR MAP_NORESERVE) (-1) 0 w = (b, w0)" "\<not> errno_result b"
    and "unat (cia_tls_image_size g) \<le> 2 ^ k" "unat (cia_tls_image_size g) < 2 ^ 31"
    and "mapped (mem w) (cia_tls_image_base g) (unat (cia_tls_image_size g))"
    and "thread_blocks_head g \<noteq> 0 \<longrightarrow> mapped (mem w) (tcb_next (thread_blocks_head g)) 8"
  shows "\<exists>tcb stack w1. rt_thread_create K ret_addr g thread_fn ctx w =
      (case syscall K SYS_clone [thread_clone_flags, stack - 24, tcb_thread_id tcb, tcb_state_finish tcb, 0] w1 of
        (ret, w') \<Rightarrow> Inr ((if ret <s 0 then RT_ERROR_GENERIC else RT_STATUS_OK, Some tcb),
          g\<lparr>thread_blocks_head := tcb\<rparr>, w'))
    \<and> thread_ready g tcb stack thread_fn ctx (mem w) (mem w1)
    \<and> (\<forall>h (v :: 'k world). (\<forall>x. in_range x (stack - 24) 16 \<longrightarrow> mem v x = mem w1 x) \<longrightarrow>
        rt_thread_start_after K (g\<lparr>thread_blocks_head := h\<rparr>) call ret_setup ret_finish 0 (stack - 24) v =
          bind_res (call thread_fn ctx (v\<lparr>mem := poke (mem v) (stack - 24) (le_bytes 8 ret_setup)\<rparr>)) (\<lambda>(exit_code, v).
            bind_res (write64 (stack - 24) ret_finish v) (end_in_block K tcb exit_code)))"
proof -
  obtain tcb stack w1 where t: "rt_thread_create K ret_addr g thread_fn ctx w =
      (case syscall K SYS_clone [thread_clone_flags, stack - 24, tcb_thread_id tcb, tcb_state_finish tcb, 0] w1 of
        (ret, w') \<Rightarrow> Inr ((if ret <s 0 then RT_ERROR_GENERIC else RT_STATUS_OK, Some tcb),
          g\<lparr>thread_blocks_head := tcb\<rparr>, w'))"
    and r: "thread_ready g tcb stack thread_fn ctx (mem w) (mem w1)"
    and u: "unat b + 2 ^ k \<le> unat tcb" "unat tcb + 4096 \<le> unat stack" "unat stack = unat b + 2 * 2 ^ k"
    and f: "\<forall>f. unat tcb \<le> unat f \<and> unat f < unat stack \<longrightarrow> tcb_of_frame g f = tcb"
    using rt_thread_create_ready [OF assms] by blast
  have al: "16 dvd unat stack"
  proof -
    have pos: "0 < 2 * cia_stack_size g"
    proof -
      have "2 * cia_stack_size g = 2 ^ Suc k" by (simp add: assms(2))
      then have "unat (2 * cia_stack_size g) = 2 ^ Suc k" using unat_pow2 [of "Suc k"] assms(4) by simp
      then show ?thesis by (simp add: word_less_nat_alt)
    qed
    have "page_size dvd unat b" using mmap_noreserveD [OF assms(1) pos assms(5,6)] by blast
    then have "16 dvd unat b" by (rule dvd_trans [rotated]) (simp add: page_size_def)
    moreover have "(2 :: nat) ^ 4 dvd 2 ^ k" using assms(3) by (intro le_imp_power_dvd) simp
    ultimately show ?thesis unfolding u(3) by simp
  qed
  have s: "4096 \<le> unat stack" using u(2) by simp
  have fr: "tcb_of_frame (g\<lparr>thread_blocks_head := h\<rparr>) (stack - 32) = tcb" for h
  proof -
    have "unat (stack - 32) = unat stack - 32" using s by (simp add: unat_sub_le word_le_nat_alt)
    then have "tcb_of_frame g (stack - 32) = tcb" using f u(2) by simp
    then show ?thesis by (simp add: tcb_of_frame_def)
  qed
  have words: "load64 (mem v) (stack - 24) = Inr thread_fn" "load64 (mem v) (stack - 16) = Inr ctx"
    if "\<forall>x. in_range x (stack - 24) 16 \<longrightarrow> mem v x = mem w1 x" for v :: "'k world"
  proof -
    have n: "unat (stack - 24) = unat stack - 24" "unat (stack - 16) = unat stack - 16"
      using s by (simp_all add: unat_sub_le word_le_nat_alt)
    have "in_range x (stack - 24) 16" if "in_range x (stack - 24) 8 \<or> in_range x (stack - 16) 8" for x
      using that s n less_imp_le [OF unat_less_u64, of stack] by (auto simp: in_range_iff)
    then have "load64 (mem v) (stack - 24) = load64 (mem w1) (stack - 24)" "load64 (mem v) (stack - 16) = load64 (mem w1) (stack - 16)"
      using that by (auto intro!: load64_cong)
    then show "load64 (mem v) (stack - 24) = Inr thread_fn" "load64 (mem v) (stack - 16) = Inr ctx"
      using r by (simp_all add: thread_ready_def)
  qed
  have "\<forall>h (v :: 'k world). (\<forall>x. in_range x (stack - 24) 16 \<longrightarrow> mem v x = mem w1 x) \<longrightarrow>
        rt_thread_start_after K (g\<lparr>thread_blocks_head := h\<rparr>) call ret_setup ret_finish 0 (stack - 24) v =
          bind_res (call thread_fn ctx (v\<lparr>mem := poke (mem v) (stack - 24) (le_bytes 8 ret_setup)\<rparr>)) (\<lambda>(exit_code, v).
            bind_res (write64 (stack - 24) ret_finish v) (end_in_block K tcb exit_code))"
    by (intro allI impI) (simp only: rt_thread_start_after_def rt_thread_start_child_runs [OF al s words fr] ucast_0 if_False simp_thms)
  with t r show ?thesis by blast
qed

text \<open>A thread function that ends the process with the sum of its address and its context.\<close>

theorem new_thread_runs_its_function_witness:
  "\<exists>tcb stack (w1 :: addr world). thread_ready one_page_stacks tcb stack 0x500 0x600 Map.empty (mem w1)
     \<and> rt_thread_start_after bump_kernel (one_page_stacks\<lparr>thread_blocks_head := tcb\<rparr>)
         (\<lambda>f c _. Inl (Exited (ucast (f + c)))) 0x700 0x708 0 (stack - 24) w1 = Inl (Exited 0xb00)"
proof -
  have mm: "sys_mmap bump_kernel 0 (2 * cia_stack_size one_page_stacks) (PROT_READ OR PROT_WRITE)
      (MAP_PRIVATE OR MAP_ANONYMOUS OR MAP_NORESERVE) (-1) 0 bump_start =
     (0x10000, \<lparr>mem = (\<lambda>x. if in_range x 0x10000 8192 then Some 0 else None), os = 0x12000\<rparr>)"
    using bump_start_mmap_two by (simp add: one_page_stacks_def)
  have h: "cia_stack_size one_page_stacks = 2 ^ 12" "(12 :: nat) \<le> 12" "(12 :: nat) \<le> 46" "\<not> errno_result 0x10000"
    "unat (cia_tls_image_size one_page_stacks) \<le> 2 ^ 12" "unat (cia_tls_image_size one_page_stacks) < 2 ^ 31"
    "mapped (mem bump_start) (cia_tls_image_base one_page_stacks) (unat (cia_tls_image_size one_page_stacks))"
    "thread_blocks_head one_page_stacks \<noteq> 0 \<longrightarrow> mapped (mem bump_start) (tcb_next (thread_blocks_head one_page_stacks)) 8"
    by (simp_all add: one_page_stacks_def errno_result_def page_size_def)
  show ?thesis
    using new_thread_runs_its_function [OF bump_kernel_mmap_documented h(1-3) mm h(4-8),
        of 0 "0x500" "0x600" "\<lambda>f c _. Inl (Exited (ucast (f + c)))" "0x700" "0x708"]
    by (auto simp: bump_start_def) metis
qed

end
