(* ===== verification/Thread_Join.thy ===== *)
theory Thread_Join
  imports Threads
begin

text \<open>
  The protocol between a thread that ends (\<open>_rt_thread_finish\<close>) and the thread that joins or
  detaches it (\<open>os/linux/tinyrt-threads.c\<close>): both interleaved at every access to the control block
  and at every entry to and return from the kernel.  A futex wait sleeps only when the word still
  has the expected value; the end of a thread clears \<open>state_finish\<close> and wakes one sleeper there
  (\<open>CLONE_CHILD_CLEARTID\<close>).  \<open>FUTEX_WAKE\<close> with the count 0, which \<open>join\<close> passes, wakes nobody by
  its documentation and one sleeper in the implementation of Linux: \<open>zero_wakes\<close> tells which.  A wait that a signal
  interrupts, which sends the sleeper back to its load, is not a step of this system.
\<close>

section \<open>The system\<close>

text \<open>The child between the return of its function, with the code it passes on, and its end.\<close>

datatype child_pc =
    Running
  | LoadDetach i32 \<comment> \<open>before the load of \<open>state_detach\<close>\<close>
  | WaitDetach i32 \<comment> \<open>read \<open>NOT_YET\<close>, before the futex call\<close>
  | AsleepDetach i32
  | StoreCode i32 \<comment> \<open>the loop is left\<close>
  | SysExit i32 \<comment> \<open>before the exit system call\<close>
  | Gone i32

datatype parent_pc =
    Deciding
  | WakeChild \<comment> \<open>\<open>join\<close> has stored \<open>JOINED\<close>\<close>
  | LoadFinish \<comment> \<open>before the load of \<open>state_finish\<close>\<close>
  | WaitFinish \<comment> \<open>read a value that is not 0, before the futex call\<close>
  | AsleepFinish
  | ReadCode \<comment> \<open>the loop is left\<close>
  | JoinReturned i32
  | Detached

record join_sys =
  js_detach :: u32
  js_finish :: u32
  js_code :: i32
  js_child :: child_pc
  js_parent :: parent_pc

definition join_start :: join_sys where
  "join_start = \<lparr>js_detach = LD_THREAD_STATE_NOT_YET, js_finish = 1, js_code = 0,
     js_child = Running, js_parent = Deciding\<rparr>"

text \<open>Who sleeps on a word that is woken.\<close>

definition wake_child :: "child_pc \<Rightarrow> child_pc" where
  "wake_child pc = (case pc of AsleepDetach c \<Rightarrow> LoadDetach c | _ \<Rightarrow> pc)"

definition wake_parent :: "parent_pc \<Rightarrow> parent_pc" where
  "wake_parent pc = (if pc = AsleepFinish then LoadFinish else pc)"

inductive child_step :: "join_sys \<Rightarrow> join_sys \<Rightarrow> bool" where
  returns: "js_child s = Running \<Longrightarrow> child_step s (s\<lparr>js_child := LoadDetach c\<rparr>)"
| load_detach: "js_child s = LoadDetach c \<Longrightarrow>
    child_step s (s\<lparr>js_child := if js_detach s = LD_THREAD_STATE_NOT_YET then WaitDetach c else StoreCode c\<rparr>)"
| wait_detach: "js_child s = WaitDetach c \<Longrightarrow>
    child_step s (s\<lparr>js_child := if js_detach s = LD_THREAD_STATE_NOT_YET then AsleepDetach c else LoadDetach c\<rparr>)"
| store_code: "js_child s = StoreCode c \<Longrightarrow> child_step s (s\<lparr>js_code := c, js_child := SysExit c\<rparr>)"
| sys_exit: "js_child s = SysExit c \<Longrightarrow>
    child_step s (s\<lparr>js_finish := 0, js_child := Gone c, js_parent := wake_parent (js_parent s)\<rparr>)"

inductive parent_step :: "bool \<Rightarrow> join_sys \<Rightarrow> join_sys \<Rightarrow> bool" for zero_wakes :: bool where
  join: "js_parent s = Deciding \<Longrightarrow>
    parent_step zero_wakes s (s\<lparr>js_detach := LD_THREAD_STATE_JOINED, js_parent := WakeChild\<rparr>)"
| wake: "js_parent s = WakeChild \<Longrightarrow>
    parent_step zero_wakes s (s\<lparr>js_parent := LoadFinish,
      js_child := if zero_wakes then wake_child (js_child s) else js_child s\<rparr>)"
| load_finish: "js_parent s = LoadFinish \<Longrightarrow>
    parent_step zero_wakes s (s\<lparr>js_parent := if js_finish s \<noteq> 0 then WaitFinish else ReadCode\<rparr>)"
| wait_finish: "js_parent s = WaitFinish \<Longrightarrow>
    parent_step zero_wakes s (s\<lparr>js_parent := if js_finish s = 0 then AsleepFinish else LoadFinish\<rparr>)"
| read_code: "js_parent s = ReadCode \<Longrightarrow> parent_step zero_wakes s (s\<lparr>js_parent := JoinReturned (js_code s)\<rparr>)"
| detach: "js_parent s = Deciding \<Longrightarrow>
    parent_step zero_wakes s (s\<lparr>js_detach := LD_THREAD_STATE_DETACHED, js_parent := Detached\<rparr>)"

definition join_step :: "bool \<Rightarrow> join_sys \<Rightarrow> join_sys \<Rightarrow> bool" where
  "join_step zero_wakes s s' \<longleftrightarrow> child_step s s' \<or> parent_step zero_wakes s s'"

inductive join_steps :: "bool \<Rightarrow> join_sys \<Rightarrow> join_sys \<Rightarrow> bool" for zero_wakes :: bool where
  none: "join_steps zero_wakes s s"
| more: "join_steps zero_wakes s s' \<Longrightarrow> join_step zero_wakes s' s'' \<Longrightarrow> join_steps zero_wakes s s''"

inductive_cases child_stepE: "child_step s s'"
inductive_cases parent_stepE: "parent_step zero_wakes s s'"

section \<open>The invariant\<close>

definition join_inv :: "join_sys \<Rightarrow> bool" where
  "join_inv s \<longleftrightarrow>
     (js_finish s = 0 \<longleftrightarrow> (\<exists>c. js_child s = Gone c))
     \<and> (\<forall>c. js_child s = SysExit c \<or> js_child s = Gone c \<longrightarrow> js_code s = c)
     \<and> (js_parent s = ReadCode \<longrightarrow> js_finish s = 0)
     \<and> (\<forall>c. js_parent s = JoinReturned c \<longrightarrow> js_child s = Gone c)
     \<and> (js_detach s = LD_THREAD_STATE_NOT_YET \<longleftrightarrow> js_parent s = Deciding)"

lemmas ld_states = LD_THREAD_STATE_NOT_YET_def LD_THREAD_STATE_DETACHED_def LD_THREAD_STATE_JOINED_def

lemma join_inv_start: "join_inv join_start"
  by (simp add: join_inv_def join_start_def)

lemma join_inv_child: "child_step s s' \<Longrightarrow> join_inv s \<Longrightarrow> join_inv s'"
  by (induction rule: child_step.induct) (auto simp: join_inv_def wake_parent_def)

lemma join_inv_parent: "parent_step z s s' \<Longrightarrow> join_inv s \<Longrightarrow> join_inv s'"
  by (induction rule: parent_step.induct)
    (auto simp: join_inv_def ld_states wake_child_def split: child_pc.splits)

lemma join_inv_steps: "join_steps z s s' \<Longrightarrow> join_inv s \<Longrightarrow> join_inv s'"
  by (induction rule: join_steps.induct) (auto simp: join_step_def intro: join_inv_child join_inv_parent)

lemma never_woken:
  assumes "join_steps z s s'" "js_child s = AsleepDetach c" "z \<longrightarrow> js_parent s = Detached" "join_inv s"
  shows "js_child s' = AsleepDetach c \<and> (z \<longrightarrow> js_parent s' = Detached) \<and> join_inv s'"
  using assms
proof (induction rule: join_steps.induct)
  case (none s)
  then show ?case by simp
next
  case (more s s' s'')
  then have IH: "js_child s' = AsleepDetach c" "z \<longrightarrow> js_parent s' = Detached" "join_inv s'" by simp_all
  then have "parent_step z s' s''" using more.hyps(2) by (auto simp: join_step_def elim: child_stepE)
  then have "js_child s'' = AsleepDetach c \<and> (z \<longrightarrow> js_parent s'' = Detached)"
    using IH by (auto elim!: parent_stepE)
  with join_inv_parent [OF \<open>parent_step z s' s''\<close> IH(3)] show ?case by simp
qed

section \<open>Properties\<close>

text \<open>C25: when \<open>join\<close> returns, the child has made its exit system call, nothing of it runs any more
  on the stack and the control block, and the code returned is the one the child passed on.\<close>

theorem thread_join_returns_exit_code:
  assumes "join_steps zero_wakes join_start s" "js_parent s = JoinReturned c"
  shows "js_child s = Gone c \<and> \<not> child_step s s'"
  using join_inv_steps [OF assms(1) join_inv_start] assms(2)
  by (auto simp: join_inv_def elim: child_stepE)

text \<open>C26: \<open>join\<close> can sleep for ever.  It waits for the value 0, the value the kernel stores when the
  child ends: if the child ends between the load of \<open>state_finish\<close> and the futex call, the wait finds
  0, sleeps, and nobody is left to wake it, whatever a wake with the count 0 does.\<close>

theorem thread_join_can_sleep_forever:
  "\<exists>s. join_steps zero_wakes join_start s \<and> js_parent s = AsleepFinish
    \<and> js_child s = Gone c \<and> (\<nexists>s'. join_step zero_wakes s s')"
proof (intro exI conjI)
  let ?s = "\<lambda>det fin code ch par. \<lparr>js_detach = det, js_finish = fin, js_code = code, js_child = ch, js_parent = par\<rparr>"
  let ?J = LD_THREAD_STATE_JOINED
  have "join_steps zero_wakes join_start (?s 0 1 0 (LoadDetach c) Deciding)"
    by (rule join_steps.more [OF join_steps.none]) (use child_step.returns [of join_start c] in \<open>simp add: join_step_def join_start_def ld_states\<close>)
  then have "join_steps zero_wakes join_start (?s ?J 1 0 (LoadDetach c) WakeChild)"
    by (rule join_steps.more) (use parent_step.join [of "?s 0 1 0 (LoadDetach c) Deciding"] in \<open>simp add: join_step_def\<close>)
  then have "join_steps zero_wakes join_start (?s ?J 1 0 (LoadDetach c) LoadFinish)"
    by (rule join_steps.more) (use parent_step.wake [of "?s ?J 1 0 (LoadDetach c) WakeChild" zero_wakes] in \<open>simp add: join_step_def wake_child_def cong: if_cong\<close>)
  then have "join_steps zero_wakes join_start (?s ?J 1 0 (LoadDetach c) WaitFinish)"
    by (rule join_steps.more) (use parent_step.load_finish [of "?s ?J 1 0 (LoadDetach c) LoadFinish"] in \<open>simp add: join_step_def\<close>)
  then have "join_steps zero_wakes join_start (?s ?J 1 0 (StoreCode c) WaitFinish)"
    by (rule join_steps.more) (use child_step.load_detach [of "?s ?J 1 0 (LoadDetach c) WaitFinish"] in \<open>simp add: join_step_def ld_states\<close>)
  then have "join_steps zero_wakes join_start (?s ?J 1 c (SysExit c) WaitFinish)"
    by (rule join_steps.more) (use child_step.store_code [of "?s ?J 1 0 (StoreCode c) WaitFinish"] in \<open>simp add: join_step_def\<close>)
  then have "join_steps zero_wakes join_start (?s ?J 0 c (Gone c) WaitFinish)"
    by (rule join_steps.more) (use child_step.sys_exit [of "?s ?J 1 c (SysExit c) WaitFinish"] in \<open>simp add: join_step_def wake_parent_def\<close>)
  then show "join_steps zero_wakes join_start (?s ?J 0 c (Gone c) AsleepFinish)"
    by (rule join_steps.more) (use parent_step.wait_finish [of "?s ?J 0 c (Gone c) WaitFinish"] in \<open>simp add: join_step_def\<close>)
  show "\<nexists>s'. join_step zero_wakes (?s ?J 0 c (Gone c) AsleepFinish) s'"
    by (auto simp: join_step_def elim: child_stepE parent_stepE)
qed simp_all

text \<open>C27: the wake of the child is missing.  A child that sleeps in \<open>_rt_thread_finish\<close> is never woken
  by \<open>detach\<close>, nor by \<open>join\<close> where a wake with the count 0 wakes nobody; from then on it never ends and
  \<open>join\<close> never returns.\<close>

theorem thread_finish_never_woken:
  assumes "join_steps zero_wakes join_start s" "js_child s = AsleepDetach c"
    and "zero_wakes \<longrightarrow> js_parent s = Detached" "join_steps zero_wakes s s'"
  shows "js_child s' = AsleepDetach c \<and> js_parent s' \<noteq> JoinReturned d"
  using never_woken [OF assms(4,2,3) join_inv_steps [OF assms(1) join_inv_start]]
  by (auto simp: join_inv_def)

section \<open>Witnesses\<close>

text \<open>The child ends after the parent has decided, with code 7.\<close>

lemma join_run:
  "join_steps z join_start
    \<lparr>js_detach = LD_THREAD_STATE_JOINED, js_finish = 0, js_code = 7, js_child = Gone 7, js_parent = JoinReturned 7\<rparr>"
proof -
  let ?s = "\<lambda>det fin code ch par. \<lparr>js_detach = det, js_finish = fin, js_code = code, js_child = ch, js_parent = par\<rparr>"
  let ?J = LD_THREAD_STATE_JOINED
  have "join_steps z join_start (?s ?J 1 0 Running WakeChild)"
    by (rule join_steps.more [OF join_steps.none]) (use parent_step.join [of join_start] in \<open>simp add: join_step_def join_start_def\<close>)
  then have "join_steps z join_start (?s ?J 1 0 Running LoadFinish)"
    by (rule join_steps.more) (use parent_step.wake [of "?s ?J 1 0 Running WakeChild" z] in \<open>simp add: join_step_def wake_child_def cong: if_cong\<close>)
  then have "join_steps z join_start (?s ?J 1 0 (LoadDetach 7) LoadFinish)"
    by (rule join_steps.more) (use child_step.returns [of "?s ?J 1 0 Running LoadFinish" 7] in \<open>simp add: join_step_def\<close>)
  then have "join_steps z join_start (?s ?J 1 0 (StoreCode 7) LoadFinish)"
    by (rule join_steps.more) (use child_step.load_detach [of "?s ?J 1 0 (LoadDetach 7) LoadFinish"] in \<open>simp add: join_step_def ld_states\<close>)
  then have "join_steps z join_start (?s ?J 1 7 (SysExit 7) LoadFinish)"
    by (rule join_steps.more) (use child_step.store_code [of "?s ?J 1 0 (StoreCode 7) LoadFinish"] in \<open>simp add: join_step_def\<close>)
  then have "join_steps z join_start (?s ?J 0 7 (Gone 7) LoadFinish)"
    by (rule join_steps.more) (use child_step.sys_exit [of "?s ?J 1 7 (SysExit 7) LoadFinish"] in \<open>simp add: join_step_def wake_parent_def\<close>)
  then have "join_steps z join_start (?s ?J 0 7 (Gone 7) ReadCode)"
    by (rule join_steps.more) (use parent_step.load_finish [of "?s ?J 0 7 (Gone 7) LoadFinish"] in \<open>simp add: join_step_def\<close>)
  then show ?thesis
    by (rule join_steps.more) (use parent_step.read_code [of "?s ?J 0 7 (Gone 7) ReadCode"] in \<open>simp add: join_step_def\<close>)
qed

theorem thread_join_returns_exit_code_witness:
  "\<exists>s. join_steps False join_start s \<and> js_parent s = JoinReturned 7 \<and> js_child s = Gone 7"
  using thread_join_returns_exit_code [OF join_run, of 7] join_run [of False] by fastforce

text \<open>The child ends before the parent decides.\<close>

lemma asleep_run:
  "join_steps z join_start
    \<lparr>js_detach = LD_THREAD_STATE_NOT_YET, js_finish = 1, js_code = 0, js_child = AsleepDetach 7, js_parent = Deciding\<rparr>"
proof -
  let ?s = "\<lambda>ch. \<lparr>js_detach = LD_THREAD_STATE_NOT_YET, js_finish = 1, js_code = 0, js_child = ch, js_parent = Deciding\<rparr>"
  have "join_steps z join_start (?s (LoadDetach 7))"
    by (rule join_steps.more [OF join_steps.none]) (use child_step.returns [of join_start 7] in \<open>simp add: join_step_def join_start_def\<close>)
  then have "join_steps z join_start (?s (WaitDetach 7))"
    by (rule join_steps.more) (use child_step.load_detach [of "?s (LoadDetach 7)"] in \<open>simp add: join_step_def\<close>)
  then show ?thesis
    by (rule join_steps.more) (use child_step.wait_detach [of "?s (WaitDetach 7)"] in \<open>simp add: join_step_def\<close>)
qed

theorem thread_finish_never_woken_witness:
  "\<exists>s. join_steps True join_start s \<and> js_parent s = Detached \<and> js_child s = AsleepDetach 7 \<and> js_parent s \<noteq> JoinReturned 0"
proof -
  let ?s = "\<lambda>det par. \<lparr>js_detach = det, js_finish = 1, js_code = 0, js_child = AsleepDetach 7, js_parent = par\<rparr>"
  have r: "join_steps True join_start (?s LD_THREAD_STATE_DETACHED Detached)"
    by (rule join_steps.more [OF asleep_run])
      (use parent_step.detach [of "?s LD_THREAD_STATE_NOT_YET Deciding" True] in \<open>simp add: join_step_def\<close>)
  show ?thesis
    using thread_finish_never_woken [OF r _ _ join_steps.none, of 7 0] r by (intro exI [of _ "?s LD_THREAD_STATE_DETACHED Detached"]) simp
qed

end
