(* ===== verification/Loader_Print.thy ===== *)
theory Loader_Print
  imports Fmt
begin

text \<open>
  The printers of \<open>loader/loader.h\<close>, by which the loader reports errors.  They write to descriptor 1
  and ignore what the kernel answers.  The locals of the calls lie at \<open>frame\<close>: the 20 bytes of a
  number printer, a character at offset 24, and the 256 bytes of \<open>printf\<close> at offset 32.  The variants
  named \<open>_dbg_\<close> are empty in a build without \<open>_CIA_LD_DEBUG\<close>, which is the one modelled.
\<close>

definition STDOUT_FILENO :: u32 where "STDOUT_FILENO = 1"

definition ld_print_string_n :: "'k kernel \<Rightarrow> addr \<Rightarrow> u64 \<Rightarrow> 'k world \<Rightarrow> 'k world" where
  "ld_print_string_n K str len w = snd (sys_write K STDOUT_FILENO str len w)"

definition ld_print_char :: "'k kernel \<Rightarrow> addr \<Rightarrow> u8 \<Rightarrow> 'k world \<Rightarrow> 'k world res" where
  "ld_print_char K frame c w =
     bind_res (lift_mem w (store8 (mem w) (frame + 24) c)) (\<lambda>w. Inr (ld_print_string_n K (frame + 24) 1 w))"

definition ld_print_string :: "'k kernel \<Rightarrow> addr \<Rightarrow> 'k world \<Rightarrow> 'k world res" where
  "ld_print_string K str w =
     bind_res (loop_res (str_len_loop (mem w) str 0)) (\<lambda>n. Inr (ld_print_string_n K str (scast n) w))"

definition ld_print_uint :: "'k kernel \<Rightarrow> addr \<Rightarrow> u64 \<Rightarrow> 'k world \<Rightarrow> 'k world res" where
  "ld_print_uint K frame number w =
     bind_res (init_buf frame (mem w)) (\<lambda>m.
     bind_res (digits_loop frame (buf_size - 1) number m) (\<lambda>(i, m).
       ld_print_string K (frame + of_nat i) (w\<lparr>mem := m\<rparr>)))"

definition ld_print_int :: "'k kernel \<Rightarrow> addr \<Rightarrow> i64 \<Rightarrow> 'k world \<Rightarrow> 'k world res" where
  "ld_print_int K frame number w =
     bind_res (if number <s 0 then ld_print_char K frame 45 w else Inr w) (\<lambda>w.
     bind_res (if number <s 0 then sub_i64 0 number else Inr number) (\<lambda>number.
       ld_print_uint K frame number w))"

text \<open>Here the prefix \<open>0x\<close> is a string literal of its own, at the address \<open>prefix\<close>.\<close>

definition ld_print_hex :: "'k kernel \<Rightarrow> addr \<Rightarrow> addr \<Rightarrow> u64 \<Rightarrow> 'k world \<Rightarrow> 'k world res" where
  "ld_print_hex K prefix frame number w =
     bind_res (ld_print_string K prefix w) (\<lambda>w.
     bind_res (init_buf frame (mem w)) (\<lambda>m.
     bind_res (hex_loop frame number 0 (buf_size - 1) m) (\<lambda>(i, m).
       ld_print_string K (frame + of_nat i) (w\<lparr>mem := m\<rparr>))))"

text \<open>The inner loop of \<open>printf\<close>: \<open>buf_i != sizeof str_buf - 1\<close>, counted up from 0.\<close>

function ld_span_loop :: "addr \<Rightarrow> addr \<Rightarrow> nat \<Rightarrow> mem \<Rightarrow> (addr \<times> nat \<times> mem) res" where
  "ld_span_loop str_buf fmt buf_i m =
     bind_res (load8 m fmt) (\<lambda>c.
       if c \<noteq> 37 \<and> c \<noteq> 0 \<and> buf_i < 255
       then bind_res (store8 m (str_buf + of_nat buf_i) c) (\<lambda>m'. ld_span_loop str_buf (fmt + 1) (Suc buf_i) m')
       else Inr (fmt, buf_i, m))"
  by pat_completeness auto
termination
  by (relation "measure (\<lambda>(str_buf, fmt, buf_i, m). 255 - buf_i)") auto

declare ld_span_loop.simps [simp del]

text \<open>The character after a percent sign: d, u, x, s, c, or one that prints nothing.\<close>

definition ld_conversion ::
  "'k kernel \<Rightarrow> addr \<Rightarrow> addr \<Rightarrow> u8 \<Rightarrow> u64 list \<Rightarrow> 'k world \<Rightarrow> (u64 list \<times> 'k world) res" where
  "ld_conversion K prefix frame c args w =
     (if c = 100 then bind_res (va_arg args) (\<lambda>(a, as). bind_res (ld_print_int K frame a w) (\<lambda>w. Inr (as, w)))
      else if c = 117 then bind_res (va_arg args) (\<lambda>(a, as). bind_res (ld_print_uint K frame a w) (\<lambda>w. Inr (as, w)))
      else if c = 120 then bind_res (va_arg args) (\<lambda>(a, as). bind_res (ld_print_hex K prefix frame a w) (\<lambda>w. Inr (as, w)))
      else if c = 115 then bind_res (va_arg args) (\<lambda>(a, as). bind_res (ld_print_string K a w) (\<lambda>w. Inr (as, w)))
      else if c = 99 then bind_res (va_arg args) (\<lambda>(a, as). bind_res (ld_print_char K frame (ucast a) w) (\<lambda>w. Inr (as, w)))
      else Inr (args, w))"

partial_function (option) ld_printf_loop ::
  "'k kernel \<Rightarrow> addr \<Rightarrow> addr \<Rightarrow> addr \<Rightarrow> u64 list \<Rightarrow> 'k world \<Rightarrow> 'k world res option" where
  "ld_printf_loop K prefix frame fmt args w =
     (case load8 (mem w) fmt of
        Inl e \<Rightarrow> Some (Inl e)
      | Inr c0 \<Rightarrow>
          if c0 = 0 then Some (Inr w)
          else case bind_res (ld_span_loop (frame + 32) fmt 0 (mem w)) (\<lambda>(fmt, buf_i, m).
                      bind_res (store8 m (frame + 32 + of_nat buf_i) 0) (\<lambda>m.
                        let w = ld_print_string_n K (frame + 32) (of_nat buf_i) (w\<lparr>mem := m\<rparr>)
                        in bind_res (load8 (mem w) fmt) (\<lambda>c.
                             if c = 37
                             then bind_res (load8 (mem w) (fmt + 1)) (\<lambda>c'.
                                    bind_res (ld_conversion K prefix frame c' args w) (\<lambda>(args, w).
                                      Inr (fmt + 2, args, w)))
                             else Inr (fmt, args, w)))) of
                 Inl e \<Rightarrow> Some (Inl e)
               | Inr (fmt', args', w') \<Rightarrow> ld_printf_loop K prefix frame fmt' args' w')"

text \<open>\<open>lit s\<close> is the address where the compiler has put the string literal \<open>s\<close>.\<close>

type_synonym literals = "string \<Rightarrow> addr"

definition ld_printf :: "'k kernel \<Rightarrow> literals \<Rightarrow> addr \<Rightarrow> addr \<Rightarrow> u64 list \<Rightarrow> 'k world \<Rightarrow> 'k world res" where
  "ld_printf K lit frame fmt args w = loop_res (ld_printf_loop K (lit ''0x'') frame fmt args w)"

text \<open>\<open>SYS_exit\<close> ends the calling thread.  The loader is the only thread of the process, so there the process ends with it.\<close>

definition sys_exit :: "'k kernel \<Rightarrow> i32 \<Rightarrow> 'k world \<Rightarrow> 'a res" where
  "sys_exit K code w = (case syscall K SYS_exit [scast code] w of (_, _) \<Rightarrow> Inl (Exited code))"

text \<open>\<open>printf\<close> of a message, then \<open>sys_exit(1)\<close>.\<close>

definition ld_fail :: "'k kernel \<Rightarrow> literals \<Rightarrow> addr \<Rightarrow> string \<Rightarrow> u64 list \<Rightarrow> 'k world \<Rightarrow> 'a res" where
  "ld_fail K lit frame msg args w =
     bind_res (ld_printf K lit frame (lit msg) args w) (\<lambda>w. sys_exit K 1 w)"

end
