(* ===== verification/Proc_Maps.thy ===== *)
theory Proc_Maps
  imports Loader_Print
begin

text \<open>
  \<open>loader/stack.c\<close>: a buffered reader and the parser of \<open>/proc/self/maps\<close> by which the loader finds
  the stack of the main thread.  The reader's buffer is an array in memory; its structure, a local
  of the one function that uses it, is passed and returned.
\<close>

section \<open>The reader\<close>

record File_Buffer =
  fb_fd :: i32
  fb_data :: addr
  fb_data_size :: u64
  fb_last_read_size :: u64
  fb_offset :: u64
  fb_last_char :: i32

record Stack_Info =
  si_stack_found :: bool
  si_start_addr :: u64
  si_end_addr :: u64
  si_flags :: u32

definition VM_READ :: u32 where "VM_READ = 0x00000001"
definition VM_WRITE :: u32 where "VM_WRITE = 0x00000002"
definition VM_EXEC :: u32 where "VM_EXEC = 0x00000004"
definition VM_SHARED :: u32 where "VM_SHARED = 0x00000008"

text \<open>\<open>buffer->data[i]\<close>; the array has \<open>data_size\<close> elements, so the write behind a full read is out of it.\<close>

definition data_store :: "File_Buffer \<Rightarrow> u64 \<Rightarrow> u8 \<Rightarrow> mem \<Rightarrow> mem res" where
  "data_store b i c m =
     (if i < fb_data_size b then store8 m (fb_data b + i) c else Inl (Undefined IndexOutOfBounds))"

text \<open>The read that refills the buffer: a result other than \<open>None\<close> is an early return.\<close>

definition refill :: "'k kernel \<Rightarrow> File_Buffer \<Rightarrow> 'k world \<Rightarrow> (i32 option \<times> File_Buffer \<times> 'k world) res" where
  "refill K b w =
     (if fb_last_read_size b \<le> fb_offset b then
        case sys_read K (ucast (fb_fd b)) (fb_data b) (fb_data_size b) w of (result, w) \<Rightarrow>
          if result <s 0 then Inr (Some (-1), b, w)
          else if result = 0 then Inr (Some (-1), b\<lparr>fb_last_char := -1\<rparr>, w)
          else bind_res (lift_mem w (data_store b (scast result) 0 (mem w))) (\<lambda>w.
                 Inr (None, b\<lparr>fb_last_read_size := scast result, fb_offset := 0\<rparr>, w))
      else Inr (None, b, w))"

text \<open>A \<open>char\<close> is signed: bytes from 128 become negative.\<close>

definition read_char :: "'k kernel \<Rightarrow> File_Buffer \<Rightarrow> 'k world \<Rightarrow> (i32 \<times> File_Buffer \<times> 'k world) res" where
  "read_char K b w =
     bind_res (refill K b w) (\<lambda>(early, b, w).
       case early of Some r \<Rightarrow> Inr (r, b, w) | None \<Rightarrow>
         bind_res (load8 (mem w) (fb_data b + fb_offset b)) (\<lambda>c.
           Inr (scast c, b\<lparr>fb_offset := fb_offset b + 1, fb_last_char := scast c\<rparr>, w)))"

section \<open>Numbers\<close>

definition char_is_hex :: "i32 \<Rightarrow> bool" where
  "char_is_hex ch \<longleftrightarrow> (48 \<le>s ch \<and> ch \<le>s 57) \<or> (97 \<le>s ch \<and> ch \<le>s 102) \<or> (65 \<le>s ch \<and> ch \<le>s 70)"

definition char_to_hex :: "i32 \<Rightarrow> i32" where
  "char_to_hex ch = (if ch \<le>s 57 then ch - 48 else ch - 97 + 10)"

definition char_is_dec :: "i32 \<Rightarrow> bool" where
  "char_is_dec ch \<longleftrightarrow> 48 \<le>s ch \<and> ch \<le>s 57"

text \<open>
  The loops of \<open>read_hex\<close> and \<open>read_dec\<close>, which differ in the test, the base and the value of a
  digit.  A read error leaves \<open>last_char\<close> as it is, so they may not end.
\<close>

partial_function (option) number_loop ::
  "(i32 \<Rightarrow> bool) \<Rightarrow> u64 \<Rightarrow> (i32 \<Rightarrow> i32) \<Rightarrow> 'k kernel \<Rightarrow> u64 \<Rightarrow> i32 \<Rightarrow> File_Buffer \<Rightarrow> 'k world \<Rightarrow>
    (u64 \<times> i32 \<times> File_Buffer \<times> 'k world) res option" where
  "number_loop is_digit base digit K result n_digits b w =
     (if \<not> is_digit (fb_last_char b) then Some (Inr (result, n_digits, b, w))
      else case read_char K b w of
             Inl e \<Rightarrow> Some (Inl e)
           | Inr (_, b', w') \<Rightarrow> (case inc_i32 n_digits of
               Inl e \<Rightarrow> Some (Inl e)
             | Inr n' \<Rightarrow> number_loop is_digit base digit K
                 (result * base + scast (digit (fb_last_char b))) n' b' w'))"

definition read_hex :: "'k kernel \<Rightarrow> File_Buffer \<Rightarrow> 'k world \<Rightarrow> (i32 \<times> u64 \<times> File_Buffer \<times> 'k world) res" where
  "read_hex K b w =
     bind_res (loop_res (number_loop char_is_hex 16 char_to_hex K 0 0 b w)) (\<lambda>(result, n_digits, b, w).
       Inr (if n_digits = 0 then -1 else 0, result, b, w))"

definition read_dec :: "'k kernel \<Rightarrow> File_Buffer \<Rightarrow> 'k world \<Rightarrow> (i32 \<times> u64 \<times> File_Buffer \<times> 'k world) res" where
  "read_dec K b w =
     bind_res (loop_res (number_loop char_is_dec 10 (\<lambda>ch. ch - 48) K 0 0 b w)) (\<lambda>(result, n_digits, b, w).
       Inr (if n_digits = 0 then -1 else 0, result, b, w))"

section \<open>The lines\<close>

text \<open>\<open>read_char\<close> called for its effect.\<close>

definition next_char :: "'k kernel \<Rightarrow> File_Buffer \<Rightarrow> 'k world \<Rightarrow> (File_Buffer \<times> 'k world) res" where
  "next_char K b w = bind_res (read_char K b w) (\<lambda>(_, b, w). Inr (b, w))"

text \<open>One of the four flag characters: the bit when it is there, then the next character.\<close>

definition read_flag ::
  "'k kernel \<Rightarrow> i32 \<Rightarrow> u32 \<Rightarrow> u32 \<Rightarrow> File_Buffer \<Rightarrow> 'k world \<Rightarrow> (u32 \<times> File_Buffer \<times> 'k world) res" where
  "read_flag K ch vm flags b w =
     (let flags = (if fb_last_char b = ch then flags OR vm else flags)
      in bind_res (next_char K b w) (\<lambda>(b, w). Inr (flags, b, w)))"

primrec skip_chars :: "'k kernel \<Rightarrow> nat \<Rightarrow> File_Buffer \<Rightarrow> 'k world \<Rightarrow> (File_Buffer \<times> 'k world) res" where
  "skip_chars K 0 b w = Inr (b, w)"
| "skip_chars K (Suc n) b w = bind_res (next_char K b w) (\<lambda>(b, w). skip_chars K n b w)"

partial_function (option) skip_spaces :: "'k kernel \<Rightarrow> File_Buffer \<Rightarrow> 'k world \<Rightarrow> (File_Buffer \<times> 'k world) res option" where
  "skip_spaces K b w =
     (if fb_last_char b = 32
      then (case next_char K b w of Inl e \<Rightarrow> Some (Inl e) | Inr (b', w') \<Rightarrow> skip_spaces K b' w')
      else Some (Inr (b, w)))"

text \<open>The name of a mapping, up to the end of the line or 256 characters (10 is the newline).\<close>

function read_name ::
  "'k kernel \<Rightarrow> nat \<Rightarrow> u8 list \<Rightarrow> File_Buffer \<Rightarrow> 'k world \<Rightarrow> (nat \<times> u8 list \<times> File_Buffer \<times> 'k world) res" where
  "read_name K name_len name_buf b w =
     (if name_len < 256 \<and> fb_last_char b \<noteq> 10 \<and> fb_last_char b \<noteq> -1
      then bind_res (array_write name_buf name_len (ucast (fb_last_char b))) (\<lambda>name_buf.
           bind_res (next_char K b w) (\<lambda>(b, w). read_name K (Suc name_len) name_buf b w))
      else Inr (name_len, name_buf, b, w))"
  by pat_completeness auto
termination
  by (relation "measure (\<lambda>(K, name_len, name_buf, b, w). 256 - name_len)") auto

declare read_name.simps [simp del]

text \<open>
  The fields of a line up to the inode: \<open>None\<close> is \<open>return -1\<close>.  The comment in the code counts 15
  characters of offset and device; the loop skips 16, the last one being the space before the inode.
\<close>

definition read_range ::
  "'k kernel \<Rightarrow> File_Buffer \<Rightarrow> 'k world \<Rightarrow> ((u64 \<times> u64) option \<times> File_Buffer \<times> 'k world) res" where
  "read_range K b w =
     bind_res (read_hex K b w) (\<lambda>(err, start_addr, b, w).
     if err \<noteq> 0 then Inr (None, b, w)
     else if fb_last_char b \<noteq> 45 then Inr (None, b, w)
     else bind_res (read_char K b w) (\<lambda>(r, b, w).
       if r <s 0 then Inr (None, b, w)
       else bind_res (read_hex K b w) (\<lambda>(err, end_addr, b, w).
         if err <s 0 then Inr (None, b, w)
         else bind_res (read_char K b w) (\<lambda>(r, b, w).
           if r <s 0 then Inr (None, b, w) else Inr (Some (start_addr, end_addr), b, w)))))"

definition read_flags :: "'k kernel \<Rightarrow> File_Buffer \<Rightarrow> 'k world \<Rightarrow> (u32 \<times> File_Buffer \<times> 'k world) res" where
  "read_flags K b w =
     bind_res (read_flag K 114 VM_READ 0 b w) (\<lambda>(flags, b, w).
     bind_res (read_flag K 119 VM_WRITE flags b w) (\<lambda>(flags, b, w).
     bind_res (read_flag K 120 VM_EXEC flags b w) (\<lambda>(flags, b, w).
       read_flag K 115 VM_SHARED flags b w)))"

text \<open>The comparison of the name: the \<open>continue\<close> in it belongs to the inner loop and has no effect.\<close>

primrec compare_name :: "u8 list \<Rightarrow> nat \<Rightarrow> unit res" where
  "compare_name name_buf 0 = Inr ()"
| "compare_name name_buf (Suc n) =
     bind_res (array_read name_buf (6 - n)) (\<lambda>_. compare_name name_buf n)"

text \<open>
  One turn of the loop: \<open>None\<close> is \<open>return -1\<close>, \<open>Some None\<close> the next turn, \<open>Some (Some info)\<close> the
  stack.  The array \<open>name_buf\<close> starts with arbitrary contents, here zeros, and is written before it is read.
\<close>

definition maps_line ::
  "'k kernel \<Rightarrow> File_Buffer \<Rightarrow> 'k world \<Rightarrow> (Stack_Info option option \<times> File_Buffer \<times> 'k world) res" where
  "maps_line K b w =
     bind_res (if fb_last_char b = 10 then next_char K b w else Inr (b, w)) (\<lambda>(b, w).
     bind_res (read_range K b w) (\<lambda>(range, b, w).
     case range of None \<Rightarrow> Inr (None, b, w) | Some (start_addr, end_addr) \<Rightarrow>
     bind_res (read_flags K b w) (\<lambda>(flags, b, w).
     bind_res (skip_chars K 16 b w) (\<lambda>(b, w).
     bind_res (read_dec K b w) (\<lambda>(err, inode, b, w).
     if err \<noteq> 0 then Inr (None, b, w)
     else if fb_last_char b = 10 \<or> fb_last_char b = -1 then Inr (Some None, b, w)
     else
       bind_res (loop_res (skip_spaces K b w)) (\<lambda>(b, w).
       bind_res (read_name K 0 (replicate 256 0) b w) (\<lambda>(name_len, name_buf, b, w).
       bind_res (array_write name_buf name_len 0) (\<lambda>name_buf.
       if name_len \<noteq> 7 then Inr (Some None, b, w)
       else bind_res (compare_name name_buf 7) (\<lambda>_.
         Inr (Some (Some \<lparr>si_stack_found = True, si_start_addr = start_addr, si_end_addr = end_addr,
                          si_flags = flags\<rparr>), b, w))))))))))"

partial_function (option) maps_loop ::
  "'k kernel \<Rightarrow> Stack_Info \<Rightarrow> File_Buffer \<Rightarrow> 'k world \<Rightarrow> (i32 \<times> Stack_Info \<times> 'k world) res option" where
  "maps_loop K info b w =
     (if fb_last_char b = -1 then Some (Inr (1, info, snd (sys_close K (ucast (fb_fd b)) w)))
      else case maps_line K b w of
             Inl e \<Rightarrow> Some (Inl e)
           | Inr (None, b', w') \<Rightarrow> Some (Inr (-1, info, w'))
           | Inr (Some None, b', w') \<Rightarrow> maps_loop K info b' w'
           | Inr (Some (Some found), b', w') \<Rightarrow>
               Some (Inr (0, found, snd (sys_close K (ucast (fb_fd b')) w'))))"

text \<open>
  \<open>frame\<close> is the address of \<open>line_buf\<close>, whose size is 1024.  The field \<open>last_char\<close> has no initial value;
  the first \<open>read_char\<close> sets it or ends the function.
\<close>

definition linux_read_stack_info ::
  "'k kernel \<Rightarrow> literals \<Rightarrow> addr \<Rightarrow> Stack_Info \<Rightarrow> 'k world \<Rightarrow> (i32 \<times> Stack_Info \<times> 'k world) res" where
  "linux_read_stack_info K lit frame info w =
     (case sys_open K (lit ''/proc/self/maps'') 0 O_RDONLY w of (fd, w) \<Rightarrow>
      if fd <s 0 then Inr (-1, info, w)
      else
        bind_res (read_char K \<lparr>fb_fd = fd, fb_data = frame, fb_data_size = 1024, fb_last_read_size = 0,
                               fb_offset = 0, fb_last_char = 0\<rparr> w) (\<lambda>(r, b, w).
        if r <s 0 then Inr (-1, info, w)
        else loop_res (maps_loop K info b w)))"

end
