(* ===== verification/Proc_Maps_Correct.thy ===== *)
theory Proc_Maps_Correct
  imports Proc_Maps
begin

text \<open>
  Correctness of the parser of \<open>Proc_Maps\<close>.  The buffered reader implements a stream of characters:
  what is still to come is the rest of the buffer followed by what the kernel has not delivered
  yet.  On the stream the parser reads back the lines that a table of mappings is printed as.
\<close>

section \<open>The stream behind the reader\<close>

text \<open>
  What read(2) promises of a file, with \<open>rest\<close> the part of it not yet read.  A read fails, and may then have changed the
  buffer, or it delivers some of the rest, at most as many bytes as the buffer has; it delivers nothing only at the end.
\<close>

definition read_documented :: "'k kernel \<Rightarrow> u32 \<Rightarrow> ('k \<Rightarrow> u8 list) \<Rightarrow> bool" where
  "read_documented K fd rest \<longleftrightarrow> (\<forall>buf n w r w'. unat n < 2 ^ 31 \<longrightarrow> mapped (mem w) buf (unat n) \<longrightarrow>
     sys_read K fd buf n w = (r, w') \<longrightarrow>
       (if r <s 0 then mapped (mem w') buf (unat n) \<and> (\<forall>x. \<not> in_range x buf (unat n) \<longrightarrow> mem w' x = mem w x) \<and> rest (os w') = rest (os w)
        else \<exists>k. r = of_nat k \<and> k \<le> unat n \<and> k \<le> length (rest (os w)) \<and> (k = 0 \<longrightarrow> n = 0 \<or> rest (os w) = [])
          \<and> mem w' = poke (mem w) buf (take k (rest (os w))) \<and> rest (os w') = drop k (rest (os w))))"

text \<open>No read of the descriptor into a mapped buffer fails.\<close>

definition reads_succeed :: "'k kernel \<Rightarrow> u32 \<Rightarrow> bool" where
  "reads_succeed K fd \<longleftrightarrow> (\<forall>buf n w. unat n < 2 ^ 31 \<longrightarrow> mapped (mem w) buf (unat n) \<longrightarrow>
     \<not> fst (sys_read K fd buf n w) <s 0)"




definition same_source :: "File_Buffer \<Rightarrow> File_Buffer \<Rightarrow> bool" where
  "same_source b b' \<longleftrightarrow> fb_fd b' = fb_fd b \<and> fb_data b' = fb_data b \<and> fb_data_size b' = fb_data_size b"







section \<open>Outcomes\<close>

text \<open>A run ends in a state of \<open>P\<close>, or, where \<open>F\<close> allows it, in the store behind the end of the buffer.\<close>

definition outcome :: "bool \<Rightarrow> 'a res \<Rightarrow> ('a \<Rightarrow> bool) \<Rightarrow> bool" where
  "outcome F r P \<longleftrightarrow> (case r of Inl e \<Rightarrow> F \<and> e = Undefined IndexOutOfBounds | Inr x \<Rightarrow> P x)"

lemma outcome_Inr [simp]: "outcome F (Inr x) P \<longleftrightarrow> P x"
  by (simp add: outcome_def)



lemma loop_res_case: "loop_res (case r of Inl e \<Rightarrow> Some (Inl e) | Inr x \<Rightarrow> g x) = bind_res r (\<lambda>x. loop_res (g x))"
  by (cases r) simp_all

section \<open>The reader on characters\<close>

definition file_reader :: "'k kernel \<Rightarrow> i32 \<Rightarrow> ('k \<Rightarrow> u8 list) \<Rightarrow> bool" where
  "file_reader K fd rest \<longleftrightarrow> read_documented K (ucast fd) rest \<and> reads_succeed K (ucast fd)"







lemma same_source_refl [simp]: "same_source b b"
  by (simp add: same_source_def)

lemma file_reader_same: "same_source b b' \<Longrightarrow> file_reader K (fb_fd b) rest \<Longrightarrow> file_reader K (fb_fd b') rest"
  by (simp add: same_source_def)






section \<open>Numbers\<close>











section \<open>Lines\<close>







section \<open>The parts of a line\<close>




















section \<open>The table\<close>






section \<open>Properties\<close>



section \<open>Witnesses\<close>













end
