(* ===== verification/Elf.thy ===== *)
theory Elf
  imports Memory
begin

text \<open>
  The part of \<open>include/bin/elf.h\<close> that the loader uses: the fields of the ELF structures as loads from
  the memory they are mapped to, with the offsets of the structures, and the constants.
\<close>

section \<open>Structures in memory\<close>

definition sizeof_Elf64_Sym :: u64 where "sizeof_Elf64_Sym = 24"
definition sizeof_Elf64_Rela :: u64 where "sizeof_Elf64_Rela = 24"
definition sizeof_Elf64_Dyn :: u64 where "sizeof_Elf64_Dyn = 16"
definition sizeof_Elf64_Aux :: u64 where "sizeof_Elf64_Aux = 16"

definition e_entry :: "mem \<Rightarrow> addr \<Rightarrow> u64 res" where "e_entry m eh = load64 m (eh + 24)"
definition e_phoff :: "mem \<Rightarrow> addr \<Rightarrow> u64 res" where "e_phoff m eh = load64 m (eh + 32)"
definition e_shoff :: "mem \<Rightarrow> addr \<Rightarrow> u64 res" where "e_shoff m eh = load64 m (eh + 40)"
definition e_phentsize :: "mem \<Rightarrow> addr \<Rightarrow> u16 res" where "e_phentsize m eh = load16 m (eh + 54)"
definition e_phnum :: "mem \<Rightarrow> addr \<Rightarrow> u16 res" where "e_phnum m eh = load16 m (eh + 56)"
definition e_shentsize :: "mem \<Rightarrow> addr \<Rightarrow> u16 res" where "e_shentsize m eh = load16 m (eh + 58)"
definition e_shnum :: "mem \<Rightarrow> addr \<Rightarrow> u16 res" where "e_shnum m eh = load16 m (eh + 60)"

definition sh_type :: "mem \<Rightarrow> addr \<Rightarrow> u32 res" where "sh_type m sh = load32 m (sh + 4)"

definition st_name :: "mem \<Rightarrow> addr \<Rightarrow> u32 res" where "st_name m s = load32 m s"
definition st_value :: "mem \<Rightarrow> addr \<Rightarrow> u64 res" where "st_value m s = load64 m (s + 8)"

text \<open>\<open>Elf64_Rel\<close> is a prefix of \<open>Elf64_Rela\<close>.\<close>

definition r_offset :: "mem \<Rightarrow> addr \<Rightarrow> u64 res" where "r_offset m rel = load64 m rel"
definition r_info :: "mem \<Rightarrow> addr \<Rightarrow> u64 res" where "r_info m rel = load64 m (rel + 8)"
definition r_addend :: "mem \<Rightarrow> addr \<Rightarrow> i64 res" where "r_addend m rela = load64 m (rela + 16)"

definition p_type :: "mem \<Rightarrow> addr \<Rightarrow> u32 res" where "p_type m ph = load32 m ph"
definition p_vaddr :: "mem \<Rightarrow> addr \<Rightarrow> u64 res" where "p_vaddr m ph = load64 m (ph + 16)"
definition p_memsz :: "mem \<Rightarrow> addr \<Rightarrow> u64 res" where "p_memsz m ph = load64 m (ph + 40)"

definition d_tag :: "mem \<Rightarrow> addr \<Rightarrow> i64 res" where "d_tag m d = load64 m d"
definition d_val :: "mem \<Rightarrow> addr \<Rightarrow> u64 res" where "d_val m d = load64 m (d + 8)"

text \<open>The type of an auxiliary entry is an \<open>int\<close>; its value is aligned to eight bytes.\<close>

definition a_type :: "mem \<Rightarrow> addr \<Rightarrow> i32 res" where "a_type m a = load32 m a"
definition a_val :: "mem \<Rightarrow> addr \<Rightarrow> i64 res" where "a_val m a = load64 m (a + 8)"

definition ELF64_R_SYM :: "u64 \<Rightarrow> u64" where "ELF64_R_SYM i = drop_bit 32 i"
definition ELF64_R_TYPE :: "u64 \<Rightarrow> u64" where "ELF64_R_TYPE i = i AND 0xffffffff"

section \<open>Constants\<close>

definition SHT_GNU_HASH :: u32 where "SHT_GNU_HASH = 0x6ffffff6"

definition R_X86_64_GLOB_DAT :: u32 where "R_X86_64_GLOB_DAT = 6"
definition R_X86_64_JUMP_SLOT :: u32 where "R_X86_64_JUMP_SLOT = 7"
definition R_X86_64_RELATIVE :: u32 where "R_X86_64_RELATIVE = 8"

definition PT_DYNAMIC :: u32 where "PT_DYNAMIC = 2"
definition PT_PHDR :: u32 where "PT_PHDR = 6"
definition PT_TLS :: u32 where "PT_TLS = 7"

text \<open>Tags and types are also array indices, so they are numbers here.\<close>

definition DT_NULL :: nat where "DT_NULL = 0"
definition DT_PLTRELSZ :: nat where "DT_PLTRELSZ = 2"
definition DT_PLTGOT :: nat where "DT_PLTGOT = 3"
definition DT_STRTAB :: nat where "DT_STRTAB = 5"
definition DT_SYMTAB :: nat where "DT_SYMTAB = 6"
definition DT_RELA :: nat where "DT_RELA = 7"
definition DT_RELASZ :: nat where "DT_RELASZ = 8"
definition DT_RELAENT :: nat where "DT_RELAENT = 9"
definition DT_REL :: nat where "DT_REL = 17"
definition DT_RELSZ :: nat where "DT_RELSZ = 18"
definition DT_RELENT :: nat where "DT_RELENT = 19"
definition DT_PLTREL :: nat where "DT_PLTREL = 20"
definition DT_JMPREL :: nat where "DT_JMPREL = 23"

definition AT_NULL :: nat where "AT_NULL = 0"
definition AT_PHDR :: nat where "AT_PHDR = 3"
definition AT_PHENT :: nat where "AT_PHENT = 4"
definition AT_PHNUM :: nat where "AT_PHNUM = 5"
definition AT_BASE :: nat where "AT_BASE = 7"
definition AT_EXECFN :: nat where "AT_EXECFN = 31"

lemmas elf_consts =
  DT_NULL_def DT_PLTRELSZ_def DT_PLTGOT_def DT_STRTAB_def DT_SYMTAB_def DT_RELA_def DT_RELASZ_def
  DT_RELAENT_def DT_REL_def DT_RELSZ_def DT_RELENT_def DT_PLTREL_def DT_JMPREL_def
  AT_NULL_def AT_PHDR_def AT_PHENT_def AT_PHNUM_def AT_BASE_def AT_EXECFN_def

end
