(* ===== verification/Loader_Reloc.thy ===== *)
theory Loader_Reloc
  imports Loader_Print Elf Threads
begin

text \<open>
  What the two stages of the loader share: the decoding of tables that the kernel and the linker
  have left in memory into arrays indexed by tag, the relocation of an image, and the two symbol
  hashes (\<open>loader/loader-self-reloc.c\<close>, \<open>loader/loader.c\<close>).  An array of the loader lies in memory at a
  given address, eight bytes an element.
\<close>

section \<open>Arrays indexed by tag\<close>

definition DYN_CNT :: nat where "DYN_CNT = 37"
definition AUX_CNT :: nat where "AUX_CNT = 32"

definition word_at :: "mem \<Rightarrow> addr \<Rightarrow> nat \<Rightarrow> u64 res" where
  "word_at m a i = load64 m (a + 8 * of_nat i)"

function zero_words_loop :: "addr \<Rightarrow> nat \<Rightarrow> nat \<Rightarrow> mem \<Rightarrow> mem res" where
  "zero_words_loop a n i m =
     (if i < n then bind_res (store64 m (a + 8 * of_nat i) 0) (\<lambda>m. zero_words_loop a n (Suc i) m)
      else Inr m)"
  by pat_completeness auto
termination
  by (relation "measure (\<lambda>(a, n, i, m). n - i)") auto

declare zero_words_loop.simps [simp del]

text \<open>The auxiliary vector; a negative type passes the signed test and is an index out of bounds.\<close>

function aux_loop :: "addr \<Rightarrow> addr \<Rightarrow> i32 \<Rightarrow> mem \<Rightarrow> mem res" where
  "aux_loop auxv aux i m =
     bind_res (a_type m (auxv + sizeof_Elf64_Aux * scast i)) (\<lambda>aux_type.
       if aux_type = of_nat AT_NULL then Inr m
       else bind_res (if aux_type <s of_nat AUX_CNT
                      then bind_res (a_val m (auxv + sizeof_Elf64_Aux * scast i)) (\<lambda>v.
                             if aux_type <s 0 then Inl (Undefined IndexOutOfBounds)
                             else store64 m (aux + 8 * scast aux_type) v)
                      else Inr m) (\<lambda>m.
            bind_res (inc_i32 i) (\<lambda>i. aux_loop auxv aux i m)))"
  by pat_completeness auto
termination
  by (relation "measure (\<lambda>(auxv, aux, i, m). nat (2 ^ 31 - sint i))")
    (simp, simp only: in_measure prod.case, rule inc_i32_measure)

text \<open>The dynamic section as \<open>ld_stage1_entry\<close> reads it: the tag is unsigned.\<close>

function dyn_loop :: "addr \<Rightarrow> addr \<Rightarrow> i32 \<Rightarrow> mem \<Rightarrow> mem res" where
  "dyn_loop dynv dyn i m =
     bind_res (d_tag m (dynv + sizeof_Elf64_Dyn * scast i)) (\<lambda>dyn_tag.
       if dyn_tag = of_nat DT_NULL then Inr m
       else bind_res (if dyn_tag < of_nat DYN_CNT
                      then bind_res (d_val m (dynv + sizeof_Elf64_Dyn * scast i)) (\<lambda>v.
                             store64 m (dyn + 8 * dyn_tag) v)
                      else Inr m) (\<lambda>m.
            bind_res (inc_i32 i) (\<lambda>i. dyn_loop dynv dyn i m)))"
  by pat_completeness auto
termination
  by (relation "measure (\<lambda>(dynv, dyn, i, m). nat (2 ^ 31 - sint i))")
    (simp, simp only: in_measure prod.case, rule inc_i32_measure)

text \<open>The same in \<open>ld_stage2_entry\<close>: the tag is signed, and element 0 collects the tags seen.\<close>

function dyn_loop_signed :: "addr \<Rightarrow> addr \<Rightarrow> i32 \<Rightarrow> mem \<Rightarrow> mem res" where
  "dyn_loop_signed dynv dyn i m =
     bind_res (d_tag m (dynv + sizeof_Elf64_Dyn * scast i)) (\<lambda>dyn_tag.
       if dyn_tag = of_nat DT_NULL then Inr m
       else bind_res (if dyn_tag <s of_nat DYN_CNT
                      then if dyn_tag <s 0 then Inl (Undefined ShiftOutOfRange)
                           else bind_res (load64 m dyn) (\<lambda>seen.
                                bind_res (store64 m dyn (seen OR push_bit (unat dyn_tag) 1)) (\<lambda>m.
                                bind_res (d_val m (dynv + sizeof_Elf64_Dyn * scast i)) (\<lambda>v.
                                  store64 m (dyn + 8 * dyn_tag) v)))
                      else Inr m) (\<lambda>m.
            bind_res (inc_i32 i) (\<lambda>i. dyn_loop_signed dynv dyn i m)))"
  by pat_completeness auto
termination
  by (relation "measure (\<lambda>(dynv, dyn, i, m). nat (2 ^ 31 - sint i))")
    (simp, simp only: in_measure prod.case, rule inc_i32_measure)

declare aux_loop.simps [simp del] dyn_loop.simps [simp del] dyn_loop_signed.simps [simp del]

section \<open>Relocation\<close>

definition message :: "string \<Rightarrow> string" where "message s = s @ [CHR 0x0A]"

text \<open>One entry with addend.  The symbol is read for every type; its name only serves debug output.\<close>

definition apply_rela ::
  "'k kernel \<Rightarrow> literals \<Rightarrow> addr \<Rightarrow> addr \<Rightarrow> addr \<Rightarrow> addr \<Rightarrow> 'k world \<Rightarrow> 'k world res" where
  "apply_rela K lit frame base symtab rela w =
     bind_res (r_offset (mem w) rela) (\<lambda>reloc_offs.
     bind_res (r_addend (mem w) rela) (\<lambda>addend.
     bind_res (r_info (mem w) rela) (\<lambda>info.
     let s = symtab + sizeof_Elf64_Sym * ELF64_R_SYM info; type = (ucast (ELF64_R_TYPE info) :: u32) in
     bind_res (st_value (mem w) s) (\<lambda>v.
     bind_res (st_name (mem w) s) (\<lambda>_.
       let sym_addr = base + v; reloc_addr = base + reloc_offs in
       if type = R_X86_64_GLOB_DAT then write64 reloc_addr sym_addr w
       else if type = R_X86_64_RELATIVE then write64 reloc_addr (base + addend) w
       else ld_fail K lit frame (message ''ERROR: unhandled relocation type: %d'') [ucast type] w)))))"

partial_function (option) rela_loop ::
  "'k kernel \<Rightarrow> literals \<Rightarrow> addr \<Rightarrow> addr \<Rightarrow> addr \<Rightarrow> addr \<Rightarrow> u64 \<Rightarrow> u64 \<Rightarrow> u64 \<Rightarrow> 'k world \<Rightarrow> 'k world res option" where
  "rela_loop K lit frame base symtab rela_ents rela_ent rela_size rela_offs w =
     (if rela_offs < rela_size
      then (case apply_rela K lit frame base symtab (rela_ents + rela_offs) w of
              Inl e \<Rightarrow> Some (Inl e)
            | Inr w' \<Rightarrow> rela_loop K lit frame base symtab rela_ents rela_ent rela_size (rela_offs + rela_ent) w')
      else Some (Inr w))"

text \<open>One entry of the jump table; other types than a jump slot are passed over.\<close>

definition apply_plt :: "addr \<Rightarrow> addr \<Rightarrow> addr \<Rightarrow> 'k world \<Rightarrow> 'k world res" where
  "apply_plt base symtab rela w =
     bind_res (r_offset (mem w) rela) (\<lambda>reloc_offs.
     bind_res (r_addend (mem w) rela) (\<lambda>_.
     bind_res (r_info (mem w) rela) (\<lambda>info.
       if (ucast (ELF64_R_TYPE info) :: u32) = R_X86_64_JUMP_SLOT
       then bind_res (st_value (mem w) (symtab + sizeof_Elf64_Sym * ucast (ucast (ELF64_R_SYM info) :: u32))) (\<lambda>v.
              write64 (base + reloc_offs) (base + v) w)
       else Inr w)))"

partial_function (option) plt_loop ::
  "addr \<Rightarrow> addr \<Rightarrow> addr \<Rightarrow> u64 \<Rightarrow> u64 \<Rightarrow> 'k world \<Rightarrow> 'k world res option" where
  "plt_loop base symtab rela_plt rela_size rela_offs w =
     (if rela_offs < rela_size
      then (case apply_plt base symtab (rela_plt + rela_offs) w of
              Inl e \<Rightarrow> Some (Inl e)
            | Inr w' \<Rightarrow> plt_loop base symtab rela_plt rela_size (rela_offs + sizeof_Elf64_Rela) w')
      else Some (Inr w))"

text \<open>The entries without addend in \<open>ld_stage1_entry\<close>: they are read and nothing else.\<close>

partial_function (option) rel_skip_loop :: "addr \<Rightarrow> u64 \<Rightarrow> u64 \<Rightarrow> u64 \<Rightarrow> mem \<Rightarrow> unit res option" where
  "rel_skip_loop rel_ents rel_ent rel_size rel_offs m =
     (if rel_offs < rel_size
      then (case r_offset m (rel_ents + rel_offs) of
              Inl e \<Rightarrow> Some (Inl e)
            | Inr _ \<Rightarrow> (case r_info m (rel_ents + rel_offs) of
                Inl e \<Rightarrow> Some (Inl e)
              | Inr _ \<Rightarrow> rel_skip_loop rel_ents rel_ent rel_size (rel_offs + rel_ent) m))
      else Some (Inr ()))"

text \<open>The table with addends and the jump table, which both stages treat alike.\<close>

definition relocate_rela ::
  "'k kernel \<Rightarrow> literals \<Rightarrow> addr \<Rightarrow> addr \<Rightarrow> addr \<Rightarrow> addr \<Rightarrow> 'k world \<Rightarrow> 'k world res" where
  "relocate_rela K lit frame base symtab dyn w =
     bind_res (word_at (mem w) dyn DT_RELA) (\<lambda>rela.
     if rela \<noteq> 0 then
       bind_res (word_at (mem w) dyn DT_RELAENT) (\<lambda>rela_ent.
       bind_res (word_at (mem w) dyn DT_RELASZ) (\<lambda>rela_size.
         loop_res (rela_loop K lit frame base symtab (base + rela) rela_ent rela_size 0 w)))
     else Inr w)"

definition relocate_plt ::
  "'k kernel \<Rightarrow> literals \<Rightarrow> addr \<Rightarrow> addr \<Rightarrow> addr \<Rightarrow> addr \<Rightarrow> 'k world \<Rightarrow> 'k world res" where
  "relocate_plt K lit frame base symtab dyn w =
     bind_res (word_at (mem w) dyn DT_PLTGOT) (\<lambda>pltgot.
     if pltgot \<noteq> 0 then
       bind_res (word_at (mem w) dyn DT_PLTREL) (\<lambda>pltrel.
       if pltrel = of_nat DT_REL
       then ld_fail K lit frame (message ''ERROR: .plt relocations of type REL not implemented'') [] w
       else
         bind_res (word_at (mem w) dyn DT_JMPREL) (\<lambda>jmprel.
         bind_res (word_at (mem w) dyn DT_PLTRELSZ) (\<lambda>rela_size.
           loop_res (plt_loop base symtab (base + jmprel) rela_size 0 w))))
     else Inr w)"

section \<open>Symbol hashes\<close>

text \<open>\<open>char c = s[i]\<close> is signed, so \<open>c\<close> is sign-extended when it is added.\<close>

function gnu_hash_loop :: "mem \<Rightarrow> addr \<Rightarrow> i32 \<Rightarrow> u32 \<Rightarrow> u32 res" where
  "gnu_hash_loop m s i h =
     bind_res (load8 m (s + scast i)) (\<lambda>c.
       if c = 0 then Inr h
       else bind_res (inc_i32 i) (\<lambda>i. gnu_hash_loop m s i (push_bit 5 h + h + scast c)))"
  by pat_completeness auto
termination
  by (relation "measure (\<lambda>(m, s, i, h). nat (2 ^ 31 - sint i))")
    (simp, simp only: in_measure prod.case, rule inc_i32_measure)

definition elf_sym_gnu_hash :: "mem \<Rightarrow> addr \<Rightarrow> u32 res" where
  "elf_sym_gnu_hash m name = gnu_hash_loop m name 0 5381"

definition sysv_hash_step :: "u64 \<Rightarrow> u8 \<Rightarrow> u64" where
  "sysv_hash_step h c =
     (let h = push_bit 4 h + ucast c; g = h AND 0xf0000000; h = (if g \<noteq> 0 then h XOR drop_bit 24 g else h)
      in h AND 0x0fffffff)"

function sysv_hash_loop :: "mem \<Rightarrow> addr \<Rightarrow> i32 \<Rightarrow> u64 \<Rightarrow> u64 res" where
  "sysv_hash_loop m s i h =
     bind_res (load8 m (s + scast i)) (\<lambda>c.
       if c = 0 then Inr h
       else bind_res (inc_i32 i) (\<lambda>i. sysv_hash_loop m s i (sysv_hash_step h c)))"
  by pat_completeness auto
termination
  by (relation "measure (\<lambda>(m, s, i, h). nat (2 ^ 31 - sint i))")
    (simp, simp only: in_measure prod.case, rule inc_i32_measure)

definition elf_sym_hash :: "mem \<Rightarrow> addr \<Rightarrow> u64 res" where
  "elf_sym_hash m name = sysv_hash_loop m name 0 0"

declare gnu_hash_loop.simps [simp del] sysv_hash_loop.simps [simp del]

end
