(* ===== verification/Loader.thy ===== *)
theory Loader
  imports Loader_Reloc Proc_Maps Arena
begin

text \<open>
  The dynamic loader: \<open>loader/loader-self-reloc.c\<close> (stage 1, relocates the loader itself),
  \<open>loader/loader.c\<close> (stage 2 relocates the program, stage 3 starts it on a new stack) and
  \<open>arch/sysv_x86-64/loader-trampoline.asm\<close>.  The stages run into one another and do not return.
  The entry point of the program is a parameter, \<open>crt_entry\<close>, called with its address.
\<close>

section \<open>State\<close>

text \<open>
  Where the compiler puts the locals whose addresses are used: the locals of the printers (one place
  for all calls, since every message but one is the last thing the loader does), the two \<open>dyn\<close> arrays,
  \<open>aux\<close>, the line reader, and the parameters of the program in the frame of stage 3, which depends on
  the stack pointer of that call.  \<open>fr_rsp\<close> is the stack pointer at the entry of the trampoline and
  \<open>fr_ret\<close> gives the code addresses after its two calls.
  The second \<open>dyn\<close> array is local to a block and read through \<open>app->dyn\<close> after the block has ended.  In C every such
  read is undefined.  \<open>fr_dyn2_kept\<close> says whether the compiled code leaves the array in place all the same, which the language
  does not promise.
\<close>

record ld_frames =
  fr_print :: addr
  fr_aux :: addr
  fr_dyn1 :: addr
  fr_dyn2 :: addr
  fr_dyn2_kept :: bool
  fr_line :: addr
  fr_params :: "addr \<Rightarrow> addr"
  fr_rsp :: addr
  fr_ret :: "u64 \<Rightarrow> addr"

record Loader_Info =
  li_sp :: addr
  li_ldso_base :: addr
  li_dyn :: addr
  li_aux :: addr

text \<open>Fields of an \<open>Elf_Image\<close>, which begins with an arena of 40 bytes, and of the \<open>Stage3_Info_Struct\<close>.\<close>

definition sizeof_Elf_Image :: u64 where "sizeof_Elf_Image = 112"
definition im_name :: "addr \<Rightarrow> addr" where "im_name p = p + 40"
definition im_base :: "addr \<Rightarrow> addr" where "im_base p = p + 48"
definition im_phdr :: "addr \<Rightarrow> addr" where "im_phdr p = p + 56"
definition im_ph_num :: "addr \<Rightarrow> addr" where "im_ph_num p = p + 64"
definition im_ph_ent :: "addr \<Rightarrow> addr" where "im_ph_ent p = p + 72"
definition im_dyn :: "addr \<Rightarrow> addr" where "im_dyn p = p + 104"

definition sizeof_Stage3_Info :: u64 where "sizeof_Stage3_Info = 48"
definition s3_app :: "addr \<Rightarrow> addr" where "s3_app p = p"
definition s3_ldso :: "addr \<Rightarrow> addr" where "s3_ldso p = p + 8"
definition s3_stack_base :: "addr \<Rightarrow> addr" where "s3_stack_base p = p + 16"
definition s3_stack_size :: "addr \<Rightarrow> addr" where "s3_stack_size p = p + 24"
definition s3_tls_image :: "addr \<Rightarrow> addr" where "s3_tls_image p = p + 32"
definition s3_tls_size :: "addr \<Rightarrow> addr" where "s3_tls_size p = p + 40"

definition KB :: u64 where "KB = 1024"
definition MB :: u64 where "MB = 1024 * KB"

definition O_CLOEXEC :: i32 where "O_CLOEXEC = 0x80000"
definition SYS_arch_prctl :: u64 where "SYS_arch_prctl = 158"
definition ARCH_SET_FS :: u64 where "ARCH_SET_FS = 0x1002"

section \<open>Program headers\<close>

text \<open>The headers from \<open>i\<close> on, with the header at \<open>phdr + i * ph_ent\<close>: the last and the first of a type.\<close>

function last_phdr :: "mem \<Rightarrow> addr \<Rightarrow> u64 \<Rightarrow> u64 \<Rightarrow> u32 \<Rightarrow> u64 \<Rightarrow> addr option \<Rightarrow> addr option res" where
  "last_phdr m phdr ph_ent ph_num type i found =
     (if i < ph_num
      then bind_res (p_type m (phdr + i * ph_ent)) (\<lambda>t.
             last_phdr m phdr ph_ent ph_num type (i + 1) (if t = type then Some (phdr + i * ph_ent) else found))
      else Inr found)"
  by pat_completeness auto
termination
  by (relation "measure (\<lambda>(m, phdr, ph_ent, ph_num, type, i, found). unat (ph_num - i))")
    (simp_all add: unat_count_step)

function first_phdr :: "mem \<Rightarrow> addr \<Rightarrow> u64 \<Rightarrow> u64 \<Rightarrow> u32 \<Rightarrow> u64 \<Rightarrow> addr option res" where
  "first_phdr m phdr ph_ent ph_num type i =
     (if i < ph_num
      then bind_res (p_type m (phdr + i * ph_ent)) (\<lambda>t.
             if t = type then Inr (Some (phdr + i * ph_ent))
             else first_phdr m phdr ph_ent ph_num type (i + 1))
      else Inr None)"
  by pat_completeness auto
termination
  by (relation "measure (\<lambda>(m, phdr, ph_ent, ph_num, type, i). unat (ph_num - i))")
    (simp_all add: unat_count_step)

text \<open>The base of the program from its own header entry: each match stores into the image.\<close>

function app_base_loop :: "addr \<Rightarrow> addr \<Rightarrow> u64 \<Rightarrow> u64 \<Rightarrow> addr \<Rightarrow> u64 \<Rightarrow> 'k world \<Rightarrow> 'k world res" where
  "app_base_loop aux phdr ph_ent ph_num app i w =
     (if i < ph_num
      then bind_res (p_type (mem w) (phdr + i * ph_ent)) (\<lambda>t.
           bind_res (if t = PT_PHDR
                     then bind_res (word_at (mem w) aux AT_PHDR) (\<lambda>at.
                          bind_res (p_vaddr (mem w) (phdr + i * ph_ent)) (\<lambda>v.
                            write64 (im_base app) (at - v) w))
                     else Inr w) (\<lambda>w. app_base_loop aux phdr ph_ent ph_num app (i + 1) w))
      else Inr w)"
  by pat_completeness auto
termination
  by (relation "measure (\<lambda>(aux, phdr, ph_ent, ph_num, app, i, w). unat (ph_num - i))")
    (simp_all add: unat_count_step)

declare last_phdr.simps [simp del] first_phdr.simps [simp del] app_base_loop.simps [simp del]

text \<open>The first header of thread-local storage of an image.\<close>

definition tls_phdr :: "mem \<Rightarrow> addr \<Rightarrow> addr option res" where
  "tls_phdr m app =
     bind_res (load64 m (im_ph_num app)) (\<lambda>ph_num.
     bind_res (load64 m (im_phdr app)) (\<lambda>phdr.
     bind_res (load64 m (im_ph_ent app)) (\<lambda>ph_ent.
       first_phdr m phdr ph_ent ph_num PT_TLS 0)))"

section \<open>Stage 3\<close>

text \<open>The loop that copies the image is the one of the thread library.\<close>

definition ld_copy_tls :: "addr \<Rightarrow> addr \<Rightarrow> addr \<Rightarrow> addr \<Rightarrow> 'k world \<Rightarrow> 'k world res" where
  "ld_copy_tls info app tcb ph_tls w =
     bind_res (load64 (mem w) (im_base app)) (\<lambda>base.
     bind_res (p_vaddr (mem w) ph_tls) (\<lambda>vaddr.
     bind_res (p_memsz (mem w) ph_tls) (\<lambda>tls_image_size.
     bind_res (tls_copy_loop (tcb - tls_image_size) (base + vaddr) tls_image_size 0 (mem w)) (\<lambda>m.
       write64 (s3_tls_image info) (base + vaddr) (w\<lparr>mem := m\<rparr>)))))"

definition ld_tcb :: "addr \<Rightarrow> u64 \<Rightarrow> u64 \<Rightarrow> addr" where
  "ld_tcb stack_base tls_size stack_size = cia_ptr_alignf (stack_base + tls_size) (stack_size div 2)"

definition ld_stage3_entry ::
  "'k kernel \<Rightarrow> literals \<Rightarrow> (addr \<Rightarrow> addr \<Rightarrow> 'k world \<Rightarrow> 'k world res) \<Rightarrow> ld_frames \<Rightarrow> u64 \<Rightarrow> addr \<Rightarrow> addr \<Rightarrow>
    'k world \<Rightarrow> 'k world res" where
  "ld_stage3_entry K lit crt_entry fr has_new_stack rsp info w =
     (if has_new_stack = 0 then ld_fail K lit (fr_print fr) (message ''ERROR: failed to switch the stack'') [] w
      else
        bind_res (load64 (mem w) (s3_stack_base info)) (\<lambda>stack_base.
        bind_res (load64 (mem w) (s3_tls_size info)) (\<lambda>tls_size.
        bind_res (load64 (mem w) (s3_stack_size info)) (\<lambda>stack_size.
        let tcb = ld_tcb stack_base tls_size stack_size in
        bind_res (write32 (tcb_thread_id tcb) 0 w) (\<lambda>w.
        bind_res (write64 (tcb_stack_canary tcb) 0x12345678fedcba98 w) (\<lambda>w.
        bind_res (load64 (mem w) (s3_app info)) (\<lambda>app.
        bind_res (tls_phdr (mem w) app) (\<lambda>ph_tls.
        bind_res (case ph_tls of None \<Rightarrow> Inr w | Some ph \<Rightarrow> ld_copy_tls info app tcb ph w) (\<lambda>w.
        case syscall K SYS_arch_prctl [ARCH_SET_FS, tcb] w of (err, w) \<Rightarrow>
        if (ucast err :: i32) <s 0
        then ld_fail K lit (fr_print fr) (message ''ERROR: failed to set up the thread pointer'') [] w
        else
          bind_res (load64 (mem w) (s3_stack_size info)) (\<lambda>stack_size.
          bind_res (write64 (fr_params fr rsp) (stack_size div 2) w) (\<lambda>w.
          bind_res (load64 (mem w) (s3_tls_size info)) (\<lambda>tls_size.
          bind_res (write64 (fr_params fr rsp + 8) tls_size w) (\<lambda>w.
          bind_res (load64 (mem w) (s3_tls_image info)) (\<lambda>tls_image.
          bind_res (write64 (fr_params fr rsp + 16) tls_image w) (\<lambda>w.
          bind_res (load64 (mem w) (s3_app info)) (\<lambda>app.
          bind_res (load64 (mem w) (im_base app)) (\<lambda>base.
          bind_res (e_entry (mem w) base) (\<lambda>entry.
            crt_entry (base + entry) (fr_params fr rsp) w))))))))))))))))))"

section \<open>The switch of the stack\<close>

text \<open>\<open>rep movsq\<close>: \<open>n\<close> words, upwards.\<close>

primrec movsq :: "nat \<Rightarrow> addr \<Rightarrow> addr \<Rightarrow> mem \<Rightarrow> mem res" where
  "movsq 0 rdi rsi m = Inr m"
| "movsq (Suc n) rdi rsi m =
     bind_res (load64 m rsi) (\<lambda>v. bind_res (store64 m rdi v) (\<lambda>m. movsq n (rdi + 8) (rsi + 8) m))"

text \<open>
  \<open>call\<close> is given its first argument and the stack pointer and pushes the return address.  A call that
  returns on the new stack runs off the end of the code.  The registers are saved on the old stack
  around the copy.
\<close>

definition trampoline_call ::
  "(u64 \<Rightarrow> addr) \<Rightarrow> (u64 \<Rightarrow> addr \<Rightarrow> 'k world \<Rightarrow> 'k world res) \<Rightarrow> u64 \<Rightarrow> addr \<Rightarrow> 'k world \<Rightarrow> 'k world res" where
  "trampoline_call ret call arg rsp w =
     bind_res (write64 (rsp - 8) (ret arg) w) (\<lambda>w. call arg (rsp - 8) w)"

definition ld_stack_trampoline ::
  "(u64 \<Rightarrow> addr) \<Rightarrow> addr \<Rightarrow> addr \<Rightarrow> addr \<Rightarrow> u64 \<Rightarrow> u64 \<Rightarrow> (u64 \<Rightarrow> addr \<Rightarrow> 'k world \<Rightarrow> 'k world res) \<Rightarrow>
    'k world \<Rightarrow> 'k world res" where
  "ld_stack_trampoline ret rsp stack_base old_stack_base stack_size old_stack_size call w =
     (let amount = old_stack_size + old_stack_base - rsp in
      bind_res (if amount <s stack_size then Inr w else trampoline_call ret call 0 rsp w) (\<lambda>w.
      bind_res (write64 (rsp - 8) rsp w) (\<lambda>w.
      bind_res (write64 (rsp - 16) stack_base w) (\<lambda>w.
      bind_res (write64 (rsp - 24) amount w) (\<lambda>w.
      bind_res (movsq (unat (drop_bit 3 amount)) stack_base rsp (mem w)) (\<lambda>m.
      bind_res (load64 m (rsp - 24)) (\<lambda>rcx.
      bind_res (load64 m (rsp - 16)) (\<lambda>rdi.
      bind_res (load64 m (rsp - 8)) (\<lambda>rsi.
      bind_res (trampoline_call ret call 1 ((rsp + rdi - rsi + stack_size - rcx) AND -16) (w\<lparr>mem := m\<rparr>))
        (\<lambda>_. Inl (Undefined RunsOffEnd)))))))))))"

section \<open>Stage 2\<close>

definition elf_load :: "'k kernel \<Rightarrow> literals \<Rightarrow> addr \<Rightarrow> addr \<Rightarrow> i32 \<Rightarrow> 'k world \<Rightarrow> 'k world res" where
  "elf_load K lit frame image_addr fd w =
     ld_fail K lit frame (message ''ERROR: image loading from file not implemented'') [] w"

text \<open>The section headers are searched for the hash table; the function then returns null in any case.\<close>

function gnu_hash_section :: "mem \<Rightarrow> addr \<Rightarrow> u64 \<Rightarrow> u64 \<Rightarrow> i32 \<Rightarrow> addr \<Rightarrow> addr res" where
  "gnu_hash_section m shdr sh_num sh_ent i found =
     (if scast i < sh_num
      then bind_res (sh_type m (shdr + scast i * sh_ent)) (\<lambda>t.
           bind_res (inc_i32 i) (\<lambda>i'.
             gnu_hash_section m shdr sh_num sh_ent i'
               (if t = SHT_GNU_HASH then shdr + scast i * sh_ent else found)))
      else Inr found)"
  by pat_completeness auto
termination
  by (relation "measure (\<lambda>(m, shdr, sh_num, sh_ent, i, found). nat (2 ^ 31 - sint i))")
    (simp, simp only: in_measure prod.case, rule inc_i32_measure)

declare gnu_hash_section.simps [simp del]

definition elf_symbol_by_name :: "mem \<Rightarrow> addr \<Rightarrow> addr \<Rightarrow> addr res" where
  "elf_symbol_by_name m image_addr name =
     bind_res (load64 m (im_base image_addr)) (\<lambda>eh.
     bind_res (e_shoff m eh) (\<lambda>shoff.
     bind_res (e_shnum m eh) (\<lambda>sh_num.
     bind_res (e_shentsize m eh) (\<lambda>sh_ent.
     bind_res (gnu_hash_section m (eh + shoff) (ucast sh_num) (ucast sh_ent) 0 0) (\<lambda>_. Inr 0)))))"

text \<open>The header of the loader itself.\<close>

definition ld_read_self :: "literals \<Rightarrow> addr \<Rightarrow> 'k world \<Rightarrow> 'k world res" where
  "ld_read_self lit ldso w =
     bind_res (load64 (mem w) (im_base ldso)) (\<lambda>eh.
     bind_res (e_phoff (mem w) eh) (\<lambda>phoff.
     bind_res (write64 (im_phdr ldso) (eh + phoff) w) (\<lambda>w.
     bind_res (e_phnum (mem w) eh) (\<lambda>phnum.
     bind_res (write64 (im_ph_num ldso) (ucast phnum) w) (\<lambda>w.
     bind_res (e_phentsize (mem w) eh) (\<lambda>phentsize.
     bind_res (write64 (im_ph_ent ldso) (ucast phentsize) w) (\<lambda>w.
       write64 (im_name ldso) (lit ''ld-cia.so'') w)))))))"

text \<open>
  The program: mapped by the kernel, or to be loaded from its file, which is not implemented.  The
  descriptor of that branch is a variable of its own, so the one that is closed later stays 0.
\<close>

definition ld_find_app :: "'k kernel \<Rightarrow> literals \<Rightarrow> addr \<Rightarrow> addr \<Rightarrow> addr \<Rightarrow> addr \<Rightarrow> 'k world \<Rightarrow> 'k world res" where
  "ld_find_app K lit frame aux ldso app w =
     bind_res (word_at (mem w) aux AT_EXECFN) (\<lambda>execfn.
     bind_res (write64 (im_name app) execfn w) (\<lambda>w.
     bind_res (word_at (mem w) aux AT_PHDR) (\<lambda>phdr.
     bind_res (load64 (mem w) (im_base ldso)) (\<lambda>ldso_base.
     if phdr \<noteq> ldso_base then
       bind_res (word_at (mem w) aux AT_PHENT) (\<lambda>ph_ent.
       bind_res (word_at (mem w) aux AT_PHNUM) (\<lambda>ph_num.
       bind_res (app_base_loop aux phdr ph_ent ph_num app 0 w) (\<lambda>w.
       bind_res (write64 (im_phdr app) phdr w) (\<lambda>w.
       bind_res (write64 (im_ph_ent app) ph_ent w) (\<lambda>w.
         write64 (im_ph_num app) ph_num w)))))
     else
       bind_res (word_at (mem w) aux AT_EXECFN) (\<lambda>filename.
       bind_res (write64 (im_name app) filename w) (\<lambda>w.
       if filename = 0
       then ld_fail K lit frame (message ''ERROR: no data about the executable to load dynamically'') [] w
       else case sys_open K filename O_CLOEXEC O_RDWR w of (fd, w) \<Rightarrow>
         if fd <s 0 then ld_fail K lit frame (message ''ERROR: cannot open file %s'') [filename] w
         else elf_load K lit frame app fd w))))))"

text \<open>
  The dynamic section of the program; without one the null header is read.  The array \<open>dyn\<close> belongs to the block that this
  definition is, and its address is stored in the record of the program.
\<close>

definition ld_read_dynamic :: "addr \<Rightarrow> addr \<Rightarrow> addr \<Rightarrow> 'k world \<Rightarrow> 'k world res" where
  "ld_read_dynamic dyn aux app w =
     bind_res (word_at (mem w) aux AT_PHDR) (\<lambda>phdr.
     bind_res (word_at (mem w) aux AT_PHENT) (\<lambda>ph_ent.
     bind_res (word_at (mem w) aux AT_PHNUM) (\<lambda>ph_num.
     bind_res (last_phdr (mem w) phdr ph_ent ph_num PT_DYNAMIC 0 None) (\<lambda>ph_dynamic.
     bind_res (load64 (mem w) (im_base app)) (\<lambda>base.
     bind_res (p_vaddr (mem w) (case ph_dynamic of None \<Rightarrow> 0 | Some ph \<Rightarrow> ph)) (\<lambda>vaddr.
     bind_res (zero_words_loop dyn DYN_CNT 0 (mem w)) (\<lambda>m.
     bind_res (dyn_loop_signed (base + vaddr) dyn 0 m) (\<lambda>m.
       write64 (im_dyn app) dyn (w\<lparr>mem := m\<rparr>)))))))))"

text \<open>Entries without addend end the process in their first turn.\<close>

definition ld_relocate_rel :: "'k kernel \<Rightarrow> literals \<Rightarrow> addr \<Rightarrow> addr \<Rightarrow> addr \<Rightarrow> 'k world \<Rightarrow> 'k world res" where
  "ld_relocate_rel K lit frame base dyn w =
     bind_res (word_at (mem w) dyn DT_REL) (\<lambda>rel.
     if rel = 0 then Inr w
     else
       bind_res (ld_printf K lit frame (lit (message (''REL Relocations found. This part isn'' @ [CHR 0x27] @ ''t implemented''))) [] w) (\<lambda>w.
       bind_res (word_at (mem w) dyn DT_REL) (\<lambda>rel.
       bind_res (word_at (mem w) dyn DT_RELENT) (\<lambda>_.
       bind_res (word_at (mem w) dyn DT_RELSZ) (\<lambda>rel_size.
       if 0 < rel_size
       then bind_res (r_offset (mem w) (base + rel)) (\<lambda>_.
            bind_res (r_info (mem w) (base + rel)) (\<lambda>_. sys_exit K 0 w))
       else Inr w)))))"

text \<open>The block of the array \<open>dyn\<close> has ended: the first read through \<open>app->dyn\<close> is of a dead object, unless the compiled code keeps it.\<close>

definition ld_relocate_app :: "'k kernel \<Rightarrow> literals \<Rightarrow> ld_frames \<Rightarrow> addr \<Rightarrow> 'k world \<Rightarrow> 'k world res" where
  "ld_relocate_app K lit fr app w =
     bind_res (load64 (mem w) (im_base app)) (\<lambda>base.
     bind_res (load64 (mem w) (im_dyn app)) (\<lambda>dyn.
     if \<not> fr_dyn2_kept fr then Inl (Undefined DeadObject)
     else
     bind_res (word_at (mem w) dyn DT_SYMTAB) (\<lambda>symtab.
     bind_res (word_at (mem w) dyn DT_STRTAB) (\<lambda>_.
     bind_res (ld_relocate_rel K lit (fr_print fr) base dyn w) (\<lambda>w.
     bind_res (relocate_rela K lit (fr_print fr) base (base + symtab) dyn w) (\<lambda>w.
       relocate_plt K lit (fr_print fr) base (base + symtab) dyn w))))))"

text \<open>From the size of the thread-local image to the jump to stage 3.\<close>

definition ld_switch_stack ::
  "'k kernel \<Rightarrow> literals \<Rightarrow> (addr \<Rightarrow> addr \<Rightarrow> 'k world \<Rightarrow> 'k world res) \<Rightarrow> ld_frames \<Rightarrow> Stack_Info \<Rightarrow> addr \<Rightarrow> addr \<Rightarrow>
    'k world \<Rightarrow> 'k world res" where
  "ld_switch_stack K lit crt_entry fr stack_info stage3 app w =
     bind_res (tls_phdr (mem w) app) (\<lambda>ph_tls.
     bind_res (case ph_tls of None \<Rightarrow> Inr 0 | Some ph \<Rightarrow> p_memsz (mem w) ph) (\<lambda>tls_size.
     bind_res (linux_read_stack_info K lit (fr_line fr) stack_info w) (\<lambda>(err, stack_info, w).
     if err \<noteq> 0
     then ld_fail K lit (fr_print fr)
            (message ''ERROR: failed to read /proc/self/maps to get the stack info'') [] w
     else
       let old_stack_base = si_start_addr stack_info;
           old_stack_size = si_end_addr stack_info - si_start_addr stack_info;
           stack_size = 2 * MB
       in case sys_mmap K 0 stack_size (PROT_READ OR PROT_WRITE)
                 (MAP_PRIVATE OR MAP_ANONYMOUS OR MAP_NORESERVE) (-1) 0 w of (stack_base, w) \<Rightarrow>
          bind_res (write64 (s3_stack_size stage3) stack_size w) (\<lambda>w.
          bind_res (write64 (s3_stack_base stage3) stack_base w) (\<lambda>w.
          bind_res (write64 (s3_tls_size stage3) tls_size w) (\<lambda>w.
            ld_stack_trampoline (fr_ret fr) (fr_rsp fr) stack_base old_stack_base stack_size old_stack_size
              (\<lambda>has_new_stack rsp. ld_stage3_entry K lit crt_entry fr has_new_stack rsp stage3) w))))))"

definition ld_stage2_entry ::
  "'k kernel \<Rightarrow> literals \<Rightarrow> (addr \<Rightarrow> addr \<Rightarrow> 'k world \<Rightarrow> 'k world res) \<Rightarrow> ld_frames \<Rightarrow> Stack_Info \<Rightarrow>
    Loader_Info \<Rightarrow> 'k world \<Rightarrow> 'k world res" where
  "ld_stage2_entry K lit crt_entry fr stack_info ld_info w =
     bind_res (cia_pool_create (cia_allocator_pages K) (1 * KB) sizeof_Elf_Image 0x10 w) (\<lambda>(image_pool, w).
     bind_res (cia_pool_alloc image_pool w) (\<lambda>(ldso, image_pool, w).
     bind_res (cia_pool_alloc image_pool w) (\<lambda>(app, image_pool, w).
     bind_res (cia_arena_create (cia_allocator_pages K) (1 * MB) w) (\<lambda>(tmp_arena, w).
     let (stage3, tmp_arena) = cia_arena_alloc tmp_arena sizeof_Stage3_Info in
     bind_res (write64 (s3_app stage3) app w) (\<lambda>w.
     bind_res (write64 (s3_ldso stage3) ldso w) (\<lambda>w.
     bind_res (write64 (im_base ldso) (li_ldso_base ld_info) w) (\<lambda>w.
     bind_res (write64 (im_dyn ldso) (li_dyn ld_info) w) (\<lambda>w.
     bind_res (ld_read_self lit ldso w) (\<lambda>w.
     bind_res (ld_find_app K lit (fr_print fr) (li_aux ld_info) ldso app w) (\<lambda>w.
     bind_res (ld_read_dynamic (fr_dyn2 fr) (li_aux ld_info) app w) (\<lambda>w.
     bind_res (ld_relocate_app K lit fr app w) (\<lambda>w.
     bind_res (ld_switch_stack K lit crt_entry fr stack_info stage3 app w) (\<lambda>w.
       sys_exit K 0 w)))))))))))))"

section \<open>Stage 1\<close>

text \<open>\<open>envc\<close> counts with the index.\<close>

function env_loop :: "mem \<Rightarrow> addr \<Rightarrow> i32 \<Rightarrow> i32 res" where
  "env_loop m envp i =
     bind_res (load64 m (envp + 8 * scast i)) (\<lambda>p.
       if p = 0 then Inr i else bind_res (inc_i32 i) (\<lambda>i. env_loop m envp i))"
  by pat_completeness auto
termination
  by (relation "measure (\<lambda>(m, envp, i). nat (2 ^ 31 - sint i))")
    (simp, simp only: in_measure prod.case, rule inc_i32_measure)

declare env_loop.simps [simp del]

text \<open>
  The base of the loader when the kernel does not give it.  \<open>dynv - ph->p_vaddr\<close> is a difference of a
  pointer to 16-byte elements and a number.
\<close>

function self_base_loop :: "mem \<Rightarrow> addr \<Rightarrow> addr \<Rightarrow> u64 \<Rightarrow> u64 \<Rightarrow> i32 \<Rightarrow> addr \<Rightarrow> addr res" where
  "self_base_loop m dynv phdrs ph_ent ph_num i base =
     (if scast i < ph_num
      then bind_res (p_type m (phdrs + scast i * ph_ent)) (\<lambda>t.
           bind_res (if t = PT_DYNAMIC
                     then bind_res (p_vaddr m (phdrs + scast i * ph_ent)) (\<lambda>v. Inr (dynv - sizeof_Elf64_Dyn * v))
                     else Inr base) (\<lambda>base.
           bind_res (inc_i32 i) (\<lambda>i. self_base_loop m dynv phdrs ph_ent ph_num i base)))
      else Inr base)"
  by pat_completeness auto
termination
  by (relation "measure (\<lambda>(m, dynv, phdrs, ph_ent, ph_num, i, base). nat (2 ^ 31 - sint i))")
    (simp, simp only: in_measure prod.case, rule inc_i32_measure)

declare self_base_loop.simps [simp del]

text \<open>\<open>aux\<close> and \<open>dyn\<close> from what the kernel has put on the stack above \<open>sp\<close> and from \<open>_DYNAMIC\<close>.\<close>

definition ld_read_tables :: "ld_frames \<Rightarrow> addr \<Rightarrow> addr \<Rightarrow> mem \<Rightarrow> mem res" where
  "ld_read_tables fr sp dynv m =
     bind_res (load64 m sp) (\<lambda>argc_word.
     let argc = (ucast argc_word :: i32); argv = sp + 8; envp = argv + 8 * scast argc + 8 in
     bind_res (env_loop m envp 0) (\<lambda>envc.
     bind_res (zero_words_loop (fr_aux fr) AUX_CNT 0 m) (\<lambda>m.
     bind_res (aux_loop (envp + 8 * (scast envc + 1)) (fr_aux fr) 0 m) (\<lambda>m.
     bind_res (zero_words_loop (fr_dyn1 fr) DYN_CNT 0 m) (\<lambda>m.
       dyn_loop dynv (fr_dyn1 fr) 0 m)))))"

definition ld_self_base :: "ld_frames \<Rightarrow> addr \<Rightarrow> mem \<Rightarrow> addr res" where
  "ld_self_base fr dynv m =
     bind_res (word_at m (fr_aux fr) AT_BASE) (\<lambda>base.
     if base \<noteq> 0 then Inr base
     else
       bind_res (word_at m (fr_aux fr) AT_PHDR) (\<lambda>phdrs.
       bind_res (word_at m (fr_aux fr) AT_PHENT) (\<lambda>ph_ent.
       bind_res (word_at m (fr_aux fr) AT_PHNUM) (\<lambda>ph_num.
         self_base_loop m dynv phdrs ph_ent ph_num 1 base))))"

definition ld_self_rel :: "addr \<Rightarrow> addr \<Rightarrow> mem \<Rightarrow> unit res" where
  "ld_self_rel base dyn m =
     bind_res (word_at m dyn DT_REL) (\<lambda>rel.
     if rel = 0 then Inr ()
     else
       bind_res (word_at m dyn DT_RELENT) (\<lambda>rel_ent.
       bind_res (word_at m dyn DT_RELSZ) (\<lambda>rel_size.
         loop_res (rel_skip_loop (base + rel) rel_ent rel_size 0 m))))"

definition ld_stage1_entry ::
  "'k kernel \<Rightarrow> literals \<Rightarrow> (addr \<Rightarrow> addr \<Rightarrow> 'k world \<Rightarrow> 'k world res) \<Rightarrow> ld_frames \<Rightarrow> Stack_Info \<Rightarrow> addr \<Rightarrow> addr \<Rightarrow>
    'k world \<Rightarrow> 'k world res" where
  "ld_stage1_entry K lit crt_entry fr stack_info sp dynv w =
     bind_res (lift_mem w (ld_read_tables fr sp dynv (mem w))) (\<lambda>w.
     bind_res (ld_self_base fr dynv (mem w)) (\<lambda>base.
     bind_res (word_at (mem w) (fr_dyn1 fr) DT_SYMTAB) (\<lambda>symtab.
     bind_res (word_at (mem w) (fr_dyn1 fr) DT_STRTAB) (\<lambda>_.
     bind_res (ld_self_rel base (fr_dyn1 fr) (mem w)) (\<lambda>_.
     bind_res (relocate_rela K lit (fr_print fr) base (base + symtab) (fr_dyn1 fr) w) (\<lambda>w.
     bind_res (relocate_plt K lit (fr_print fr) base (base + symtab) (fr_dyn1 fr) w) (\<lambda>w.
     bind_res (ld_stage2_entry K lit crt_entry fr stack_info
                 \<lparr>li_sp = sp, li_ldso_base = base, li_dyn = fr_dyn1 fr, li_aux = fr_aux fr\<rparr> w) (\<lambda>w.
       sys_exit K 0 w))))))))"

end
