(* ===== verification/Loader_Correct.thy ===== *)
theory Loader_Correct
  imports Loader
begin

text \<open>
  What the loader does to the image of the program: the relocations of a well-formed table are a
  sequence of independent writes, and the hashes of symbol names are compared with the functions the
  ELF documents define.
\<close>

section \<open>Relocation as a sequence of writes\<close>

definition peek64 :: "mem \<Rightarrow> addr \<Rightarrow> u64" where
  "peek64 m a = le_word (peek m a 8)"

text \<open>The abstract view of one entry: where it writes and what.\<close>

definition rela_symbol :: "mem \<Rightarrow> addr \<Rightarrow> addr \<Rightarrow> addr" where
  "rela_symbol m symtab a = symtab + 24 * drop_bit 32 (peek64 m (a + 8))"

definition rela_write :: "mem \<Rightarrow> addr \<Rightarrow> addr \<Rightarrow> addr \<Rightarrow> addr \<times> u64" where
  "rela_write m base symtab a =
     (base + peek64 m a,
      base + (if take_bit 32 (peek64 m (a + 8)) = 6 then peek64 m (rela_symbol m symtab a + 8)
              else peek64 m (a + 16)))"

definition rela_writes :: "mem \<Rightarrow> addr \<Rightarrow> addr \<Rightarrow> addr \<Rightarrow> nat \<Rightarrow> (addr \<times> u64) list" where
  "rela_writes m base symtab table n = map (\<lambda>i. rela_write m base symtab (table + 24 * of_nat i)) [0..<n]"

definition write_all :: "(addr \<times> u64) list \<Rightarrow> mem \<Rightarrow> mem" where
  "write_all = fold (\<lambda>(a, v) m. poke m a (le_bytes 8 v))"

text \<open>
  A table is well formed if it and what its entries refer to is mapped, the entries have the two
  types the loader knows, and no entry is applied to the table or to a symbol the table refers to.
\<close>

definition rela_entry_ok :: "mem \<Rightarrow> addr \<Rightarrow> addr \<Rightarrow> addr \<Rightarrow> nat \<Rightarrow> addr \<Rightarrow> bool" where
  "rela_entry_ok m base symtab table n a \<longleftrightarrow>
     take_bit 32 (peek64 m (a + 8)) \<in> {6, 8}
     \<and> mapped m (rela_symbol m symtab a) 16
     \<and> mapped m (fst (rela_write m base symtab a)) 8
     \<and> disj_range (fst (rela_write m base symtab a)) 8 table (24 * n)
     \<and> (\<forall>j<n. disj_range (fst (rela_write m base symtab a)) 8 (rela_symbol m symtab (table + 24 * of_nat j)) 16)"

definition rela_table_ok :: "mem \<Rightarrow> addr \<Rightarrow> addr \<Rightarrow> addr \<Rightarrow> nat \<Rightarrow> bool" where
  "rela_table_ok m base symtab table n \<longleftrightarrow>
     unat table + 24 * n < 2 ^ 64 \<and> mapped m table (24 * n)
     \<and> (\<forall>i<n. rela_entry_ok m base symtab table n (table + 24 * of_nat i))"

text \<open>A memory that agrees with the one before relocation on the table and the symbols it refers to.\<close>

definition rela_view :: "mem \<Rightarrow> addr \<Rightarrow> addr \<Rightarrow> nat \<Rightarrow> mem \<Rightarrow> bool" where
  "rela_view m symtab table n m' \<longleftrightarrow>
     dom m \<subseteq> dom m' \<and> (\<forall>x. in_range x table (24 * n) \<longrightarrow> m' x = m x)
     \<and> (\<forall>j<n. \<forall>x. in_range x (rela_symbol m symtab (table + 24 * of_nat j)) 16 \<longrightarrow> m' x = m x)"

lemma rela_view_mapped: "rela_view m symtab table n m' \<Longrightarrow> mapped m a k \<Longrightarrow> mapped m' a k"
  by (auto simp: rela_view_def mapped_def subset_iff domIff)

lemma load64_peek64: "mapped m a 8 \<Longrightarrow> load64 m a = Inr (peek64 m a)"
  by (simp add: load64_mapped peek64_def)

lemma peek64_cong: "(\<And>x. in_range x a 8 \<Longrightarrow> m' x = m x) \<Longrightarrow> peek64 m' a = peek64 m a"
  using peek_cong [of a 8 m' m] by (simp add: peek64_def)

lemma R_TYPE: "ELF64_R_TYPE i = take_bit 32 i"
proof -
  have "(0xffffffff :: u64) = mask 32" by (simp add: mask_eq_exp_minus_1)
  then show ?thesis by (simp add: ELF64_R_TYPE_def take_bit_eq_mask)
qed

lemma rela_sym: "symtab + sizeof_Elf64_Sym * ELF64_R_SYM (peek64 m (a + 8)) = rela_symbol m symtab a"
  by (simp add: rela_symbol_def sizeof_Elf64_Sym_def ELF64_R_SYM_def)

lemmas elf_loads = r_offset_def r_info_def r_addend_def st_value_def st_name_def

lemma rela_view_refl: "rela_view m symtab table n m"
  by (simp add: rela_view_def)

lemma rela_view_write:
  assumes v: "rela_view m symtab table n m'" and ok: "rela_entry_ok m base symtab table n a"
    and w: "rela_write m base symtab a = (t, u)"
  shows "rela_view m symtab table n (poke m' t (le_bytes 8 x))"
proof -
  have "mapped m' t 8"
    using ok w by (intro rela_view_mapped [OF v]) (simp add: rela_entry_ok_def)
  then have "dom m \<subseteq> dom (poke m' t (le_bytes 8 x))"
    using v dom_poke [of m' t "le_bytes 8 x"] by (simp add: rela_view_def)
  moreover have "disj_range t 8 table (24 * n)"
    and "\<forall>j<n. disj_range t 8 (rela_symbol m symtab (table + 24 * of_nat j)) 16"
    using ok w by (simp_all add: rela_entry_ok_def)
  ultimately show ?thesis
    using v unfolding rela_view_def by (auto simp: poke_def disj_range_def)
qed

lemma table_word:
  assumes "unat table + 24 * n < 2 ^ 64" "i < n" "k + 8 \<le> 24" "in_range x (table + 24 * of_nat i + of_nat k) 8"
  shows "in_range x table (24 * n)"
proof (rule sub_range_in_range)
  show "in_range x (table + of_nat (24 * i + k)) 8"
    using assms(4) by (simp add: add.assoc)
  have "i + 1 \<le> n" using assms(2) by simp
  then show "24 * i + k + 8 \<le> 24 * n" using assms(3) by simp
qed (use assms in simp_all)

lemma symbol_word:
  assumes "k + m \<le> 16" "0 < m" "in_range x (s + of_nat k) m"
  shows "in_range x s 16"
proof -
  from in_range_nth [OF assms(3)] obtain i where i: "i < m" "x = s + of_nat (k + i)"
    by (auto simp: add.assoc)
  with assms(1) in_range_offset [of "k + i" 16 s] show ?thesis by simp
qed

lemma apply_rela_view:
  assumes ok: "rela_table_ok m base symtab table n" and i: "i < n"
    and v: "rela_view m symtab table n (mem w)"
    and t: "rela_write m base symtab (table + 24 * of_nat i) = (t, u)"
  shows "apply_rela K lit frame base symtab (table + 24 * of_nat i) w =
    Inr (w\<lparr>mem := poke (mem w) t (le_bytes 8 u)\<rparr>)"
proof -
  let ?a = "table + 24 * of_nat i" and ?m = "mem w"
  have e: "rela_entry_ok m base symtab table n ?a" and r: "unat table + 24 * n < 2 ^ 64"
    and mp: "mapped m table (24 * n)"
    using ok i by (simp_all add: rela_table_ok_def)
  have same: "peek64 ?m (?a + of_nat k) = peek64 m (?a + of_nat k)"
    and there: "mapped ?m (?a + of_nat k) 8" if "k + 8 \<le> 24" for k
  proof -
    have in_table: "in_range x table (24 * n)" if "in_range x (?a + of_nat k) 8" for x
      using table_word [OF r i \<open>k + 8 \<le> 24\<close> that] .
    then show "peek64 ?m (?a + of_nat k) = peek64 m (?a + of_nat k)"
      using v by (intro peek64_cong) (simp add: rela_view_def)
    show "mapped ?m (?a + of_nat k) 8"
      using in_table mp by (intro rela_view_mapped [OF v]) (auto simp: mapped_def)
  qed
  let ?s = "rela_symbol m symtab ?a"
  have s16: "mapped ?m ?s 16"
    using e by (intro rela_view_mapped [OF v]) (simp add: rela_entry_ok_def)
  have s8: "mapped ?m (?s + 8) 8" and s0: "mapped ?m ?s 4"
    using s16 symbol_word [of 8 8 _ ?s] symbol_word [of 0 4 _ ?s] by (auto simp: mapped_def)
  have sv: "peek64 ?m (?s + 8) = peek64 m (?s + 8)"
    using v i symbol_word [of 8 8 _ ?s] by (intro peek64_cong) (auto simp: rela_view_def)
  have tm: "mapped ?m t 8"
    using e t by (intro rela_view_mapped [OF v]) (simp add: rela_entry_ok_def)
  from e consider "take_bit 32 (peek64 m (?a + 8)) = 6" | "take_bit 32 (peek64 m (?a + 8)) = 8"
    by (auto simp: rela_entry_ok_def)
  then show ?thesis
  proof cases
    case 1
    then show ?thesis
      using same [of 0] same [of 8] same [of 16] there [of 0] there [of 8] there [of 16] s8 s0 sv tm t
      by (simp add: apply_rela_def elf_loads load64_peek64 load32_mapped rela_sym Let_def R_TYPE
          rela_write_def R_X86_64_GLOB_DAT_def write64_def store64_mapped)
  next
    case 2
    then show ?thesis
      using same [of 0] same [of 8] same [of 16] there [of 0] there [of 8] there [of 16] s8 s0 sv tm t
      by (simp add: apply_rela_def elf_loads load64_peek64 load32_mapped rela_sym Let_def R_TYPE
          rela_write_def R_X86_64_GLOB_DAT_def R_X86_64_RELATIVE_def write64_def store64_mapped)
  qed
qed

text \<open>
  Both loops have the same shape: entry \<open>i\<close> does its writes in any memory that agrees with the original on
  what the entries read, and these writes keep that agreement.  \<open>ok\<close> is what is assumed of the table.
\<close>

lemma write_all_append: "write_all (xs @ ys) m = write_all ys (write_all xs m)"
  by (simp add: write_all_def)

lemma write_all_simps [simp]: "write_all [] m = m" "write_all ((t, u) # ws) m = write_all ws (poke m t (le_bytes 8 u))"
  by (simp_all add: write_all_def)

locale relocation_loop =
  fixes ok :: bool and n :: nat and view :: "mem \<Rightarrow> bool" and step :: "nat \<Rightarrow> 'k world \<Rightarrow> 'k world res"
    and ws :: "nat \<Rightarrow> (addr \<times> u64) list" and loop :: "nat \<Rightarrow> 'k world \<Rightarrow> 'k world res option"
  assumes view_write: "ok \<Longrightarrow> i < n \<Longrightarrow> view m \<Longrightarrow> view (write_all (ws i) m)"
    and step_writes: "ok \<Longrightarrow> i < n \<Longrightarrow> view (mem w) \<Longrightarrow> step i w = Inr (w\<lparr>mem := write_all (ws i) (mem w)\<rparr>)"
    and loop_next: "ok \<Longrightarrow> i < n \<Longrightarrow> loop i w = (case step i w of Inl e \<Rightarrow> Some (Inl e) | Inr w' \<Rightarrow> loop (Suc i) w')"
    and loop_end: "ok \<Longrightarrow> loop n w = Some (Inr w)"
begin

lemma loop_writes_from:
  "ok \<Longrightarrow> i \<le> n \<Longrightarrow> view (mem w) \<Longrightarrow> loop i w = Some (Inr (w\<lparr>mem := write_all (concat (map ws [i..<n])) (mem w)\<rparr>))"
proof (induction "n - i" arbitrary: i w)
  case 0
  then have "i = n" by simp
  with loop_end [OF 0(2)] show ?case by simp
next
  case (Suc d)
  then have i: "i < n" by simp
  let ?w = "w\<lparr>mem := write_all (ws i) (mem w)\<rparr>"
  have "loop (Suc i) ?w = Some (Inr (?w\<lparr>mem := write_all (concat (map ws [Suc i..<n])) (mem ?w)\<rparr>))"
    using Suc i by (intro Suc.hyps(1)) (simp_all add: view_write)
  with Suc.prems i show ?case
    by (simp add: loop_next step_writes upt_conv_Cons write_all_append)
qed

lemma loop_writes: "ok \<Longrightarrow> view (mem w) \<Longrightarrow> loop 0 w = Some (Inr (w\<lparr>mem := write_all (concat (map ws [0..<n])) (mem w)\<rparr>))"
  by (rule loop_writes_from) simp_all

end

lemma rela_index_less: "unat table + 24 * n < 2 ^ 64 \<Longrightarrow> i < n \<Longrightarrow> (of_nat (24 * i) :: u64) < of_nat (24 * n)"
  by (simp only: word_less_nat_alt unat_of_nat_u64 mult_less_cancel1) simp

lemma rela_index_Suc: "(of_nat (24 * i) :: u64) + 24 = of_nat (24 * Suc i)"
  by simp

interpretation rela: relocation_loop
  "rela_table_ok m base symtab table n" n "rela_view m symtab table n"
  "\<lambda>i. apply_rela K lit frame base symtab (table + 24 * of_nat i)"
  "\<lambda>i. [rela_write m base symtab (table + 24 * of_nat i)]"
  "\<lambda>i. rela_loop K lit frame base symtab table 24 (of_nat (24 * n)) (of_nat (24 * i))"
  for m base symtab table n and K :: "'k kernel" and lit frame
proof unfold_locales
  fix i m' and w :: "'k world"
  assume ok: "rela_table_ok m base symtab table n"
  show "rela_loop K lit frame base symtab table 24 (of_nat (24 * n)) (of_nat (24 * n)) w = Some (Inr w)"
    by (subst rela_loop.simps) simp
  assume i: "i < n"
  let ?a = "table + 24 * of_nat i"
  obtain t u where t: "rela_write m base symtab ?a = (t, u)" by fastforce
  have e: "rela_entry_ok m base symtab table n ?a" using ok i by (simp add: rela_table_ok_def)
  show "rela_view m symtab table n m' \<Longrightarrow> rela_view m symtab table n (write_all [rela_write m base symtab ?a] m')"
    using rela_view_write [OF _ e t] by (simp add: t)
  show "rela_view m symtab table n (mem w) \<Longrightarrow>
      apply_rela K lit frame base symtab ?a w = Inr (w\<lparr>mem := write_all [rela_write m base symtab ?a] (mem w)\<rparr>)"
    using apply_rela_view [OF ok i _ t] by (simp add: t)
  show "rela_loop K lit frame base symtab table 24 (of_nat (24 * n)) (of_nat (24 * i)) w =
      (case apply_rela K lit frame base symtab ?a w of Inl e \<Rightarrow> Some (Inl e)
       | Inr w' \<Rightarrow> rela_loop K lit frame base symtab table 24 (of_nat (24 * n)) (of_nat (24 * Suc i)) w')"
    using rela_index_less [of table n i] ok i
    by (subst rela_loop.simps) (simp only: rela_table_ok_def if_True rela_index_Suc, simp)
qed

lemma rela_writes_concat:
  "concat (map (\<lambda>i. [rela_write m base symtab (table + 24 * of_nat i)]) [0..<n]) = rela_writes m base symtab table n"
  by (simp add: rela_writes_def concat_map_singleton)

lemma rela_loop_writes:
  assumes "rela_table_ok m base symtab table n" "rela_view m symtab table n (mem w)"
  shows "rela_loop K lit frame base symtab table 24 (of_nat (24 * n)) 0 w =
    Some (Inr (w\<lparr>mem := write_all (rela_writes m base symtab table n) (mem w)\<rparr>))"
  using rela.loop_writes [OF assms, of K lit frame] by (simp only: rela_writes_concat) simp

section \<open>Properties\<close>

text \<open>Relocating an image.  If the table of relocations with addends is well formed, the loop, which
  reads entries and symbols from the memory it is changing, refines the abstract relocation: decode
  all entries in the memory before, then write each value to its target, in order.  The image, the
  kernel and everything else in the world are left alone.\<close>

theorem relocate_rela_refines:
  assumes "word_at (mem w) dyn DT_RELA = Inr rela" "rela \<noteq> 0"
    "word_at (mem w) dyn DT_RELAENT = Inr 24" "word_at (mem w) dyn DT_RELASZ = Inr (of_nat (24 * n))"
    and ok: "rela_table_ok (mem w) base symtab (base + rela) n"
  shows "relocate_rela K lit frame base symtab dyn w =
    Inr (w\<lparr>mem := write_all (rela_writes (mem w) base symtab (base + rela) n) (mem w)\<rparr>)"
  using assms(1-4) rela_loop_writes [OF ok rela_view_refl] by (simp add: relocate_rela_def)

text \<open>A page with a table of two entries, a symbol and a decoded dynamic section.\<close>

definition demo_page :: mem where
  "demo_page = (\<lambda>x. if in_range x 0x10000 4096 then Some 0 else None)"

definition demo_words :: "(addr \<times> u64) list" where
  "demo_words =
     [(0x10100, 0x300), (0x10108, 0x100000006), (0x10110, 0), (0x10118, 0x308), (0x10120, 8), (0x10128, 0x444),
      (0x10220, 0x123), (0x10838, 0x100), (0x10840, 48), (0x10848, 24)]"

definition demo_world :: "unit world" where
  "demo_world = \<lparr>mem = write_all demo_words demo_page, os = ()\<rparr>"

lemma mapped_write_all: "mapped m a n \<Longrightarrow> mapped (write_all ws m) a n"
proof (induction ws arbitrary: m)
  case (Cons w ws)
  obtain t u where w: "w = (t, u)" by fastforce
  have "mapped (poke m t (le_bytes 8 u)) a n" using Cons.prems by (auto simp: mapped_def poke_def)
  then show ?case using Cons.IH by (simp add: w write_all_def)
qed (simp add: write_all_def)

lemma mapped_demo_page: "0x10000 \<le> unat a \<Longrightarrow> unat a + n \<le> 0x11000 \<Longrightarrow> mapped demo_page a n"
  by (auto simp: mapped_def demo_page_def in_range_iff)

lemma mapped_demo: "0x10000 \<le> unat a \<Longrightarrow> unat a + n \<le> 0x11000 \<Longrightarrow> mapped (mem demo_world) a n"
  by (simp add: demo_world_def mapped_write_all mapped_demo_page)

lemma peek64_poke_same: "peek64 (poke m a (le_bytes 8 v)) a = v"
  using peek_poke_same [of "le_bytes 8 v" m a] by (simp add: peek64_def le_word_bytes_id)

lemma peek64_poke_other: "disj_range a 8 c 8 \<Longrightarrow> peek64 (poke m a (le_bytes 8 v)) c = peek64 m c"
  by (simp add: peek64_def peek_poke_disj)

lemma demo_table_words:
  "peek64 (mem demo_world) 0x10100 = 0x300" "peek64 (mem demo_world) 0x10108 = 0x100000006"
  "peek64 (mem demo_world) 0x10118 = 0x308" "peek64 (mem demo_world) 0x10120 = 8"
  "peek64 (mem demo_world) 0x10128 = 0x444" "peek64 (mem demo_world) 0x10220 = 0x123"
  "peek64 (mem demo_world) 0x10838 = 0x100" "peek64 (mem demo_world) 0x10840 = 48"
  "peek64 (mem demo_world) 0x10848 = 24"
  by (simp_all add: demo_world_def demo_words_def write_all_def peek64_poke_same peek64_poke_other disj_range_apart
      del: le_bytes.simps)

lemma demo_table_ok: "rela_table_ok (mem demo_world) 0x10000 0x10200 0x10100 2"
  by (simp add: rela_table_ok_def rela_entry_ok_def rela_symbol_def rela_write_def all_less_2 demo_table_words
      mapped_demo disj_range_apart)

lemma demo_writes: "rela_writes (mem demo_world) 0x10000 0x10200 0x10100 2 = [(0x10300, 0x10123), (0x10308, 0x10444)]"
  by (simp add: rela_writes_def rela_write_def rela_symbol_def demo_table_words upt_rec)

theorem relocate_rela_refines_witness:
  "relocate_rela (\<lambda>_ _ w. (0, w)) (\<lambda>_. 0) 0 0x10000 0x10200 0x10800 demo_world =
     Inr (demo_world\<lparr>mem := poke (poke (mem demo_world) 0x10300 (le_bytes 8 (0x10123 :: u64)))
       0x10308 (le_bytes 8 (0x10444 :: u64))\<rparr>)"
  using relocate_rela_refines [of demo_world "0x10800" "0x100" 2 "0x10000" "0x10200" "\<lambda>_ _ w. (0, w)" "\<lambda>_. 0" 0] demo_table_ok
  by (simp add: word_at_def elf_consts load64_peek64 mapped_demo demo_table_words demo_writes write_all_def
      del: le_bytes.simps)

section \<open>Symbol hashes\<close>

text \<open>The hash function of the System V ABI, over 32-bit unsigned integers.\<close>

definition elf_hash_step :: "u32 \<Rightarrow> u8 \<Rightarrow> u32" where
  "elf_hash_step h c =
     (let h = push_bit 4 h + ucast c; g = h AND 0xf0000000
      in (if g \<noteq> 0 then h XOR drop_bit 24 g else h) AND NOT g)"

definition elf_hash :: "u8 list \<Rightarrow> u32" where
  "elf_hash = foldl elf_hash_step 0"

text \<open>The hash of the GNU table: unsigned characters, \<open>h * 33 + c\<close>.\<close>

definition gnu_hash :: "u8 list \<Rightarrow> u32" where
  "gnu_hash = foldl (\<lambda>h c. h * 33 + ucast c) 5381"

lemma ucast_add_down: "ucast (a + b :: u64) = (ucast a + ucast b :: u32)"
  by (simp add: word_uint_eq_iff uint_word_ariths unsigned_ucast_eq take_bit_eq_mod mod_mod_cancel mod_simps)

lemma hash_masks: "(0xf0000000 :: 'a::len word) = push_bit 28 (mask 4)" "(0x0fffffff :: 'a::len word) = mask 28"
  by (simp_all add: mask_eq_exp_minus_1 push_bit_eq_mult)

lemma sysv_hash_step_elf: "sysv_hash_step (ucast h) c = ucast (elf_hash_step h c)"
proof -
  define x :: u64 where "x = push_bit 4 (ucast h) + ucast c"
  define y :: u32 where "y = push_bit 4 h + ucast c"
  have "y = ucast x"
    unfolding x_def y_def ucast_add_down
    by (rule arg_cong2 [where f = "(+)"]; rule bit_word_eqI) (auto simp: bit_simps)
  then have xy: "bit y i \<longleftrightarrow> i < 32 \<and> bit x i" for i
    by (simp add: bit_simps)
  have if_xor: "(if g \<noteq> 0 then z XOR drop_bit 24 g else z) = z XOR drop_bit 24 g" for z g :: "'a::len word"
    by simp
  show ?thesis
    unfolding sysv_hash_step_def elf_hash_step_def Let_def if_xor hash_masks x_def [symmetric] y_def [symmetric]
    by (rule bit_word_eqI) (auto simp: bit_simps xy)
qed

lemma name_index:
  assumes "c_string m name k" "i < k" "k < 2 ^ 31"
  shows "load8 m (name + of_nat i) = Inr (peek m name k ! i)" "peek m name k ! i \<noteq> 0"
proof -
  have "m (name + of_nat i) \<noteq> None"
    using mapped_offsetD [of m name "Suc k" i] assms by (simp add: c_string_def)
  moreover have "m (name + of_nat i) \<noteq> Some 0"
    using assms by (simp add: c_string_def)
  ultimately show "load8 m (name + of_nat i) = Inr (peek m name k ! i)" "peek m name k ! i \<noteq> 0"
    using assms(2) by (auto simp: load8_def nth_peek)
qed

lemma inc_i32_count: "Suc i < 2 ^ 31 \<Longrightarrow> inc_i32 (of_nat i) = Inr (of_nat (Suc i))"
  using sint_small_i32 [of i] by (simp add: inc_i32_def add.commute)

lemma take_peek_Suc: "i < k \<Longrightarrow> take (Suc i) (peek m a k) = take i (peek m a k) @ [peek m a k ! i]"
  by (simp add: take_Suc_conv_app_nth)

lemma gnu_hash_loop_from:
  assumes "c_string m name k" "k < 2 ^ 31" "i \<le> k"
  shows "gnu_hash_loop m name (of_nat i) (foldl (\<lambda>h c. push_bit 5 h + h + scast c) 5381 (take i (peek m name k))) =
    Inr (foldl (\<lambda>h c. push_bit 5 h + h + scast c) 5381 (peek m name k))"
  using assms(3)
proof (induction i rule: inc_induct)
  case base
  have "load8 m (name + of_nat k) = Inr 0" using assms(1) by (simp add: c_string_def load8_def)
  then show ?case using assms(2) by (subst gnu_hash_loop.simps) (simp add: scast_small)
next
  case (step i)
  from step(2) assms(2) have "inc_i32 (of_nat i) = Inr (of_nat (Suc i))" by (intro inc_i32_count) simp
  with step name_index [OF assms(1) step(2) assms(2)] assms(2) show ?case
    by (subst gnu_hash_loop.simps) (simp add: scast_small take_peek_Suc del: of_nat_Suc)
qed

lemma sysv_hash_loop_from:
  assumes "c_string m name k" "k < 2 ^ 31" "i \<le> k"
  shows "sysv_hash_loop m name (of_nat i) (foldl sysv_hash_step 0 (take i (peek m name k))) =
    Inr (foldl sysv_hash_step 0 (peek m name k))"
  using assms(3)
proof (induction i rule: inc_induct)
  case base
  have "load8 m (name + of_nat k) = Inr 0" using assms(1) by (simp add: c_string_def load8_def)
  then show ?case using assms(2) by (subst sysv_hash_loop.simps) (simp add: scast_small)
next
  case (step i)
  from step(2) assms(2) have "inc_i32 (of_nat i) = Inr (of_nat (Suc i))" by (intro inc_i32_count) simp
  with step name_index [OF assms(1) step(2) assms(2)] assms(2) show ?case
    by (subst sysv_hash_loop.simps) (simp add: scast_small take_peek_Suc del: of_nat_Suc)
qed

lemma sysv_hash_elf: "foldl sysv_hash_step (ucast h) s = ucast (foldl elf_hash_step h s)"
  by (induction s arbitrary: h) (simp_all add: sysv_hash_step_elf)

text \<open>The code adds the characters as signed ones: a character from 128 on is 256 too small, and the error takes part in
  the multiplications that follow.\<close>

definition gnu_hash_error :: "u8 list \<Rightarrow> u32" where
  "gnu_hash_error = foldl (\<lambda>e c. e * 33 + (if c < 128 then 0 else 256)) 0"

lemma scast_char: "(scast (c :: u8) :: u32) = ucast c - (if c < 128 then 0 else 256)"
proof -
  have u: "0 \<le> uint c" "uint c < 256" using uint_lt2p [of c] by simp_all
  have "sint c = uint c - (if c < 128 then 0 else 256)"
  proof (cases "c < 128")
    case True
    then have "uint c < 128" using word_less_def [of c 128] by simp
    moreover have "- 128 \<le> uint c" using u(1) by linarith
    ultimately show ?thesis using True by (simp add: sint_uint signed_take_bit_int_eq_self)
  next
    case False
    then have h: "128 \<le> uint c" using word_less_def [of c 128] by simp
    have "signed_take_bit 7 (uint c) = signed_take_bit 7 (uint c - 256)"
      by (simp add: signed_take_bit_eq_iff_take_bit_eq take_bit_eq_mod)
    also have "\<dots> = uint c - 256" using h u(2) by (intro signed_take_bit_int_eq_self) simp_all
    finally show ?thesis using False by (simp add: sint_uint)
  qed
  then have "(scast c :: u32) = word_of_int (uint c - (if c < 128 then 0 else 256))" by (simp only: scast_eq)
  then show ?thesis by simp
qed

lemma gnu_hash_signed:
  "foldl (\<lambda>h c. push_bit 5 h + h + scast c) (a - e) s =
     foldl (\<lambda>h c. h * 33 + ucast c) (a :: u32) (s :: u8 list) - foldl (\<lambda>e c. e * 33 + (if c < 128 then 0 else 256)) e s"
proof (induction s arbitrary: a e)
  case (Cons c s)
  have "push_bit 5 (a - e) + (a - e) + scast c = (a * 33 + ucast c) - (e * 33 + (if c < 128 then 0 else 256))"
    by (simp add: push_bit_eq_mult scast_char algebra_simps)
  then show ?case unfolding foldl_Cons using Cons.IH by metis
qed simp

lemma gnu_hash_error_ascii:
  "\<forall>c\<in>set s. c < 128 \<Longrightarrow> foldl (\<lambda>e c. e * 33 + (if c < 128 then 0 else 256)) e s = (e :: u32) * 33 ^ length s"
  by (induction s arbitrary: e) (simp_all add: ac_simps)

lemma gnu_hash_error_one:
  assumes "length (filter (\<lambda>c. 128 \<le> c) s) = 1"
  shows "gnu_hash_error s \<noteq> 0"
proof -
  obtain c where "filter (\<lambda>c. 128 \<le> c) s = [c]" using assms by (auto simp: length_Suc_conv)
  then obtain xs ys where s: "s = xs @ c # ys" "\<forall>d\<in>set xs. \<not> 128 \<le> d" "128 \<le> c" "filter (\<lambda>c. 128 \<le> c) ys = []"
    by (auto simp: filter_eq_Cons_iff)
  then have low: "\<forall>d\<in>set xs. d < 128" "\<forall>d\<in>set ys. d < 128" "\<not> c < 128" by (auto simp: filter_empty_conv not_le)
  have "gnu_hash_error s = of_nat (256 * 33 ^ length ys)"
    using gnu_hash_error_ascii [OF low(1), of 0] gnu_hash_error_ascii [OF low(2), of 256] low(3) by (simp add: s(1) gnu_hash_error_def)
  moreover have "\<not> (2 :: nat) ^ 32 dvd 256 * 33 ^ length ys"
  proof
    assume "(2 :: nat) ^ 32 dvd 256 * 33 ^ length ys"
    then have "(2 :: nat) ^ 8 * 2 ^ 24 dvd 2 ^ 8 * 33 ^ length ys" by simp
    then have d: "(2 :: nat) ^ 24 dvd 33 ^ length ys" by (subst (asm) dvd_times_left_cancel_iff) simp_all
    have "(2 :: nat) dvd 2 ^ 24" by simp
    then have "(2 :: nat) dvd 33 ^ length ys" using d by (rule dvd_trans)
    then show False by simp
  qed
  ultimately show ?thesis by (simp only: word_of_nat_eq_0_iff len_num1 len_bit0 mult_2_right) simp
qed

text \<open>C40: the hash of a symbol name in 64-bit arithmetic is the hash function of the System V ABI in
  32-bit arithmetic, for every string: the mask of the last line removes the carry as well.\<close>

theorem elf_sym_hash_sysv:
  assumes "c_string m name k" "k < 2 ^ 31"
  shows "elf_sym_hash m name = Inr (ucast (elf_hash (peek m name k)))"
  using sysv_hash_loop_from [OF assms, of 0] sysv_hash_elf [of 0]
  by (simp add: elf_sym_hash_def elf_hash_def)

text \<open>C36: the GNU hash of a symbol name, for every string.  It misses the hash that the linker has put into the table by 256 for every
  character from 128 on, multiplied on with the rest of the name.  So names of characters below 128 have the hash of the table,
  and a name with one character from 128 on never has.\<close>

theorem elf_sym_gnu_hash_signed:
  assumes "c_string m name k" "k < 2 ^ 31"
  shows "elf_sym_gnu_hash m name = Inr (gnu_hash (peek m name k) - gnu_hash_error (peek m name k))
    \<and> (length (filter (\<lambda>c. 128 \<le> c) (peek m name k)) = 0 \<longrightarrow> elf_sym_gnu_hash m name = Inr (gnu_hash (peek m name k)))
    \<and> (length (filter (\<lambda>c. 128 \<le> c) (peek m name k)) = 1 \<longrightarrow> elf_sym_gnu_hash m name \<noteq> Inr (gnu_hash (peek m name k)))"
proof -
  have "foldl (\<lambda>h c. push_bit 5 h + h + scast c) 5381 (peek m name k) = gnu_hash (peek m name k) - gnu_hash_error (peek m name k)"
    using gnu_hash_signed [of 5381 0 "peek m name k"] by (simp add: gnu_hash_def gnu_hash_error_def)
  then have run: "elf_sym_gnu_hash m name = Inr (gnu_hash (peek m name k) - gnu_hash_error (peek m name k))"
    using gnu_hash_loop_from [OF assms, of 0] by (simp add: elf_sym_gnu_hash_def)
  moreover have "gnu_hash_error (peek m name k) = 0" if "length (filter (\<lambda>c. 128 \<le> c) (peek m name k)) = 0"
    using gnu_hash_error_ascii [of "peek m name k" 0] that by (simp add: gnu_hash_error_def filter_empty_conv not_le)
  moreover have "gnu_hash_error (peek m name k) \<noteq> 0" if "length (filter (\<lambda>c. 128 \<le> c) (peek m name k)) = 1"
    using that by (rule gnu_hash_error_one)
  ultimately show ?thesis by auto
qed

definition name_memory :: mem where
  "name_memory = poke Map.empty 0x100 [102, 111, 0]"

lemma name_memory_string: "c_string name_memory 0x100 2" "peek name_memory 0x100 2 = [102, 111]"
  by (simp_all add: c_string_def name_memory_def mapped_def poke_def in_range_def peek_def all_less_2 upt_rec)

theorem elf_sym_hash_sysv_witness: "elf_sym_hash name_memory 0x100 = Inr 0x6cf"
proof -
  have "elf_hash [102, 111] = 0x6cf"
    by (simp add: elf_hash_def elf_hash_step_def Let_def)
  then show ?thesis
    using elf_sym_hash_sysv [OF name_memory_string(1)] name_memory_string(2) by simp
qed

text \<open>The name \<open>fo\<close>, and the name of the character 0x80.\<close>

theorem elf_sym_gnu_hash_signed_witness:
  "elf_sym_gnu_hash name_memory 0x100 = Inr 0x5977da
    \<and> elf_sym_gnu_hash (poke Map.empty 0x100 [0x80, 0]) 0x100 = Inr (gnu_hash [0x80] - 256)"
proof -
  have "c_string (poke Map.empty 0x100 [0x80, 0]) 0x100 1" "peek (poke Map.empty 0x100 [0x80, 0]) 0x100 1 = [0x80]"
    by (simp_all add: c_string_def mapped_def poke_def in_range_def peek_def upt_rec)
  then show ?thesis
    using elf_sym_gnu_hash_signed [OF name_memory_string(1)] elf_sym_gnu_hash_signed [of _ "0x100" 1] name_memory_string(2)
    by (simp add: gnu_hash_def gnu_hash_error_def)
qed

end
