(* ===== verification/Loader_Tables.thy ===== *)
theory Loader_Tables
  imports Loader_Correct
begin

text \<open>
  How the loader decodes what others have left in memory: the auxiliary vector, which the kernel has put
  above the environment on the stack, and the dynamic sections of the loader and of the program, into
  arrays indexed by tag.  The three loops are instances of one contract, the locale \<open>tag_scan\<close>; the memory
  operations refine an update of a list.
\<close>

section \<open>Arrays of words in memory\<close>

definition array_at :: "mem \<Rightarrow> addr \<Rightarrow> u64 list \<Rightarrow> bool" where
  "array_at m a xs \<longleftrightarrow> unat a + 8 * length xs < 2 ^ 64 \<and> (\<forall>i < length xs. word_at m a i = Inr (xs ! i))"

definition same_outside :: "mem \<Rightarrow> mem \<Rightarrow> addr \<Rightarrow> nat \<Rightarrow> bool" where
  "same_outside m m' a n \<longleftrightarrow> (\<forall>x. \<not> in_range x a n \<longrightarrow> m' x = m x)"

lemma same_outside_refl: "same_outside m m a n"
  by (simp add: same_outside_def)

lemma same_outside_trans: "same_outside m m' a n \<Longrightarrow> same_outside m' m'' a n \<Longrightarrow> same_outside m m'' a n"
  by (simp add: same_outside_def)

lemma outside_load64:
  assumes "same_outside m m' a n" "disj_range a n t k" "off + 8 \<le> k" "unat t + k \<le> 2 ^ 64"
  shows "load64 m' (t + of_nat off) = load64 m (t + of_nat off)"
proof (rule load64_cong)
  fix x assume "in_range x (t + of_nat off) 8"
  then have "in_range x t k" by (rule sub_range_in_range) (use assms in simp_all)
  then show "m' x = m x" using assms(1,2) by (auto simp: same_outside_def disj_range_def)
qed

lemma outside_load32:
  assumes "same_outside m m' a n" "disj_range a n t k" "off + 4 \<le> k" "unat t + k \<le> 2 ^ 64"
  shows "load32 m' (t + of_nat off) = load32 m (t + of_nat off)"
proof (rule load32_cong)
  fix x assume "in_range x (t + of_nat off) 4"
  then have "in_range x t k" by (rule sub_range_in_range) (use assms in simp_all)
  then show "m' x = m x" using assms(1,2) by (auto simp: same_outside_def disj_range_def)
qed

lemma unat_add_of_nat: "unat a + k < 2 ^ 64 \<Longrightarrow> unat (a + of_nat k) = unat (a :: addr) + k"
  using unat_of_nat_u64 [of k] by (simp add: unat_add_no_wrap)

lemma word_disj:
  assumes "unat a + 8 * n < 2 ^ 64" "i < n" "j < n" "i \<noteq> j"
  shows "disj_range (a + of_nat (8 * i)) 8 (a + of_nat (8 * j)) 8"
proof -
  have u: "unat (a + of_nat (8 * k)) = unat a + 8 * k" if "k < n" for k
    using that assms(1) by (intro unat_add_of_nat) simp
  show ?thesis
  proof (cases "i < j")
    case True
    then show ?thesis using assms(1) u [OF assms(2)] u [OF assms(3)] assms(3) by (intro disj_rangeI_le) simp_all
  next
    case False
    then show ?thesis
      using assms(1,4) u [OF assms(2)] u [OF assms(3)] assms(2) by (intro disj_range_sym [OF disj_rangeI_le]) simp_all
  qed
qed

lemma array_store:
  assumes "array_at m a xs" "i < length xs"
  obtains m' where "store64 m (a + 8 * of_nat i) v = Inr m'" "array_at m' a (xs[i := v])"
    "same_outside m m' a (8 * length xs)"
proof
  let ?a = "a + of_nat (8 * i)"
  let ?m = "poke m ?a (le_bytes 8 v)"
  have u: "unat a + 8 * length xs < 2 ^ 64" and w: "word_at m a j = Inr (xs ! j)" if "j < length xs" for j
    using assms(1) that by (simp_all add: array_at_def)
  have mp: "mapped m ?a 8"
    using w [OF assms(2)] load64_InrD [of m ?a] assms(1) by (simp add: word_at_def array_at_def)
  then show "store64 m (a + 8 * of_nat i) v = Inr ?m" by (simp add: store64_mapped)
  have "word_at ?m a j = Inr (xs[i := v] ! j)" if "j < length xs" for j
  proof (cases "j = i")
    case True
    then show ?thesis using load64_poke_same [OF mp, of v] assms(2) by (simp add: word_at_def)
  next
    case False
    then have "load64 ?m (a + of_nat (8 * j)) = load64 m (a + of_nat (8 * j))"
      using word_disj [of a "length xs" i j] assms that u by (intro load64_poke_disj) simp
    then show ?thesis using w [OF that] False by (simp add: word_at_def)
  qed
  then show "array_at ?m a (xs[i := v])" using assms(1) by (simp add: array_at_def)
  have "in_range x a (8 * length xs)" if "in_range x ?a 8" for x
    using that by (rule sub_range_in_range) (use assms(2) u [OF assms(2)] in simp_all)
  then show "same_outside m ?m a (8 * length xs)" by (auto simp: same_outside_def poke_def)
qed

section \<open>Clearing an array\<close>

lemma zero_words_from:
  assumes "mapped m a (8 * n)" "unat a + 8 * n < 2 ^ 64"
  shows "k \<le> n \<Longrightarrow> (\<forall>i<k. word_at m a i = Inr 0) \<Longrightarrow>
    \<exists>m'. zero_words_loop a n k m = Inr m' \<and> array_at m' a (replicate n 0) \<and> same_outside m m' a (8 * n)"
  using assms(1)
proof (induction "n - k" arbitrary: k m)
  case 0
  then show ?case using assms(2)
    by (subst zero_words_loop.simps) (simp add: array_at_def same_outside_refl)
next
  case (Suc d)
  then have k: "k < n" by simp
  let ?a = "a + of_nat (8 * k)"
  let ?m = "poke m ?a (le_bytes 8 (0 :: u64))"
  have mp: "mapped m ?a 8" by (rule mapped_sub [OF Suc.prems(3)]) (use k assms(2) in simp_all)
  have z: "word_at ?m a i = Inr 0" if "i < Suc k" for i
  proof (cases "i = k")
    case True
    then show ?thesis using load64_poke_same [OF mp, of 0] by (simp add: word_at_def)
  next
    case False
    then have "load64 ?m (a + of_nat (8 * i)) = load64 m (a + of_nat (8 * i))"
      using word_disj [of a n k i] assms(2) that k by (intro load64_poke_disj) simp
    then show ?thesis using Suc.prems(2) that False by (simp add: word_at_def)
  qed
  have "mapped ?m a (8 * n)" using Suc.prems(3) mp by simp
  moreover have "d = n - Suc k" "Suc k \<le> n" "\<forall>i<Suc k. word_at ?m a i = Inr 0"
    using Suc.hyps(2) k z by (simp, simp, blast)
  ultimately obtain m' where
    m': "zero_words_loop a n (Suc k) ?m = Inr m'" "array_at m' a (replicate n 0)" "same_outside ?m m' a (8 * n)"
    using Suc.hyps(1) [of "Suc k" ?m] by blast
  have "in_range x a (8 * n)" if "in_range x ?a 8" for x
    using that by (rule sub_range_in_range) (use k assms(2) in simp_all)
  then have "same_outside m ?m a (8 * n)" by (auto simp: same_outside_def poke_def)
  with m' have "same_outside m m' a (8 * n)" by (blast intro: same_outside_trans)
  moreover have "zero_words_loop a n k m = Inr m'"
    using k mp m'(1) by (subst zero_words_loop.simps) (simp add: store64_mapped)
  ultimately show ?case using m'(2) by blast
qed

section \<open>Tables of tags and values\<close>

text \<open>The abstract operation: the value of a tag that has an element is stored there.\<close>

definition put_tag :: "u64 list \<Rightarrow> nat \<times> u64 \<Rightarrow> u64 list" where
  "put_tag xs e = xs[fst e := snd e]"

lemma length_put_tags [simp]: "length (foldl put_tag xs es) = length xs"
  by (induction es arbitrary: xs) (simp_all add: put_tag_def)

lemma put_tag_outside: "length xs \<le> fst e \<Longrightarrow> put_tag xs e = xs"
  by (simp add: put_tag_def list_update_beyond)

text \<open>Element \<open>t\<close> of the result is the last value of the tag \<open>t\<close> in the table.\<close>

lemma nth_put_tags:
  "t < length xs \<Longrightarrow>
     foldl put_tag xs es ! t = (case map_of (rev es) t of None \<Rightarrow> xs ! t | Some v \<Rightarrow> v)"
  by (induction es rule: rev_induct) (auto simp: put_tag_def nth_list_update)

definition dyn_table :: "mem \<Rightarrow> addr \<Rightarrow> (nat \<times> u64) list \<Rightarrow> bool" where
  "dyn_table m t es \<longleftrightarrow>
     length es < 2 ^ 31 - 1 \<and> unat t + 16 * (length es + 1) < 2 ^ 64
     \<and> (\<forall>i < length es. 0 < fst (es ! i) \<and> fst (es ! i) < 2 ^ 64
          \<and> load64 m (t + of_nat (16 * i)) = Inr (of_nat (fst (es ! i)))
          \<and> load64 m (t + of_nat (16 * i + 8)) = Inr (snd (es ! i)))
     \<and> load64 m (t + of_nat (16 * length es)) = Inr 0"

definition aux_table :: "mem \<Rightarrow> addr \<Rightarrow> (nat \<times> u64) list \<Rightarrow> bool" where
  "aux_table m t es \<longleftrightarrow>
     length es < 2 ^ 31 - 1 \<and> unat t + 16 * (length es + 1) < 2 ^ 64
     \<and> (\<forall>i < length es. 0 < fst (es ! i) \<and> fst (es ! i) < 2 ^ 31
          \<and> load32 m (t + of_nat (16 * i)) = Inr (of_nat (fst (es ! i)))
          \<and> load64 m (t + of_nat (16 * i + 8)) = Inr (snd (es ! i)))
     \<and> load32 m (t + of_nat (16 * length es)) = Inr 0"

lemma table_entry: "t + sizeof_Elf64_Dyn * scast (of_nat i :: i32) = t + of_nat (16 * i)" if "i < 2 ^ 31"
  using scast_small [OF that] by (simp add: sizeof_Elf64_Dyn_def)

lemma dyn_table_outside:
  assumes "dyn_table m t es" "same_outside m m' a n" "disj_range a n t (16 * (length es + 1))"
  shows "dyn_table m' t es"
proof -
  have "unat t + 16 * (length es + 1) \<le> 2 ^ 64" using assms(1) by (simp add: dyn_table_def)
  note l = outside_load64 [OF assms(2,3) _ this]
  have "load64 m' (t + of_nat (16 * i)) = load64 m (t + of_nat (16 * i))" if "i \<le> length es" for i
    using that by (intro l) simp
  moreover have "load64 m' (t + of_nat (16 * i + 8)) = load64 m (t + of_nat (16 * i + 8))" if "i < length es" for i
    using that by (intro l) simp
  ultimately show ?thesis using assms(1) by (simp add: dyn_table_def)
qed

lemma aux_table_outside:
  assumes "aux_table m t es" "same_outside m m' a n" "disj_range a n t (16 * (length es + 1))"
  shows "aux_table m' t es"
proof -
  have "unat t + 16 * (length es + 1) \<le> 2 ^ 64" using assms(1) by (simp add: aux_table_def)
  note l = outside_load64 [OF assms(2,3) _ this] outside_load32 [OF assms(2,3) _ this]
  have "load32 m' (t + of_nat (16 * i)) = load32 m (t + of_nat (16 * i))" if "i \<le> length es" for i
    using that by (intro l) simp
  moreover have "load64 m' (t + of_nat (16 * i + 8)) = load64 m (t + of_nat (16 * i + 8))" if "i < length es" for i
    using that by (intro l) simp
  ultimately show ?thesis using assms(1) by (simp add: aux_table_def)
qed

lemma drop_nth: "i < length es \<Longrightarrow> drop i es = es ! i # drop (Suc i) es"
  by (rule Cons_nth_drop_Suc [symmetric])

lemma dyn_step:
  assumes "dyn_table m t es" "array_at m dyn xs" "length xs = DYN_CNT" "i < length es"
  shows "\<exists>m1. dyn_loop t dyn (of_nat i) m = dyn_loop t dyn (of_nat (Suc i)) m1
    \<and> array_at m1 dyn (put_tag xs (es ! i)) \<and> same_outside m m1 dyn (8 * length xs)"
proof -
  obtain tag v where e: "es ! i = (tag, v)" by fastforce
  have b: "length es < 2 ^ 31 - 1" "0 < tag" "tag < 2 ^ 64" "load64 m (t + of_nat (16 * i)) = Inr (of_nat tag)"
    "load64 m (t + of_nat (16 * i + 8)) = Inr v"
    using assms(1,4) e by (auto simp: dyn_table_def)
  have inc: "inc_i32 (of_nat i) = Inr (of_nat (Suc i))" using b(1) assms(4) by (intro inc_i32_count) simp
  have i: "i < 2 ^ 31" using b(1) assms(4) by simp
  have nz: "(of_nat tag :: u64) \<noteq> 0" using b(2,3) unat_of_nat_u64 [of tag] by (metis not_less0 unat_0)
  have lt: "(of_nat tag :: u64) < of_nat DYN_CNT \<longleftrightarrow> tag < DYN_CNT"
    using b(3) by (simp add: word_less_nat_alt unat_of_nat_u64 DYN_CNT_def)
  show ?thesis
  proof (cases "tag < DYN_CNT")
    case True
    then obtain m1 where m1: "store64 m (dyn + 8 * of_nat tag) v = Inr m1" "array_at m1 dyn (xs[tag := v])"
      "same_outside m m1 dyn (8 * length xs)"
      using array_store [OF assms(2), of tag v] assms(3) by auto
    have "dyn_loop t dyn (of_nat i) m = dyn_loop t dyn (of_nat (Suc i)) m1"
      using b nz lt m1(1) inc True
      by (subst dyn_loop.simps) (simp add: d_tag_def d_val_def table_entry [OF i] DT_NULL_def add.assoc del: of_nat_Suc)
    with m1 show ?thesis by (auto simp: put_tag_def e)
  next
    case False
    then have "dyn_loop t dyn (of_nat i) m = dyn_loop t dyn (of_nat (Suc i)) m"
      using b nz lt inc
      by (subst dyn_loop.simps) (simp add: d_tag_def table_entry [OF i] DT_NULL_def del: of_nat_Suc)
    with False assms(2,3) show ?thesis
      by (intro exI [of _ m]) (simp add: put_tag_outside e same_outside_refl)
  qed
qed

lemma aux_step:
  assumes "aux_table m t es" "array_at m aux xs" "length xs = AUX_CNT" "i < length es"
  shows "\<exists>m1. aux_loop t aux (of_nat i) m = aux_loop t aux (of_nat (Suc i)) m1
    \<and> array_at m1 aux (put_tag xs (es ! i)) \<and> same_outside m m1 aux (8 * length xs)"
proof -
  obtain tag v where e: "es ! i = (tag, v)" by fastforce
  have b: "length es < 2 ^ 31 - 1" "0 < tag" "tag < 2 ^ 31" "load32 m (t + of_nat (16 * i)) = Inr (of_nat tag)"
    "load64 m (t + of_nat (16 * i + 8)) = Inr v"
    using assms(1,4) e by (auto simp: aux_table_def)
  have inc: "inc_i32 (of_nat i) = Inr (of_nat (Suc i))" using b(1) assms(4) by (intro inc_i32_count) simp
  have i: "i < 2 ^ 31" using b(1) assms(4) by simp
  have entry: "t + sizeof_Elf64_Aux * scast (of_nat i :: i32) = t + of_nat (16 * i)"
    using table_entry [OF i] by (simp add: sizeof_Elf64_Aux_def sizeof_Elf64_Dyn_def)
  have st: "sint (of_nat tag :: i32) = int tag" by (rule sint_small_i32 [OF b(3)])
  have nz: "(of_nat tag :: i32) \<noteq> 0" using b(2) st by auto
  have lt: "(of_nat tag :: i32) <s of_nat AUX_CNT \<longleftrightarrow> tag < AUX_CNT" and pos: "\<not> (of_nat tag :: i32) <s 0"
    by (simp_all add: word_sless_alt st sint_small_i32 AUX_CNT_def)
  show ?thesis
  proof (cases "tag < AUX_CNT")
    case True
    then obtain m1 where m1: "store64 m (aux + 8 * of_nat tag) v = Inr m1" "array_at m1 aux (xs[tag := v])"
      "same_outside m m1 aux (8 * length xs)"
      using array_store [OF assms(2), of tag v] assms(3) by auto
    have "aux_loop t aux (of_nat i) m = aux_loop t aux (of_nat (Suc i)) m1"
      using b nz lt pos m1(1) inc True
      by (subst aux_loop.simps)
        (simp add: a_type_def a_val_def entry AT_NULL_def scast_small add.assoc del: of_nat_Suc)
    with m1 show ?thesis by (auto simp: put_tag_def e)
  next
    case False
    then have "aux_loop t aux (of_nat i) m = aux_loop t aux (of_nat (Suc i)) m"
      using b nz lt inc
      by (subst aux_loop.simps) (simp add: a_type_def entry AT_NULL_def del: of_nat_Suc)
    with False assms(2,3) show ?thesis
      by (intro exI [of _ m]) (simp add: put_tag_outside e same_outside_refl)
  qed
qed

section \<open>Scanning a table\<close>

text \<open>
  The three loops of the loader that decode a table share a contract: \<open>scan t a i\<close> reads the entries of
  the table \<open>t\<close> from \<open>i\<close> on and puts each into the array at \<open>a\<close>, which has \<open>width\<close> elements.
\<close>

locale tag_scan =
  fixes scan :: "addr \<Rightarrow> addr \<Rightarrow> i32 \<Rightarrow> mem \<Rightarrow> mem res"
    and table :: "mem \<Rightarrow> addr \<Rightarrow> (nat \<times> u64) list \<Rightarrow> bool"
    and put :: "u64 list \<Rightarrow> nat \<times> u64 \<Rightarrow> u64 list"
    and width :: nat
  assumes scan_end: "table m t es \<Longrightarrow> scan t a (of_nat (length es)) m = Inr m"
    and scan_step: "table m t es \<Longrightarrow> array_at m a xs \<Longrightarrow> length xs = width \<Longrightarrow> i < length es \<Longrightarrow>
      disj_range a (8 * width) t (16 * (length es + 1)) \<Longrightarrow>
      \<exists>m1. scan t a (of_nat i) m = scan t a (of_nat (Suc i)) m1 \<and> array_at m1 a (put xs (es ! i))
        \<and> same_outside m m1 a (8 * length xs)"
    and table_outside: "table m t es \<Longrightarrow> same_outside m m' a n \<Longrightarrow> disj_range a n t (16 * (length es + 1)) \<Longrightarrow>
      table m' t es"
    and length_put: "length (put xs e) = length xs"
begin

lemma scan_from:
  assumes "table m t es" "array_at m a xs" "length xs = width" "i \<le> length es"
    and disj: "disj_range a (8 * width) t (16 * (length es + 1))"
  shows "\<exists>m'. scan t a (of_nat i) m = Inr m' \<and> array_at m' a (foldl put xs (drop i es))
    \<and> same_outside m m' a (8 * width)"
  using assms(1-4)
proof (induction "length es - i" arbitrary: i m xs)
  case 0
  then have "i = length es" by simp
  with 0 show ?case by (simp add: scan_end same_outside_refl)
next
  case (Suc d)
  then have i: "i < length es" by simp
  obtain m1 where m1: "scan t a (of_nat i) m = scan t a (of_nat (Suc i)) m1"
    "array_at m1 a (put xs (es ! i))" "same_outside m m1 a (8 * width)"
    using scan_step [OF Suc.prems(1-3) i disj] Suc.prems(3) by auto
  have "d = length es - Suc i" "Suc i \<le> length es" "length (put xs (es ! i)) = width"
    using Suc.hyps(2) i Suc.prems(3) by (simp_all add: length_put)
  with Suc.hyps(1) [OF _ table_outside [OF Suc.prems(1) m1(3) disj] m1(2)]
  obtain m' where "scan t a (of_nat (Suc i)) m1 = Inr m'"
    "array_at m' a (foldl put (put xs (es ! i)) (drop (Suc i) es))" "same_outside m1 m' a (8 * width)"
    by blast
  then show ?case
    using m1(1) same_outside_trans [OF m1(3)] by (intro exI [of _ m']) (simp add: drop_nth [OF i] del: of_nat_Suc)
qed

text \<open>The array is cleared and filled.\<close>

lemma clear_and_scan:
  assumes "table m t es" "mapped m a (8 * width)" "unat a + 8 * width < 2 ^ 64"
    and disj: "disj_range a (8 * width) t (16 * (length es + 1))"
  shows "\<exists>m1 m'. zero_words_loop a width 0 m = Inr m1 \<and> scan t a 0 m1 = Inr m'
    \<and> array_at m' a (foldl put (replicate width 0) es) \<and> same_outside m m' a (8 * width)"
proof -
  obtain m1 where m1: "zero_words_loop a width 0 m = Inr m1" "array_at m1 a (replicate width 0)"
    "same_outside m m1 a (8 * width)"
    using zero_words_from [OF assms(2,3), of 0] by auto
  from scan_from [OF table_outside [OF assms(1) m1(3) disj] m1(2) _ _ disj, of 0]
  obtain m' where "scan t a 0 m1 = Inr m'" "array_at m' a (foldl put (replicate width 0) es)"
    "same_outside m1 m' a (8 * width)"
    by auto
  with m1 show ?thesis by (blast intro: same_outside_trans)
qed

end

interpretation dyn_scan: tag_scan dyn_loop dyn_table put_tag DYN_CNT
proof
  fix m t a and es :: "(nat \<times> u64) list"
  assume "dyn_table m t es"
  then have "length es < 2 ^ 31" "load64 m (t + of_nat (16 * length es)) = Inr 0" by (simp_all add: dyn_table_def)
  then show "dyn_loop t a (of_nat (length es)) m = Inr m"
    by (subst dyn_loop.simps) (simp add: d_tag_def table_entry DT_NULL_def)
qed (blast intro: dyn_step dyn_table_outside, blast intro: dyn_table_outside, simp add: put_tag_def)

interpretation aux_scan: tag_scan aux_loop aux_table put_tag AUX_CNT
proof
  fix m t a and es :: "(nat \<times> u64) list"
  assume "aux_table m t es"
  then have l: "length es < 2 ^ 31" "load32 m (t + of_nat (16 * length es)) = Inr 0" by (simp_all add: aux_table_def)
  then have "t + sizeof_Elf64_Aux * scast (of_nat (length es) :: i32) = t + of_nat (16 * length es)"
    using table_entry [of "length es" t] by (simp add: sizeof_Elf64_Aux_def sizeof_Elf64_Dyn_def)
  with l show "aux_loop t a (of_nat (length es)) m = Inr m"
    by (subst aux_loop.simps) (simp add: a_type_def AT_NULL_def)
qed (blast intro: aux_step, blast intro: aux_table_outside, simp add: put_tag_def)

section \<open>The dynamic section in stage 2\<close>

text \<open>Element 0 collects a bit for each tag that has an element.\<close>

definition put_seen :: "u64 list \<Rightarrow> nat \<times> u64 \<Rightarrow> u64 list" where
  "put_seen xs e =
     (if fst e < length xs then (xs[0 := xs ! 0 OR push_bit (fst e) 1])[fst e := snd e] else xs)"

definition signed_table :: "mem \<Rightarrow> addr \<Rightarrow> (nat \<times> u64) list \<Rightarrow> bool" where
  "signed_table m t es \<longleftrightarrow> dyn_table m t es \<and> (\<forall>i < length es. fst (es ! i) < 2 ^ 63)"

lemma signed_step:
  assumes t: "signed_table m t es" and xs: "array_at m dyn xs" "length xs = DYN_CNT" and "i < length es"
    and disj: "disj_range dyn (8 * DYN_CNT) t (16 * (length es + 1))"
  shows "\<exists>m1. dyn_loop_signed t dyn (of_nat i) m = dyn_loop_signed t dyn (of_nat (Suc i)) m1
    \<and> array_at m1 dyn (put_seen xs (es ! i)) \<and> same_outside m m1 dyn (8 * length xs)"
proof -
  obtain tag v where e: "es ! i = (tag, v)" by fastforce
  have b: "length es < 2 ^ 31 - 1" "0 < tag" "tag < 2 ^ 63" "load64 m (t + of_nat (16 * i)) = Inr (of_nat tag)"
    "unat t + 16 * (length es + 1) \<le> 2 ^ 64"
    using t assms(4) e by (auto simp: signed_table_def dyn_table_def)
  have inc: "inc_i32 (of_nat i) = Inr (of_nat (Suc i))" using b(1) assms(4) by (intro inc_i32_count) simp
  have i: "i < 2 ^ 31" using b(1) assms(4) by simp
  have st: "sint (of_nat tag :: i64) = int tag" by (rule sint_small [OF b(3)])
  have nz: "(of_nat tag :: i64) \<noteq> 0" using b(2) st by auto
  have lt: "(of_nat tag :: i64) <s of_nat DYN_CNT \<longleftrightarrow> tag < DYN_CNT" and pos: "\<not> (of_nat tag :: i64) <s 0"
    by (simp_all add: word_sless_alt st sint_small DYN_CNT_def)
  have ut: "unat (of_nat tag :: i64) = tag" using b(3) by (intro unat_of_nat_u64) simp
  show ?thesis
  proof (cases "tag < DYN_CNT")
    case True
    let ?seen = "xs ! 0 OR push_bit tag 1"
    have "0 < length xs" using xs(2) True by simp
    then have "word_at m dyn 0 = Inr (xs ! 0)" using xs(1) by (simp add: array_at_def)
    then have l0: "load64 m dyn = Inr (xs ! 0)" by (simp add: word_at_def)
    obtain m1 where m1: "store64 m dyn ?seen = Inr m1" "array_at m1 dyn (xs[0 := ?seen])"
      "same_outside m m1 dyn (8 * length xs)"
      using array_store [OF xs(1), of 0 ?seen] xs(2) True by auto
    obtain m2 where m2: "store64 m1 (dyn + 8 * of_nat tag) v = Inr m2" "array_at m2 dyn ((xs[0 := ?seen])[tag := v])"
      "same_outside m1 m2 dyn (8 * length xs)"
      using array_store [OF m1(2), of tag v] xs(2) True by auto
    have "load64 m1 (t + of_nat (16 * i + 8)) = load64 m (t + of_nat (16 * i + 8))"
      by (rule outside_load64 [OF m1(3) [unfolded xs(2)] disj _ b(5)]) (use assms(4) in simp)
    moreover have "load64 m (t + of_nat (16 * i + 8)) = Inr v"
      using t assms(4) e by (auto simp: signed_table_def dyn_table_def)
    ultimately have "dyn_loop_signed t dyn (of_nat i) m = dyn_loop_signed t dyn (of_nat (Suc i)) m2"
      using b(4) nz lt pos l0 m1(1) m2(1) inc True ut
      by (subst dyn_loop_signed.simps)
        (simp add: d_tag_def d_val_def table_entry [OF i] DT_NULL_def add.assoc del: of_nat_Suc)
    moreover have "same_outside m m2 dyn (8 * length xs)" by (rule same_outside_trans [OF m1(3) m2(3)])
    ultimately show ?thesis using m2(2) True xs(2) by (auto simp: put_seen_def e)
  next
    case False
    then have "dyn_loop_signed t dyn (of_nat i) m = dyn_loop_signed t dyn (of_nat (Suc i)) m"
      using b(4) nz lt inc
      by (subst dyn_loop_signed.simps) (simp add: d_tag_def table_entry [OF i] DT_NULL_def del: of_nat_Suc)
    with False xs show ?thesis
      by (intro exI [of _ m]) (simp add: put_seen_def e same_outside_refl)
  qed
qed

interpretation signed_scan: tag_scan dyn_loop_signed signed_table put_seen DYN_CNT
proof
  fix m t a and es :: "(nat \<times> u64) list"
  assume "signed_table m t es"
  then have "length es < 2 ^ 31" "load64 m (t + of_nat (16 * length es)) = Inr 0"
    by (simp_all add: signed_table_def dyn_table_def)
  then show "dyn_loop_signed t a (of_nat (length es)) m = Inr m"
    by (subst dyn_loop_signed.simps) (simp add: d_tag_def table_entry DT_NULL_def)
qed (blast intro: signed_step, auto simp: signed_table_def intro: dyn_table_outside, simp add: put_seen_def)

lemma length_put_seens [simp]: "length (foldl put_seen xs es) = length xs"
  by (induction es arbitrary: xs) (simp_all add: put_seen_def)

text \<open>Apart from element 0 the array is the one that stage 1 computes for the same section.\<close>

lemma put_seen_nth: "0 < t \<Longrightarrow> t < length xs \<Longrightarrow> foldl put_seen xs es ! t = foldl put_tag xs es ! t"
  by (induction es rule: rev_induct) (auto simp: put_seen_def put_tag_def nth_list_update)

lemma dyn_signed_decodes:
  assumes "signed_table m t es" "mapped m a (8 * DYN_CNT)" "unat a + 8 * DYN_CNT < 2 ^ 64"
    "disj_range a (8 * DYN_CNT) t (16 * (length es + 1))"
  shows "\<exists>m1 m'. zero_words_loop a DYN_CNT 0 m = Inr m1 \<and> dyn_loop_signed t a 0 m1 = Inr m'
    \<and> (\<forall>k. 0 < k \<and> k < DYN_CNT \<longrightarrow> word_at m' a k = Inr (foldl put_tag (replicate DYN_CNT 0) es ! k))
    \<and> same_outside m m' a (8 * DYN_CNT)"
  using signed_scan.clear_and_scan [OF assms] put_seen_nth [of _ "replicate DYN_CNT 0" es]
  by (auto simp: array_at_def)

section \<open>The start of stage 1\<close>

text \<open>The value of a tag is the one of its last entry, and 0 without an entry.\<close>

definition tag_value :: "(nat \<times> u64) list \<Rightarrow> nat \<Rightarrow> u64" where
  "tag_value es t = (case map_of (rev es) t of None \<Rightarrow> 0 | Some v \<Rightarrow> v)"

lemma array_tag_values:
  "array_at m a (foldl put_tag (replicate n 0) es) \<Longrightarrow> t < n \<Longrightarrow> word_at m a t = Inr (tag_value es t)"
  by (simp add: array_at_def nth_put_tags tag_value_def split: option.splits)

lemma array_outside:
  assumes "array_at m a xs" "same_outside m m' b n" "disj_range b n a (8 * length xs)"
  shows "array_at m' a xs"
proof -
  have u: "unat a + 8 * length xs \<le> 2 ^ 64" using assms(1) by (simp add: array_at_def)
  have "load64 m' (a + of_nat (8 * i)) = load64 m (a + of_nat (8 * i))" if "i < length xs" for i
    using that by (intro outside_load64 [OF assms(2,3) _ u]) simp
  then show ?thesis using assms(1) by (simp add: array_at_def word_at_def)
qed

lemma mapped_same_outside:
  assumes "mapped m a n" "same_outside m m' b k" "disj_range b k a n"
  shows "mapped m' a n"
  using assms by (auto simp: mapped_def same_outside_def disj_range_def)

lemma env_loop_from:
  assumes "envc < 2 ^ 31 - 1" "\<forall>i<envc. \<exists>p. p \<noteq> 0 \<and> load64 m (envp + 8 * of_nat i) = Inr p"
    and "load64 m (envp + 8 * of_nat envc) = Inr 0" "i \<le> envc"
  shows "env_loop m envp (of_nat i) = Inr (of_nat envc)"
  using assms(4)
proof (induction i rule: inc_induct)
  case base
  then show ?case using assms(1,3) by (subst env_loop.simps) (simp add: scast_small)
next
  case (step i)
  obtain p where "p \<noteq> 0" "load64 m (envp + 8 * of_nat i) = Inr p" using assms(2) step(2) by blast
  moreover have "inc_i32 (of_nat i) = Inr (of_nat (Suc i))" using step(2) assms(1) by (intro inc_i32_count) simp
  ultimately show ?case
    using step(2,3) assms(1) by (subst env_loop.simps) (simp add: scast_small del: of_nat_Suc)
qed

text \<open>What the kernel leaves on the stack: the arguments, the environment and the auxiliary vector.\<close>

definition start_stack :: "mem \<Rightarrow> addr \<Rightarrow> nat \<Rightarrow> nat \<Rightarrow> (nat \<times> u64) list \<Rightarrow> bool" where
  "start_stack m sp argc envc auxv \<longleftrightarrow>
     argc < 2 ^ 31 \<and> envc < 2 ^ 31 - 1 \<and> load64 m sp = Inr (of_nat argc)
     \<and> (\<forall>i<envc. \<exists>p. p \<noteq> 0 \<and> load64 m (sp + 8 * of_nat (argc + 2 + i)) = Inr p)
     \<and> load64 m (sp + 8 * of_nat (argc + 2 + envc)) = Inr 0
     \<and> aux_table m (sp + 8 * of_nat (argc + envc + 3)) auxv"

lemma ld_read_tables_runs:
  assumes s: "start_stack m sp argc envc auxv" and d: "dyn_table m dynv es"
    and a: "mapped m (fr_aux fr) (8 * 32)" "unat (fr_aux fr) + 8 * 32 < 2 ^ 64"
      "disj_range (fr_aux fr) (8 * 32) (sp + 8 * of_nat (argc + envc + 3)) (16 * (length auxv + 1))"
      "disj_range (fr_aux fr) (8 * 32) dynv (16 * (length es + 1))"
      "disj_range (fr_aux fr) (8 * 32) (fr_dyn1 fr) (8 * 37)"
    and b: "mapped m (fr_dyn1 fr) (8 * 37)" "unat (fr_dyn1 fr) + 8 * 37 < 2 ^ 64"
      "disj_range (fr_dyn1 fr) (8 * 37) dynv (16 * (length es + 1))"
  shows "\<exists>m'. ld_read_tables fr sp dynv m = Inr m'
    \<and> (\<forall>t<32. word_at m' (fr_aux fr) t = Inr (tag_value auxv t))
    \<and> (\<forall>t<37. word_at m' (fr_dyn1 fr) t = Inr (tag_value es t))
    \<and> (\<forall>x. \<not> in_range x (fr_aux fr) (8 * 32) \<and> \<not> in_range x (fr_dyn1 fr) (8 * 37) \<longrightarrow> m' x = m x)"
proof -
  let ?envp = "sp + 8 * of_nat (argc + 2)"
  have l: "argc < 2 ^ 31" "envc < 2 ^ 31 - 1" "load64 m sp = Inr (of_nat argc)"
    using s by (simp_all add: start_stack_def)
  have e: "env_loop m ?envp 0 = Inr (of_nat envc)"
    using s env_loop_from [of envc m ?envp 0] by (simp add: start_stack_def algebra_simps)
  have at: "aux_table m (sp + 8 * of_nat (argc + envc + 3)) auxv" using s by (simp add: start_stack_def)
  from aux_scan.clear_and_scan [OF at, of "fr_aux fr", unfolded AUX_CNT_def, OF a(1-3)]
  obtain ma m1 where m1: "zero_words_loop (fr_aux fr) AUX_CNT 0 m = Inr ma"
      "aux_loop (sp + 8 * of_nat (argc + envc + 3)) (fr_aux fr) 0 ma = Inr m1"
      "array_at m1 (fr_aux fr) (foldl put_tag (replicate 32 0) auxv)" "same_outside m m1 (fr_aux fr) (8 * 32)"
    unfolding AUX_CNT_def by blast
  from dyn_scan.clear_and_scan [OF dyn_table_outside [OF d m1(4) a(4)], of "fr_dyn1 fr", unfolded DYN_CNT_def,
      OF mapped_same_outside [OF b(1) m1(4) a(5)] b(2,3)]
  obtain mb m2 where m2: "zero_words_loop (fr_dyn1 fr) DYN_CNT 0 m1 = Inr mb" "dyn_loop dynv (fr_dyn1 fr) 0 mb = Inr m2"
      "array_at m2 (fr_dyn1 fr) (foldl put_tag (replicate 37 0) es)" "same_outside m1 m2 (fr_dyn1 fr) (8 * 37)"
    unfolding DYN_CNT_def by blast
  have m2a: "array_at m2 (fr_aux fr) (foldl put_tag (replicate 32 0) auxv)"
    by (rule array_outside [OF m1(3) m2(4)]) (use disj_range_sym [OF a(5)] in simp)
  have argc: "(ucast (of_nat argc :: u64) :: i32) = of_nat argc"
    using l(1) by (intro ucast_small) simp
  have envp: "sp + 8 + 8 * scast (of_nat argc :: i32) + 8 = ?envp"
    and auxv: "?envp + 8 * (scast (of_nat envc :: i32) + 1) = sp + 8 * of_nat (argc + envc + 3)"
    using scast_small [OF l(1)] scast_small [of envc] l(2) by (simp_all add: algebra_simps)
  have "ld_read_tables fr sp dynv m = Inr m2"
    by (simp only: ld_read_tables_def l(3) bind_res_simps Let_def argc envp e auxv m1(1,2) m2(1,2))
  moreover have "m2 x = m x" if "\<not> in_range x (fr_aux fr) (8 * 32)" "\<not> in_range x (fr_dyn1 fr) (8 * 37)" for x
    using m1(4) m2(4) that by (simp add: same_outside_def)
  ultimately show ?thesis
    using array_tag_values [OF m2a] array_tag_values [OF m2(3)] by blast
qed

section \<open>Properties\<close>

text \<open>The first step of the loader.  On the stack a process starts with and a dynamic section, both
  apart from the arrays of the loader, element \<open>t\<close> of \<open>aux\<close> and of \<open>dyn\<close> holds the last value of the
  tag \<open>t\<close>, or 0, for all tags below 32 and 37; nothing else in memory changes.\<close>

theorem ld_read_tables_decodes:
  assumes s: "start_stack m sp argc envc auxv" and d: "dyn_table m dynv es"
    and a: "mapped m (fr_aux fr) (8 * 32)" "unat (fr_aux fr) + 8 * 32 < 2 ^ 64"
      "disj_range (fr_aux fr) (8 * 32) (sp + 8 * of_nat (argc + envc + 3)) (16 * (length auxv + 1))"
      "disj_range (fr_aux fr) (8 * 32) dynv (16 * (length es + 1))"
      "disj_range (fr_aux fr) (8 * 32) (fr_dyn1 fr) (8 * 37)"
    and b: "mapped m (fr_dyn1 fr) (8 * 37)" "unat (fr_dyn1 fr) + 8 * 37 < 2 ^ 64"
      "disj_range (fr_dyn1 fr) (8 * 37) dynv (16 * (length es + 1))"
  shows "\<exists>m'. ld_read_tables fr sp dynv m = Inr m'
    \<and> (\<forall>t<32. word_at m' (fr_aux fr) t = Inr (tag_value auxv t))
    \<and> (\<forall>t<37. word_at m' (fr_dyn1 fr) t = Inr (tag_value es t))
    \<and> (\<forall>x. \<not> in_range x (fr_aux fr) (8 * 32) \<and> \<not> in_range x (fr_dyn1 fr) (8 * 37) \<longrightarrow> m' x = m x)"
  using assms by (rule ld_read_tables_runs)

text \<open>One argument, one variable, one auxiliary entry and one dynamic entry.\<close>

definition start_words :: "(addr \<times> u64) list" where
  "start_words =
     [(0x10000, 1), (0x10008, 5), (0x10018, 0x77), (0x10028, 3), (0x10030, 0x40), (0x10200, 5), (0x10208, 0x99)]"

definition start_memory :: mem where
  "start_memory = write_all start_words demo_page"

definition start_frames :: ld_frames where
  "start_frames = \<lparr>fr_print = 0, fr_aux = 0x10400, fr_dyn1 = 0x10800, fr_dyn2 = 0, fr_dyn2_kept = False, fr_line = 0,
     fr_params = (\<lambda>_. 0), fr_rsp = 0, fr_ret = (\<lambda>_. 0)\<rparr>"

lemma mapped_start: "0x10000 \<le> unat a \<Longrightarrow> unat a + n \<le> 0x11000 \<Longrightarrow> mapped start_memory a n"
  by (simp add: start_memory_def mapped_write_all mapped_demo_page)

lemma peek64_demo_page: "peek64 demo_page 0x10020 = 0" "peek64 demo_page 0x10210 = 0"
  by (simp_all add: peek64_def peek_def demo_page_def in_range_def upt_rec)

lemma start_peek:
  "peek64 start_memory 0x10000 = 1" "peek64 start_memory 0x10018 = 0x77" "peek64 start_memory 0x10020 = 0"
  "peek64 start_memory 0x10030 = 0x40" "peek64 start_memory 0x10200 = 5" "peek64 start_memory 0x10208 = 0x99"
  "peek64 start_memory 0x10210 = 0"
  by (simp_all add: start_memory_def start_words_def write_all_def peek64_poke_same peek64_poke_other
      disj_range_apart peek64_demo_page del: le_bytes.simps)

lemma le_bytes_3: "le_bytes 8 (3 :: u64) = [3, 0, 0, 0, 0, 0, 0, 0]"
  by code_simp

lemma start_load32: "load32 start_memory 0x10028 = Inr 3" "load32 start_memory 0x10038 = Inr 0"
  by (simp_all add: load32_mapped mapped_start peek_def upt_rec)
    (simp_all add: start_memory_def start_words_def write_all_def demo_page_def poke_def in_range_def le_bytes_3)

theorem ld_read_tables_decodes_witness:
  "\<exists>m'. ld_read_tables start_frames 0x10000 0x10200 start_memory = Inr m'
    \<and> word_at m' 0x10400 3 = Inr 0x40 \<and> word_at m' 0x10800 5 = Inr 0x99 \<and> word_at m' 0x10800 6 = Inr 0"
proof -
  have "start_stack start_memory 0x10000 1 1 [(3, 0x40)]"
    by (simp add: start_stack_def aux_table_def load64_peek64 mapped_start start_peek start_load32)
  moreover have "dyn_table start_memory 0x10200 [(5, 0x99)]"
    by (simp add: dyn_table_def load64_peek64 mapped_start start_peek)
  ultimately show ?thesis
    using ld_read_tables_decodes [of start_memory "0x10000" 1 1 "[(3, 0x40)]" "0x10200" "[(5, 0x99)]" start_frames]
    by (auto simp: start_frames_def mapped_start disj_range_apart tag_value_def)
qed

end
