(* ===== verification/Loader_Image.thy ===== *)
theory Loader_Image
  imports Loader_Tables
begin

text \<open>
  The relocation of an image as a whole: the table with addends and the jump table, and stage 1 of the
  loader from the initial stack to the call of stage 2.
\<close>

section \<open>The jump table\<close>

text \<open>Only jump slots (type 7) are written; the other entries are passed over.\<close>

definition is_slot :: "mem \<Rightarrow> addr \<Rightarrow> bool" where
  "is_slot m a \<longleftrightarrow> take_bit 32 (peek64 m (a + 8)) = 7"

definition plt_write :: "mem \<Rightarrow> addr \<Rightarrow> addr \<Rightarrow> addr \<Rightarrow> (addr \<times> u64) list" where
  "plt_write m base symtab a =
     (if is_slot m a then [(base + peek64 m a, base + peek64 m (rela_symbol m symtab a + 8))] else [])"

definition plt_writes :: "mem \<Rightarrow> addr \<Rightarrow> addr \<Rightarrow> addr \<Rightarrow> nat \<Rightarrow> (addr \<times> u64) list" where
  "plt_writes m base symtab table n = concat (map (\<lambda>i. plt_write m base symtab (table + 24 * of_nat i)) [0..<n])"

text \<open>What the entries read: the table and the symbols of the slots.\<close>

definition plt_reads :: "mem \<Rightarrow> addr \<Rightarrow> addr \<Rightarrow> nat \<Rightarrow> addr \<Rightarrow> bool" where
  "plt_reads m symtab table n x \<longleftrightarrow> in_range x table (24 * n)
     \<or> (\<exists>i<n. is_slot m (table + 24 * of_nat i) \<and> in_range x (rela_symbol m symtab (table + 24 * of_nat i)) 16)"

definition keeps :: "(addr \<Rightarrow> bool) \<Rightarrow> mem \<Rightarrow> mem \<Rightarrow> bool" where
  "keeps T m m' \<longleftrightarrow> dom m \<subseteq> dom m' \<and> (\<forall>x. T x \<longrightarrow> m' x = m x)"

definition plt_table_ok :: "mem \<Rightarrow> addr \<Rightarrow> addr \<Rightarrow> addr \<Rightarrow> nat \<Rightarrow> bool" where
  "plt_table_ok m base symtab table n \<longleftrightarrow> unat table + 24 * n < 2 ^ 64
     \<and> (\<forall>x. plt_reads m symtab table n x \<longrightarrow> m x \<noteq> None)
     \<and> (\<forall>(t, u)\<in>set (plt_writes m base symtab table n). mapped m t 8 \<and> (\<forall>x. in_range x t 8 \<longrightarrow> \<not> plt_reads m symtab table n x))"

lemma keeps_refl: "keeps T m m"
  by (simp add: keeps_def)

lemma keeps_mapped: "keeps T m m' \<Longrightarrow> mapped m a k \<Longrightarrow> mapped m' a k"
  by (auto simp: keeps_def mapped_def subset_iff domIff)

lemma keeps_write_all:
  "keeps T m m' \<Longrightarrow> \<forall>(t, u)\<in>set ws. mapped m t 8 \<and> (\<forall>x. in_range x t 8 \<longrightarrow> \<not> T x) \<Longrightarrow> keeps T m (write_all ws m')"
proof (induction ws arbitrary: m')
  case (Cons w ws)
  obtain t u where w: "w = (t, u)" by fastforce
  have "mapped m' t 8" using Cons.prems keeps_mapped by (auto simp: w)
  then have "keeps T m (poke m' t (le_bytes 8 u))"
    using Cons.prems dom_poke [of m' t "le_bytes 8 u"] by (auto simp: keeps_def w poke_def)
  with Cons w show ?case by simp
qed simp

lemma keeps_peek64: "keeps T m m' \<Longrightarrow> (\<And>x. in_range x a 8 \<Longrightarrow> T x) \<Longrightarrow> peek64 m' a = peek64 m a"
  by (rule peek64_cong) (simp add: keeps_def)

text \<open>An entry of the table in a memory that agrees with the original on what is read.\<close>

lemma plt_entry_same:
  assumes k: "keeps (plt_reads m symtab table n) m m'" and "i < n" "unat table + 24 * n < 2 ^ 64"
  defines "a \<equiv> table + 24 * of_nat i"
  shows "peek64 m' a = peek64 m a" "peek64 m' (a + 8) = peek64 m (a + 8)" "peek64 m' (a + 16) = peek64 m (a + 16)"
    and "is_slot m a \<Longrightarrow> peek64 m' (rela_symbol m symtab a + 8) = peek64 m (rela_symbol m symtab a + 8)"
    and "k + 8 \<le> 24 \<Longrightarrow> in_range x (a + of_nat k) 8 \<Longrightarrow> plt_reads m symtab table n x"
    and "is_slot m a \<Longrightarrow> in_range x (rela_symbol m symtab a + 8) 8 \<Longrightarrow> plt_reads m symtab table n x"
proof -
  have tab: "plt_reads m symtab table n x" if "in_range x (a + of_nat k) 8" "k + 8 \<le> 24" for x k
    using table_word [OF assms(3,2) that(2)] that(1) by (simp add: plt_reads_def a_def)
  show "k + 8 \<le> 24 \<Longrightarrow> in_range x (a + of_nat k) 8 \<Longrightarrow> plt_reads m symtab table n x" using tab by blast
  have sym: "plt_reads m symtab table n x" if "is_slot m a" "in_range x (rela_symbol m symtab a + 8) 8" for x
    using symbol_word [of 8 8 x "rela_symbol m symtab a"] assms(2) that by (auto simp: plt_reads_def a_def)
  show "is_slot m a \<Longrightarrow> in_range x (rela_symbol m symtab a + 8) 8 \<Longrightarrow> plt_reads m symtab table n x" using sym by blast
  show "peek64 m' a = peek64 m a" "peek64 m' (a + 8) = peek64 m (a + 8)" "peek64 m' (a + 16) = peek64 m (a + 16)"
    using tab [of _ 0] tab [of _ 8] tab [of _ 16] by (auto intro!: keeps_peek64 [OF k])
  show "is_slot m a \<Longrightarrow> peek64 m' (rela_symbol m symtab a + 8) = peek64 m (rela_symbol m symtab a + 8)"
    using sym by (auto intro!: keeps_peek64 [OF k])
qed

lemma slot_type: "(ucast (take_bit 32 x :: u64) :: u32) = 7 \<longleftrightarrow> take_bit 32 x = 7"
  by transfer simp

lemma high_half: "ucast (ucast (drop_bit 32 x :: u64) :: u32) = (drop_bit 32 x :: u64)"
  by (rule bit_word_eqI) (auto simp: bit_simps dest: bit_imp_le_length)

lemma apply_plt_view:
  assumes ok: "plt_table_ok m base symtab table n" and i: "i < n"
    and k: "keeps (plt_reads m symtab table n) m (mem w)"
  defines "a \<equiv> table + 24 * of_nat i"
  shows "apply_plt base symtab a w = Inr (w\<lparr>mem := write_all (plt_write m base symtab a) (mem w)\<rparr>)"
proof -
  have r: "unat table + 24 * n < 2 ^ 64" and rd: "\<And>x. plt_reads m symtab table n x \<Longrightarrow> mem w x \<noteq> None"
    using ok k by (auto simp: plt_table_ok_def keeps_def)
  note e = plt_entry_same [OF k i r, folded a_def]
  have mp: "mapped (mem w) a 8" "mapped (mem w) (a + 8) 8" "mapped (mem w) (a + 16) 8"
    using rd e(5) [of 0] e(5) [of 8] e(5) [of 16] by (auto simp: mapped_def)
  have type: "(ucast (ELF64_R_TYPE (peek64 m (a + 8))) :: u32) = R_X86_64_JUMP_SLOT \<longleftrightarrow> is_slot m a"
    by (simp add: R_TYPE slot_type is_slot_def R_X86_64_JUMP_SLOT_def)
  have symidx: "symtab + sizeof_Elf64_Sym * ucast (ucast (ELF64_R_SYM (peek64 m (a + 8))) :: u32) = rela_symbol m symtab a"
    by (simp add: rela_symbol_def sizeof_Elf64_Sym_def ELF64_R_SYM_def high_half)
  show ?thesis
  proof (cases "is_slot m a")
    case False
    then show ?thesis
      using mp e(1-3) type by (simp add: apply_plt_def elf_loads load64_peek64 plt_write_def)
  next
    case True
    have s: "mapped (mem w) (rela_symbol m symtab a + 8) 8" using rd e(6) [OF True] by (auto simp: mapped_def)
    have "(base + peek64 m a, base + peek64 m (rela_symbol m symtab a + 8)) \<in> set (plt_writes m base symtab table n)"
      using True i by (force simp: plt_writes_def plt_write_def a_def)
    then have t: "mapped (mem w) (base + peek64 m a) 8"
      using ok keeps_mapped [OF k] by (auto simp: plt_table_ok_def)
    show ?thesis
      using mp e(1-3) e(4) [OF True] type True s t symidx
      by (simp add: apply_plt_def elf_loads load64_peek64 plt_write_def write64_mapped)
  qed
qed


interpretation plt: relocation_loop
  "plt_table_ok m base symtab table n" n "keeps (plt_reads m symtab table n) m"
  "\<lambda>i w :: 'k world. apply_plt base symtab (table + 24 * of_nat i) w"
  "\<lambda>i. plt_write m base symtab (table + 24 * of_nat i)"
  "\<lambda>i. plt_loop base symtab table (of_nat (24 * n)) (of_nat (24 * i))"
  for m base symtab table n
proof unfold_locales
  fix i m' and w :: "'k world"
  assume ok: "plt_table_ok m base symtab table n"
  show "plt_loop base symtab table (of_nat (24 * n)) (of_nat (24 * n)) w = Some (Inr w)"
    by (subst plt_loop.simps) simp
  assume i: "i < n"
  let ?a = "table + 24 * of_nat i"
  have "set (plt_write m base symtab ?a) \<subseteq> set (plt_writes m base symtab table n)"
    using i by (auto simp: plt_writes_def)
  then have "\<forall>(t, u)\<in>set (plt_write m base symtab ?a). mapped m t 8 \<and> (\<forall>x. in_range x t 8 \<longrightarrow> \<not> plt_reads m symtab table n x)"
    using ok unfolding plt_table_ok_def by blast
  then show "keeps (plt_reads m symtab table n) m m' \<Longrightarrow> keeps (plt_reads m symtab table n) m (write_all (plt_write m base symtab ?a) m')"
    by (rule keeps_write_all [rotated])
  show "keeps (plt_reads m symtab table n) m (mem w) \<Longrightarrow>
      apply_plt base symtab ?a w = Inr (w\<lparr>mem := write_all (plt_write m base symtab ?a) (mem w)\<rparr>)"
    by (rule apply_plt_view [OF ok i])
  show "plt_loop base symtab table (of_nat (24 * n)) (of_nat (24 * i)) w =
      (case apply_plt base symtab ?a w of Inl e \<Rightarrow> Some (Inl e)
       | Inr w' \<Rightarrow> plt_loop base symtab table (of_nat (24 * n)) (of_nat (24 * Suc i)) w')"
    using rela_index_less [of table n i] ok i
    by (subst plt_loop.simps) (simp only: plt_table_ok_def if_True rela_index_Suc sizeof_Elf64_Rela_def, simp)
qed

lemma plt_loop_writes:
  "plt_table_ok m base symtab table n \<Longrightarrow> keeps (plt_reads m symtab table n) m (mem w) \<Longrightarrow>
   plt_loop base symtab table (of_nat (24 * n)) 0 w =
     Some (Inr (w\<lparr>mem := write_all (plt_writes m base symtab table n) (mem w)\<rparr>))"
  using plt.loop_writes [of m base symtab table n w] by (simp add: plt_writes_def)

section \<open>Both tables\<close>

text \<open>What the dynamic section says of the tables: their addresses relative to the base and their lengths.  An
  absent table has length 0.\<close>

definition rela_given :: "(nat \<Rightarrow> u64) \<Rightarrow> nat \<Rightarrow> bool" where
  "rela_given d n \<longleftrightarrow> (if d DT_RELA = 0 then n = 0 else d DT_RELAENT = 24 \<and> d DT_RELASZ = of_nat (24 * n))"

definition plt_given :: "(nat \<Rightarrow> u64) \<Rightarrow> nat \<Rightarrow> bool" where
  "plt_given d n \<longleftrightarrow> (if d DT_PLTGOT = 0 then n = 0 else d DT_PLTREL \<noteq> of_nat DT_REL \<and> d DT_PLTRELSZ = of_nat (24 * n))"

definition dyn_array :: "mem \<Rightarrow> addr \<Rightarrow> (nat \<Rightarrow> u64) \<Rightarrow> bool" where
  "dyn_array m dyn d \<longleftrightarrow> (\<forall>t<37. word_at m dyn t = Inr (d t))"

text \<open>The image: both tables are well formed, and no entry with addend is applied to what the jump table reads or to the
  array of the loader.\<close>

definition image_writes :: "mem \<Rightarrow> addr \<Rightarrow> (nat \<Rightarrow> u64) \<Rightarrow> nat \<Rightarrow> nat \<Rightarrow> (addr \<times> u64) list" where
  "image_writes m base d n k = rela_writes m base (base + d DT_SYMTAB) (base + d DT_RELA) n
     @ plt_writes m base (base + d DT_SYMTAB) (base + d DT_JMPREL) k"

definition image_ok :: "mem \<Rightarrow> addr \<Rightarrow> (nat \<Rightarrow> u64) \<Rightarrow> nat \<Rightarrow> nat \<Rightarrow> bool" where
  "image_ok m base d n k \<longleftrightarrow> rela_given d n \<and> plt_given d k
     \<and> (d DT_RELA \<noteq> 0 \<longrightarrow> rela_table_ok m base (base + d DT_SYMTAB) (base + d DT_RELA) n)
     \<and> (d DT_PLTGOT \<noteq> 0 \<longrightarrow> plt_table_ok m base (base + d DT_SYMTAB) (base + d DT_JMPREL) k)
     \<and> (\<forall>(t, u)\<in>set (rela_writes m base (base + d DT_SYMTAB) (base + d DT_RELA) n).
          \<forall>x. in_range x t 8 \<longrightarrow> \<not> plt_reads m (base + d DT_SYMTAB) (base + d DT_JMPREL) k x)"

lemma dyn_arrayD:
  "dyn_array m dyn d \<Longrightarrow> word_at m dyn DT_RELA = Inr (d DT_RELA)" "dyn_array m dyn d \<Longrightarrow> word_at m dyn DT_RELAENT = Inr (d DT_RELAENT)"
  "dyn_array m dyn d \<Longrightarrow> word_at m dyn DT_RELASZ = Inr (d DT_RELASZ)" "dyn_array m dyn d \<Longrightarrow> word_at m dyn DT_PLTGOT = Inr (d DT_PLTGOT)"
  "dyn_array m dyn d \<Longrightarrow> word_at m dyn DT_PLTREL = Inr (d DT_PLTREL)" "dyn_array m dyn d \<Longrightarrow> word_at m dyn DT_JMPREL = Inr (d DT_JMPREL)"
  "dyn_array m dyn d \<Longrightarrow> word_at m dyn DT_PLTRELSZ = Inr (d DT_PLTRELSZ)" "dyn_array m dyn d \<Longrightarrow> word_at m dyn DT_REL = Inr (d DT_REL)"
  "dyn_array m dyn d \<Longrightarrow> word_at m dyn DT_SYMTAB = Inr (d DT_SYMTAB)" "dyn_array m dyn d \<Longrightarrow> word_at m dyn DT_STRTAB = Inr (d DT_STRTAB)"
  by (simp_all add: dyn_array_def elf_consts)

lemma write_all_outside: "\<forall>(t, u)\<in>set ws. \<not> in_range x t 8 \<Longrightarrow> write_all ws m x = m x"
  by (induction ws arbitrary: m) (auto simp: poke_out simp del: le_bytes.simps)

lemma dyn_array_write_all:
  assumes "dyn_array m dyn d" "\<forall>(t, u)\<in>set ws. disj_range t 8 dyn (8 * 37)" "unat dyn + 8 * 37 < 2 ^ 64"
  shows "dyn_array (write_all ws m) dyn d"
  unfolding dyn_array_def
proof (intro allI impI)
  fix t :: nat assume t: "t < 37"
  have "load64 (write_all ws m) (dyn + 8 * of_nat t) = load64 m (dyn + 8 * of_nat t)"
  proof (rule load64_cong)
    fix x assume "in_range x (dyn + 8 * of_nat t) 8"
    then have "in_range x dyn (8 * 37)"
      using t assms(3) by (intro sub_range_in_range [of x dyn "8 * t" 8 "8 * 37"]) simp_all
    with assms(2) show "write_all ws m x = m x" by (intro write_all_outside) (auto simp: disj_range_def)
  qed
  with assms(1) t show "word_at (write_all ws m) dyn t = Inr (d t)" by (simp add: dyn_array_def word_at_def)
qed

lemma relocate_both:
  assumes d: "dyn_array (mem w) dyn d" "unat dyn + 8 * 37 < 2 ^ 64" and ok: "image_ok (mem w) base d n k"
    and away: "\<forall>(t, u)\<in>set (image_writes (mem w) base d n k). disj_range t 8 dyn (8 * 37)"
  defines "symtab \<equiv> base + d DT_SYMTAB"
  shows "bind_res (relocate_rela K lit frame base symtab dyn w) (relocate_plt K lit frame base symtab dyn) =
    Inr (w\<lparr>mem := write_all (image_writes (mem w) base d n k) (mem w)\<rparr>)"
proof -
  let ?rs = "rela_writes (mem w) base symtab (base + d DT_RELA) n" and ?ps = "plt_writes (mem w) base symtab (base + d DT_JMPREL) k"
  let ?w = "w\<lparr>mem := write_all ?rs (mem w)\<rparr>"
  have g: "rela_given d n" "plt_given d k" using ok by (simp_all add: image_ok_def)
  have 1: "relocate_rela K lit frame base symtab dyn w = Inr ?w"
  proof (cases "d DT_RELA = 0")
    case True
    then show ?thesis using d(1) g(1) by (simp add: relocate_rela_def dyn_arrayD rela_given_def rela_writes_def)
  next
    case False
    then have "rela_table_ok (mem w) base symtab (base + d DT_RELA) n" using ok by (simp add: image_ok_def symtab_def)
    from rela_loop_writes [OF this rela_view_refl] False g(1) show ?thesis
      using d(1) by (simp add: relocate_rela_def dyn_arrayD rela_given_def)
  qed
  have d2: "dyn_array (mem ?w) dyn d"
    using dyn_array_write_all [OF d(1) _ d(2), of ?rs] away by (simp add: image_writes_def symtab_def)
  have 2: "relocate_plt K lit frame base symtab dyn ?w = Inr (?w\<lparr>mem := write_all ?ps (mem ?w)\<rparr>)"
  proof (cases "d DT_PLTGOT = 0")
    case True
    then show ?thesis using d2 g(2) by (simp add: relocate_plt_def dyn_arrayD plt_given_def plt_writes_def)
  next
    case False
    then have p: "plt_table_ok (mem w) base symtab (base + d DT_JMPREL) k" using ok by (simp add: image_ok_def symtab_def)
    have "\<forall>(t, u)\<in>set ?rs. mapped (mem w) t 8 \<and> (\<forall>x. in_range x t 8 \<longrightarrow> \<not> plt_reads (mem w) symtab (base + d DT_JMPREL) k x)"
      using ok g(1) by (auto simp: image_ok_def symtab_def rela_given_def rela_table_ok_def rela_entry_ok_def rela_writes_def split: if_splits)
    then have "keeps (plt_reads (mem w) symtab (base + d DT_JMPREL) k) (mem w) (mem ?w)"
      using keeps_write_all [OF keeps_refl] by simp
    from plt_loop_writes [OF p this] False g(2) show ?thesis
      using d2 by (simp add: relocate_plt_def dyn_arrayD plt_given_def)
  qed
  show ?thesis using 1 2 by (simp add: image_writes_def write_all_append symtab_def)
qed


section \<open>Memories that agree on what is read\<close>

lemma rela_entry_same:
  assumes v: "rela_view m symtab table n m'" and i: "i < n" and r: "unat table + 24 * n < 2 ^ 64"
  defines "a \<equiv> table + 24 * of_nat i"
  shows "rela_symbol m' symtab a = rela_symbol m symtab a" "rela_write m' base symtab a = rela_write m base symtab a"
    "peek64 m' (a + 8) = peek64 m (a + 8)"
proof -
  have tab: "m' x = m x" if "in_range x (a + of_nat k) 8" "k + 8 \<le> 24" for x k
    using v table_word [OF r i that(2)] that(1) by (simp add: rela_view_def a_def)
  have e: "peek64 m' a = peek64 m a" "peek64 m' (a + 8) = peek64 m (a + 8)" "peek64 m' (a + 16) = peek64 m (a + 16)"
    using tab [of _ 0] tab [of _ 8] tab [of _ 16] by (auto intro!: peek64_cong)
  then show "peek64 m' (a + 8) = peek64 m (a + 8)" "rela_symbol m' symtab a = rela_symbol m symtab a"
    by (simp_all add: rela_symbol_def)
  have "m' x = m x" if "in_range x (rela_symbol m symtab a + 8) 8" for x
    using symbol_word [of 8 8 x "rela_symbol m symtab a"] v i that by (auto simp: rela_view_def a_def)
  then have "peek64 m' (rela_symbol m symtab a + 8) = peek64 m (rela_symbol m symtab a + 8)" by (intro peek64_cong) simp
  with e show "rela_write m' base symtab a = rela_write m base symtab a" by (simp add: rela_write_def rela_symbol_def)
qed

lemma rela_table_same:
  assumes v: "rela_view m symtab table n m'" and ok: "rela_table_ok m base symtab table n"
  shows "rela_writes m' base symtab table n = rela_writes m base symtab table n" "rela_table_ok m' base symtab table n"
proof -
  have r: "unat table + 24 * n < 2 ^ 64" using ok by (simp add: rela_table_ok_def)
  note e = rela_entry_same [OF v _ r]
  show "rela_writes m' base symtab table n = rela_writes m base symtab table n"
    unfolding rela_writes_def by (rule map_cong) (simp_all add: e)
  show "rela_table_ok m' base symtab table n"
    using ok e rela_view_mapped [OF v] by (simp add: rela_table_ok_def rela_entry_ok_def)
qed

lemma plt_table_same:
  assumes k: "keeps (plt_reads m symtab table n) m m'" and ok: "plt_table_ok m base symtab table n"
  shows "plt_writes m' base symtab table n = plt_writes m base symtab table n" "plt_reads m' symtab table n = plt_reads m symtab table n"
    "plt_table_ok m' base symtab table n"
proof -
  have r: "unat table + 24 * n < 2 ^ 64" using ok by (simp add: plt_table_ok_def)
  note e = plt_entry_same [OF k _ r]
  have s: "is_slot m' (table + 24 * of_nat i) = is_slot m (table + 24 * of_nat i)"
    "rela_symbol m' symtab (table + 24 * of_nat i) = rela_symbol m symtab (table + 24 * of_nat i)" if "i < n" for i
    using e(2) [OF that] by (simp_all add: is_slot_def rela_symbol_def)
  show w: "plt_writes m' base symtab table n = plt_writes m base symtab table n"
    unfolding plt_writes_def by (rule arg_cong [of _ _ concat], rule map_cong) (auto simp: plt_write_def s e(1,4))
  show rd: "plt_reads m' symtab table n = plt_reads m symtab table n"
    by (auto simp: plt_reads_def s fun_eq_iff)
  have "m' x \<noteq> None" if "plt_reads m symtab table n x" for x
    using ok k that by (auto simp: plt_table_ok_def keeps_def)
  then show "plt_table_ok m' base symtab table n"
    using ok keeps_mapped [OF k] unfolding plt_table_ok_def w rd by blast
qed

text \<open>Everything the two tables read.\<close>

definition image_reads :: "mem \<Rightarrow> addr \<Rightarrow> (nat \<Rightarrow> u64) \<Rightarrow> nat \<Rightarrow> nat \<Rightarrow> addr \<Rightarrow> bool" where
  "image_reads m base d n k x \<longleftrightarrow> in_range x (base + d DT_RELA) (24 * n)
     \<or> (\<exists>j<n. in_range x (rela_symbol m (base + d DT_SYMTAB) (base + d DT_RELA + 24 * of_nat j)) 16)
     \<or> plt_reads m (base + d DT_SYMTAB) (base + d DT_JMPREL) k x"

lemma image_same:
  assumes k: "keeps (image_reads m base d n k) m m'" and ok: "image_ok m base d n k"
  shows "image_writes m' base d n k = image_writes m base d n k" "image_ok m' base d n k"
    "image_reads m' base d n k = image_reads m base d n k"
proof -
  let ?s = "base + d DT_SYMTAB"
  have v: "rela_view m ?s (base + d DT_RELA) n m'" and p: "keeps (plt_reads m ?s (base + d DT_JMPREL) k) m m'"
    using k by (auto simp: rela_view_def keeps_def image_reads_def)
  have g: "rela_given d n" "plt_given d k" using ok by (simp_all add: image_ok_def)
  have rw: "rela_writes m' base ?s (base + d DT_RELA) n = rela_writes m base ?s (base + d DT_RELA) n"
    using rela_table_same(1) [OF v] ok g(1) by (cases "d DT_RELA = 0") (auto simp: image_ok_def rela_given_def rela_writes_def)
  have pw: "plt_writes m' base ?s (base + d DT_JMPREL) k = plt_writes m base ?s (base + d DT_JMPREL) k
    \<and> plt_reads m' ?s (base + d DT_JMPREL) k = plt_reads m ?s (base + d DT_JMPREL) k"
  proof (cases "d DT_PLTGOT = 0")
    case True
    then have "k = 0" using g(2) by (simp add: plt_given_def)
    then show ?thesis by (simp add: plt_writes_def plt_reads_def fun_eq_iff)
  next
    case False
    then have "plt_table_ok m base ?s (base + d DT_JMPREL) k" using ok by (simp add: image_ok_def)
    from plt_table_same(1,2) [OF p this] show ?thesis ..
  qed
  have sy: "rela_symbol m' ?s (base + d DT_RELA + 24 * of_nat j) = rela_symbol m ?s (base + d DT_RELA + 24 * of_nat j)" if "j < n" for j
  proof -
    have "d DT_RELA \<noteq> 0" using g(1) that by (auto simp: rela_given_def)
    then have "unat (base + d DT_RELA) + 24 * n < 2 ^ 64" using ok by (simp add: image_ok_def rela_table_ok_def)
    from rela_entry_same(1) [OF v that this] show ?thesis .
  qed
  then show "image_reads m' base d n k = image_reads m base d n k"
    by (auto simp: image_reads_def pw fun_eq_iff)
  show "image_writes m' base d n k = image_writes m base d n k" by (simp add: image_writes_def rw pw)
  show "image_ok m' base d n k"
    using ok rela_table_same(2) [OF v] plt_table_same(3) [OF p] by (simp add: image_ok_def rw pw)
qed

lemma array_mapped:
  assumes "\<And>t. t < n \<Longrightarrow> \<exists>v. word_at m a t = Inr v" "in_range x a (8 * n)"
  shows "m x \<noteq> None"
proof -
  obtain i where i: "i < 8 * n" "x = a + of_nat i" using in_range_nth [OF assms(2)] by blast
  have "i div 8 < n" using i(1) by simp
  with assms(1) have mp: "mapped m (a + 8 * of_nat (i div 8)) 8" by (auto simp: word_at_def dest: load64_InrD)
  have "x = (a + 8 * of_nat (i div 8)) + of_nat (i mod 8)"
  proof -
    have "(of_nat i :: u64) = of_nat (8 * (i div 8) + i mod 8)" by simp
    then show ?thesis unfolding i(2) by (simp only: of_nat_add of_nat_mult of_nat_numeral add.assoc)
  qed
  moreover have "in_range ((a + 8 * of_nat (i div 8)) + of_nat (i mod 8)) (a + 8 * of_nat (i div 8)) 8"
    by (rule in_range_offset) simp_all
  ultimately show ?thesis using mappedD [OF mp] by simp
qed

section \<open>Properties\<close>

text \<open>Relocating the program, in compiled code that keeps the array.  With the dynamic section decoded, the loader applies the table with addends and the
  jump table of the program by writing every value once, as decoded in the memory before the first write.\<close>

lemma ld_relocate_app_refines:
  assumes "load64 (mem w) (im_base app) = Inr base" "load64 (mem w) (im_dyn app) = Inr dyn"
    and "dyn_array (mem w) dyn d" "unat dyn + 8 * 37 < 2 ^ 64" "d DT_REL = 0" "image_ok (mem w) base d n k"
    and "\<forall>(t, u)\<in>set (image_writes (mem w) base d n k). disj_range t 8 dyn (8 * 37)"
    and "fr_dyn2_kept fr"
  shows "ld_relocate_app K lit fr app w = Inr (w\<lparr>mem := write_all (image_writes (mem w) base d n k) (mem w)\<rparr>)"
  using relocate_both [OF assms(3,4,6,7), of K lit "fr_print fr"] assms(1,2,3,5,8)
  by (simp add: ld_relocate_app_def ld_relocate_rel_def dyn_arrayD)

text \<open>Stage 1 of the loader.  Started by the kernel with its base in the auxiliary vector, the loader decodes the
  vector and its dynamic section into its arrays, relocates itself, and calls stage 2 with the stack pointer, its base and
  the two arrays, which hold the last value of every tag; no other memory has changed.\<close>

theorem ld_stage1_relocates:
  assumes s: "start_stack (mem w) sp argc envc auxv" and d: "dyn_table (mem w) dynv es"
    and a: "mapped (mem w) (fr_aux fr) (8 * 32)" "unat (fr_aux fr) + 8 * 32 < 2 ^ 64"
      "disj_range (fr_aux fr) (8 * 32) (sp + 8 * of_nat (argc + envc + 3)) (16 * (length auxv + 1))"
      "disj_range (fr_aux fr) (8 * 32) dynv (16 * (length es + 1))"
      "disj_range (fr_aux fr) (8 * 32) (fr_dyn1 fr) (8 * 37)"
    and b: "mapped (mem w) (fr_dyn1 fr) (8 * 37)" "unat (fr_dyn1 fr) + 8 * 37 < 2 ^ 64"
      "disj_range (fr_dyn1 fr) (8 * 37) dynv (16 * (length es + 1))"
    and base: "tag_value auxv AT_BASE = base" "base \<noteq> 0" and rel: "tag_value es DT_REL = 0"
    and ok: "image_ok (mem w) base (tag_value es) n k"
    and rd: "\<forall>x. image_reads (mem w) base (tag_value es) n k x \<longrightarrow> \<not> in_range x (fr_aux fr) (8 * 32) \<and> \<not> in_range x (fr_dyn1 fr) (8 * 37)"
    and wr: "\<forall>(t, u)\<in>set (image_writes (mem w) base (tag_value es) n k).
      disj_range t 8 (fr_aux fr) (8 * 32) \<and> disj_range t 8 (fr_dyn1 fr) (8 * 37)"
  shows "\<exists>m1 w'. w' = w\<lparr>mem := write_all (image_writes (mem w) base (tag_value es) n k) m1\<rparr>
    \<and> (\<forall>x. \<not> in_range x (fr_aux fr) (8 * 32) \<and> \<not> in_range x (fr_dyn1 fr) (8 * 37) \<longrightarrow> m1 x = mem w x)
    \<and> (\<forall>t<32. word_at (mem w') (fr_aux fr) t = Inr (tag_value auxv t)) \<and> dyn_array (mem w') (fr_dyn1 fr) (tag_value es)
    \<and> ld_stage1_entry K lit crt_entry fr stack_info sp dynv w =
        bind_res (ld_stage2_entry K lit crt_entry fr stack_info
          \<lparr>li_sp = sp, li_ldso_base = base, li_dyn = fr_dyn1 fr, li_aux = fr_aux fr\<rparr> w') (sys_exit K 0)"
proof -
  obtain m1 where m1: "ld_read_tables fr sp dynv (mem w) = Inr m1"
    "\<forall>t<32. word_at m1 (fr_aux fr) t = Inr (tag_value auxv t)" "\<forall>t<37. word_at m1 (fr_dyn1 fr) t = Inr (tag_value es t)"
    "\<forall>x. \<not> in_range x (fr_aux fr) (8 * 32) \<and> \<not> in_range x (fr_dyn1 fr) (8 * 37) \<longrightarrow> m1 x = mem w x"
    using ld_read_tables_runs [OF s d a b] by blast
  let ?d = "tag_value es" and ?ws = "image_writes (mem w) base (tag_value es) n k"
  have dom1: "dom m1 = dom (mem w)"
  proof -
    have "m1 x \<noteq> None \<longleftrightarrow> mem w x \<noteq> None" for x
      using m1(4) array_mapped [of 32 m1 "fr_aux fr" x] array_mapped [of 37 m1 "fr_dyn1 fr" x] m1(2,3)
        mappedD [OF a(1), of x] mappedD [OF b(1), of x]
      by (cases "in_range x (fr_aux fr) (8 * 32) \<or> in_range x (fr_dyn1 fr) (8 * 37)") auto
    then show ?thesis by (auto simp: set_eq_iff domIff)
  qed
  have k: "keeps (image_reads (mem w) base ?d n k) (mem w) m1" using dom1 m1(4) rd by (simp add: keeps_def)
  note same = image_same [OF k ok]
  let ?w1 = "w\<lparr>mem := m1\<rparr>"
  have da: "dyn_array (mem ?w1) (fr_dyn1 fr) ?d" using m1(3) by (simp add: dyn_array_def)
  have ok1: "image_ok (mem ?w1) base ?d n k" using same(2) by simp
  have "\<forall>(t, u)\<in>set (image_writes (mem ?w1) base ?d n k). disj_range t 8 (fr_dyn1 fr) (8 * 37)"
    using wr same(1) by auto
  note both = relocate_both [OF da b(2) ok1 this, of K lit "fr_print fr", unfolded same(1)]
  let ?w' = "w\<lparr>mem := write_all ?ws m1\<rparr>"
  have b1: "ld_self_base fr dynv m1 = Inr base"
    using m1(2) base by (simp add: ld_self_base_def elf_consts)
  have "ld_stage1_entry K lit crt_entry fr stack_info sp dynv w =
        bind_res (ld_stage2_entry K lit crt_entry fr stack_info
          \<lparr>li_sp = sp, li_ldso_base = base, li_dyn = fr_dyn1 fr, li_aux = fr_aux fr\<rparr> ?w') (sys_exit K 0)"
    using m1(1) b1 rel da both same(1)
    by (simp add: ld_stage1_entry_def lift_mem_def dyn_arrayD ld_self_rel_def bind_res_assoc [symmetric])
  moreover have "dyn_array (mem ?w') (fr_dyn1 fr) ?d"
    using dyn_array_write_all [OF da _ b(2), of ?ws] wr by auto
  moreover have "word_at (mem ?w') (fr_aux fr) t = Inr (tag_value auxv t)" if "t < 32" for t
  proof -
    have "load64 (mem ?w') (fr_aux fr + 8 * of_nat t) = load64 m1 (fr_aux fr + 8 * of_nat t)"
    proof (rule load64_cong)
      fix x assume "in_range x (fr_aux fr + 8 * of_nat t) 8"
      then have "in_range x (fr_aux fr) (8 * 32)"
        using that a(2) by (intro sub_range_in_range [of x "fr_aux fr" "8 * t" 8 "8 * 32"]) simp_all
      with wr have "write_all ?ws m1 x = m1 x" by (intro write_all_outside) (auto simp: disj_range_def)
      then show "mem ?w' x = m1 x" by simp
    qed
    with m1(2) that show ?thesis by (simp add: word_at_def)
  qed
  ultimately show ?thesis using m1(4) by (intro exI [of _ m1] exI [of _ ?w']) simp
qed


section \<open>Witnesses\<close>

text \<open>A page with an initial stack, a dynamic section, one relocation of each table and two symbols.\<close>

definition image_words :: "(addr \<times> u64) list" where
  "image_words =
     [(0x10000, 1), (0x10008, 5), (0x10018, 0x77), (0x10028, 7), (0x10030, 0x10000),
      (0x10200, 7), (0x10208, 0x300), (0x10210, 8), (0x10218, 24), (0x10220, 9), (0x10228, 24), (0x10230, 6), (0x10238, 0x340),
      (0x10240, 3), (0x10248, 0x380), (0x10250, 20), (0x10258, 7), (0x10260, 23), (0x10268, 0x320), (0x10270, 2), (0x10278, 24),
      (0x10300, 0x388), (0x10308, 8), (0x10310, 0x11), (0x10320, 0x390), (0x10328, 0x100000007), (0x10360, 0x123)]"

definition image_page :: mem where
  "image_page = write_all image_words demo_page"

definition image_dynamic :: "(nat \<times> u64) list" where
  "image_dynamic = [(7, 0x300), (8, 24), (9, 24), (6, 0x340), (3, 0x380), (20, 7), (23, 0x320), (2, 24)]"

lemma mapped_image: "0x10000 \<le> unat a \<Longrightarrow> unat a + n \<le> 0x11000 \<Longrightarrow> mapped image_page a n"
  unfolding image_page_def by (intro mapped_write_all mapped_demo_page)

lemma demo_page_zeros: "peek64 demo_page 0x10020 = 0" "peek64 demo_page 0x10280 = 0" "peek64 demo_page 0x10348 = 0"
  by (simp_all add: peek64_def peek_def demo_page_def in_range_def upt_rec)

lemma image_start:
  "peek64 image_page 0x10000 = 0x1" "peek64 image_page 0x10018 = 0x77" "peek64 image_page 0x10020 = 0x0"
  "peek64 image_page 0x10030 = 0x10000" "peek64 image_page 0x10200 = 0x7" "peek64 image_page 0x10208 = 0x300"
  "peek64 image_page 0x10210 = 0x8" "peek64 image_page 0x10218 = 0x18" "peek64 image_page 0x10220 = 0x9"
  "peek64 image_page 0x10228 = 0x18" "peek64 image_page 0x10230 = 0x6" "peek64 image_page 0x10238 = 0x340"
  "peek64 image_page 0x10240 = 0x3" "peek64 image_page 0x10248 = 0x380" "peek64 image_page 0x10250 = 0x14"
  "peek64 image_page 0x10258 = 0x7" "peek64 image_page 0x10260 = 0x17" "peek64 image_page 0x10268 = 0x320"
  "peek64 image_page 0x10270 = 0x2" "peek64 image_page 0x10278 = 0x18" "peek64 image_page 0x10280 = 0x0"
  by (simp_all add: image_page_def image_words_def peek64_poke_same peek64_poke_other disj_range_apart demo_page_zeros
      del: le_bytes.simps)

lemma image_tables:
  "peek64 image_page 0x10300 = 0x388" "peek64 image_page 0x10308 = 0x8" "peek64 image_page 0x10310 = 0x11"
  "peek64 image_page 0x10320 = 0x390" "peek64 image_page 0x10328 = 0x100000007" "peek64 image_page 0x10360 = 0x123"
  "peek64 image_page 0x10348 = 0x0"
  by (simp_all add: image_page_def image_words_def peek64_poke_same peek64_poke_other disj_range_apart demo_page_zeros
      del: le_bytes.simps)

lemma le_bytes_7: "le_bytes 8 (7 :: u64) = [7, 0, 0, 0, 0, 0, 0, 0]"
  by code_simp

lemma image_load32: "load32 image_page 0x10028 = Inr 7" "load32 image_page 0x10038 = Inr 0"
  by (simp_all add: load32_mapped mapped_image peek_def upt_rec)
    (simp_all add: image_page_def image_words_def demo_page_def poke_def in_range_def le_bytes_7)


lemma image_stack: "start_stack image_page 0x10000 1 1 [(7, 0x10000)]"
  by (simp add: start_stack_def aux_table_def load64_peek64 mapped_image image_start image_load32)

lemma image_dyn: "dyn_table image_page 0x10200 image_dynamic"
  by (simp add: dyn_table_def image_dynamic_def All_less_Suc2 load64_peek64 mapped_image image_start)

text \<open>The tags that the relocation reads.\<close>

definition image_tags :: "(nat \<Rightarrow> u64) \<Rightarrow> bool" where
  "image_tags d \<longleftrightarrow> d DT_RELA = 0x300 \<and> d DT_RELASZ = 24 \<and> d DT_RELAENT = 24 \<and> d DT_SYMTAB = 0x340 \<and> d DT_PLTGOT = 0x380
     \<and> d DT_PLTREL = 7 \<and> d DT_JMPREL = 0x320 \<and> d DT_PLTRELSZ = 24 \<and> d DT_REL = 0"

lemma image_dynamic_tags: "image_tags (tag_value image_dynamic)"
  by (simp add: image_tags_def tag_value_def image_dynamic_def elf_consts)

lemma image_symbols: "rela_symbol image_page 0x10340 0x10300 = 0x10340" "rela_symbol image_page 0x10340 0x10320 = 0x10358"
  by (simp_all add: rela_symbol_def image_tables)

lemma image_rela_writes: "rela_writes image_page 0x10000 0x10340 0x10300 (Suc 0) = [(0x10388, 0x10011)]"
  by (simp add: rela_writes_def rela_write_def image_tables)

lemma image_plt_writes: "plt_writes image_page 0x10000 0x10340 0x10320 (Suc 0) = [(0x10390, 0x10123)]"
  by (simp add: plt_writes_def plt_write_def is_slot_def image_tables image_symbols)

lemma image_plt_reads: "plt_reads image_page 0x10340 0x10320 (Suc 0) x \<longleftrightarrow> in_range x 0x10320 24 \<or> in_range x 0x10358 16"
  by (simp add: plt_reads_def is_slot_def image_tables image_symbols)

lemma image_writes_page: "image_tags d \<Longrightarrow> image_writes image_page 0x10000 d 1 1 = [(0x10388, 0x10011), (0x10390, 0x10123)]"
  by (simp add: image_tags_def image_writes_def image_rela_writes image_plt_writes)

lemma image_reads_page:
  "image_tags d \<Longrightarrow> image_reads image_page 0x10000 d 1 1 x \<longleftrightarrow>
     in_range x 0x10300 24 \<or> in_range x 0x10340 16 \<or> in_range x 0x10320 24 \<or> in_range x 0x10358 16"
  by (simp add: image_tags_def image_reads_def image_symbols image_plt_reads)

lemma image_ok_page:
  assumes "image_tags d"
  shows "image_ok image_page 0x10000 d 1 1"
proof -
  have "rela_table_ok image_page 0x10000 0x10340 0x10300 1"
    by (simp add: rela_table_ok_def rela_entry_ok_def rela_write_def image_tables image_symbols mapped_image disj_range_apart)
  moreover have "plt_table_ok image_page 0x10000 0x10340 0x10320 1"
    using mapped_image [of "0x10320" 24] mapped_image [of "0x10358" 16] mapped_image [of "0x10390" 8]
    by (auto simp: plt_table_ok_def image_plt_writes image_plt_reads mapped_def in_range_iff)
  ultimately show ?thesis
    using assms by (auto simp: image_tags_def image_ok_def rela_given_def plt_given_def image_rela_writes image_plt_reads elf_consts in_range_iff)
qed

definition image_world :: "unit world" where
  "image_world = \<lparr>mem = image_page, os = ()\<rparr>"

definition no_stack_info :: Stack_Info where
  "no_stack_info = \<lparr>si_stack_found = False, si_start_addr = 0, si_end_addr = 0, si_flags = 0\<rparr>"

theorem ld_stage1_relocates_witness:
  "\<exists>w' :: unit world. load64 (mem w') 0x10388 = Inr 0x10011 \<and> load64 (mem w') 0x10390 = Inr 0x10123
     \<and> ld_stage1_entry (\<lambda>_ _ w. (0, w)) (\<lambda>_. 0) (\<lambda>_ _ w. Inr w) start_frames no_stack_info 0x10000 0x10200 image_world =
        bind_res (ld_stage2_entry (\<lambda>_ _ w. (0, w)) (\<lambda>_. 0) (\<lambda>_ _ w. Inr w) start_frames no_stack_info
          \<lparr>li_sp = 0x10000, li_ldso_base = 0x10000, li_dyn = 0x10800, li_aux = 0x10400\<rparr> w') (sys_exit (\<lambda>_ _ w. (0, w)) 0)"
proof -
  let ?w = image_world and ?fr = start_frames and ?d = "tag_value image_dynamic"
  note t = image_dynamic_tags
  have s: "start_stack (mem ?w) 0x10000 1 1 [(7, 0x10000)]" "dyn_table (mem ?w) 0x10200 image_dynamic"
    using image_stack image_dyn by (simp_all add: image_world_def)
  have a: "mapped (mem ?w) (fr_aux ?fr) (8 * 32)" "unat (fr_aux ?fr) + 8 * 32 < 2 ^ 64"
      "disj_range (fr_aux ?fr) (8 * 32) (0x10000 + 8 * of_nat (1 + 1 + 3)) (16 * (length [(7 :: nat, 0x10000 :: u64)] + 1))"
      "disj_range (fr_aux ?fr) (8 * 32) 0x10200 (16 * (length image_dynamic + 1))"
      "disj_range (fr_aux ?fr) (8 * 32) (fr_dyn1 ?fr) (8 * 37)"
      "mapped (mem ?w) (fr_dyn1 ?fr) (8 * 37)" "unat (fr_dyn1 ?fr) + 8 * 37 < 2 ^ 64"
      "disj_range (fr_dyn1 ?fr) (8 * 37) 0x10200 (16 * (length image_dynamic + 1))"
    by (simp_all add: image_world_def start_frames_def image_dynamic_def mapped_image disj_range_apart)
  have b: "tag_value [(7, 0x10000)] AT_BASE = 0x10000" "(0x10000 :: u64) \<noteq> 0" "?d DT_REL = 0"
    using t by (simp_all add: tag_value_def AT_BASE_def image_tags_def)
  have ok: "image_ok (mem ?w) 0x10000 ?d 1 1" using image_ok_page [OF t] by (simp add: image_world_def)
  have rd: "\<forall>x. image_reads (mem ?w) 0x10000 ?d 1 1 x \<longrightarrow>
      \<not> in_range x (fr_aux ?fr) (8 * 32) \<and> \<not> in_range x (fr_dyn1 ?fr) (8 * 37)"
    using image_reads_page [OF t] by (auto simp: image_world_def start_frames_def in_range_iff)
  have ws: "image_writes (mem ?w) 0x10000 ?d 1 1 = [(0x10388, 0x10011), (0x10390, 0x10123)]"
    using image_writes_page [OF t] by (simp add: image_world_def)
  have wr: "\<forall>(t, u)\<in>set (image_writes (mem ?w) 0x10000 ?d 1 1).
      disj_range t 8 (fr_aux ?fr) (8 * 32) \<and> disj_range t 8 (fr_dyn1 ?fr) (8 * 37)"
    unfolding ws by (simp add: start_frames_def disj_range_apart)
  obtain m1 w' where w': "w' = ?w\<lparr>mem := write_all (image_writes (mem ?w) 0x10000 ?d 1 1) m1\<rparr>"
      "\<forall>x. \<not> in_range x (fr_aux ?fr) (8 * 32) \<and> \<not> in_range x (fr_dyn1 ?fr) (8 * 37) \<longrightarrow> m1 x = mem ?w x"
      "ld_stage1_entry (\<lambda>_ _ w. (0, w)) (\<lambda>_. 0) (\<lambda>_ _ w. Inr w) ?fr no_stack_info 0x10000 0x10200 ?w =
        bind_res (ld_stage2_entry (\<lambda>_ _ w. (0, w)) (\<lambda>_. 0) (\<lambda>_ _ w. Inr w) ?fr no_stack_info
          \<lparr>li_sp = 0x10000, li_ldso_base = 0x10000, li_dyn = fr_dyn1 ?fr, li_aux = fr_aux ?fr\<rparr> w') (sys_exit (\<lambda>_ _ w. (0, w)) 0)"
    using ld_stage1_relocates [OF s a b ok rd wr, of "\<lambda>_ _ w. (0, w)" "\<lambda>_. 0" "\<lambda>_ _ w. Inr w" no_stack_info] by blast
  have "m1 x = image_page x" if "in_range x 0x10388 8 \<or> in_range x 0x10390 8" for x
    using w'(2) that by (auto simp: image_world_def start_frames_def in_range_iff)
  then have "mapped m1 0x10388 8" "mapped m1 0x10390 8"
    using mapped_image [of "0x10388" 8] mapped_image [of "0x10390" 8] by (simp_all add: mapped_def)
  then have "load64 (mem w') 0x10388 = Inr 0x10011" "load64 (mem w') 0x10390 = Inr 0x10123"
    by (simp_all add: w'(1) ws [simplified] load64_peek64 peek64_poke_same peek64_poke_other disj_range_apart del: le_bytes.simps)
  moreover have "fr_dyn1 ?fr = 0x10800" "fr_aux ?fr = 0x10400" by (simp_all add: start_frames_def)
  ultimately show ?thesis using w'(3) by - (rule exI [of _ w'], simp)
qed

end
