(* ===== verification/Loader_Entry.thy ===== *)
theory Loader_Entry
  imports Loader_Image
begin

text \<open>
  \<open>arch/sysv_x86-64/loader-entry.asm\<close>: the instructions at which the kernel starts the loader.
\<close>

section \<open>The entry stub\<close>

text \<open>
  The stub hands the initial stack pointer and the address of \<open>_DYNAMIC\<close> on, aligns the stack, pushes a zero in the
  place of a return address and runs on into \<open>ld_stage1_entry\<close>, which the linker puts behind it.
\<close>

definition dlstart ::
  "'k kernel \<Rightarrow> literals \<Rightarrow> (addr \<Rightarrow> addr \<Rightarrow> 'k world \<Rightarrow> 'k world res) \<Rightarrow> ld_frames \<Rightarrow> Stack_Info \<Rightarrow> addr \<Rightarrow> addr \<Rightarrow>
    'k world \<Rightarrow> 'k world res" where
  "dlstart K lit crt_entry fr stack_info dynamic rsp w =
     (let rdi = rsp; rsi = dynamic; rsp = rsp AND -16 in
      bind_res (write64 (rsp - 8) 0 w) (ld_stage1_entry K lit crt_entry fr stack_info rdi rsi))"

section \<open>The initial stack above the push\<close>

definition start_bytes :: "nat \<Rightarrow> nat \<Rightarrow> (nat \<times> u64) list \<Rightarrow> nat" where
  "start_bytes argc envc auxv = 8 * (argc + envc + 3) + 16 * (length auxv + 1)"

lemma start_stack_outside:
  assumes s: "start_stack m sp argc envc auxv" and o: "same_outside m m' a n"
    and d: "disj_range a n sp (start_bytes argc envc auxv)" "unat sp + start_bytes argc envc auxv < 2 ^ 64"
  shows "start_stack m' sp argc envc auxv"
proof -
  have le: "unat sp + start_bytes argc envc auxv \<le> 2 ^ 64" using d(2) by simp
  have l: "load64 m' (sp + of_nat (8 * j)) = load64 m (sp + of_nat (8 * j))" if "j < argc + envc + 3" for j
    using that by (intro outside_load64 [OF o d(1) _ le]) (simp add: start_bytes_def)
  have w: "load64 m' (sp + 8 * of_nat j) = load64 m (sp + 8 * of_nat j)" if "j < argc + envc + 3" for j
    using l [OF that] by simp
  have "aux_table m' (sp + of_nat (8 * (argc + envc + 3))) auxv"
  proof (rule aux_table_outside [OF _ o])
    show "aux_table m (sp + of_nat (8 * (argc + envc + 3))) auxv" using s by (simp add: start_stack_def)
    have "in_range x sp (start_bytes argc envc auxv)"
      if "in_range x (sp + of_nat (8 * (argc + envc + 3))) (16 * (length auxv + 1))" for x
      by (rule sub_range_in_range [OF that _ le]) (simp_all add: start_bytes_def)
    then show "disj_range a n (sp + of_nat (8 * (argc + envc + 3))) (16 * (length auxv + 1))"
      using d(1) by (auto simp: disj_range_def)
  qed
  then have "aux_table m' (sp + 8 * of_nat (argc + envc + 3)) auxv" by (simp only: of_nat_mult of_nat_numeral)
  moreover have "load64 m' (sp + 8 * of_nat (argc + 2 + i)) = load64 m (sp + 8 * of_nat (argc + 2 + i))" if "i \<le> envc" for i
    by (rule w) (use that in simp)
  moreover have "load64 m' sp = load64 m sp" using w [of 0] by simp
  ultimately show ?thesis using s unfolding start_stack_def by (metis less_imp_le order.refl)
qed

lemma push_below:
  fixes sp :: addr
  assumes "16 \<le> unat sp"
  shows "unat ((sp AND -16) - 8) + 8 \<le> unat sp" "8 \<le> unat ((sp AND -16) - 8)"
proof -
  have "(- 16 :: u64) = NOT (2 ^ 4 - 1)" by simp
  then have a: "unat (sp AND -16) = unat sp div 16 * 16" using clear_low_bits [of 4 sp] by simp
  moreover have "16 \<le> unat sp div 16 * 16"
  proof -
    have "1 \<le> unat sp div 16" using div_le_mono [OF assms, of 16] by simp
    then show ?thesis by simp
  qed
  ultimately have "unat ((sp AND -16) - 8) = unat sp div 16 * 16 - 8"
    by (simp add: unat_sub_le word_le_nat_alt)
  then show "unat ((sp AND -16) - 8) + 8 \<le> unat sp" "8 \<le> unat ((sp AND -16) - 8)"
    using \<open>16 \<le> unat sp div 16 * 16\<close> div_times_less_eq_dividend [of "unat sp" 16] by simp_all
qed

section \<open>Properties\<close>

text \<open>C30: the start of the loader.  Entered by the kernel at the stub, with its base in the auxiliary vector, the loader
  decodes the vector and its dynamic section into its arrays, relocates itself by both its tables, and calls stage 2 with
  the stack pointer, its base and the two arrays, which hold the last value of every tag.  Apart from the arrays, the
  targets of the relocations and the word pushed below the initial stack no memory has changed.\<close>

theorem dlstart_relocates:
  assumes s: "start_stack (mem w) sp argc envc auxv" "unat sp + start_bytes argc envc auxv < 2 ^ 64" "16 \<le> unat sp"
    and d: "dyn_table (mem w) dynv es"
    and p: "p = (sp AND -16) - 8" "mapped (mem w) p 8" "disj_range p 8 dynv (16 * (length es + 1))"
    and a: "mapped (mem w) (fr_aux fr) (8 * 32)" "unat (fr_aux fr) + 8 * 32 < 2 ^ 64"
      "disj_range (fr_aux fr) (8 * 32) (sp + 8 * of_nat (argc + envc + 3)) (16 * (length auxv + 1))"
      "disj_range (fr_aux fr) (8 * 32) dynv (16 * (length es + 1))"
      "disj_range (fr_aux fr) (8 * 32) (fr_dyn1 fr) (8 * 37)"
    and b: "mapped (mem w) (fr_dyn1 fr) (8 * 37)" "unat (fr_dyn1 fr) + 8 * 37 < 2 ^ 64"
      "disj_range (fr_dyn1 fr) (8 * 37) dynv (16 * (length es + 1))"
    and base: "tag_value auxv AT_BASE = base" "base \<noteq> 0" and rel: "tag_value es DT_REL = 0"
    and ok: "image_ok (mem w) base (tag_value es) n k"
    and rd: "\<forall>x. image_reads (mem w) base (tag_value es) n k x \<longrightarrow>
      \<not> in_range x p 8 \<and> \<not> in_range x (fr_aux fr) (8 * 32) \<and> \<not> in_range x (fr_dyn1 fr) (8 * 37)"
    and wr: "\<forall>(t, u)\<in>set (image_writes (mem w) base (tag_value es) n k).
      disj_range t 8 (fr_aux fr) (8 * 32) \<and> disj_range t 8 (fr_dyn1 fr) (8 * 37)"
  shows "\<exists>m1 w'. w' = w\<lparr>mem := write_all (image_writes (mem w) base (tag_value es) n k) m1\<rparr>
    \<and> (\<forall>x. \<not> in_range x p 8 \<and> \<not> in_range x (fr_aux fr) (8 * 32) \<and> \<not> in_range x (fr_dyn1 fr) (8 * 37) \<longrightarrow> m1 x = mem w x)
    \<and> (\<forall>t<32. word_at (mem w') (fr_aux fr) t = Inr (tag_value auxv t)) \<and> dyn_array (mem w') (fr_dyn1 fr) (tag_value es)
    \<and> dlstart K lit crt_entry fr stack_info dynv sp w =
        bind_res (ld_stage2_entry K lit crt_entry fr stack_info
          \<lparr>li_sp = sp, li_ldso_base = base, li_dyn = fr_dyn1 fr, li_aux = fr_aux fr\<rparr> w') (sys_exit K 0)"
proof -
  let ?m = "poke (mem w) p (le_bytes 8 (0 :: u64))" and ?d = "tag_value es"
  let ?w = "w\<lparr>mem := ?m\<rparr>"
  have o: "same_outside (mem w) ?m p 8" by (simp add: same_outside_def poke_out)
  have below: "unat p + 8 \<le> unat sp" using push_below [OF s(3)] p(1) by simp
  have "disj_range p 8 sp (start_bytes argc envc auxv)"
    using below s(2) by (intro disj_range_apart) simp
  then have s': "start_stack (mem ?w) sp argc envc auxv"
    using start_stack_outside [OF s(1) o _ s(2)] by simp
  have d': "dyn_table (mem ?w) dynv es" using dyn_table_outside [OF d o p(3)] by simp
  have k: "keeps (image_reads (mem w) base ?d n k) (mem w) ?m"
    using rd p(2) o by (auto simp: keeps_def same_outside_def dom_poke)
  note same = image_same [OF k ok]
  have rd': "\<forall>x. image_reads (mem ?w) base ?d n k x \<longrightarrow> \<not> in_range x (fr_aux fr) (8 * 32) \<and> \<not> in_range x (fr_dyn1 fr) (8 * 37)"
    using same(3) rd by simp
  have ok': "image_ok (mem ?w) base ?d n k" using same(2) by simp
  have wr': "\<forall>(t, u)\<in>set (image_writes (mem ?w) base ?d n k).
      disj_range t 8 (fr_aux fr) (8 * 32) \<and> disj_range t 8 (fr_dyn1 fr) (8 * 37)"
    using wr same(1) by simp
  have ab: "mapped (mem ?w) (fr_aux fr) (8 * 32)" "mapped (mem ?w) (fr_dyn1 fr) (8 * 37)" using a(1) b(1) p(2) by simp_all
  have run: "dlstart K lit crt_entry fr stack_info dynv sp w = ld_stage1_entry K lit crt_entry fr stack_info sp dynv ?w"
    using p(1,2) by (simp add: dlstart_def Let_def write64_mapped)
  obtain m1 w' where "w' = ?w\<lparr>mem := write_all (image_writes (mem ?w) base ?d n k) m1\<rparr>"
    "\<forall>x. \<not> in_range x (fr_aux fr) (8 * 32) \<and> \<not> in_range x (fr_dyn1 fr) (8 * 37) \<longrightarrow> m1 x = mem ?w x"
    "\<forall>t<32. word_at (mem w') (fr_aux fr) t = Inr (tag_value auxv t)" "dyn_array (mem w') (fr_dyn1 fr) ?d"
    "ld_stage1_entry K lit crt_entry fr stack_info sp dynv ?w =
        bind_res (ld_stage2_entry K lit crt_entry fr stack_info
          \<lparr>li_sp = sp, li_ldso_base = base, li_dyn = fr_dyn1 fr, li_aux = fr_aux fr\<rparr> w') (sys_exit K 0)"
    using ld_stage1_relocates [OF s' d' ab(1) a(2-5) ab(2) b(2,3) base rel ok' rd' wr', of K lit crt_entry stack_info] by blast
  then show ?thesis
    using same(1) o run by (intro exI [of _ m1] exI [of _ w']) (simp add: same_outside_def)
qed

section \<open>Witness\<close>

text \<open>The page of the image with an initial stack at \<open>0x10c10\<close>, below which there is room for the push.\<close>

definition entry_words :: "(addr \<times> u64) list" where
  "entry_words = [(0x10c10, 1), (0x10c18, 5), (0x10c28, 0x77), (0x10c38, 7), (0x10c40, 0x10000)]"

definition entry_page :: mem where
  "entry_page = write_all entry_words image_page"

definition entry_world :: "unit world" where
  "entry_world = \<lparr>mem = entry_page, os = ()\<rparr>"

lemma mapped_entry: "0x10000 \<le> unat a \<Longrightarrow> unat a + n \<le> 0x11000 \<Longrightarrow> mapped entry_page a n"
  unfolding entry_page_def by (intro mapped_write_all mapped_image)

lemma image_page_zeros: "peek64 image_page 0x10c20 = 0" "peek64 image_page 0x10c30 = 0" "peek64 image_page 0x10c48 = 0"
proof -
  have "peek64 demo_page 0x10c20 = 0" "peek64 demo_page 0x10c30 = 0" "peek64 demo_page 0x10c48 = 0"
    by (simp_all add: peek64_def peek_def demo_page_def in_range_def upt_rec)
  then show "peek64 image_page 0x10c20 = 0" "peek64 image_page 0x10c30 = 0" "peek64 image_page 0x10c48 = 0"
    by (simp_all add: image_page_def image_words_def peek64_poke_other disj_range_apart del: le_bytes.simps)
qed

lemma entry_start:
  "peek64 entry_page 0x10c10 = 1" "peek64 entry_page 0x10c28 = 0x77" "peek64 entry_page 0x10c30 = 0"
  "peek64 entry_page 0x10c40 = 0x10000"
  by (simp_all add: entry_page_def entry_words_def peek64_poke_same peek64_poke_other disj_range_apart image_page_zeros
      del: le_bytes.simps)

lemma entry_load32: "load32 entry_page 0x10c38 = Inr 7" "load32 entry_page 0x10c48 = Inr 0"
  by (simp_all add: load32_mapped mapped_entry peek_def upt_rec)
    (simp_all add: entry_page_def entry_words_def image_page_def image_words_def demo_page_def poke_def in_range_def le_bytes_7)

lemma entry_stack: "start_stack entry_page 0x10c10 1 1 [(7, 0x10000)]"
  by (simp add: start_stack_def aux_table_def load64_peek64 mapped_entry entry_start entry_load32)

lemma entry_keeps: "keeps (\<lambda>x. unat x < 0x10c10) image_page entry_page"
  unfolding entry_page_def
  by (rule keeps_write_all [OF keeps_refl]) (auto simp: entry_words_def mapped_image in_range_iff)

lemma keeps_mono: "keeps T m m' \<Longrightarrow> (\<And>x. S x \<Longrightarrow> T x) \<Longrightarrow> keeps S m m'"
  by (auto simp: keeps_def)

theorem dlstart_relocates_witness:
  "\<exists>w' :: unit world. load64 (mem w') 0x10388 = Inr 0x10011 \<and> load64 (mem w') 0x10390 = Inr 0x10123
     \<and> dlstart (\<lambda>_ _ w. (0, w)) (\<lambda>_. 0) (\<lambda>_ _ w. Inr w) start_frames no_stack_info 0x10200 0x10c10 entry_world =
        bind_res (ld_stage2_entry (\<lambda>_ _ w. (0, w)) (\<lambda>_. 0) (\<lambda>_ _ w. Inr w) start_frames no_stack_info
          \<lparr>li_sp = 0x10c10, li_ldso_base = 0x10000, li_dyn = 0x10800, li_aux = 0x10400\<rparr> w') (sys_exit (\<lambda>_ _ w. (0, w)) 0)"
proof -
  let ?w = entry_world and ?fr = start_frames and ?d = "tag_value image_dynamic" and ?p = "0x10c08 :: addr"
  note t = image_dynamic_tags
  have reads: "image_reads image_page 0x10000 ?d 1 1 x \<Longrightarrow> unat x < 0x10400" for x
    using image_reads_page [OF t] by (auto simp: in_range_iff)
  have low: "image_reads image_page 0x10000 ?d 1 1 x \<Longrightarrow> unat x < 0x10c10" for x
    using reads [of x] by linarith
  note same = image_same [OF keeps_mono [OF entry_keeps low] image_ok_page [OF t]]
  have same': "image_writes (mem ?w) 0x10000 ?d 1 1 = [(0x10388, 0x10011), (0x10390, 0x10123)]"
    "image_ok (mem ?w) 0x10000 ?d 1 1" "image_reads (mem ?w) 0x10000 ?d 1 1 = image_reads image_page 0x10000 ?d 1 1"
    using same image_writes_page [OF t] by (simp_all add: entry_world_def)
  have s: "start_stack (mem ?w) 0x10c10 1 1 [(7, 0x10000)]" "unat (0x10c10 :: addr) + start_bytes 1 1 [(7, 0x10000)] < 2 ^ 64"
    "16 \<le> unat (0x10c10 :: addr)"
    using entry_stack by (simp_all add: entry_world_def start_bytes_def)
  have d: "dyn_table (mem ?w) 0x10200 image_dynamic"
  proof (rule dyn_table_outside [OF image_dyn])
    show "same_outside image_page (mem ?w) 0x10c10 0x40"
      by (auto simp: entry_world_def entry_page_def entry_words_def same_outside_def poke_def in_range_iff)
  qed (simp add: image_dynamic_def disj_range_apart)
  have p: "?p = (0x10c10 AND -16) - 8" "mapped (mem ?w) ?p 8" "disj_range ?p 8 0x10200 (16 * (length image_dynamic + 1))"
    by (simp_all add: entry_world_def mapped_entry image_dynamic_def disj_range_apart)
  have a: "mapped (mem ?w) (fr_aux ?fr) (8 * 32)" "unat (fr_aux ?fr) + 8 * 32 < 2 ^ 64"
      "disj_range (fr_aux ?fr) (8 * 32) (0x10c10 + 8 * of_nat (1 + 1 + 3)) (16 * (length [(7 :: nat, 0x10000 :: u64)] + 1))"
      "disj_range (fr_aux ?fr) (8 * 32) 0x10200 (16 * (length image_dynamic + 1))"
      "disj_range (fr_aux ?fr) (8 * 32) (fr_dyn1 ?fr) (8 * 37)"
      "mapped (mem ?w) (fr_dyn1 ?fr) (8 * 37)" "unat (fr_dyn1 ?fr) + 8 * 37 < 2 ^ 64"
      "disj_range (fr_dyn1 ?fr) (8 * 37) 0x10200 (16 * (length image_dynamic + 1))"
    by (simp_all add: entry_world_def start_frames_def image_dynamic_def mapped_entry disj_range_apart)
  have b: "tag_value [(7, 0x10000)] AT_BASE = 0x10000" "(0x10000 :: u64) \<noteq> 0" "?d DT_REL = 0"
    using t by (simp_all add: tag_value_def AT_BASE_def image_tags_def)
  have rd: "\<forall>x. image_reads (mem ?w) 0x10000 ?d 1 1 x \<longrightarrow>
      \<not> in_range x ?p 8 \<and> \<not> in_range x (fr_aux ?fr) (8 * 32) \<and> \<not> in_range x (fr_dyn1 ?fr) (8 * 37)"
    unfolding same'(3) by (auto simp: start_frames_def in_range_iff dest!: reads [simplified])
  have wr: "\<forall>(t, u)\<in>set (image_writes (mem ?w) 0x10000 ?d 1 1).
      disj_range t 8 (fr_aux ?fr) (8 * 32) \<and> disj_range t 8 (fr_dyn1 ?fr) (8 * 37)"
    unfolding same'(1) by (simp add: start_frames_def disj_range_apart)
  obtain m1 w' where w': "w' = ?w\<lparr>mem := write_all (image_writes (mem ?w) 0x10000 ?d 1 1) m1\<rparr>"
      "\<forall>x. \<not> in_range x ?p 8 \<and> \<not> in_range x (fr_aux ?fr) (8 * 32) \<and> \<not> in_range x (fr_dyn1 ?fr) (8 * 37) \<longrightarrow> m1 x = mem ?w x"
      "dlstart (\<lambda>_ _ w. (0, w)) (\<lambda>_. 0) (\<lambda>_ _ w. Inr w) ?fr no_stack_info 0x10200 0x10c10 ?w =
        bind_res (ld_stage2_entry (\<lambda>_ _ w. (0, w)) (\<lambda>_. 0) (\<lambda>_ _ w. Inr w) ?fr no_stack_info
          \<lparr>li_sp = 0x10c10, li_ldso_base = 0x10000, li_dyn = fr_dyn1 ?fr, li_aux = fr_aux ?fr\<rparr> w') (sys_exit (\<lambda>_ _ w. (0, w)) 0)"
    using dlstart_relocates [OF s d p a b same'(2) rd wr, of "\<lambda>_ _ w. (0, w)" "\<lambda>_. 0" "\<lambda>_ _ w. Inr w" no_stack_info] by blast
  have "m1 x = entry_page x" if "in_range x 0x10388 8 \<or> in_range x 0x10390 8" for x
    using w'(2) that by (auto simp: entry_world_def start_frames_def in_range_iff)
  then have "mapped m1 0x10388 8" "mapped m1 0x10390 8"
    using mapped_entry [of "0x10388" 8] mapped_entry [of "0x10390" 8] by (simp_all add: mapped_def)
  then have "load64 (mem w') 0x10388 = Inr 0x10011" "load64 (mem w') 0x10390 = Inr 0x10123"
    by (simp_all add: w'(1) same'(1) [simplified] load64_peek64 peek64_poke_same peek64_poke_other disj_range_apart del: le_bytes.simps)
  moreover have "fr_dyn1 ?fr = 0x10800" "fr_aux ?fr = 0x10400" by (simp_all add: start_frames_def)
  ultimately show ?thesis using w'(3) by - (rule exI [of _ w'], simp)
qed

end
