(* ===== verification/Loader_Start.thy ===== *)
theory Loader_Start
  imports Loader_Image
begin

text \<open>
  How the loader hands over to the program: the copy of the stack, the place of the thread block on the
  new stack, and the base of the loader when it has to find it itself.
\<close>

section \<open>The copy of the stack\<close>

lemma movsq_copies:
  assumes "mapped m rdi (8 * n)" "mapped m rsi (8 * n)" "disj_range rdi (8 * n) rsi (8 * n)"
    and "unat rdi + 8 * n \<le> 2 ^ 64" "unat rsi + 8 * n \<le> 2 ^ 64"
  shows "\<exists>m'. movsq n rdi rsi m = Inr m' \<and> same_outside m m' rdi (8 * n)
    \<and> (\<forall>i<n. load64 m' (rdi + of_nat (8 * i)) = load64 m (rsi + of_nat (8 * i))) \<and> dom m \<subseteq> dom m'"
  using assms
proof (induction n arbitrary: rdi rsi m)
  case 0
  then show ?case by (simp add: same_outside_refl)
next
  case (Suc n)
  have sub: "in_range x a (8 * Suc n)" if "in_range x (a + of_nat 8) (8 * n)" "unat a + 8 * Suc n \<le> 2 ^ 64" for x a
    using that by (cases n) (auto intro: sub_range_in_range [of x a 8 "8 * n"])
  have first: "in_range x a (8 * Suc n)" if "in_range x a 8" for x a
    using that by (rule in_range_mono) simp
  let ?v = "le_word (peek m rsi 8) :: u64"
  let ?m = "poke m rdi (le_bytes 8 ?v)"
  have a: "mapped m rdi 8" "mapped m rsi 8"
    using Suc.prems(1,2) by (auto intro: mapped_mono)
  have b: "mapped ?m (rdi + of_nat 8) (8 * n)" "mapped ?m (rsi + of_nat 8) (8 * n)"
    using a Suc.prems(1,2,4,5) sub by (auto simp: mapped_def poke_def)
  have c: "disj_range (rdi + of_nat 8) (8 * n) (rsi + of_nat 8) (8 * n)"
    using Suc.prems(3-5) sub unfolding disj_range_def by blast
  have u: "unat (x + of_nat 8) + 8 * n \<le> 2 ^ 64" if "unat x + 8 * Suc n \<le> 2 ^ 64" for x :: addr
    using that less_imp_le [OF unat_less_u64, of "x + 8"] by (cases "n = 0") (simp_all add: unat_add_no_wrap)
  from Suc.IH [OF b c u [OF Suc.prems(4)] u [OF Suc.prems(5)]]
  obtain m' where m': "movsq n (rdi + of_nat 8) (rsi + of_nat 8) ?m = Inr m'"
    "same_outside ?m m' (rdi + of_nat 8) (8 * n)"
    "\<forall>i<n. load64 m' (rdi + of_nat 8 + of_nat (8 * i)) = load64 ?m (rsi + of_nat 8 + of_nat (8 * i))"
    "dom ?m \<subseteq> dom m'"
    by blast
  have "movsq (Suc n) rdi rsi m = Inr m'"
    using m'(1) a by (simp add: load64_mapped store64_mapped)
  moreover have "same_outside m m' rdi (8 * Suc n)"
  proof (unfold same_outside_def, intro allI impI)
    fix x assume "\<not> in_range x rdi (8 * Suc n)"
    then have "\<not> in_range x rdi 8" "\<not> in_range x (rdi + of_nat 8) (8 * n)"
      using first sub [OF _ Suc.prems(4)] by blast+
    then show "m' x = m x" using m'(2) by (simp add: same_outside_def poke_def)
  qed
  moreover have "load64 m' (rdi + of_nat (8 * i)) = load64 m (rsi + of_nat (8 * i))" if "i < Suc n" for i
  proof (cases i)
    case 0
    have "load64 m' rdi = load64 ?m rdi"
    proof (rule load64_cong)
      fix x assume "in_range x rdi 8"
      then have "\<not> in_range x (rdi + of_nat 8) (8 * n)"
        using Suc.prems(4) by (cases "n = 0") (simp_all add: in_range_iff unat_add_no_wrap)
      then show "m' x = ?m x" using m'(2) by (simp add: same_outside_def)
    qed
    also have "\<dots> = load64 m rsi" using a by (simp only: load64_poke_same load64_mapped [of m rsi])
    finally show ?thesis using 0 by simp
  next
    case (Suc j)
    then have j: "j < n" using that by simp
    have "load64 ?m (rsi + of_nat (8 * i)) = load64 m (rsi + of_nat (8 * i))"
    proof (rule load64_cong)
      fix x assume "in_range x (rsi + of_nat (8 * i)) 8"
      then have "in_range x rsi (8 * Suc n)"
        by (rule sub_range_in_range) (use that Suc.prems(5) in simp_all)
      with Suc.prems(3) first show "?m x = m x" by (auto simp: poke_def disj_range_def)
    qed
    then show ?thesis using m'(3) j Suc by (simp add: algebra_simps)
  qed
  moreover have "dom m \<subseteq> dom m'" using m'(4) a(1) dom_poke [of m rdi "le_bytes 8 ?v"] by simp
  ultimately show ?case by blast
qed

text \<open>The three words pushed below the stack pointer \<open>s + 24\<close>.\<close>

definition pushed :: "addr \<Rightarrow> u64 \<Rightarrow> u64 \<Rightarrow> u64 \<Rightarrow> mem \<Rightarrow> mem" where
  "pushed s v1 v2 v3 m =
     poke (poke (poke m (s + 16) (le_bytes 8 v1)) (s + 8) (le_bytes 8 v2)) s (le_bytes 8 v3)"

lemma pushed_mapped:
  assumes "mapped m s 24" "unat s + 24 \<le> 2 ^ 64"
  shows "mapped m (s + 16) 8" "mapped m (s + 8) 8" "mapped m s 8"
  using mapped_sub [OF assms(1), of 16 8] mapped_sub [OF assms(1), of 8 8] mapped_sub [OF assms(1), of 0 8] assms(2)
  by simp_all

lemma pushed_facts:
  assumes "mapped m s 24" "unat s + 24 \<le> 2 ^ 64"
  shows "load64 (pushed s t u v m) s = Inr v \<and> load64 (pushed s t u v m) (s + 8) = Inr u
      \<and> load64 (pushed s t u v m) (s + 16) = Inr t"
    "same_outside m (pushed s t u v m) s 24"
    "mapped m a k \<Longrightarrow> mapped (pushed s t u v m) a k"
proof -
  note mp = pushed_mapped [OF assms]
  have u: "unat (s + 8) = unat s + 8" "unat (s + 16) = unat s + 16"
    using assms(2) by (simp_all add: unat_add_no_wrap)
  show "load64 (pushed s t u v m) s = Inr v \<and> load64 (pushed s t u v m) (s + 8) = Inr u
      \<and> load64 (pushed s t u v m) (s + 16) = Inr t"
    using mp u assms(2) by (simp add: pushed_def load64_poke_same load64_poke_disj disj_range_apart del: le_bytes.simps)
  have "in_range x s 24" if "in_range x (s + of_nat k) 8" "k + 8 \<le> 24" for x k
    using that assms(2) by (intro sub_range_in_range [of x s k 8]) simp_all
  from this [of _ 16] this [of _ 8] this [of _ 0] show "same_outside m (pushed s t u v m) s 24"
    by (auto simp: same_outside_def pushed_def poke_def)
  show "mapped m a k \<Longrightarrow> mapped (pushed s t u v m) a k"
    using mp by (simp add: pushed_def)
qed

lemma push_registers:
  assumes "mapped (mem w) s 24" "unat s + 24 \<le> 2 ^ 64"
  shows "bind_res (write64 (s + 16) t w) (\<lambda>w. bind_res (write64 (s + 8) u w) (\<lambda>w. bind_res (write64 s v w) f)) =
    f (w\<lparr>mem := pushed s t u v (mem w)\<rparr>)"
  using pushed_mapped [OF assms] by (simp add: write64_mapped pushed_def)

lemma sp_move: "s + 24 + b - (s + 24) + k - c = b + k - (c :: addr)"
  by simp

text \<open>The new stack pointer, rounded down.\<close>

lemma new_rsp_cases:
  fixes t :: u64
  assumes "8 * n \<le> unat t" "16 dvd unat t"
  shows "unat t - 8 * n \<in> {unat ((t - of_nat (8 * n)) AND - 16), unat ((t - of_nat (8 * n)) AND - 16) + 8}"
proof -
  obtain c where c: "unat t = 16 * c" using assms(2) by (rule dvdE)
  have "8 * n < 2 ^ 64" by (rule le_less_trans [OF assms(1)]) simp
  then have o: "unat (of_nat (8 * n) :: u64) = 8 * n" by (rule unat_of_nat_u64)
  then have u: "unat (t - of_nat (8 * n)) = 16 * c - 8 * n"
    using assms(1) c by (subst unat_sub_le) (simp_all only: word_le_nat_alt)
  have "(- 16 :: u64) = NOT (2 ^ 4 - 1)" by simp
  then have "unat ((t - of_nat (8 * n)) AND - 16) = (16 * c - 8 * n) div 16 * 16"
    using clear_low_bits [of 4 "t - of_nat (8 * n)"] u by simp
  moreover have "16 * c - 8 * n \<in> {(16 * c - 8 * n) div 16 * 16, (16 * c - 8 * n) div 16 * 16 + 8}"
  proof (cases "even n")
    case True
    then obtain k where "n = 2 * k" by (rule evenE)
    then have "16 * c - 8 * n = 16 * (c - k)" by (simp add: diff_mult_distrib2)
    then show ?thesis by simp
  next
    case False
    then obtain k where k: "n = 2 * k + 1" by (rule oddE)
    moreover have "k < c" using assms(1) c k by simp
    then obtain d where "c = Suc (k + d)" by (auto dest: less_imp_Suc_add)
    ultimately have "16 * c - 8 * n = 16 * d + 8" by simp
    then show ?thesis by simp
  qed
  ultimately show ?thesis using c by simp
qed

lemma small_sless:
  assumes "k < unat b" "unat b < 2 ^ 63"
  shows "(of_nat k :: u64) <s b"
proof -
  have "int k < int (unat b)" using assms(1) by (simp only: of_nat_less_iff)
  then show ?thesis
    using sint_small [of k] sint_small [of "unat b"] assms by (simp add: word_sless_alt)
qed

text \<open>The copy alone, from the memory with the pushed registers.\<close>

lemma stack_copy:
  fixes m :: mem and b s :: addr
  assumes n: "8 * n \<le> k" and new: "mapped m b k" "unat b + k < 2 ^ 64"
    and old: "mapped m s (24 + 8 * n)" "unat s + 24 + 8 * n < 2 ^ 64" "disj_range b k s (24 + 8 * n)"
  shows "\<exists>m'. movsq n b (s + 24) (pushed s (s + 24) b (of_nat (8 * n)) m) = Inr m'
    \<and> load64 m' s = Inr (of_nat (8 * n)) \<and> load64 m' (s + 8) = Inr b \<and> load64 m' (s + 16) = Inr (s + 24)
    \<and> (\<forall>i<n. load64 m' (b + of_nat (8 * i)) = load64 m (s + 24 + of_nat (8 * i)))
    \<and> mapped m' b k \<and> (\<forall>x. in_range x b k \<and> \<not> in_range x b (8 * n) \<longrightarrow> m' x = m x)
    \<and> (\<forall>x. \<not> in_range x b (8 * n) \<and> \<not> in_range x s 24 \<longrightarrow> m' x = m x) \<and> dom m' = dom m"
proof -
  let ?m3 = "pushed s (s + 24) b (of_nat (8 * n)) m"
  have s24: "mapped m s 24" "unat s + 24 \<le> 2 ^ 64" using old(1,2) by (auto intro: mapped_mono)
  note p = pushed_facts [OF s24, where t = "s + 24" and u = b and v = "of_nat (8 * n)"]
  have us: "unat (s + 24) = unat s + 24" using old(2) by (simp add: unat_add_no_wrap)
  have sub: "in_range x s (24 + 8 * n)" if "in_range x (s + 24) (8 * n)" for x
    using sub_range_in_range [of x s 24 "8 * n"] that old(2) by (cases "n = 0") simp_all
  have low: "in_range x b k" if "in_range x b (8 * n)" for x
    using that n by (rule in_range_mono)
  have disj: "disj_range b (8 * n) (s + 24) (8 * n)"
    using old(3) sub low unfolding disj_range_def by blast
  have mp: "mapped ?m3 b (8 * n)" "mapped ?m3 (s + 24) (8 * n)"
    using p(3) [OF mapped_mono [OF new(1) n]] p(3) [OF mapped_sub [OF old(1), of 24 "8 * n"]] old(2) by simp_all
  have lim: "unat b + 8 * n \<le> 2 ^ 64" "unat (s + 24) + 8 * n \<le> 2 ^ 64" using n new(2) old(2) us by simp_all
  obtain m' where m': "movsq n b (s + 24) ?m3 = Inr m'" "same_outside ?m3 m' b (8 * n)"
      "\<forall>i<n. load64 m' (b + of_nat (8 * i)) = load64 ?m3 (s + 24 + of_nat (8 * i))" "dom ?m3 \<subseteq> dom m'"
    using movsq_copies [OF mp disj lim] by blast
  have d: "disj_range b (8 * n) s 24" using old(3) n by (auto elim: disj_range_mono)
  note o = outside_load64 [OF m'(2) d _ s24(2)]
  have regs: "load64 m' s = Inr (of_nat (8 * n))" "load64 m' (s + 8) = Inr b" "load64 m' (s + 16) = Inr (s + 24)"
    using o [of 0] o [of 8] o [of 16] p(1) by simp_all
  have "disj_range s 24 (s + 24) (8 * n)"
    using us old(2) by (simp add: disj_range_apart)
  then have "load64 m' (b + of_nat (8 * i)) = load64 m (s + 24 + of_nat (8 * i))" if "i < n" for i
    using m'(3) that outside_load64 [OF p(2) _ _ lim(2), of "8 * i"] by simp
  then have words: "\<forall>i<n. load64 m' (b + of_nat (8 * i)) = load64 m (s + 24 + of_nat (8 * i))" by blast
  have "\<not> in_range x s 24" if "in_range x b k" for x
    using that old(3) in_range_mono [of x s 24 "24 + 8 * n"] unfolding disj_range_def by auto
  then have rest: "\<forall>x. in_range x b k \<and> \<not> in_range x b (8 * n) \<longrightarrow> m' x = m x"
    using m'(2) p(2) by (simp add: same_outside_def)
  have "mapped m' b k" using p(3) [OF new(1)] m'(4) by (auto simp: mapped_def)
  moreover have others: "\<forall>x. \<not> in_range x b (8 * n) \<and> \<not> in_range x s 24 \<longrightarrow> m' x = m x"
    using m'(2) p(2) by (simp add: same_outside_def)
  moreover have "dom m' = dom m"
  proof -
    have "m' x \<noteq> None \<longleftrightarrow> m x \<noteq> None" for x
    proof (cases "in_range x b (8 * n) \<or> in_range x s 24")
      case True
      then have "m x \<noteq> None" using mappedD [OF new(1) low] mappedD [OF s24(1)] by blast
      moreover have "?m3 x \<noteq> None"
        using True p(3) [OF mapped_mono [OF new(1) n]] p(3) [OF s24(1)] mappedD by blast
      ultimately show ?thesis using m'(4) by (auto simp: dom_def)
    qed (use others in simp)
    then show ?thesis by (auto simp: set_eq_iff domIff)
  qed
  ultimately show ?thesis using m'(1) regs words rest by blast
qed

text \<open>The stack pointer that the trampoline computes.\<close>

definition switched_rsp :: "addr \<Rightarrow> u64 \<Rightarrow> nat \<Rightarrow> addr" where
  "switched_rsp stack_base stack_size n = (stack_base + stack_size - of_nat (8 * n)) AND -16"

lemma ld_stack_trampoline_runs:
  fixes w :: "'k world"
  assumes nr: "new_rsp = switched_rsp stack_base stack_size n" and n: "old_size + old_base - (s + 24) = of_nat (8 * n)" "16 * n + 40 \<le> unat stack_size" "unat stack_size < 2 ^ 63"
    and new: "mapped (mem w) stack_base (unat stack_size)" "unat stack_base + unat stack_size < 2 ^ 64"
      "16 dvd unat stack_base + unat stack_size"
    and old: "mapped (mem w) s (24 + 8 * n)" "unat s + 24 + 8 * n < 2 ^ 64"
      "disj_range stack_base (unat stack_size) s (24 + 8 * n)"
  shows "\<exists>m'.
      ld_stack_trampoline ret (s + 24) stack_base old_base stack_size old_size call w =
        bind_res (call 1 (new_rsp - 8) (w\<lparr>mem := m'\<rparr>)) (\<lambda>_. Inl (Undefined RunsOffEnd))
      \<and> unat stack_base + unat stack_size - 8 * n \<in> {unat new_rsp, unat new_rsp + 8}
      \<and> (\<forall>i<n. load64 m' (stack_base + of_nat (8 * i)) = load64 (mem w) (s + 24 + of_nat (8 * i)))
      \<and> (\<forall>x. in_range x (stack_base + of_nat (8 * n)) (unat stack_size - 8 * n) \<and> \<not> in_range x (new_rsp - 8) 8
            \<longrightarrow> m' x = mem w x)
      \<and> dom m' = dom (mem w)
      \<and> (\<forall>x. \<not> in_range x stack_base (unat stack_size) \<and> \<not> in_range x s 24 \<longrightarrow> m' x = mem w x)"
proof -
  let ?N = "of_nat (8 * n) :: u64" and ?S = "unat stack_size" and ?b = "unat stack_base"
  let ?t = "stack_base + stack_size"
  have new_rsp_def: "new_rsp = (?t - ?N) AND - 16" by (simp add: nr switched_rsp_def)
  have s24: "mapped (mem w) s 24" "unat s + 24 \<le> 2 ^ 64" using old(1,2) by (auto intro: mapped_mono)
  have "8 * n \<le> ?S" using n(2) by simp
  from stack_copy [OF this new(1,2) old] obtain m' where
    m': "movsq n stack_base (s + 24) (pushed s (s + 24) stack_base ?N (mem w)) = Inr m'"
    and regs: "load64 m' s = Inr ?N" "load64 m' (s + 8) = Inr stack_base" "load64 m' (s + 16) = Inr (s + 24)"
    and copy: "\<forall>i<n. load64 m' (stack_base + of_nat (8 * i)) = load64 (mem w) (s + 24 + of_nat (8 * i))"
    and mp: "mapped m' stack_base ?S"
    and rest: "\<forall>x. in_range x stack_base ?S \<and> \<not> in_range x stack_base (8 * n) \<longrightarrow> m' x = mem w x"
    and others: "\<forall>x. \<not> in_range x stack_base (8 * n) \<and> \<not> in_range x s 24 \<longrightarrow> m' x = mem w x" and dm: "dom m' = dom (mem w)"
    by blast
  have t: "unat ?t = ?b + ?S" using new(2) by (rule unat_add_no_wrap)
  have new_rsp: "?b + ?S - 8 * n \<in> {unat new_rsp, unat new_rsp + 8}"
    using new_rsp_cases [of n ?t] n(2) new(3) t unfolding new_rsp_def by simp
  then have "?b + 8 * n + 16 \<le> unat new_rsp" "unat new_rsp \<le> ?b + ?S" using n(2) by auto
  moreover from this(1) have "unat (new_rsp - 8) = unat new_rsp - 8"
    by (subst unat_sub_le) (simp_all add: word_le_nat_alt)
  ultimately have off: "?b + 8 * n + 8 \<le> unat (new_rsp - 8)" "unat (new_rsp - 8) + 8 \<le> ?b + ?S"
    by simp_all
  then have pm: "mapped m' (new_rsp - 8) 8"
    using mp new(2) by (simp add: mapped_def in_range_iff)
  let ?mf = "poke m' (new_rsp - 8) (le_bytes 8 (ret 1))"
  have run: "ld_stack_trampoline ret (s + 24) stack_base old_base stack_size old_size call w =
      bind_res (call 1 (new_rsp - 8) (w\<lparr>mem := ?mf\<rparr>)) (\<lambda>_. Inl (Undefined RunsOffEnd))"
  proof -
    have "?N <s stack_size" by (rule small_sless) (use n(2,3) in simp_all)
    moreover have "unat (drop_bit 3 ?N) = n"
    proof -
      have "unat ?N = 8 * n" using n(2,3) by (intro unat_of_nat_u64) simp
      then have "unat (drop_bit 3 ?N) = drop_bit 3 (8 * n)" by (simp only: unat_drop_bit_eq)
      then show ?thesis by (simp add: drop_bit_eq_div)
    qed
    moreover have "s + 24 - 8 = s + 16" "s + 24 - 16 = s + 8" "s + 24 - 24 = s" by simp_all
    ultimately show ?thesis
      using regs m' pm
      by (simp only: ld_stack_trampoline_def n(1) Let_def if_True bind_res_simps push_registers [OF s24]
          trampoline_call_def sp_move) (simp add: write64_mapped new_rsp_def)
  qed
  have "load64 ?mf (stack_base + of_nat (8 * i)) = load64 (mem w) (s + 24 + of_nat (8 * i))" if "i < n" for i
  proof -
    have "unat (stack_base + of_nat (8 * i)) = ?b + 8 * i"
      using that n(2) new(2) by (intro unat_add_of_nat) simp
    then have "load64 ?mf (stack_base + of_nat (8 * i)) = load64 m' (stack_base + of_nat (8 * i))"
      using that off new(2) by (intro load64_poke_disj) (simp add: disj_range_apart)
    then show ?thesis using copy that by simp
  qed
  moreover have "?mf x = mem w x"
    if "in_range x (stack_base + of_nat (8 * n)) (?S - 8 * n)" "\<not> in_range x (new_rsp - 8) 8" for x
  proof -
    have "unat (stack_base + of_nat (8 * n)) = ?b + 8 * n"
      using n(2) new(2) by (intro unat_add_of_nat) simp
    then have "in_range x stack_base ?S" "\<not> in_range x stack_base (8 * n)"
      using that(1) n(2) new(2) by (simp_all add: in_range_iff)
    then show ?thesis using that(2) rest by (simp add: poke_def)
  qed
  moreover have "dom ?mf = dom (mem w)" using pm dm by (simp add: dom_poke)
  moreover have "?mf x = mem w x" if "\<not> in_range x stack_base ?S" "\<not> in_range x s 24" for x
  proof -
    have "\<not> in_range x stack_base (8 * n)" using that(1) in_range_mono [of x stack_base "8 * n" ?S] n(2) by auto
    moreover have "\<not> in_range x (new_rsp - 8) 8"
      using that(1) off new(2) by (auto simp: in_range_iff)
    ultimately show ?thesis using others that(2) by (simp add: poke_def)
  qed
  ultimately show ?thesis using run new_rsp by blast
qed

text \<open>C32: the switch to the new stack.  The words from the stack pointer up are copied to the bottom of
  the new region, while the new stack pointer is as far from its top as the old one was from the top of
  the old stack: what the function finds above its stack pointer is what was there before, and not a
  copy of the old stack.\<close>

theorem ld_stack_trampoline_copies_to_bottom:
  fixes w :: "'k world"
  assumes n: "old_size + old_base - (s + 24) = of_nat (8 * n)" "16 * n + 40 \<le> unat stack_size" "unat stack_size < 2 ^ 63"
    and new: "mapped (mem w) stack_base (unat stack_size)" "unat stack_base + unat stack_size < 2 ^ 64"
      "16 dvd unat stack_base + unat stack_size"
    and old: "mapped (mem w) s (24 + 8 * n)" "unat s + 24 + 8 * n < 2 ^ 64"
      "disj_range stack_base (unat stack_size) s (24 + 8 * n)"
  shows "\<exists>new_rsp m'.
      ld_stack_trampoline ret (s + 24) stack_base old_base stack_size old_size call w =
        bind_res (call 1 (new_rsp - 8) (w\<lparr>mem := m'\<rparr>)) (\<lambda>_. Inl (Undefined RunsOffEnd))
      \<and> unat stack_base + unat stack_size - 8 * n \<in> {unat new_rsp, unat new_rsp + 8}
      \<and> (\<forall>i<n. load64 m' (stack_base + of_nat (8 * i)) = load64 (mem w) (s + 24 + of_nat (8 * i)))
      \<and> (\<forall>x. in_range x (stack_base + of_nat (8 * n)) (unat stack_size - 8 * n) \<and> \<not> in_range x (new_rsp - 8) 8
            \<longrightarrow> m' x = mem w x)"
  using ld_stack_trampoline_runs [OF refl assms, of ret call] by blast

text \<open>A page with an old stack of one word, which holds 7, and a new stack of 256 bytes.\<close>

definition switch_world :: "unit world" where
  "switch_world = \<lparr>mem = write_all [(0x10118, 7)] demo_page, os = ()\<rparr>"

theorem ld_stack_trampoline_copies_to_bottom_witness:
  "ld_stack_trampoline (\<lambda>_. 0) 0x10118 0x10800 0x10000 0x100 0x120
     (\<lambda>arg rsp w. Inl (Exited (if load64 (mem w) 0x10800 = Inr 7 then ucast arg else 0))) switch_world = Inl (Exited 1)"
proof -
  have mp: "mapped (mem switch_world) a k" if "0x10000 \<le> unat a" "unat a + k \<le> 0x11000" for a k
    using mapped_write_all [OF mapped_demo_page [OF that]] by (simp add: switch_world_def del: write_all_simps)
  have "load64 (mem switch_world) 0x10118 = Inr 7"
    using mp [of "0x10118" 8]
    by (simp add: load64_peek64) (simp add: switch_world_def write_all_def peek64_poke_same del: le_bytes.simps)
  then show ?thesis
    using ld_stack_trampoline_copies_to_bottom [of "0x120" "0x10000" "0x10100" 1 "0x100" switch_world "0x10800"
        "\<lambda>_. 0" "\<lambda>arg rsp w. Inl (Exited (if load64 (mem w) 0x10800 = Inr 7 then ucast arg else 0))"]
    by (simp add: mp disj_range_apart) auto
qed

section \<open>The thread block of the main thread\<close>

text \<open>C33: the block that stage 3 sets up.  It lies at the first multiple of the stack size, 1 MB, in the new
  region of 2 MB, above the thread-local image.  A frame in the next megabyte finds the block by masking
  its address.  A frame above that, in the topmost bytes of the region, where the program starts to run,
  finds another address.\<close>

theorem main_thread_block:
  assumes g: "cia_stack_size g = 2 ^ 20" and b: "unat stack_base + 2 ^ 21 \<le> 2 ^ 47"
    and r: "0 < unat stack_base mod 2 ^ 20 + unat tls_size" "unat stack_base mod 2 ^ 20 + unat tls_size \<le> 2 ^ 20"
    and tcb: "tcb = ld_tcb stack_base tls_size (2 * MB)"
  shows "unat tcb = unat stack_base div 2 ^ 20 * 2 ^ 20 + 2 ^ 20
    \<and> (\<forall>f. unat tcb \<le> unat f \<and> unat f < unat tcb + 2 ^ 20 \<longrightarrow> tcb_of_frame g f = tcb)
    \<and> (\<forall>f. unat tcb + 2 ^ 20 \<le> unat f \<and> unat f < unat stack_base + 2 ^ 21 \<longrightarrow> tcb_of_frame g f = tcb + 2 ^ 20)"
proof -
  define q where "q = unat stack_base div 2 ^ 20"
  have bq: "unat stack_base = q * 2 ^ 20 + unat stack_base mod 2 ^ 20" unfolding q_def by simp
  have s: "unat (stack_base + tls_size) = unat stack_base + unat tls_size"
    using b r(2) by (intro unat_add_no_wrap) simp
  have half: "2 * MB div 2 = (2 ^ 20 :: u64)" by (simp add: MB_def KB_def)
  have pow: "is_pow2 (2 ^ 20)" unfolding is_pow2_def by (rule exI [of _ 20]) simp
  have "unat tcb = (unat (stack_base + tls_size) + 2 ^ 20 - 1) div 2 ^ 20 * 2 ^ 20"
    unfolding tcb ld_tcb_def half cia_ptr_alignf_def
    using round_up_unat [OF pow, of "stack_base + tls_size"] s b r(2) by (simp add: unat_pow2)
  also have "(unat (stack_base + tls_size) + 2 ^ 20 - 1) div 2 ^ 20 = q + 1"
  proof (rule div_nat_eqI)
    have "q * 2 ^ 20 < unat (stack_base + tls_size)" "unat (stack_base + tls_size) \<le> q * 2 ^ 20 + 2 ^ 20"
      using r bq s by linarith+
    then show "2 ^ 20 * (q + 1) \<le> unat (stack_base + tls_size) + 2 ^ 20 - 1"
      "unat (stack_base + tls_size) + 2 ^ 20 - 1 < 2 ^ 20 * Suc (q + 1)" by simp_all
  qed
  finally have t: "unat tcb = q * 2 ^ 20 + 2 ^ 20" by simp
  have t': "unat (tcb + 2 ^ 20) = q * 2 ^ 20 + 2 * 2 ^ 20"
    using t b bq by (subst unat_add_no_wrap) simp_all
  have "tcb_of_frame g f = tcb" if "unat tcb \<le> unat f" "unat f < unat tcb + 2 ^ 20" for f
    using that t by (intro tcb_of_frame_stack [OF g]) simp_all
  moreover have "tcb_of_frame g f = tcb + 2 ^ 20" if "unat tcb + 2 ^ 20 \<le> unat f" "unat f < unat stack_base + 2 ^ 21" for f
    using that t t' bq mod_less_divisor [of "2 ^ 20" "unat stack_base"] by (intro tcb_of_frame_stack [OF g]) simp_all
  ultimately show ?thesis using t q_def by simp
qed

text \<open>A region of the kernel as it comes: aligned to a page and not to a megabyte.\<close>

theorem main_thread_block_witness:
  "let g = \<lparr>cia_stack_size = 2 ^ 20, cia_tls_image_size = 0, cia_tls_image_base = 0, thread_blocks_head = 0\<rparr>;
       tcb = ld_tcb 0x7f0000035000 0x40 (2 * MB)
   in unat tcb = 0x7f0000100000 \<and> tcb_of_frame g 0x7f0000123000 = tcb \<and> tcb_of_frame g 0x7f0000234560 = tcb + 2 ^ 20"
proof -
  let ?g = "\<lparr>cia_stack_size = 2 ^ 20, cia_tls_image_size = 0, cia_tls_image_base = 0, thread_blocks_head = 0\<rparr>"
  show ?thesis
    using main_thread_block [of ?g "0x7f0000035000" "0x40", OF _ _ _ _ refl] by (simp add: Let_def)
qed

section \<open>The base of the loader\<close>

text \<open>
  Without a base from the kernel the loader computes it from its own dynamic section.  The difference
  is taken in units of 16 bytes: 16 times the address of the segment is subtracted.
\<close>

lemma self_base_loop_from:
  assumes "\<forall>j<n. \<exists>t. p_type m (phdrs + of_nat j * ph_ent) = Inr t \<and> (t = PT_DYNAMIC \<longleftrightarrow> j = k)"
    and "p_vaddr m (phdrs + of_nat k * ph_ent) = Inr v" "n < 2 ^ 31" "i \<le> n" "k < n"
  shows "self_base_loop m dynv phdrs ph_ent (of_nat n) (of_nat i) base =
    Inr (if i \<le> k then dynv - 16 * v else base)"
  using assms(4)
proof (induction i arbitrary: base rule: inc_induct)
  case base
  then show ?case
    using assms(3,5) by (subst self_base_loop.simps) (simp add: scast_small)
next
  case (step i)
  obtain t where t: "p_type m (phdrs + of_nat i * ph_ent) = Inr t" "t = PT_DYNAMIC \<longleftrightarrow> i = k"
    using assms(1) step(2) by blast
  have lt: "(of_nat i :: u64) < of_nat n"
    using step(2) assms(3) by (simp add: word_less_nat_alt unat_of_nat_u64)
  have inc: "inc_i32 (of_nat i) = Inr (of_nat (Suc i))" using step(2) assms(3) by (intro inc_i32_count) simp
  show ?case
    using t lt inc assms(2,3) step(2) step.IH
    by (subst self_base_loop.simps) (simp add: scast_small sizeof_Elf64_Dyn_def del: of_nat_Suc)
qed

end
