(* ===== verification/Regions.thy ===== *)
theory Regions
  imports Memory
begin

text \<open>
  Memories that differ in a region only: what the proofs about whole stages of the loader carry from one step to the
  next.
\<close>

text \<open>Memory \<open>m'\<close> has the same mapped addresses as \<open>m\<close> and differs from it in the region \<open>T\<close> only.\<close>

definition differs_in :: "(addr \<Rightarrow> bool) \<Rightarrow> mem \<Rightarrow> mem \<Rightarrow> bool" where
  "differs_in T m m' \<longleftrightarrow> dom m' = dom m \<and> (\<forall>x. \<not> T x \<longrightarrow> m' x = m x)"

definition spared :: "(addr \<Rightarrow> bool) \<Rightarrow> addr \<Rightarrow> nat \<Rightarrow> bool" where
  "spared T a n \<longleftrightarrow> (\<forall>x. in_range x a n \<longrightarrow> \<not> T x)"

definition inside :: "(addr \<Rightarrow> bool) \<Rightarrow> addr \<Rightarrow> nat \<Rightarrow> bool" where
  "inside T a n \<longleftrightarrow> (\<forall>x. in_range x a n \<longrightarrow> T x)"

lemma differs_refl: "differs_in T m m"
  by (simp add: differs_in_def)

lemma differs_trans: "differs_in T m m' \<Longrightarrow> differs_in T m' m'' \<Longrightarrow> differs_in T m m''"
  by (simp add: differs_in_def)

lemma differs_weaken: "differs_in T m m' \<Longrightarrow> (\<And>x. T x \<Longrightarrow> U x) \<Longrightarrow> differs_in U m m'"
  unfolding differs_in_def by blast

lemma differs_mapped: "differs_in T m m' \<Longrightarrow> mapped m' a n = mapped m a n"
  by (auto simp: differs_in_def mapped_def set_eq_iff domIff)

lemma differs_poke:
  "differs_in T m m' \<Longrightarrow> mapped m a (length bs) \<Longrightarrow> inside T a (length bs) \<Longrightarrow> differs_in T m (poke m' a bs)"
  using dom_poke [of m' a bs] differs_mapped [of T m m' a "length bs"]
  by (auto simp: differs_in_def inside_def poke_def)

lemma differs_load64: "differs_in T m m' \<Longrightarrow> spared T a 8 \<Longrightarrow> load64 m' a = load64 m a"
  by (rule load64_cong) (simp add: differs_in_def spared_def)

lemma differs_load32: "differs_in T m m' \<Longrightarrow> spared T a 4 \<Longrightarrow> load32 m' a = load32 m a"
  by (rule load32_cong) (simp add: differs_in_def spared_def)

lemma differs_peek: "differs_in T m m' \<Longrightarrow> spared T a n \<Longrightarrow> n \<le> 2 ^ 64 \<Longrightarrow> peek m' a n = peek m a n"
  by (rule peek_cong) (simp_all add: differs_in_def spared_def)

lemma spared_sub: "spared T a n \<Longrightarrow> off + k \<le> n \<Longrightarrow> n \<le> 2 ^ 64 \<Longrightarrow> spared T (a + of_nat off) k"
proof (unfold spared_def, intro allI impI)
  fix x assume s: "\<forall>x. in_range x a n \<longrightarrow> \<not> T x" and n: "off + k \<le> n" "n \<le> 2 ^ 64" and x: "in_range x (a + of_nat off) k"
  from x obtain i where "i < k" "x = a + of_nat (off + i)" using in_range_nth [OF x] by (auto simp: add.assoc)
  then have "in_range x a n" using n in_range_offset [of "off + i" n a] by simp
  with s show "\<not> T x" by blast
qed

lemma inside_sub:
  assumes "inside T a n" "off + k \<le> n" "n \<le> 2 ^ 64"
  shows "inside T (a + of_nat off) k"
  using spared_sub [of "\<lambda>x. \<not> T x" a n off k] assms by (simp add: inside_def spared_def)

lemma mapped_part:
  assumes "mapped m a n" "off + k \<le> n" "n \<le> 2 ^ 64"
  shows "mapped m (a + of_nat off) k"
  using inside_sub [of "\<lambda>x. m x \<noteq> None" a n off k] assms by (simp add: inside_def mapped_def)

lemma spared_disj: "spared (\<lambda>x. in_range x b k) a n \<longleftrightarrow> disj_range a n b k"
  by (auto simp: spared_def disj_range_def)

lemma spared_or: "spared (\<lambda>x. T x \<or> U x) a n \<longleftrightarrow> spared T a n \<and> spared U a n"
  by (auto simp: spared_def)

lemma differs_store8:
  assumes "differs_in T m m'" "store8 m' a b = Inr m''" "T a"
  shows "differs_in T m m''"
proof -
  have "a \<in> dom m'" "m'' = m'(a \<mapsto> b)" using assms(2) by (auto simp: store8_def split: option.splits)
  then show ?thesis using assms(1,3) by (auto simp: differs_in_def insert_absorb simp del: domIff)
qed

end
