(* ===== verification/Handover.thy ===== *)
theory Handover
  imports Loader_Start Regions
begin

text \<open>
  Stage 3 of the loader as a whole: the state in which it enters the program.
\<close>

section \<open>The entry of the program\<close>

lemma first_phdr_cong:
  assumes "\<forall>i<n. p_type m' (phdr + of_nat i * ent) = p_type m (phdr + of_nat i * ent)" "n < 2 ^ 64" "i \<le> n"
  shows "first_phdr m' phdr ent (of_nat n) type (of_nat i) = first_phdr m phdr ent (of_nat n) type (of_nat i)"
  using assms(3)
proof (induction i rule: inc_induct)
  case base
  then show ?case by (simp add: first_phdr.simps [of _ _ _ "of_nat n" _ "of_nat n"])
next
  case (step i)
  have "p_type m' (phdr + of_nat i * ent) = p_type m (phdr + of_nat i * ent)" using assms(1) step(2) by blast
  moreover have "first_phdr m' phdr ent (of_nat n) type (of_nat i + 1) = first_phdr m phdr ent (of_nat n) type (of_nat i + 1)"
    using step.IH by (simp add: add.commute)
  ultimately show ?case by (subst (1 2) first_phdr.simps) (simp cong: if_cong)
qed

text \<open>
  What stage 3 reads: its information block, the image of the program, the program headers, the
  thread-local segment \<open>ph\<close> if there is one, and the entry point.
\<close>

record handover =
  ho_app :: addr
  ho_base :: addr
  ho_phdr :: addr
  ho_phnum :: nat
  ho_phent :: u64
  ho_stack_base :: addr
  ho_stack_size :: u64
  ho_tls :: "(addr \<times> addr \<times> nat) option" \<comment> \<open>header, image, number of bytes\<close>
  ho_entry :: u64

definition tls_bytes :: "handover \<Rightarrow> nat" where
  "tls_bytes h = (case ho_tls h of None \<Rightarrow> 0 | Some (_, _, n) \<Rightarrow> n)"

text \<open>The part of it that stage 2 has before it switches the stack.\<close>

definition program_in :: "mem \<Rightarrow> addr \<Rightarrow> handover \<Rightarrow> bool" where
  "program_in m info h \<longleftrightarrow>
     load64 m (s3_app info) = Inr (ho_app h)
     \<and> load64 m (im_base (ho_app h)) = Inr (ho_base h) \<and> load64 m (im_phdr (ho_app h)) = Inr (ho_phdr h)
     \<and> load64 m (im_ph_num (ho_app h)) = Inr (of_nat (ho_phnum h))
     \<and> load64 m (im_ph_ent (ho_app h)) = Inr (ho_phent h)
     \<and> e_entry m (ho_base h) = Inr (ho_entry h) \<and> ho_phnum h < 2 ^ 64
     \<and> first_phdr m (ho_phdr h) (ho_phent h) (of_nat (ho_phnum h)) PT_TLS 0 = Inr (map_option fst (ho_tls h))
     \<and> (case ho_tls h of None \<Rightarrow> True
        | Some (ph, img, n) \<Rightarrow> p_vaddr m ph = Inr (img - ho_base h) \<and> p_memsz m ph = Inr (of_nat n)
            \<and> n < 2 ^ 31 \<and> mapped m img n)"

definition handover_in :: "mem \<Rightarrow> addr \<Rightarrow> handover \<Rightarrow> bool" where
  "handover_in m info h \<longleftrightarrow> program_in m info h
     \<and> load64 m (s3_stack_base info) = Inr (ho_stack_base h) \<and> load64 m (s3_stack_size info) = Inr (ho_stack_size h)
     \<and> load64 m (s3_tls_size info) = Inr (of_nat (tls_bytes h))"

text \<open>None of this lies in the region \<open>T\<close>; the slot for the address of the image is not part of it.\<close>

definition program_spared :: "(addr \<Rightarrow> bool) \<Rightarrow> addr \<Rightarrow> handover \<Rightarrow> bool" where
  "program_spared T info h \<longleftrightarrow>
     spared T (s3_app info) 8 \<and> spared T (ho_app h) 112
     \<and> (\<forall>i<ho_phnum h. spared T (ho_phdr h + of_nat i * ho_phent h) 4) \<and> spared T (ho_base h + 24) 8
     \<and> (case ho_tls h of None \<Rightarrow> True | Some (ph, img, n) \<Rightarrow> spared T (ph + 16) 8 \<and> spared T (ph + 40) 8 \<and> spared T img n)"

definition handover_spared :: "(addr \<Rightarrow> bool) \<Rightarrow> addr \<Rightarrow> handover \<Rightarrow> bool" where
  "handover_spared T info h \<longleftrightarrow> program_spared T info h \<and> spared T info 32 \<and> spared T (s3_tls_size info) 8"

text \<open>The loads of stage 3, one by one.\<close>

lemma handover_loads:
  assumes "handover_in m info h"
  shows "load64 m (s3_app info) = Inr (ho_app h)" "load64 m (s3_stack_base info) = Inr (ho_stack_base h)"
    "load64 m (s3_stack_size info) = Inr (ho_stack_size h)" "load64 m (s3_tls_size info) = Inr (of_nat (tls_bytes h))"
    "load64 m (im_base (ho_app h)) = Inr (ho_base h)" "e_entry m (ho_base h) = Inr (ho_entry h)"
    "tls_phdr m (ho_app h) = Inr (map_option fst (ho_tls h))"
  using assms by (simp_all add: handover_in_def program_in_def tls_phdr_def)

lemma program_kept:
  assumes "program_in m info h" "differs_in T m m'" "program_spared T info h"
  shows "program_in m' info h"
proof -
  have a: "spared T (ho_app h + of_nat k) 8" if "k + 8 \<le> 112" for k
    using assms(3) that by (intro spared_sub [of T "ho_app h" 112]) (simp_all add: program_spared_def)
  note l = differs_load64 [OF assms(2)]
  have "first_phdr m' (ho_phdr h) (ho_phent h) (of_nat (ho_phnum h)) PT_TLS 0 =
      first_phdr m (ho_phdr h) (ho_phent h) (of_nat (ho_phnum h)) PT_TLS 0"
    using assms(1,3) differs_load32 [OF assms(2)]
    by (intro first_phdr_cong [of _ m' _ _ m 0, simplified])
      (simp_all add: p_type_def program_in_def program_spared_def)
  moreover have "mapped m' x n = mapped m x n" for x n by (rule differs_mapped [OF assms(2)])
  ultimately show ?thesis
    using assms(1,3) l [OF a [of 48]] l [OF a [of 56]] l [OF a [of 64]] l [OF a [of 72]] l
    unfolding program_in_def program_spared_def im_base_def im_phdr_def im_ph_num_def im_ph_ent_def e_entry_def
      p_vaddr_def p_memsz_def
    by (simp split: option.splits prod.splits)
qed

lemma handover_kept:
  assumes "handover_in m info h" "differs_in T m m'" "handover_spared T info h"
  shows "handover_in m' info h"
proof -
  have i: "spared T (info + of_nat k) 8" if "k + 8 \<le> 32" for k
    using assms(3) that by (intro spared_sub [of T info 32]) (simp_all add: handover_spared_def)
  note l = differs_load64 [OF assms(2)]
  have "program_in m' info h"
    using program_kept [OF _ assms(2)] assms(1,3) by (simp add: handover_in_def handover_spared_def)
  then show ?thesis
    using assms(1,3) l [OF i [of 16]] l [OF i [of 24]] l
    unfolding handover_in_def handover_spared_def s3_stack_base_def s3_stack_size_def s3_tls_size_def by simp
qed

definition block_region :: "addr \<Rightarrow> nat \<Rightarrow> addr \<Rightarrow> bool" where
  "block_region tcb n x \<longleftrightarrow> in_range x (tcb - of_nat n) (n + 48)"

definition params_region :: "addr \<Rightarrow> addr \<Rightarrow> addr \<Rightarrow> bool" where
  "params_region p info x \<longleftrightarrow> in_range x p 24 \<or> in_range x (s3_tls_image info) 8"

lemma adjacent_disj:
  assumes "n + k \<le> 2 ^ 64"
  shows "disj_range a n (a + of_nat n) k"
proof (unfold disj_range_def, intro allI notI, elim conjE)
  fix x assume "in_range x a n" "in_range x (a + of_nat n) k"
  then obtain i j where ij: "i < n" "x = a + of_nat i" "j < k" "x = a + of_nat (n + j)"
    using in_range_nth [of x a n] in_range_nth [of x "a + of_nat n" k] by (auto simp: add.assoc)
  then have "of_nat i = (of_nat (n + j) :: u64)" by simp
  moreover have "i < 2 ^ 64" "n + j < 2 ^ 64" using ij assms by simp_all
  ultimately have "i = n + j" using unat_of_nat_u64 by metis
  with ij(1) show False by simp
qed

definition block_memory :: "addr \<Rightarrow> mem \<Rightarrow> mem" where
  "block_memory tcb m = poke (poke m tcb (le_bytes 4 (0 :: u32))) (tcb + 0x28) (le_bytes 8 (0x12345678fedcba98 :: u64))"

lemma block_written:
  assumes "mapped m (tcb - of_nat n) (n + 48)" "n + 48 \<le> 2 ^ 64"
  shows "mapped m tcb 4" "mapped m (tcb + 0x28) 8" "differs_in (block_region tcb n) m (block_memory tcb m)"
    "load32 (block_memory tcb m) tcb = Inr 0" "load64 (block_memory tcb m) (tcb + 0x28) = Inr 0x12345678fedcba98"
proof -
  show a: "mapped m tcb 4" and b: "mapped m (tcb + 0x28) 8"
    using mapped_part [OF assms(1), of n 4] mapped_part [OF assms(1), of "n + 40" 8] assms(2) by simp_all
  have i: "inside (block_region tcb n) (tcb - of_nat n) (n + 48)"
    by (simp add: inside_def block_region_def)
  have "inside (block_region tcb n) tcb 4" "inside (block_region tcb n) (tcb + 0x28) 8"
    using inside_sub [OF i, of n 4] inside_sub [OF i, of "n + 40" 8] assms(2) by simp_all
  with a b show "differs_in (block_region tcb n) m (block_memory tcb m)"
    unfolding block_memory_def by (intro differs_poke differs_refl) simp_all
  have "disj_range (tcb + 0x28) 8 tcb 4"
    using disj_range_mono [OF adjacent_disj [of 40 8 tcb], of 4 8] by (simp add: disj_range_sym)
  then show "load32 (block_memory tcb m) tcb = Inr 0" "load64 (block_memory tcb m) (tcb + 0x28) = Inr 0x12345678fedcba98"
    using a b by (simp_all add: block_memory_def load32_poke_disj load32_poke_same load64_poke_same del: le_bytes.simps)
qed

definition tls_memory :: "addr \<Rightarrow> handover \<Rightarrow> addr \<Rightarrow> mem \<Rightarrow> mem" where
  "tls_memory info h tcb m =
     (case ho_tls h of None \<Rightarrow> m
      | Some (ph, img, n) \<Rightarrow> poke (poke m (tcb - of_nat n) (peek m img n)) (s3_tls_image info) (le_bytes 8 img))"

lemma tls_step:
  assumes h: "handover_in (mem w) info h" and n: "n = tls_bytes h" "n + 48 \<le> 2 ^ 64"
    and m: "mapped (mem w) (tcb - of_nat n) (n + 48)" "mapped (mem w) (s3_tls_image info) 8"
    and s: "handover_spared (block_region tcb n) info h"
  shows "(case map_option fst (ho_tls h) of None \<Rightarrow> Inr w | Some ph \<Rightarrow> ld_copy_tls info (ho_app h) tcb ph w) =
      Inr (w\<lparr>mem := tls_memory info h tcb (mem w)\<rparr>)"
    "differs_in (\<lambda>x. block_region tcb n x \<or> params_region p info x) (mem w) (tls_memory info h tcb (mem w))"
proof -
  let ?T = "\<lambda>x. block_region tcb n x \<or> params_region p info x"
  have "(case map_option fst (ho_tls h) of None \<Rightarrow> Inr w | Some ph \<Rightarrow> ld_copy_tls info (ho_app h) tcb ph w) =
      Inr (w\<lparr>mem := tls_memory info h tcb (mem w)\<rparr>) \<and> differs_in ?T (mem w) (tls_memory info h tcb (mem w))"
  proof (cases "ho_tls h")
    case None
    then show ?thesis by (simp add: tls_memory_def differs_refl)
  next
    case (Some tls)
    obtain ph img k where tls: "tls = (ph, img, k)" by (cases tls) simp
    with Some n(1) have k: "k = n" by (simp add: tls_bytes_def)
    let ?dst = "tcb - of_nat n" and ?slot = "s3_tls_image info"
    have r: "p_vaddr (mem w) ph = Inr (img - ho_base h)" "p_memsz (mem w) ph = Inr (of_nat n)" "n < 2 ^ 31"
      "mapped (mem w) img n" "load64 (mem w) (im_base (ho_app h)) = Inr (ho_base h)"
      using h Some tls k by (simp_all add: handover_in_def program_in_def)
    have u: "unat (of_nat n :: u64) = n" using r(3) by (intro unat_of_nat_u64) simp
    have dst: "mapped (mem w) ?dst n" using m(1) by (rule mapped_mono) simp
    have "spared (block_region tcb n) img n" using s Some tls k by (simp add: handover_spared_def program_spared_def)
    then have "disj_range ?dst n img n"
      using in_range_mono [of _ ?dst n "n + 48"] unfolding spared_def block_region_def disj_range_def by auto
    then have f: "fwd_ok ?dst img n" using n(2) by (intro fwd_okI_disj) simp_all
    let ?m3 = "poke (mem w) ?dst (peek (mem w) img n)"
    have copy: "tls_copy_loop ?dst img (of_nat n) 0 (mem w) = Inr ?m3"
      using tls_copy_loop_copies [of "mem w" img "of_nat n" ?dst] r dst f u by simp
    have m3: "mapped ?m3 ?slot 8" using m(2) dst by simp
    have "inside ?T ?dst n"
      using in_range_mono [of _ ?dst n "n + 48"] unfolding inside_def block_region_def by auto
    then have "differs_in ?T (mem w) ?m3"
      using dst by (intro differs_poke differs_refl) simp_all
    then have "differs_in ?T (mem w) (poke ?m3 ?slot (le_bytes 8 img))"
      by (rule differs_poke) (use m(2) in \<open>simp_all add: inside_def params_region_def\<close>)
    then show ?thesis
      using Some tls k r copy m3
      by (simp add: ld_copy_tls_def tls_memory_def write64_mapped)
  qed
  then show "(case map_option fst (ho_tls h) of None \<Rightarrow> Inr w | Some ph \<Rightarrow> ld_copy_tls info (ho_app h) tcb ph w) =
      Inr (w\<lparr>mem := tls_memory info h tcb (mem w)\<rparr>)"
    "differs_in ?T (mem w) (tls_memory info h tcb (mem w))" by simp_all
qed

text \<open>The copy leaves the block itself alone, and is the image.\<close>

lemma tls_memory_contents:
  assumes n: "n = tls_bytes h" "n + 48 \<le> 2 ^ 64"
    and m: "mapped m (tcb - of_nat n) (n + 48)" "mapped m slot 8" "slot = s3_tls_image info" "load64 m slot = Inr image0"
    and d: "disj_range slot 8 (tcb - of_nat n) (n + 48)"
  shows "load32 (tls_memory info h tcb m) tcb = load32 m tcb"
    "load64 (tls_memory info h tcb m) (tcb + 0x28) = load64 m (tcb + 0x28)"
    "load64 (tls_memory info h tcb m) slot = Inr (case ho_tls h of None \<Rightarrow> image0 | Some (_, img, _) \<Rightarrow> img)"
    "case ho_tls h of None \<Rightarrow> True | Some (_, img, _) \<Rightarrow> peek (tls_memory info h tcb m) (tcb - of_nat n) n = peek m img n"
proof -
  let ?dst = "tcb - of_nat n"
  have block: "disj_range ?dst n tcb 48" using adjacent_disj [OF n(2), of ?dst] by simp
  have dst: "disj_range slot 8 ?dst n" using d by (rule disj_range_mono) simp_all
  have "disj_range slot 8 (?dst + of_nat n) 48"
  proof (unfold disj_range_def, intro allI notI, elim conjE)
    fix x assume x: "in_range x slot 8" "in_range x (?dst + of_nat n) 48"
    then obtain i where "i < 48" "x = ?dst + of_nat (n + i)"
      using in_range_nth [of x "?dst + of_nat n" 48] by (auto simp: add.assoc)
    then have "in_range x ?dst (n + 48)" using n(2) in_range_offset [of "n + i" "n + 48" ?dst] by simp
    with x(1) d show False by (auto simp: disj_range_def)
  qed
  then have slot: "disj_range slot 8 tcb 48" by simp
  have low: "disj_range a k tcb 4" "disj_range a k (tcb + 0x28) 8" if "disj_range a k tcb 48" for a k
  proof -
    show "disj_range a k tcb 4" using that by (rule disj_range_mono) simp_all
    have "in_range x tcb 48" if "in_range x (tcb + of_nat 0x28) 8" for x
    proof -
      from in_range_nth [OF that] obtain i where "i < 8" "x = tcb + of_nat (0x28 + i)" by (auto simp: add.assoc)
      then show ?thesis using in_range_offset [of "0x28 + i" 48 tcb] by simp
    qed
    with that show "disj_range a k (tcb + 0x28) 8" by (simp add: disj_range_def) blast
  qed
  have mp: "mapped m ?dst n" using m(1) by (rule mapped_mono) simp
  show "load32 (tls_memory info h tcb m) tcb = load32 m tcb"
    "load64 (tls_memory info h tcb m) (tcb + 0x28) = load64 m (tcb + 0x28)"
    using low [OF block] low [OF slot] m(3) n(1)
    by (auto simp: tls_memory_def tls_bytes_def load32_poke_disj load64_poke_disj split: option.splits simp del: le_bytes.simps)
  show "load64 (tls_memory info h tcb m) slot = Inr (case ho_tls h of None \<Rightarrow> image0 | Some (_, img, _) \<Rightarrow> img)"
    using m(2-4) mp n(1)
    by (auto simp: tls_memory_def tls_bytes_def load64_poke_same split: option.splits simp del: le_bytes.simps)
  show "case ho_tls h of None \<Rightarrow> True | Some (_, img, _) \<Rightarrow> peek (tls_memory info h tcb m) ?dst n = peek m img n"
    using dst m(3) n peek_poke_same [of "peek m _ n" m ?dst]
    by (auto simp: tls_memory_def tls_bytes_def peek_poke_disj split: option.splits simp del: le_bytes.simps)
qed

text \<open>The parameters of the program, as stage 3 stores them.\<close>

definition params_memory :: "addr \<Rightarrow> u64 \<Rightarrow> u64 \<Rightarrow> u64 \<Rightarrow> mem \<Rightarrow> mem" where
  "params_memory p u v z m =
     poke (poke (poke m p (le_bytes 8 u)) (p + 8) (le_bytes 8 v)) (p + 16) (le_bytes 8 z)"

lemma params_written:
  assumes "mapped m p 24" "unat p + 24 \<le> 2 ^ 64"
  shows "mapped m p 8" "mapped m (p + 8) 8" "mapped m (p + 16) 8"
    "load64 (params_memory p u v z m) p = Inr u" "load64 (params_memory p u v z m) (p + 8) = Inr v"
    "load64 (params_memory p u v z m) (p + 16) = Inr z" "differs_in (params_region p info) m (params_memory p u v z m)"
proof -
  show mp: "mapped m p 8" "mapped m (p + 8) 8" "mapped m (p + 16) 8"
    using mapped_part [OF assms(1), of 0 8] mapped_part [OF assms(1), of 8 8] mapped_part [OF assms(1), of 16 8]
    by simp_all
  have o: "unat (p + 8) = unat p + 8" "unat (p + 16) = unat p + 16"
    using assms(2) by (simp_all add: unat_add_no_wrap)
  show "load64 (params_memory p u v z m) p = Inr u" "load64 (params_memory p u v z m) (p + 8) = Inr v"
    "load64 (params_memory p u v z m) (p + 16) = Inr z"
    using mp o assms(2)
    by (simp_all add: params_memory_def load64_poke_same load64_poke_disj disj_range_apart del: le_bytes.simps)
  have i: "inside (params_region p info) p 24" by (simp add: inside_def params_region_def)
  show "differs_in (params_region p info) m (params_memory p u v z m)"
    unfolding params_memory_def
    using mp inside_sub [OF i, of 0 8] inside_sub [OF i, of 8 8] inside_sub [OF i, of 16 8]
    by (intro differs_poke differs_refl) simp_all
qed

lemma params_step:
  assumes h: "handover_in (mem v) info h" and m: "mapped (mem v) p 24" "unat p + 24 \<le> 2 ^ 64"
    and s: "handover_spared (params_region p info) info h" "disj_range p 24 (s3_tls_image info) 8"
    and im: "load64 (mem v) (s3_tls_image info) = Inr ti"
  shows "bind_res (load64 (mem v) (s3_stack_size info)) (\<lambda>stack_size.
      bind_res (write64 p (stack_size div 2) v) (\<lambda>w.
      bind_res (load64 (mem w) (s3_tls_size info)) (\<lambda>tls_size.
      bind_res (write64 (p + 8) tls_size w) (\<lambda>w.
      bind_res (load64 (mem w) (s3_tls_image info)) (\<lambda>tls_image.
      bind_res (write64 (p + 16) tls_image w) (\<lambda>w.
      bind_res (load64 (mem w) (s3_app info)) (\<lambda>app.
      bind_res (load64 (mem w) (im_base app)) (\<lambda>base.
      bind_res (e_entry (mem w) base) (\<lambda>entry. f (base + entry) w))))))))) =
    f (ho_base h + ho_entry h)
      (v\<lparr>mem := params_memory p (ho_stack_size h div 2) (of_nat (tls_bytes h)) ti (mem v)\<rparr>)"
proof -
  let ?T2 = "params_region p info" and ?slot = "s3_tls_image info" and ?u = "ho_stack_size h div 2"
  let ?ma = "poke (mem v) p (le_bytes 8 ?u)"
  let ?mb = "poke ?ma (p + 8) (le_bytes 8 (of_nat (tls_bytes h) :: u64))"
  note q = params_written [OF m]
  have i: "inside ?T2 p 24" "inside (\<lambda>x. in_range x p 24) p 24" by (simp_all add: inside_def params_region_def)
  have da: "differs_in ?T2 (mem v) ?ma"
    using q(1) inside_sub [OF i(1), of 0 8] by (intro differs_poke differs_refl) simp_all
  have db: "differs_in ?T2 (mem v) ?mb"
    using q(2) inside_sub [OF i(1), of 8 8] by (intro differs_poke [OF da]) simp_all
  have mapped: "mapped ?ma (p + 8) 8" "mapped ?mb (p + 16) 8"
    using q(2,3) by (simp_all add: differs_mapped [OF da] differs_mapped [OF db])
  have "load64 ?mb ?slot = load64 (mem v) ?slot"
  proof (rule load64_cong)
    fix x assume "in_range x ?slot 8"
    then have "\<not> in_range x p 24" using s(2) by (auto simp: disj_range_def)
    then have "\<not> in_range x p 8" "\<not> in_range x (p + 8) 8"
      using inside_sub [OF i(2), of 0 8] inside_sub [OF i(2), of 8 8] by (auto simp: inside_def)
    then show "?mb x = mem v x" by (simp add: poke_def)
  qed
  then show ?thesis
    using q(1) mapped im handover_loads [OF h] handover_loads [OF handover_kept [OF h da s(1)]]
      handover_loads [OF handover_kept [OF h q(7) s(1)]]
    by (simp add: write64_mapped params_memory_def del: le_bytes.simps)
qed

lemma handover_spared_or:
  "handover_spared T info h \<Longrightarrow> handover_spared U info h \<Longrightarrow> handover_spared (\<lambda>x. T x \<or> U x) info h"
  by (auto simp: handover_spared_def program_spared_def spared_def split: option.splits)

text \<open>Stage 3 from beginning to end.\<close>

lemma ld_stage3_runs:
  fixes w :: "'k world"
  assumes new: "has_new_stack \<noteq> 0" and h: "handover_in (mem w) info h" and n: "n = tls_bytes h" "n < 2 ^ 31"
    and tcb: "tcb = ld_tcb (ho_stack_base h) (of_nat n) (ho_stack_size h)" and p: "p = fr_params fr rsp" "unat p + 24 \<le> 2 ^ 64"
    and k: "\<forall>v. \<exists>s. K SYS_arch_prctl [ARCH_SET_FS, tcb] v = (0, v\<lparr>os := s\<rparr>)"
    and m: "mapped (mem w) (tcb - of_nat n) (n + 48)" "mapped (mem w) p 24" "load64 (mem w) (s3_tls_image info) = Inr image0"
    and s: "handover_spared (block_region tcb n) info h" "handover_spared (params_region p info) info h"
      "spared (params_region p info) (tcb - of_nat n) (n + 48)" "spared (block_region tcb n) (s3_tls_image info) 8"
      "disj_range p 24 (s3_tls_image info) 8"
  shows "\<exists>w'. ld_stage3_entry K lit crt_entry fr has_new_stack rsp info w = crt_entry (ho_base h + ho_entry h) p w'
    \<and> load64 (mem w') p = Inr (ho_stack_size h div 2) \<and> load64 (mem w') (p + 8) = Inr (of_nat n)
    \<and> load64 (mem w') (p + 16) = Inr (case ho_tls h of None \<Rightarrow> image0 | Some (_, img, _) \<Rightarrow> img)
    \<and> load32 (mem w') (tcb_thread_id tcb) = Inr 0 \<and> load64 (mem w') (tcb_stack_canary tcb) = Inr 0x12345678fedcba98
    \<and> (case ho_tls h of None \<Rightarrow> True | Some (_, img, _) \<Rightarrow> peek (mem w') (tcb - of_nat n) n = peek (mem w) img n)
    \<and> differs_in (\<lambda>x. block_region tcb n x \<or> params_region p info x) (mem w) (mem w')"
proof -
  let ?T1 = "block_region tcb n" and ?T2 = "params_region p info" and ?slot = "s3_tls_image info"
  let ?T = "\<lambda>x. ?T1 x \<or> ?T2 x"
  let ?m2 = "block_memory tcb (mem w)"
  let ?w2 = "w\<lparr>mem := ?m2\<rparr>"
  let ?m4 = "tls_memory info h tcb ?m2"
  have n48: "n + 48 \<le> 2 ^ 64" using n(2) by simp
  note b = block_written [OF m(1) n48]
  have h2: "handover_in (mem ?w2) info h" using handover_kept [OF h b(3) s(1)] by simp
  have slot: "mapped (mem w) ?slot 8" using m(3) by (rule load64_InrD)
  have m2: "mapped ?m2 (tcb - of_nat n) (n + 48)" "mapped ?m2 ?slot 8" "mapped ?m2 p 24"
    using m slot by (simp_all add: differs_mapped [OF b(3)])
  have t: "(case map_option fst (ho_tls h) of None \<Rightarrow> Inr ?w2 | Some ph \<Rightarrow> ld_copy_tls info (ho_app h) tcb ph ?w2) =
      Inr (?w2\<lparr>mem := ?m4\<rparr>)" and d4: "differs_in ?T ?m2 ?m4"
    using tls_step(1) [OF h2 n(1) n48 _ _ s(1)] tls_step(2) [OF h2 n(1) n48 _ _ s(1), of p] m2 by simp_all
  have h4: "handover_in ?m4 info h"
    using handover_kept [OF h2 _ handover_spared_or [OF s(1,2)], of ?m4] d4 by simp
  obtain st where st: "K SYS_arch_prctl [ARCH_SET_FS, tcb] (?w2\<lparr>mem := ?m4\<rparr>) = (0, ?w2\<lparr>mem := ?m4, os := st\<rparr>)"
    using k by blast
  have old: "load64 ?m2 ?slot = Inr image0" using differs_load64 [OF b(3) s(4)] m(3) by simp
  have away: "disj_range ?slot 8 (tcb - of_nat n) (n + 48)"
    using s(3) unfolding spared_def params_region_def disj_range_def by blast
  note c = tls_memory_contents [OF n(1) n48 m2(1,2) refl old away]
  define image where "image = (case ho_tls h of None \<Rightarrow> image0 | Some (_, img, _) \<Rightarrow> img)"
  have p4: "mapped ?m4 p 24" using m2(3) by (simp add: differs_mapped [OF d4])
  note q = params_written [OF p4 p(2)]
  define wf where "wf = ?w2\<lparr>mem := params_memory p (ho_stack_size h div 2) (of_nat n) image ?m4, os := st\<rparr>"
  have df: "differs_in ?T2 ?m4 (mem wf)" using q(7) by (simp add: wf_def)
  have z: "\<not> (ucast (0 :: i64) :: i32) <s 0" by (simp add: word_sless_alt)
  have block: "write32 (tcb_thread_id tcb) 0 w = Inr (w\<lparr>mem := poke (mem w) tcb (le_bytes 4 (0 :: u32))\<rparr>)"
    "write64 (tcb_stack_canary tcb) 0x12345678fedcba98 (w\<lparr>mem := poke (mem w) tcb (le_bytes 4 (0 :: u32))\<rparr>) = Inr ?w2"
    using b(1,2) by (simp_all add: write32_def store32_mapped tcb_thread_id_def tcb_stack_canary_def write64_mapped
        block_memory_def del: le_bytes.simps)
  have run: "ld_stage3_entry K lit crt_entry fr has_new_stack rsp info w = crt_entry (ho_base h + ho_entry h) p wf"
  proof -
    define v where "v = ?w2\<lparr>mem := ?m4, os := st\<rparr>"
    have v: "handover_in (mem v) info h" "mapped (mem v) p 24" "load64 (mem v) ?slot = Inr image"
      using h4 p4 c(3) by (simp_all add: v_def image_def)
    have wf: "v\<lparr>mem := params_memory p (ho_stack_size h div 2) (of_nat (tls_bytes h)) image (mem v)\<rparr> = wf"
      by (simp add: v_def wf_def n(1))
    note step = params_step [OF v(1,2) p(2) s(2,5) v(3), unfolded wf]
    show ?thesis
      unfolding ld_stage3_entry_def Let_def
      by (simp only: new if_False handover_loads [OF h] handover_loads [OF h2] bind_res_simps n(1) [symmetric] tcb [symmetric]
          block t syscall_def st v_def [symmetric] prod.case z p(1) [symmetric])
        (rule step [where f = "\<lambda>e. crt_entry e p"])
  qed
  have tcb4: "spared ?T2 tcb 4" "spared ?T2 (tcb + 0x28) 8" "spared ?T2 (tcb - of_nat n) n"
    using spared_sub [OF s(3), of n 4] spared_sub [OF s(3), of "n + 40" 8] spared_sub [OF s(3), of 0 n] n48 by simp_all
  have "differs_in ?T (mem w) (mem wf)"
    by (rule differs_trans [OF differs_weaken [OF b(3)] differs_trans [OF d4 differs_weaken [OF df]]]) simp_all
  moreover have "load32 (mem wf) (tcb_thread_id tcb) = Inr 0" "load64 (mem wf) (tcb_stack_canary tcb) = Inr 0x12345678fedcba98"
    using differs_load32 [OF df tcb4(1)] differs_load64 [OF df tcb4(2)] c(1,2) b(4,5)
    by (simp_all add: tcb_thread_id_def tcb_stack_canary_def)
  moreover have "case ho_tls h of None \<Rightarrow> True | Some (_, img, _) \<Rightarrow> peek (mem wf) (tcb - of_nat n) n = peek (mem w) img n"
    using c(4) differs_peek [OF df tcb4(3)] differs_peek [OF b(3), of _ n] s(1) n
    by (auto simp: handover_spared_def program_spared_def tls_bytes_def split: option.splits)
  moreover have "load64 (mem wf) p = Inr (ho_stack_size h div 2)" "load64 (mem wf) (p + 8) = Inr (of_nat n)"
    "load64 (mem wf) (p + 16) = Inr image"
    using q(4-6) by (simp_all add: wf_def)
  ultimately show ?thesis using run unfolding image_def by blast
qed

section \<open>Properties\<close>

text \<open>C34: the hand-over.  With the thread pointer set by the kernel, stage 3 enters the program at its
  entry point with parameters that give half of the new stack, the size of the thread-local image and
  its address.  The thread block holds thread 0 and the canary, a copy of the image lies directly below it,
  and no memory has changed but the block with the copy, the parameters and the slot of the image in the
  information block.\<close>

theorem ld_stage3_enters_program:
  fixes w :: "'k world"
  assumes new: "has_new_stack \<noteq> 0" and h: "handover_in (mem w) info h" and n: "n = tls_bytes h" "n < 2 ^ 31"
    and tcb: "tcb = ld_tcb (ho_stack_base h) (of_nat n) (ho_stack_size h)" and p: "p = fr_params fr rsp" "unat p + 24 \<le> 2 ^ 64"
    and k: "\<forall>v. \<exists>s. K SYS_arch_prctl [ARCH_SET_FS, tcb] v = (0, v\<lparr>os := s\<rparr>)"
    and m: "mapped (mem w) (tcb - of_nat n) (n + 48)" "mapped (mem w) p 24" "load64 (mem w) (s3_tls_image info) = Inr image0"
    and s: "handover_spared (block_region tcb n) info h" "handover_spared (params_region p info) info h"
      "spared (params_region p info) (tcb - of_nat n) (n + 48)" "spared (block_region tcb n) (s3_tls_image info) 8"
      "disj_range p 24 (s3_tls_image info) 8"
  shows "\<exists>w'. ld_stage3_entry K lit crt_entry fr has_new_stack rsp info w = crt_entry (ho_base h + ho_entry h) p w'
    \<and> load64 (mem w') p = Inr (ho_stack_size h div 2) \<and> load64 (mem w') (p + 8) = Inr (of_nat n)
    \<and> load64 (mem w') (p + 16) = Inr (case ho_tls h of None \<Rightarrow> image0 | Some (_, img, _) \<Rightarrow> img)
    \<and> load32 (mem w') (tcb_thread_id tcb) = Inr 0 \<and> load64 (mem w') (tcb_stack_canary tcb) = Inr 0x12345678fedcba98
    \<and> (case ho_tls h of None \<Rightarrow> True | Some (_, img, _) \<Rightarrow> peek (mem w') (tcb - of_nat n) n = peek (mem w) img n)
    \<and> differs_in (\<lambda>x. block_region tcb n x \<or> params_region p info x) (mem w) (mem w')"
  using assms by (rule ld_stage3_runs)

section \<open>Witness\<close>

text \<open>A program with a thread-local image of 8 bytes, and a stack of two pages.\<close>

definition program_words :: "(addr \<times> u64) list" where
  "program_words =
     [(0x200000, 0x200100), (0x200010, 0x200800), (0x200018, 0x2000), (0x200028, 8),
      (0x200130, 0x200200), (0x200138, 0x200300), (0x200140, 1), (0x200148, 56),
      (0x200218, 0x40), (0x200300, 7), (0x200310, 0x200), (0x200328, 8), (0x200400, 0x1122334455667788)]"

definition program_memory :: mem where
  "program_memory = write_all program_words (\<lambda>x. if in_range x 0x200000 0x4000 then Some 0 else None)"

definition program_handover :: handover where
  "program_handover = \<lparr>ho_app = 0x200100, ho_base = 0x200200, ho_phdr = 0x200300, ho_phnum = 1, ho_phent = 56,
     ho_stack_base = 0x200800, ho_stack_size = 0x2000, ho_tls = Some (0x200300, 0x200400, 8), ho_entry = 0x40\<rparr>"

lemma mapped_program: "0x200000 \<le> unat a \<Longrightarrow> unat a + n \<le> 0x204000 \<Longrightarrow> mapped program_memory a n"
  unfolding program_memory_def by (rule mapped_write_all) (auto simp: mapped_def in_range_iff)

lemma program_peek:
  "peek64 program_memory 0x200000 = 0x200100" "peek64 program_memory 0x200010 = 0x200800"
  "peek64 program_memory 0x200018 = 0x2000" "peek64 program_memory 0x200028 = 8"
  "peek64 program_memory 0x200130 = 0x200200" "peek64 program_memory 0x200138 = 0x200300"
  "peek64 program_memory 0x200140 = 1" "peek64 program_memory 0x200148 = 56" "peek64 program_memory 0x200218 = 0x40"
  "peek64 program_memory 0x200310 = 0x200" "peek64 program_memory 0x200328 = 8"
  by (simp_all add: program_memory_def program_words_def write_all_def peek64_poke_same peek64_poke_other
      disj_range_apart del: le_bytes.simps)

lemma program_phdr: "load32 program_memory 0x200300 = Inr 7"
  by (simp add: load32_mapped mapped_program peek_def upt_rec)
    (simp add: program_memory_def program_words_def write_all_def poke_def in_range_def le_bytes_7)

lemma program_handover_in: "handover_in program_memory 0x200000 program_handover"
  by (simp add: handover_in_def program_in_def program_handover_def tls_bytes_def s3_app_def s3_stack_base_def s3_stack_size_def
      s3_tls_size_def im_base_def im_phdr_def im_ph_num_def im_ph_ent_def e_entry_def p_vaddr_def p_memsz_def
      load64_peek64 mapped_program program_peek first_phdr.simps [of _ _ _ _ _ 0] p_type_def program_phdr PT_TLS_def)

lemma spared_block: "disj_range (tcb - of_nat n) (n + 48) a k \<Longrightarrow> spared (block_region tcb n) a k"
  by (auto simp: spared_def block_region_def disj_range_def)

lemma spared_params:
  "disj_range p 24 a k \<Longrightarrow> disj_range (s3_tls_image info) 8 a k \<Longrightarrow> spared (params_region p info) a k"
  by (auto simp: spared_def params_region_def disj_range_def)

definition program_frames :: ld_frames where
  "program_frames = start_frames\<lparr>fr_params := \<lambda>rsp. 0x202000\<rparr>"

theorem ld_stage3_enters_program_witness:
  "\<exists>m. ld_stage3_entry (\<lambda>_ _ w. (0, w)) (\<lambda>_. 0) (\<lambda>entry p w. if entry = 0x200240 then Inr w else Inl Hang)
       program_frames 1 0 0x200000 \<lparr>mem = program_memory, os = ()\<rparr> = Inr \<lparr>mem = m, os = ()\<rparr>
     \<and> load64 m 0x202000 = Inr 0x1000 \<and> load64 m 0x201028 = Inr 0x12345678fedcba98
     \<and> peek m 0x200ff8 8 = peek program_memory 0x200400 8"
proof -
  let ?h = program_handover and ?w = "\<lparr>mem = program_memory, os = ()\<rparr>"
  have tcb: "0x201000 = ld_tcb (ho_stack_base ?h) (of_nat 8) (ho_stack_size ?h)"
    by (simp add: program_handover_def ld_tcb_def cia_ptr_alignf_def)
  have h: "handover_in (mem ?w) 0x200000 ?h" using program_handover_in by simp
  have n: "8 = tls_bytes ?h" "(8 :: nat) < 2 ^ 31" by (simp_all add: tls_bytes_def program_handover_def)
  have p: "0x202000 = fr_params program_frames 0" "unat (0x202000 :: addr) + 24 \<le> 2 ^ 64"
    by (simp_all add: program_frames_def)
  have k: "\<forall>v :: unit world. \<exists>s. (\<lambda>_ _ w. (0 :: i64, w)) SYS_arch_prctl [ARCH_SET_FS, 0x201000 :: u64] v = (0, v\<lparr>os := s\<rparr>)"
    by simp
  have m: "mapped (mem ?w) (0x201000 - of_nat 8) (8 + 48)" "mapped (mem ?w) 0x202000 24"
    "load64 (mem ?w) (s3_tls_image 0x200000) = Inr (peek64 program_memory 0x200020)"
    by (simp_all add: mapped_program s3_tls_image_def load64_peek64)
  have s: "handover_spared (block_region 0x201000 8) 0x200000 ?h" "handover_spared (params_region 0x202000 0x200000) 0x200000 ?h"
    "spared (params_region 0x202000 0x200000) (0x201000 - of_nat 8) (8 + 48)"
    "spared (block_region 0x201000 8) (s3_tls_image 0x200000) 8" "disj_range 0x202000 24 (s3_tls_image 0x200000) 8"
    by (simp_all add: handover_spared_def program_spared_def s3_app_def program_handover_def spared_block spared_params disj_range_apart
        s3_tls_image_def s3_tls_size_def)
  let ?crt = "\<lambda>entry p (w :: unit world). if entry = 0x200240 then Inr w else Inl Hang"
  from ld_stage3_enters_program [where crt_entry = ?crt and lit = "\<lambda>_. 0" and has_new_stack = 1, OF _ h n tcb p k m s]
  obtain w' where w': "ld_stage3_entry (\<lambda>_ _ w. (0, w)) (\<lambda>_. 0) ?crt program_frames 1 0 0x200000 ?w
        = ?crt (ho_base ?h + ho_entry ?h) 0x202000 w'"
      "load64 (mem w') 0x202000 = Inr (ho_stack_size ?h div 2)"
      "load64 (mem w') (tcb_stack_canary 0x201000) = Inr 0x12345678fedcba98"
      "case ho_tls ?h of None \<Rightarrow> True | Some (_, img, _) \<Rightarrow>
         peek (mem w') (0x201000 - of_nat 8) 8 = peek (mem ?w) img 8"
    by (rule exE) (use one_neq_zero in blast)+
  moreover have "w' = \<lparr>mem = mem w', os = ()\<rparr>" by simp
  ultimately show ?thesis
    by (intro exI [of _ "mem w'"]) (simp add: program_handover_def tcb_stack_canary_def)
qed

end
