(* ===== verification/Entry.thy ===== *)
theory Entry
  imports Handover
begin

text \<open>
  The start of a program: \<open>os/linux/entry.c\<close>, which the loader enters and which calls \<open>main\<close>, and the
  constructor loops of \<open>os/linux/crt-ctors.c\<close>.  \<open>main\<close>, constructors and destructors are code of the
  user and parameters of the model.
\<close>

section \<open>The entry point\<close>

definition STDERR_FILENO :: u32 where "STDERR_FILENO = 2"

text \<open>The length that is written counts the terminating zero of the message.\<close>

definition stack_chk_fail_msg :: string where
  "stack_chk_fail_msg =
     ''Stack check failed. You'' @ [CHR 0x27] @ ''ve got a stack corruption somewhere. Sorry these guys didn''
     @ [CHR 0x27] @ message ''t tell me where''"

definition stack_chk_fail :: "'k kernel \<Rightarrow> literals \<Rightarrow> 'k world \<Rightarrow> 'a res" where
  "stack_chk_fail K lit w =
     (case sys_write K STDERR_FILENO (lit stack_chk_fail_msg) (of_nat (length stack_chk_fail_msg + 1)) w of
        (_, w) \<Rightarrow> sys_exit K 1 w)"

text \<open>The static data of the runtime that \<open>main\<close> can change through the library.\<close>

record 'k runtime =
  rt_stdio :: "'k stdio"
  rt_glob :: rt_globals
  rt_world :: "'k world"

definition cia_start ::
  "'k kernel \<Rightarrow> addr \<Rightarrow> addr \<Rightarrow> (i32 \<Rightarrow> addr \<Rightarrow> addr \<Rightarrow> 'k runtime \<Rightarrow> (i32 \<times> 'k runtime) res) \<Rightarrow> addr \<Rightarrow>
    'k runtime \<Rightarrow> 'a res" where
  "cia_start K frame handler cia_main params r =
     (let w = rt_world r in
      bind_res (load64 (mem w) params) (\<lambda>stack_size.
      bind_res (load64 (mem w) (params + 8)) (\<lambda>tls_image_size.
      bind_res (load64 (mem w) (params + 16)) (\<lambda>tls_image_base.
      let g = (rt_glob r)\<lparr>cia_stack_size := stack_size, cia_tls_image_size := tls_image_size,
                cia_tls_image_base := tls_image_base\<rparr> in
      bind_res (fileapi_init K (rt_stdio r) w) (\<lambda>(s, w).
      bind_res (rt_threads_setup K frame handler w) (\<lambda>w.
      bind_res (cia_main 0 0 0 \<lparr>rt_stdio = s, rt_glob = g, rt_world = w\<rparr>) (\<lambda>(code, r).
      bind_res (rt_thread_cancell_all_running K (rt_glob r) (rt_world r)) (\<lambda>(_, w).
        sys_exit K code w))))))))"

section \<open>Constructors and destructors\<close>

lemma unat_pred_less: "x \<noteq> 0 \<Longrightarrow> unat (x - 1) < unat (x :: u64)"
  using unat_minus_one [of x] by (metis diff_less neq0_conv unat_eq_0 zero_less_one)

text \<open>The size in bytes is used as the number of elements of eight bytes.\<close>

type_synonym 's ctor_call = "addr \<Rightarrow> 's \<Rightarrow> 's res"

function init_loop :: "('s \<Rightarrow> mem) \<Rightarrow> 's ctor_call \<Rightarrow> addr \<Rightarrow> u64 \<Rightarrow> u64 \<Rightarrow> 's \<Rightarrow> 's res" where
  "init_loop memory call start bytes i s =
     (if i \<noteq> bytes
      then bind_res (load64 (memory s) (start + 8 * i)) (\<lambda>f.
           bind_res (call f s) (\<lambda>s. init_loop memory call start bytes (i + 1) s))
      else Inr s)"
  by pat_completeness auto
termination
  by (relation "measure (\<lambda>(memory, call, start, bytes, i, s). unat (bytes - i))")
    (simp_all add: unat_pred_less diff_diff_eq [symmetric])

definition libc_global_init ::
  "('s \<Rightarrow> mem) \<Rightarrow> (addr \<Rightarrow> i32 \<Rightarrow> addr \<Rightarrow> addr \<Rightarrow> 's \<Rightarrow> 's res) \<Rightarrow> addr \<Rightarrow> addr \<Rightarrow>
    i32 \<Rightarrow> addr \<Rightarrow> addr \<Rightarrow> 's \<Rightarrow> 's res" where
  "libc_global_init memory call init_array_start init_array_end argc argv envp s =
     init_loop memory (\<lambda>f. call f argc argv envp) init_array_start (init_array_end - init_array_start) 0 s"

function fini_loop :: "('s \<Rightarrow> mem) \<Rightarrow> 's ctor_call \<Rightarrow> addr \<Rightarrow> u64 \<Rightarrow> 's \<Rightarrow> 's res" where
  "fini_loop memory call start i s =
     (if 0 < i
      then bind_res (load64 (memory s) (start + 8 * (i - 1))) (\<lambda>f.
           bind_res (call f s) (\<lambda>s. fini_loop memory call start (i - 1) s))
      else Inr s)"
  by pat_completeness auto
termination
  by (relation "measure (\<lambda>(memory, call, start, i, s). unat i)") (simp_all add: unat_pred_less)

definition libc_global_fini :: "('s \<Rightarrow> mem) \<Rightarrow> 's ctor_call \<Rightarrow> addr \<Rightarrow> addr \<Rightarrow> 's \<Rightarrow> 's res" where
  "libc_global_fini memory call fini_array_start fini_array_end s =
     fini_loop memory call fini_array_start (fini_array_end - fini_array_start) s"

declare init_loop.simps [simp del] fini_loop.simps [simp del]

text \<open>Calling the functions of a list, in order.\<close>

fun call_all :: "('s \<Rightarrow> mem) \<Rightarrow> 's ctor_call \<Rightarrow> addr list \<Rightarrow> 's \<Rightarrow> 's res" where
  "call_all memory call [] s = Inr s"
| "call_all memory call (a # as) s =
     bind_res (load64 (memory s) a) (\<lambda>f. bind_res (call f s) (call_all memory call as))"

lemma init_loop_calls:
  assumes "n < 2 ^ 64" "i \<le> n"
  shows "init_loop memory call start (of_nat n) (of_nat i) s =
    call_all memory call (map (\<lambda>j. start + 8 * of_nat j) [i..<n]) s"
  using assms(2)
proof (induction i arbitrary: s rule: inc_induct)
  case base
  then show ?case by (subst init_loop.simps) simp
next
  case (step i)
  have "(of_nat i :: u64) \<noteq> of_nat n"
    using step(2) assms(1) unat_of_nat_u64 [of i] unat_of_nat_u64 [of n] by (metis less_trans nat_neq_iff)
  moreover have "init_loop memory call start (of_nat n) (of_nat i + 1) =
      call_all memory call (map (\<lambda>j. start + 8 * of_nat j) [Suc i..<n])"
    by (rule ext) (use step.IH in \<open>simp add: add.commute\<close>)
  ultimately show ?case
    using step(2) by (subst init_loop.simps) (simp add: upt_conv_Cons)
qed

text \<open>An array of \<open>n\<close> constructors is taken for one of \<open>8 * n\<close>.\<close>

lemma libc_global_init_overruns:
  assumes "8 * n < 2 ^ 64"
  shows "libc_global_init memory call start (start + of_nat (8 * n)) argc argv envp s =
    call_all memory (\<lambda>f. call f argc argv envp) (map (\<lambda>j. start + 8 * of_nat j) [0..<8 * n]) s"
  using init_loop_calls [OF assms, of 0] by (simp add: libc_global_init_def)

end
