(* ===== verification/Startup.thy ===== *)
theory Startup
  imports Entry
begin

text \<open>
  From the third stage of the loader through the entry point of the library to \<open>main\<close>: the state in which \<open>main\<close>
  begins, and what happens when it returns.
\<close>

section \<open>The signal handler\<close>

lemma rt_threads_setup_runs:
  fixes w :: "'k world"
  assumes "mapped (mem w) frame 32" "\<forall>v. mem (snd (K SYS_rt_sigaction [SIGCANCEL, frame, 0, 8] v)) = mem v"
  obtains w' where "rt_threads_setup K frame handler w = Inr w'" "differs_in (\<lambda>x. in_range x frame 32) (mem w) (mem w')"
proof -
  let ?T = "\<lambda>x. in_range x frame 32"
  let ?m1 = "poke (mem w) frame (le_bytes 8 handler)"
  let ?m2 = "poke ?m1 (frame + 8) (le_bytes 8 (0xfffffffc7fffffff :: u64))"
  let ?m3 = "poke ?m2 (frame + 16) (le_bytes 4 (SA_SIGINFO OR SA_RESTART))"
  let ?m4 = "poke ?m3 (frame + 24) (le_bytes 8 (0 :: u64))"
  have part: "mapped (mem w) (frame + of_nat off) k" "inside ?T (frame + of_nat off) k" if "off + k \<le> 32" for off k
  proof -
    have "in_range x frame 32" if x: "in_range x (frame + of_nat off) k" for x
    proof -
      from in_range_nth [OF x] obtain i where "i < k" "x = frame + of_nat off + of_nat i" by blast
      then show ?thesis using \<open>off + k \<le> 32\<close> in_range_offset [of "off + i" 32 frame] by (simp add: add.assoc)
    qed
    then show "inside ?T (frame + of_nat off) k" "mapped (mem w) (frame + of_nat off) k"
      using assms(1) by (simp_all add: inside_def mapped_def)
  qed
  have m: "mapped (mem w) frame 8" "mapped (mem w) (frame + 8) 8" "mapped (mem w) (frame + 16) 4" "mapped (mem w) (frame + 24) 8"
    using part(1) [of 0 8] part(1) [of 8 8] part(1) [of 16 4] part(1) [of 24 8] by simp_all
  have d1: "differs_in ?T (mem w) ?m1"
    using differs_poke [OF differs_refl, of "mem w" frame "le_bytes 8 handler"] part(2) [of 0 8] m by simp
  have d2: "differs_in ?T (mem w) ?m2"
    using differs_poke [OF d1, of "frame + 8" "le_bytes 8 (0xfffffffc7fffffff :: u64)"] part(2) [of 8 8] m by simp
  have d3: "differs_in ?T (mem w) ?m3"
    using differs_poke [OF d2, of "frame + 16" "le_bytes 4 (SA_SIGINFO OR SA_RESTART)"] part(2) [of 16 4] m by simp
  have d4: "differs_in ?T (mem w) ?m4"
    using differs_poke [OF d3, of "frame + 24" "le_bytes 8 (0 :: u64)"] part(2) [of 24 8] m by simp
  let ?w = "snd (syscall K SYS_rt_sigaction [SIGCANCEL, frame, 0, 8] (w\<lparr>mem := ?m4\<rparr>))"
  have "rt_threads_setup K frame handler w = Inr ?w"
    using m differs_mapped [OF d1] differs_mapped [OF d2] differs_mapped [OF d3]
    by (simp add: rt_threads_setup_def write64_mapped write32_mapped)
  moreover have "differs_in ?T (mem w) (mem ?w)" using assms(2) d4 by (simp add: syscall_def)
  ultimately show thesis by (rule that)
qed


section \<open>The entry point\<close>

text \<open>From the call of \<open>main\<close> on.\<close>

definition run_main ::
  "'k kernel \<Rightarrow> (i32 \<Rightarrow> addr \<Rightarrow> addr \<Rightarrow> 'k runtime \<Rightarrow> (i32 \<times> 'k runtime) res) \<Rightarrow> 'k runtime \<Rightarrow> 'a res" where
  "run_main K cia_main r =
     bind_res (cia_main 0 0 0 r) (\<lambda>(code, r).
     bind_res (rt_thread_cancell_all_running K (rt_glob r) (rt_world r)) (\<lambda>(_, w). sys_exit K code w))"

text \<open>What \<open>main\<close> finds: the streams of the library in their pool, unlocked, and elsewhere the memory as it was
  before the library started, but for the frame of \<open>_rt_threads_setup\<close>.\<close>

definition library_ready :: "'k kernel \<Rightarrow> addr \<Rightarrow> 'k stdio \<Rightarrow> mem \<Rightarrow> 'k runtime \<Rightarrow> bool" where
  "library_ready K frame s0 m r \<longleftrightarrow> (let s = rt_stdio r; m' = mem (rt_world r) in
     (\<exists>F. pool_inv K (file_pool s) (rt_world r) F {io_stdin s, io_stdout s, io_stderr s} \<and> length F = 124)
     \<and> distinct [io_stdin s, io_stdout s, io_stderr s]
     \<and> file_is m' (io_stdin s) \<lparr>rf_fd = 0, rf_flags = RT_FILE_READ\<rparr>
     \<and> file_is m' (io_stdout s) \<lparr>rf_fd = 1, rf_flags = RT_FILE_WRITE\<rparr>
     \<and> file_is m' (io_stderr s) \<lparr>rf_fd = 2, rf_flags = rf_flags (rt_file_stderr (io_handles s0))\<rparr>
     \<and> (\<forall>f\<in>{io_stdin s, io_stdout s, io_stderr s}. load32 m' (file_mutex f) = Inr CIA_MUTEX_FREE)
     \<and> (\<forall>x. m x \<noteq> None \<longrightarrow> \<not> in_range x frame 32 \<longrightarrow> m' x = m x))"

lemma pool_inv_world: "mem w' = mem w \<Longrightarrow> pool_inv K P w' F L = pool_inv K P w F L"
  by (simp add: pool_inv_def)

lemma library_ready_setup:
  fixes w :: "'k world"
  assumes "mmap_documented K"
    and "sys_mmap K 0 0x1000 (PROT_READ OR PROT_WRITE) (MAP_PRIVATE OR MAP_ANONYMOUS) (-1) 0 w = (a, w1)"
    and "\<not> errno_result a" "mapped (mem w) frame 32" "\<forall>v. mem (snd (K SYS_rt_sigaction [SIGCANCEL, frame, 0, 8] v)) = mem v"
  obtains s w2 w3 where "fileapi_init K s0 w = Inr (s, w2)" "rt_threads_setup K frame handler w2 = Inr w3"
    "\<And>g. library_ready K frame s0 (mem w) \<lparr>rt_stdio = s, rt_glob = g, rt_world = w3\<rparr>"
proof -
  obtain s w2 F where i: "fileapi_init K s0 w = Inr (s, w2)" "length F = 124"
    "pool_inv K (file_pool s) w2 F {io_stdin s, io_stdout s, io_stderr s}"
    "distinct [io_stdin s, io_stdout s, io_stderr s]"
    "file_is (mem w2) (io_stdin s) \<lparr>rf_fd = 0, rf_flags = RT_FILE_READ\<rparr>"
    "file_is (mem w2) (io_stdout s) \<lparr>rf_fd = 1, rf_flags = RT_FILE_WRITE\<rparr>"
    "file_is (mem w2) (io_stderr s) \<lparr>rf_fd = 2, rf_flags = rf_flags (rt_file_stderr (io_handles s0))\<rparr>"
    "\<And>f. f \<in> {io_stdin s, io_stdout s, io_stderr s} \<Longrightarrow> load32 (mem w2) (file_mutex f) = Inr CIA_MUTEX_FREE"
    "\<And>x. mem w x \<noteq> None \<Longrightarrow> mem w2 x = mem w x"
    "\<And>b x. b \<in> set F \<union> {io_stdin s, io_stdout s, io_stderr s} \<Longrightarrow> in_range x b 32 \<Longrightarrow> mem w x = None"
    "\<And>x. in_range x (pl_first (file_pool s)) 8 \<Longrightarrow> mem w x = None" "pl_bucket_size (file_pool s) = 32"
    using fileapi_init_runs [OF assms(1-3), of s0] by blast
  have "mapped (mem w2) frame 32" using assms(4) i(9) by (auto simp: mapped_def)
  then obtain w3 where t: "rt_threads_setup K frame handler w2 = Inr w3" "differs_in (\<lambda>x. in_range x frame 32) (mem w2) (mem w3)"
    using assms(5) by (rule rt_threads_setup_runs [where K = K])
  have new: "mem w3 x = mem w2 x" if "mem w x = None" for x
    using t(2) mappedD [OF assms(4), of x] that by (auto simp: differs_in_def)
  have same: "mem w3 x = mem w2 x" if "b \<in> set F \<union> {io_stdin s, io_stdout s, io_stderr s}" "in_range x b 32" for b x
    using new i(10) that by blast
  have objects: "f \<in> {io_stdin s, io_stdout s, io_stderr s} \<Longrightarrow> unat f + 32 \<le> 2 ^ 64" for f
    using i(3,12) by (auto simp: pool_inv_def pool_ok_def bucket_ok_def)
  have files: "file_is (mem w3) f rt" if "f \<in> {io_stdin s, io_stdout s, io_stderr s}" "file_is (mem w2) f rt" for f rt
    by (rule file_is_cong [OF that(2) same [of f] objects [OF that(1)]]) (use that(1) in_range_mono [of _ f 16 32] in auto)
  have locks: "load32 (mem w3) (file_mutex f) = Inr CIA_MUTEX_FREE" if "f \<in> {io_stdin s, io_stdout s, io_stderr s}" for f
  proof -
    have "load32 (mem w3) (file_mutex f) = load32 (mem w2) (file_mutex f)"
      by (rule load32_cong, rule same [of f]) (use that in_file_parts(2) [OF objects [OF that]] in auto)
    with i(8) that show ?thesis by simp
  qed
  have "pool_inv K (file_pool s) (w2\<lparr>mem := mem w3\<rparr>) F {io_stdin s, io_stdout s, io_stderr s}"
  proof (rule pool_inv_agree [OF i(3)])
    show "dom (mem w3) = dom (mem w2)" using t(2) by (simp add: differs_in_def)
    show "mem w3 x = mem w2 x" if "f \<in> set F" "in_range x f (unat (pl_bucket_size (file_pool s)))" for f x
      using same [of f x] that i(12) by simp
    show "mem w3 x = mem w2 x" if "in_range x (pl_first (file_pool s)) 8" for x
      using new i(11) that by blast
  qed
  then have "pool_inv K (file_pool s) w3 F {io_stdin s, io_stdout s, io_stderr s}"
    by (subst pool_inv_world [of _ "w2\<lparr>mem := mem w3\<rparr>"]) simp_all
  moreover have "mem w3 x = mem w x" if "mem w x \<noteq> None" "\<not> in_range x frame 32" for x
    using t(2) i(9) that by (simp add: differs_in_def)
  ultimately have "library_ready K frame s0 (mem w) \<lparr>rt_stdio = s, rt_glob = g, rt_world = w3\<rparr>" for g
    using i(2,4) files i(5-7) locks by (auto simp: library_ready_def Let_def)
  with i(1) t(1) show thesis by (rule that)
qed


lemma cia_start_runs_main:
  assumes "mmap_documented K"
    and "sys_mmap K 0 0x1000 (PROT_READ OR PROT_WRITE) (MAP_PRIVATE OR MAP_ANONYMOUS) (-1) 0 w = (a, w1)"
    and "\<not> errno_result a" "mapped (mem w) frame 32" "\<forall>v. mem (snd (K SYS_rt_sigaction [SIGCANCEL, frame, 0, 8] v)) = mem v"
    and "load64 (mem w) p = Inr stack_size" "load64 (mem w) (p + 8) = Inr tls_size" "load64 (mem w) (p + 16) = Inr img0"
  obtains r where "cia_start K frame handler cia_main p \<lparr>rt_stdio = s0, rt_glob = g, rt_world = w\<rparr> = run_main K cia_main r"
    "rt_glob r = g\<lparr>cia_stack_size := stack_size, cia_tls_image_size := tls_size, cia_tls_image_base := img0\<rparr>"
    "library_ready K frame s0 (mem w) r"
proof -
  obtain s w2 w3 where r: "fileapi_init K s0 w = Inr (s, w2)" "rt_threads_setup K frame handler w2 = Inr w3"
    "\<And>g. library_ready K frame s0 (mem w) \<lparr>rt_stdio = s, rt_glob = g, rt_world = w3\<rparr>"
    using library_ready_setup [OF assms(1-5), of s0 handler] by metis
  let ?r = "\<lparr>rt_stdio = s, rt_glob = g\<lparr>cia_stack_size := stack_size, cia_tls_image_size := tls_size, cia_tls_image_base := img0\<rparr>,
    rt_world = w3\<rparr>"
  have "cia_start K frame handler cia_main p \<lparr>rt_stdio = s0, rt_glob = g, rt_world = w\<rparr> = run_main K cia_main ?r"
    using assms(6-8) r(1,2) by (simp add: cia_start_def run_main_def)
  with r(3) show thesis by (intro that [of ?r]) simp_all
qed

text \<open>With no threads left in the list, the status of \<open>main\<close> is the status of the process.\<close>

lemma run_main_exits:
  assumes "cia_main 0 0 0 r = Inr (code, r')" "thread_blocks_head (rt_glob r') = 0"
  shows "run_main K cia_main r = Inl (Exited code)"
  using assms by (simp add: run_main_def rt_thread_cancell_all_running_def cancel_loop.simps sys_exit_def split: prod.split)

section \<open>From stage 3 to \<open>main\<close>\<close>

text \<open>What \<open>main\<close> finds: the globals of the runtime as the loader has put them into the parameters, the streams of the library ready,
  the thread block of the main thread, and the copy of its thread-local image.\<close>

definition main_finds ::
  "'k kernel \<Rightarrow> addr \<Rightarrow> 'k stdio \<Rightarrow> rt_globals \<Rightarrow> addr \<Rightarrow> nat \<Rightarrow> u8 list option \<Rightarrow> mem \<Rightarrow> 'k runtime \<Rightarrow> bool" where
  "main_finds K frame s0 g tcb n tls m r \<longleftrightarrow> rt_glob r = g \<and> library_ready K frame s0 m r
     \<and> load32 (mem (rt_world r)) (tcb_thread_id tcb) = Inr 0
     \<and> load64 (mem (rt_world r)) (tcb_stack_canary tcb) = Inr 0x12345678fedcba98
     \<and> (case tls of None \<Rightarrow> True | Some bytes \<Rightarrow> peek (mem (rt_world r)) (tcb - of_nat n) n = bytes)"

text \<open>The program starts.  Under the conditions of the hand-over stage 3 of the loader enters the entry point, and where the
  kernel grants the entry point the page of the file objects, the run reaches the call of \<open>main\<close> with no arguments.\<close>

lemma loader_starts_main:
  fixes w :: "'k world"
  assumes "has_new_stack \<noteq> 0" and h: "handover_in (mem w) info h" and n: "n = tls_bytes h" "n < 2 ^ 31"
    and "tcb = ld_tcb (ho_stack_base h) (of_nat n) (ho_stack_size h)" "p = fr_params fr rsp" "unat p + 24 \<le> 2 ^ 64"
    and "\<forall>v. \<exists>s. K SYS_arch_prctl [ARCH_SET_FS, tcb] v = (0, v\<lparr>os := s\<rparr>)"
    and m: "mapped (mem w) (tcb - of_nat n) (n + 48)" "mapped (mem w) p 24" "load64 (mem w) (s3_tls_image info) = Inr image0"
    and "handover_spared (block_region tcb n) info h" "handover_spared (params_region p info) info h"
      "spared (params_region p info) (tcb - of_nat n) (n + 48)" "spared (block_region tcb n) (s3_tls_image info) 8"
      "disj_range p 24 (s3_tls_image info) 8"
    and mmap: "mmap_documented K"
    and sig: "\<forall>v. mem (snd (K SYS_rt_sigaction [SIGCANCEL, frame, 0, 8] v)) = mem v"
    and frame: "mapped (mem w) frame 32" "disj_range frame 32 (tcb - of_nat n) (n + 48)"
  shows "\<exists>v :: 'k world. ld_stage3_entry K lit crt_entry fr has_new_stack rsp info w = crt_entry (ho_base h + ho_entry h) p v
    \<and> differs_in (\<lambda>x. block_region tcb n x \<or> params_region p info x) (mem w) (mem v)
    \<and> (\<not> errno_result (fst (sys_mmap K 0 0x1000 (PROT_READ OR PROT_WRITE) (MAP_PRIVATE OR MAP_ANONYMOUS) (-1) 0 v)) \<longrightarrow>
       (\<exists>r. (cia_start K frame handler cia_main p \<lparr>rt_stdio = s0, rt_glob = g0, rt_world = v\<rparr> :: 'k world res) = run_main K cia_main r
          \<and> main_finds K frame s0 (g0\<lparr>cia_stack_size := ho_stack_size h div 2, cia_tls_image_size := of_nat n,
              cia_tls_image_base := (case ho_tls h of None \<Rightarrow> image0 | Some (_, img, _) \<Rightarrow> img)\<rparr>)
            tcb n (map_option (\<lambda>(_, img, _). peek (mem w) img n) (ho_tls h)) (mem v) r))"
proof -
  obtain v where v: "ld_stage3_entry K lit crt_entry fr has_new_stack rsp info w = crt_entry (ho_base h + ho_entry h) p v"
    "load64 (mem v) p = Inr (ho_stack_size h div 2)" "load64 (mem v) (p + 8) = Inr (of_nat n)"
    "load64 (mem v) (p + 16) = Inr (case ho_tls h of None \<Rightarrow> image0 | Some (_, img, _) \<Rightarrow> img)"
    "load32 (mem v) (tcb_thread_id tcb) = Inr 0" "load64 (mem v) (tcb_stack_canary tcb) = Inr 0x12345678fedcba98"
    "case ho_tls h of None \<Rightarrow> True | Some (_, img, _) \<Rightarrow> peek (mem v) (tcb - of_nat n) n = peek (mem w) img n"
    "differs_in (\<lambda>x. block_region tcb n x \<or> params_region p info x) (mem w) (mem v)"
    using ld_stage3_runs [where crt_entry = crt_entry and lit = lit and K = K, OF assms(1-16)] by blast
  have dv: "dom (mem v) = dom (mem w)" using v(8) by (simp add: differs_in_def)
  have fv: "mapped (mem v) frame 32" using frame(1) by (simp add: differs_mapped [OF v(8)])
  have "\<exists>r. (cia_start K frame handler cia_main p \<lparr>rt_stdio = s0, rt_glob = g0, rt_world = v\<rparr> :: 'k world res) = run_main K cia_main r
      \<and> main_finds K frame s0 (g0\<lparr>cia_stack_size := ho_stack_size h div 2, cia_tls_image_size := of_nat n,
          cia_tls_image_base := (case ho_tls h of None \<Rightarrow> image0 | Some (_, img, _) \<Rightarrow> img)\<rparr>)
        tcb n (map_option (\<lambda>(_, img, _). peek (mem w) img n) (ho_tls h)) (mem v) r"
    if granted: "\<not> errno_result (fst (sys_mmap K 0 0x1000 (PROT_READ OR PROT_WRITE) (MAP_PRIVATE OR MAP_ANONYMOUS) (-1) 0 v))"
  proof -
    obtain a w1 where a: "sys_mmap K 0 0x1000 (PROT_READ OR PROT_WRITE) (MAP_PRIVATE OR MAP_ANONYMOUS) (-1) 0 v = (a, w1)"
      by (metis surj_pair)
    have na: "\<not> errno_result a" using granted a by simp
    obtain r where r: "(cia_start K frame handler cia_main p \<lparr>rt_stdio = s0, rt_glob = g0, rt_world = v\<rparr> :: 'k world res) =
        run_main K cia_main r"
      "rt_glob r = g0\<lparr>cia_stack_size := ho_stack_size h div 2, cia_tls_image_size := of_nat n,
          cia_tls_image_base := (case ho_tls h of None \<Rightarrow> image0 | Some (_, img, _) \<Rightarrow> img)\<rparr>"
      "library_ready K frame s0 (mem v) r"
      using cia_start_runs_main [OF mmap a na fv sig v(2-4), where g = g0 and ?s0.0 = s0 and handler = handler and cia_main = cia_main]
      by metis
    have keep: "mem (rt_world r) x = mem v x" if "in_range x (tcb - of_nat n) (n + 48)" for x
      using r(3) frame(2) that mappedD [OF m(1) that] dv unfolding library_ready_def Let_def disj_range_def by blast
    have sub: "in_range x (tcb - of_nat n) (n + 48)" if "in_range x (tcb - of_nat n + of_nat off) k" "off + k \<le> n + 48" for x off k
    proof -
      from in_range_nth [OF that(1)] obtain i where "i < k" "x = tcb - of_nat n + of_nat (off + i)" by (auto simp: add.assoc)
      then show ?thesis using in_range_offset [of "off + i" "n + 48" "tcb - of_nat n"] that(2) n(2) by simp
    qed
    have "load32 (mem (rt_world r)) tcb = load32 (mem v) tcb"
      by (rule load32_cong, rule keep) (use sub [of _ n 4] in simp)
    moreover have "load64 (mem (rt_world r)) (tcb + 0x28) = load64 (mem v) (tcb + 0x28)"
      by (rule load64_cong, rule keep) (use sub [of _ "n + 0x28" 8] in simp)
    moreover have "peek (mem (rt_world r)) (tcb - of_nat n) n = peek (mem v) (tcb - of_nat n) n"
      using n(2) by (intro peek_cong keep) (auto intro: in_range_mono)
    ultimately show ?thesis
      using r v(5-7) by (intro exI [of _ r])
        (auto simp: main_finds_def tcb_thread_id_def tcb_stack_canary_def split: option.splits prod.splits)
  qed
  with v(1,8) show ?thesis by blast
qed

end
