(* ===== verification/Proc_Maps_Frame.thy ===== *)
theory Proc_Maps_Frame
  imports Proc_Maps Regions
begin

text \<open>
  What reading the table of mappings changes in memory: the line buffer, and nothing else.
\<close>

section \<open>The buffer\<close>

text \<open>What read(2) promises: it writes inside the buffer it is given.  Opening and closing write nothing.\<close>

definition reads_into :: "'k kernel \<Rightarrow> addr \<Rightarrow> bool" where
  "reads_into K a \<longleftrightarrow>
     (\<forall>fd w. differs_in (\<lambda>x. in_range x a 1024) (mem w) (mem (snd (sys_read K fd a 1024 w))))
     \<and> (\<forall>fd w. mem (snd (sys_close K fd w)) = mem w)
     \<and> (\<forall>name flags mode w. mem (snd (sys_open K name flags mode w)) = mem w)"

definition buffer_at :: "addr \<Rightarrow> File_Buffer \<Rightarrow> bool" where
  "buffer_at a b \<longleftrightarrow> fb_data b = a \<and> fb_data_size b = 1024"

definition in_buffer :: "addr \<Rightarrow> 'k world \<Rightarrow> File_Buffer \<Rightarrow> 'k world \<Rightarrow> bool" where
  "in_buffer a w b' w' \<longleftrightarrow> buffer_at a b' \<and> differs_in (\<lambda>x. in_range x a 1024) (mem w) (mem w')"

lemma in_buffer_refl: "buffer_at a b \<Longrightarrow> in_buffer a w b w"
  by (simp add: in_buffer_def differs_refl)

lemma in_buffer_trans: "in_buffer a w b' w' \<Longrightarrow> in_buffer a w' b'' w'' \<Longrightarrow> in_buffer a w b'' w''"
  unfolding in_buffer_def using differs_trans by blast

lemma in_buffer_at: "in_buffer a w b w' \<Longrightarrow> buffer_at a b"
  by (simp add: in_buffer_def)

lemma bind_res_InrD: "bind_res r f = Inr y \<Longrightarrow> \<exists>x. r = Inr x \<and> f x = Inr y"
  by (cases r) simp_all

lemma refill_frame:
  assumes K: "reads_into K a" and b: "buffer_at a b" and r: "refill K b w = Inr (e, b', w')"
  shows "in_buffer a w b' w'"
proof (cases "fb_last_read_size b \<le> fb_offset b")
  case False
  then show ?thesis using b r by (simp add: refill_def in_buffer_refl)
next
  case True
  obtain res w1 where s: "sys_read K (ucast (fb_fd b)) a 1024 w = (res, w1)" by fastforce
  then have d: "differs_in (\<lambda>x. in_range x a 1024) (mem w) (mem w1)"
    using K unfolding reads_into_def by (metis snd_conv)
  have st: "differs_in (\<lambda>x. in_range x a 1024) (mem w) m" if "data_store b i 0 (mem w1) = Inr m" for i m
  proof -
    from that b have i: "i < 1024" "store8 (mem w1) (a + i) 0 = Inr m"
      by (auto simp: data_store_def buffer_at_def split: if_splits)
    have "in_range (a + of_nat (unat i)) a 1024" using i(1) by (intro in_range_offset) (simp_all add: word_less_nat_alt)
    then show ?thesis using differs_store8 [OF d i(2)] by simp
  qed
  show ?thesis
    using r True b s d st
    by (auto simp: refill_def buffer_at_def in_buffer_def lift_mem_def split: if_splits dest!: bind_res_InrD)
qed

lemma read_char_frame:
  assumes "reads_into K a" "buffer_at a b" "read_char K b w = Inr (r, b', w')"
  shows "in_buffer a w b' w'"
  using assms(3) refill_frame [OF assms(1,2), of w]
  by (auto simp: read_char_def in_buffer_def buffer_at_def split: option.splits dest!: bind_res_InrD)

lemma next_char_frame:
  "reads_into K a \<Longrightarrow> buffer_at a b \<Longrightarrow> next_char K b w = Inr (b', w') \<Longrightarrow> in_buffer a w b' w'"
  using read_char_frame by (fastforce simp: next_char_def dest!: bind_res_InrD)

section \<open>The parser\<close>

lemma number_loop_frame:
  assumes "number_loop is_digit base digit K result n b w = Some y" "reads_into K a" "buffer_at a b" "y = Inr (r, n', b', w')"
  shows "in_buffer a w b' w'"
  using assms
proof (induction is_digit base digit K result n b w y rule: number_loop.raw_induct [rotated, consumes 1, case_names 1])
  case (1 loop is_digit base digit K result n b w y)
  show ?case
  proof (cases "is_digit (fb_last_char b)")
    case False
    then show ?thesis using 1 by (auto intro: in_buffer_refl)
  next
    case True
    then obtain c b1 w1 n1 where s: "read_char K b w = Inr (c, b1, w1)"
      "loop is_digit base digit K (result * base + scast (digit (fb_last_char b))) n1 b1 w1 = Some y"
      using 1(2,5) by (auto split: sum.splits prod.splits)
    from read_char_frame [OF 1(3,4) s(1)] have "in_buffer a w b1 w1" .
    with 1(1) [OF s(2) 1(3) _ 1(5)] show ?thesis using in_buffer_trans in_buffer_at by blast
  qed
qed

lemma number_frame:
  assumes "reads_into K a" "buffer_at a b"
  shows "read_hex K b w = Inr (e, v, b', w') \<Longrightarrow> in_buffer a w b' w'"
    "read_dec K b w = Inr (e, v, b', w') \<Longrightarrow> in_buffer a w b' w'"
  using number_loop_frame [OF _ assms] by (auto simp: read_hex_def read_dec_def loop_res_def split: option.splits dest!: bind_res_InrD)

lemma skip_spaces_frame:
  assumes "skip_spaces K b w = Some y" "reads_into K a" "buffer_at a b" "y = Inr (b', w')"
  shows "in_buffer a w b' w'"
  using assms
proof (induction K b w y rule: skip_spaces.raw_induct [rotated, consumes 1, case_names 1])
  case (1 loop K b w y)
  show ?case
  proof (cases "fb_last_char b = 32")
    case False
    then show ?thesis using 1 by (auto intro: in_buffer_refl)
  next
    case True
    then obtain b1 w1 where s: "next_char K b w = Inr (b1, w1)" "loop K b1 w1 = Some y"
      using 1(2,5) by (auto split: sum.splits prod.splits)
    from next_char_frame [OF 1(3,4) s(1)] have "in_buffer a w b1 w1" .
    with 1(1) [OF s(2) 1(3) _ 1(5)] show ?thesis using in_buffer_trans in_buffer_at by blast
  qed
qed

lemma skip_chars_frame:
  "reads_into K a \<Longrightarrow> buffer_at a b \<Longrightarrow> skip_chars K n b w = Inr (b', w') \<Longrightarrow> in_buffer a w b' w'"
proof (induction n arbitrary: b w)
  case 0
  then show ?case by (auto intro: in_buffer_refl)
next
  case (Suc n)
  from Suc.prems(3) obtain b1 w1 where s: "next_char K b w = Inr (b1, w1)" "skip_chars K n b1 w1 = Inr (b', w')"
    by (auto dest!: bind_res_InrD)
  from next_char_frame [OF Suc.prems(1,2) s(1)] have "in_buffer a w b1 w1" .
  with Suc.IH [OF Suc.prems(1) _ s(2)] show ?case using in_buffer_trans in_buffer_at by blast
qed

lemma read_name_frame:
  "reads_into K a \<Longrightarrow> buffer_at a b \<Longrightarrow> read_name K n buf b w = Inr (n', buf', b', w') \<Longrightarrow> in_buffer a w b' w'"
proof (induction K n buf b w rule: read_name.induct)
  case (1 K n buf b w)
  show ?case
  proof (cases "n < 256 \<and> fb_last_char b \<noteq> 10 \<and> fb_last_char b \<noteq> -1")
    case False
    then have "\<not> (n < 256 \<and> fb_last_char b \<noteq> 10 \<and> fb_last_char b \<noteq> -1)" .
    then show ?thesis using 1(2-4) by (subst (asm) read_name.simps) (auto intro: in_buffer_refl split: if_splits)
  next
    case True
    with 1(4) obtain buf1 b1 w1 where s: "array_write buf n (ucast (fb_last_char b)) = Inr buf1" "next_char K b w = Inr (b1, w1)"
      "read_name K (Suc n) buf1 b1 w1 = Inr (n', buf', b', w')"
      by (subst (asm) read_name.simps) (auto dest!: bind_res_InrD)
    from next_char_frame [OF 1(2,3) s(2)] have "in_buffer a w b1 w1" .
    with 1(1) [OF True s(1,2) refl 1(2) _ s(3)] show ?thesis using in_buffer_trans in_buffer_at by blast
  qed
qed

lemma read_range_frame:
  assumes K: "reads_into K a" and b: "buffer_at a b" and r: "read_range K b w = Inr (x, b', w')"
  shows "in_buffer a w b' w'"
proof -
  from r obtain e v b1 w1 where 1: "read_hex K b w = Inr (e, v, b1, w1)" by (auto simp: read_range_def dest!: bind_res_InrD)
  note f1 = number_frame(1) [OF K b 1]
  show ?thesis
  proof (cases "e \<noteq> 0 \<or> fb_last_char b1 \<noteq> 45")
    case True
    then show ?thesis using r 1 f1 by (auto simp: read_range_def split: if_splits)
  next
    case False
    with r 1 obtain c b2 w2 where 2: "read_char K b1 w1 = Inr (c, b2, w2)" by (auto simp: read_range_def dest!: bind_res_InrD)
    note f2 = in_buffer_trans [OF f1 read_char_frame [OF K in_buffer_at [OF f1] 2]]
    show ?thesis
    proof (cases "c <s 0")
      case True
      then show ?thesis using r 1 2 f2 False by (auto simp: read_range_def)
    next
      case nc: False
      with False r 1 2 obtain e' v' b3 w3 where 3: "read_hex K b2 w2 = Inr (e', v', b3, w3)"
        by (auto simp: read_range_def dest!: bind_res_InrD)
      note f3 = in_buffer_trans [OF f2 number_frame(1) [OF K in_buffer_at [OF f2] 3]]
      show ?thesis
      proof (cases "e' <s 0")
        case True
        then show ?thesis using r 1 2 3 f3 False nc by (auto simp: read_range_def)
      next
        case False'': False
        with False nc r 1 2 3 obtain c' b4 w4 where 4: "read_char K b3 w3 = Inr (c', b4, w4)"
          by (auto simp: read_range_def dest!: bind_res_InrD)
        note f4 = in_buffer_trans [OF f3 read_char_frame [OF K in_buffer_at [OF f3] 4]]
        then show ?thesis using r 1 2 3 4 False nc False'' by (auto simp: read_range_def split: if_splits)
      qed
    qed
  qed
qed

lemma read_flag_frame:
  "reads_into K a \<Longrightarrow> buffer_at a b \<Longrightarrow> read_flag K ch vm flags b w = Inr (flags', b', w') \<Longrightarrow> in_buffer a w b' w'"
  using next_char_frame by (fastforce simp: read_flag_def Let_def dest!: bind_res_InrD)

lemma read_flags_frame:
  assumes K: "reads_into K a" and b: "buffer_at a b" and r: "read_flags K b w = Inr (flags', b', w')"
  shows "in_buffer a w b' w'"
proof -
  from r obtain g1 b1 w1 g2 b2 w2 g3 b3 w3 where
    1: "read_flag K 114 VM_READ 0 b w = Inr (g1, b1, w1)" and 2: "read_flag K 119 VM_WRITE g1 b1 w1 = Inr (g2, b2, w2)"
    and 3: "read_flag K 120 VM_EXEC g2 b2 w2 = Inr (g3, b3, w3)" and 4: "read_flag K 115 VM_SHARED g3 b3 w3 = Inr (flags', b', w')"
    by (auto simp: read_flags_def dest!: bind_res_InrD)
  note f1 = read_flag_frame [OF K b 1]
  note f2 = in_buffer_trans [OF f1 read_flag_frame [OF K in_buffer_at [OF f1] 2]]
  note f3 = in_buffer_trans [OF f2 read_flag_frame [OF K in_buffer_at [OF f2] 3]]
  show ?thesis by (rule in_buffer_trans [OF f3 read_flag_frame [OF K in_buffer_at [OF f3] 4]])
qed

text \<open>One line, in two halves.\<close>

definition maps_rest ::
  "'k kernel \<Rightarrow> u64 \<Rightarrow> u64 \<Rightarrow> File_Buffer \<Rightarrow> 'k world \<Rightarrow> (Stack_Info option option \<times> File_Buffer \<times> 'k world) res" where
  "maps_rest K start_addr end_addr b w =
     bind_res (read_flags K b w) (\<lambda>(flags, b, w).
     bind_res (skip_chars K 16 b w) (\<lambda>(b, w).
     bind_res (read_dec K b w) (\<lambda>(err, inode, b, w).
     if err \<noteq> 0 then Inr (None, b, w)
     else if fb_last_char b = 10 \<or> fb_last_char b = -1 then Inr (Some None, b, w)
     else
       bind_res (loop_res (skip_spaces K b w)) (\<lambda>(b, w).
       bind_res (read_name K 0 (replicate 256 0) b w) (\<lambda>(name_len, name_buf, b, w).
       bind_res (array_write name_buf name_len 0) (\<lambda>name_buf.
       if name_len \<noteq> 7 then Inr (Some None, b, w)
       else bind_res (compare_name name_buf 7) (\<lambda>_.
         Inr (Some (Some \<lparr>si_stack_found = True, si_start_addr = start_addr, si_end_addr = end_addr,
                          si_flags = flags\<rparr>), b, w))))))))"

lemma maps_line_rest:
  "maps_line K b w =
     bind_res (if fb_last_char b = 10 then next_char K b w else Inr (b, w)) (\<lambda>(b, w).
     bind_res (read_range K b w) (\<lambda>(range, b, w).
       case range of None \<Rightarrow> Inr (None, b, w) | Some (start_addr, end_addr) \<Rightarrow> maps_rest K start_addr end_addr b w))"
  unfolding maps_line_def maps_rest_def by (rule refl)

lemma maps_rest_frame:
  assumes K: "reads_into K a" and b: "buffer_at a b" and r: "maps_rest K s t b w = Inr (x, b', w')"
  shows "in_buffer a w b' w'"
proof -
  from r obtain g b1 w1 b2 w2 e v b3 w3 where
    1: "read_flags K b w = Inr (g, b1, w1)" and 2: "skip_chars K 16 b1 w1 = Inr (b2, w2)"
    and 3: "read_dec K b2 w2 = Inr (e, v, b3, w3)"
    by (auto simp: maps_rest_def dest!: bind_res_InrD)
  note f1 = read_flags_frame [OF K b 1]
  note f2 = in_buffer_trans [OF f1 skip_chars_frame [OF K in_buffer_at [OF f1] 2]]
  note f3 = in_buffer_trans [OF f2 number_frame(2) [OF K in_buffer_at [OF f2] 3]]
  show ?thesis
  proof (cases "e \<noteq> 0 \<or> fb_last_char b3 = 10 \<or> fb_last_char b3 = -1")
    case True
    then show ?thesis using r f3 by (auto simp: maps_rest_def 1 2 3 split: if_splits)
  next
    case False
    with r obtain b4 w4 n buf b5 w5 where 4: "skip_spaces K b3 w3 = Some (Inr (b4, w4))"
      and 5: "read_name K 0 (replicate 256 0) b4 w4 = Inr (n, buf, b5, w5)" and e: "b' = b5" "w' = w5"
      by (auto simp: maps_rest_def 1 2 3 loop_res_def split: option.splits if_splits dest!: bind_res_InrD)
    note f4 = in_buffer_trans [OF f3 skip_spaces_frame [OF 4 K in_buffer_at [OF f3] refl]]
    show ?thesis unfolding e by (rule in_buffer_trans [OF f4 read_name_frame [OF K in_buffer_at [OF f4] 5]])
  qed
qed

lemma maps_line_frame:
  assumes K: "reads_into K a" and b: "buffer_at a b" and r: "maps_line K b w = Inr (x, b', w')"
  shows "in_buffer a w b' w'"
proof -
  from r obtain b1 w1 where 1: "(if fb_last_char b = 10 then next_char K b w else Inr (b, w)) = Inr (b1, w1)"
    unfolding maps_line_rest by (auto dest!: bind_res_InrD)
  have f1: "in_buffer a w b1 w1"
    using 1 next_char_frame [OF K b, of w b1 w1] in_buffer_refl [OF b, of w] by (auto split: if_splits)
  from r 1 obtain q b2 w2 where 2: "read_range K b1 w1 = Inr (q, b2, w2)"
    unfolding maps_line_rest 1 by (auto dest!: bind_res_InrD)
  note f2 = in_buffer_trans [OF f1 read_range_frame [OF K in_buffer_at [OF f1] 2]]
  show ?thesis
  proof (cases q)
    case None
    then show ?thesis using r f2 unfolding maps_line_rest 1 by (simp add: 2)
  next
    case (Some st)
    then have "maps_rest K (fst st) (snd st) b2 w2 = Inr (x, b', w')"
      using r unfolding maps_line_rest 1 by (simp add: 2 split: prod.splits)
    from in_buffer_trans [OF f2 maps_rest_frame [OF K in_buffer_at [OF f2] this]] show ?thesis .
  qed
qed

lemma maps_loop_frame:
  assumes "maps_loop K info b w = Some y" "reads_into K a" "buffer_at a b" "y = Inr (r, info', w')"
  shows "differs_in (\<lambda>x. in_range x a 1024) (mem w) (mem w')"
  using assms
proof (induction K info b w y rule: maps_loop.raw_induct [rotated, consumes 1, case_names 1])
  case (1 loop K info b w y)
  have close: "mem (snd (sys_close K fd v)) = mem v" for fd v using 1(3) by (simp add: reads_into_def)
  show ?case
  proof (cases "fb_last_char b = -1")
    case True
    then show ?thesis using 1(2,5) close by (auto simp: differs_refl)
  next
    case False
    then obtain q b1 w1 where s: "maps_line K b w = Inr (q, b1, w1)"
      using 1(2,5) by (auto split: sum.splits)
    note f = maps_line_frame [OF 1(3,4) s]
    consider "q = None" | "q = Some None" | v where "q = Some (Some v)" by (cases q) auto
    then show ?thesis
    proof cases
      case 2
      then have "loop K info b1 w1 = Some y" using 1(2) False s by simp
      from 1(1) [OF this 1(3) in_buffer_at [OF f] 1(5)] f show ?thesis
        unfolding in_buffer_def using differs_trans by blast
    qed (use 1(2,5) False s f close in \<open>auto simp: in_buffer_def\<close>)
  qed
qed

text \<open>The whole function.\<close>

lemma linux_read_stack_info_frame:
  assumes K: "reads_into K a" and r: "linux_read_stack_info K lit a info w = Inr (r, info', w')"
  shows "differs_in (\<lambda>x. in_range x a 1024) (mem w) (mem w')"
proof -
  obtain fd w1 where o: "sys_open K (lit ''/proc/self/maps'') 0 O_RDONLY w = (fd, w1)" by fastforce
  then have m1: "mem w1 = mem w" using K unfolding reads_into_def by (metis snd_conv)
  let ?b = "\<lparr>fb_fd = fd, fb_data = a, fb_data_size = 1024, fb_last_read_size = 0, fb_offset = 0, fb_last_char = 0\<rparr>"
  have b: "buffer_at a ?b" by (simp add: buffer_at_def)
  show ?thesis
  proof (cases "fd <s 0")
    case True
    then show ?thesis using r o m1 by (simp add: linux_read_stack_info_def differs_refl)
  next
    case False
    with r o obtain c b1 w2 where c: "read_char K ?b w1 = Inr (c, b1, w2)"
      by (auto simp: linux_read_stack_info_def dest!: bind_res_InrD)
    note f = read_char_frame [OF K b c]
    show ?thesis
    proof (cases "c <s 0")
      case True
      then show ?thesis using r o False c f m1 by (auto simp: linux_read_stack_info_def in_buffer_def)
    next
      case nc: False
      then have "maps_loop K info b1 w2 = Some (Inr (r, info', w'))"
        using r o False c by (auto simp: linux_read_stack_info_def loop_res_def split: option.splits)
      from maps_loop_frame [OF this K in_buffer_at [OF f] refl] f show ?thesis
        unfolding in_buffer_def m1 using differs_trans by blast
    qed
  qed
qed

end
