(* ===== verification/Loader_Switch.thy ===== *)
theory Loader_Switch
  imports Handover Proc_Maps_Correct Proc_Maps_Frame
begin

text \<open>
  The end of stage 2: from the relocated program over the table of mappings, the new stack and the trampoline to
  stage 3, as one step from memory to memory.
\<close>

section \<open>The place of the block\<close>

lemma ld_tcb_bounds:
  assumes "unat b + 2 ^ 21 \<le> 2 ^ 47" "n + 48 \<le> 2 ^ 20" "tcb = ld_tcb b (of_nat n) (2 * MB)"
  shows "unat b + n \<le> unat tcb" "unat tcb + 48 \<le> unat b + 2 ^ 21"
proof -
  have u: "unat (b + of_nat n) = unat b + n"
    using assms(1,2) by (intro unat_add_of_nat) simp
  have half: "2 * MB div 2 = (2 ^ 20 :: u64)" by (simp add: MB_def KB_def)
  have pow: "is_pow2 (2 ^ 20)" unfolding is_pow2_def by (rule exI [of _ 20]) simp
  have t: "unat tcb = (unat b + n + 2 ^ 20 - 1) div 2 ^ 20 * 2 ^ 20"
    unfolding assms(3) ld_tcb_def half cia_ptr_alignf_def
    using round_up_unat [OF pow, of "b + of_nat n"] u assms(1,2) by (simp add: unat_pow2)
  show "unat b + n \<le> unat tcb" unfolding t by (rule div_up_bounds(1)) simp
  have "(unat b + n + 2 ^ 20 - 1) div 2 ^ 20 * 2 ^ 20 \<le> unat b + n + 2 ^ 20 - 1"
    by (rule div_times_less_eq_dividend)
  then show "unat tcb + 48 \<le> unat b + 2 ^ 21" unfolding t using assms(2) by simp
qed

section \<open>The information block\<close>

lemma tls_size_read:
  assumes "program_in m info h"
  shows "tls_phdr m (ho_app h) = Inr (map_option fst (ho_tls h))"
    "(case map_option fst (ho_tls h) of None \<Rightarrow> Inr 0 | Some ph \<Rightarrow> p_memsz m ph) = Inr (of_nat (tls_bytes h))"
  using assms by (auto simp: program_in_def tls_phdr_def tls_bytes_def split: option.splits)

text \<open>The three words that stage 2 puts into the information block.\<close>

definition info_memory :: "addr \<Rightarrow> handover \<Rightarrow> mem \<Rightarrow> mem" where
  "info_memory info h m =
     poke (poke (poke m (info + 24) (le_bytes 8 (ho_stack_size h))) (info + 16) (le_bytes 8 (ho_stack_base h)))
       (info + 40) (le_bytes 8 (of_nat (tls_bytes h) :: u64))"

definition info_region :: "addr \<Rightarrow> addr \<Rightarrow> bool" where
  "info_region info x \<longleftrightarrow> in_range x (info + 16) 32"

lemma info_written:
  assumes m: "mapped m info 48" "unat info + 48 \<le> 2 ^ 64"
    and h: "program_in m info h" "program_spared (info_region info) info h"
  shows "mapped m (info + 24) 8" "mapped m (info + 16) 8" "mapped m (info + 40) 8"
    "differs_in (info_region info) m (info_memory info h m)" "handover_in (info_memory info h m) info h"
    "load64 (info_memory info h m) (s3_tls_image info) = load64 m (s3_tls_image info)"
proof -
  show mp: "mapped m (info + 24) 8" "mapped m (info + 16) 8" "mapped m (info + 40) 8"
    using mapped_part [OF m(1), of 24 8] mapped_part [OF m(1), of 16 8] mapped_part [OF m(1), of 40 8] by simp_all
  have u: "unat (info + 16) = unat info + 16" "unat (info + 24) = unat info + 24" "unat (info + 32) = unat info + 32"
    "unat (info + 40) = unat info + 40"
    using m(2) by (simp_all add: unat_add_no_wrap)
  have i: "inside (info_region info) (info + 16) 32" by (simp add: inside_def info_region_def)
  show d: "differs_in (info_region info) m (info_memory info h m)"
    unfolding info_memory_def
    using mp inside_sub [OF i, of 8 8] inside_sub [OF i, of 0 8] inside_sub [OF i, of 24 8]
    by (intro differs_poke differs_refl) (simp_all add: add.assoc)
  show "handover_in (info_memory info h m) info h"
    using program_kept [OF h(1) d h(2)] mp u m(2)
    by (simp add: handover_in_def info_memory_def s3_stack_base_def s3_stack_size_def s3_tls_size_def
        load64_poke_same load64_poke_disj disj_range_apart del: le_bytes.simps)
  show "load64 (info_memory info h m) (s3_tls_image info) = load64 m (s3_tls_image info)"
    using u m(2) by (simp add: info_memory_def s3_tls_image_def load64_poke_disj disj_range_apart del: le_bytes.simps)
qed

section \<open>Memory that has grown\<close>

text \<open>What could be read before a new mapping can be read after it.\<close>

definition extends :: "mem \<Rightarrow> mem \<Rightarrow> bool" where
  "extends m m' \<longleftrightarrow> (\<forall>x. m x \<noteq> None \<longrightarrow> m' x = m x)"

lemma extends_load64: "extends m m' \<Longrightarrow> load64 m a = Inr v \<Longrightarrow> load64 m' a = Inr v"
  using load64_cong [of a m' m] load64_InrD [of m a v] by (simp add: extends_def mapped_def)

lemma extends_load32: "extends m m' \<Longrightarrow> load32 m a = Inr v \<Longrightarrow> load32 m' a = Inr v"
  using load32_cong [of a m' m] load32_InrD [of m a v] by (simp add: extends_def mapped_def)

lemma extends_mapped: "extends m m' \<Longrightarrow> mapped m a n \<Longrightarrow> mapped m' a n"
  by (simp add: extends_def mapped_def)

lemma first_phdr_extends:
  "first_phdr m phdr ent num type i = Inr r \<Longrightarrow> extends m m' \<Longrightarrow> first_phdr m' phdr ent num type i = Inr r"
proof (induction m phdr ent num type i rule: first_phdr.induct)
  case (1 m phdr ent num type i)
  show ?case
  proof (cases "i < num")
    case False
    then show ?thesis using 1(2) by (simp add: first_phdr.simps)
  next
    case True
    with 1(2) obtain t where t: "p_type m (phdr + i * ent) = Inr t"
      by (subst (asm) first_phdr.simps) (cases "p_type m (phdr + i * ent)", simp_all)
    then have t': "p_type m' (phdr + i * ent) = Inr t"
      using extends_load32 [OF 1(3)] by (simp add: p_type_def)
    show ?thesis
    proof (cases "t = type")
      case True
      with \<open>i < num\<close> 1(2) show ?thesis by (simp add: first_phdr.simps [of m] first_phdr.simps [of m'] t t')
    next
      case False
      with \<open>i < num\<close> 1(2) have "first_phdr m phdr ent num type (i + 1) = Inr r"
        by (subst (asm) first_phdr.simps) (simp add: t)
      from 1(1) [OF \<open>i < num\<close> t False this 1(3)] \<open>i < num\<close> False show ?thesis
        by (subst first_phdr.simps) (simp add: t')
    qed
  qed
qed

lemma program_in_extends:
  assumes "program_in m info h" "extends m m'"
  shows "program_in m' info h"
  using assms(1) extends_load64 [OF assms(2)] extends_mapped [OF assms(2)] first_phdr_extends [OF _ assms(2)]
  by (auto simp: program_in_def e_entry_def p_vaddr_def p_memsz_def split: option.splits)

section \<open>From stage 2 to stage 3\<close>

lemma ld_switch_stack_runs:
  fixes w :: "'k world"
  assumes prog: "program_in (mem w) info h"
    and read: "reads_into K (fr_line fr)" "linux_read_stack_info K lit (fr_line fr) si w = Inr (0, si', w1)"
      "program_spared (\<lambda>x. in_range x (fr_line fr) 1024) info h"
    and mmap: "mmap_documented K"
      "sys_mmap K 0 (2 * MB) (PROT_READ OR PROT_WRITE) (MAP_PRIVATE OR MAP_ANONYMOUS OR MAP_NORESERVE) (-1) 0 w1 = (b, w2)"
      "\<not> errno_result b" "ho_stack_base h = b" "ho_stack_size h = 2 * MB"
    and info: "mapped (mem w) info 48" "unat info + 48 \<le> 2 ^ 64" "program_spared (info_region info) info h"
      "spared (\<lambda>x. in_range x (fr_line fr) 1024) (s3_tls_image info) 8"
    and old: "fr_rsp fr = s + 24" "si_end_addr si' - fr_rsp fr = of_nat (8 * n)" "16 * n + 40 \<le> 2 ^ 21"
      "mapped (mem w) s (24 + 8 * n)" "unat s + 24 + 8 * n < 2 ^ 64" "disj_range s 24 info 48"
      "program_spared (\<lambda>x. in_range x b (2 ^ 21) \<or> in_range x s 24) info h"
  obtains v where "ld_switch_stack K lit crt_entry fr si info (ho_app h) w =
      bind_res (ld_stage3_entry K lit crt_entry fr 1 (switched_rsp b (2 * MB) n - 8) info v) (\<lambda>_. Inl (Undefined RunsOffEnd))"
    "handover_in (mem v) info h" "load64 (mem v) (s3_tls_image info) = load64 (mem w) (s3_tls_image info)"
    "dom (mem v) = dom (mem w) \<union> {x. in_range x b (2 ^ 21)}" "unat b + 2 ^ 21 \<le> 2 ^ 47" "disj_range info 48 b (2 ^ 21)"
    "unat b + 2 ^ 21 - 8 * n \<in> {unat (switched_rsp b (2 * MB) n), unat (switched_rsp b (2 * MB) n) + 8}"
    "\<And>x. mem w x \<noteq> None \<Longrightarrow> \<not> in_range x (fr_line fr) 1024 \<Longrightarrow> \<not> info_region info x \<Longrightarrow> \<not> in_range x s 24 \<Longrightarrow> mem v x = mem w x"
    "\<And>x. in_range x b (2 ^ 21) \<Longrightarrow> mem w x = None"
proof -
  have MB: "2 * MB = (2097152 :: u64)" by (simp add: MB_def KB_def)
  have r: "differs_in (\<lambda>x. in_range x (fr_line fr) 1024) (mem w) (mem w1)"
    by (rule linux_read_stack_info_frame [OF read(1,2)])
  have p1: "program_in (mem w1) info h" using program_kept [OF prog r read(3)] .
  note fz = mmap_noreserveD [OF mmap(1) _ mmap(2,3)]
  have rnd: "page_round 2097152 = 2097152" by (rule page_round_dvd) (simp add: page_size_def)
  have f: "fresh_zeroed b 2097152 (mem w1) (mem w2)" and pg: "page_size dvd unat b"
    using fz unfolding MB by (simp_all add: rnd word_less_nat_alt)
  have b: "unat b + 2097152 \<le> 2 ^ 47" using f by (simp add: fresh_zeroed_def)
  have i1: "mapped (mem w1) info 48" "mapped (mem w1) s (24 + 8 * n)"
    using info(1) old(4) by (simp_all add: differs_mapped [OF r])
  note i2 = fresh_zeroed_old_mapped [OF f i1(1)]
  have dis: "disj_range info 48 b 2097152" "disj_range s (24 + 8 * n) b 2097152"
    using i1 by (simp_all add: fresh_zeroed_disjoint [OF f])
  have ext: "extends (mem w1) (mem w2)" using fresh_zeroed_old [OF f] by (simp add: extends_def)
  have p2: "program_in (mem w2) info h" by (rule program_in_extends [OF p1 ext])
  note q = info_written [OF i2 info(2) p2 info(3)]
  let ?m3 = "info_memory info h (mem w2)" and ?w3 = "w2\<lparr>mem := info_memory info h (mem w2)\<rparr>"
  have new: "mapped ?m3 b 2097152" "mapped ?m3 s (24 + 8 * n)"
    using fresh_zeroed_mapped [OF f, of 2097152] extends_mapped [OF ext i1(2)] by (simp_all add: differs_mapped [OF q(4)])
  have "16 dvd unat b + 2097152"
  proof -
    have "16 dvd unat b" using pg by (rule dvd_trans [rotated]) (simp add: page_size_def)
    then show ?thesis by simp
  qed
  have u: "unat (2 * MB) = 2097152" by (simp add: MB)
  have end_rsp: "si_end_addr si' - si_start_addr si' + si_start_addr si' - (s + 24) = of_nat (8 * n)"
    using old(1,2) by simp
  let ?call = "\<lambda>has_new_stack rsp. ld_stage3_entry K lit crt_entry fr has_new_stack rsp info"
  have "mapped (mem ?w3) b (unat (2 * MB))" "unat b + unat (2 * MB) < 2 ^ 64" "16 dvd unat b + unat (2 * MB)"
    "mapped (mem ?w3) s (24 + 8 * n)" "disj_range b (unat (2 * MB)) s (24 + 8 * n)" "16 * n + 40 \<le> unat (2 * MB)" "unat (2 * MB) < 2 ^ 63"
    unfolding u using new \<open>16 dvd unat b + 2097152\<close> b dis(2) old(3) by (simp_all add: disj_range_sym)
  from ld_stack_trampoline_runs [OF refl end_rsp this(6,7,1-4) old(5) this(5), of "fr_ret fr" ?call, unfolded u]
  obtain m4 where run: "ld_stack_trampoline (fr_ret fr) (s + 24) b (si_start_addr si') (2 * MB)
        (si_end_addr si' - si_start_addr si') ?call ?w3 =
      bind_res (?call 1 (switched_rsp b (2 * MB) n - 8) (?w3\<lparr>mem := m4\<rparr>)) (\<lambda>_. Inl (Undefined RunsOffEnd))"
    and sp: "unat b + 2097152 - 8 * n \<in> {unat (switched_rsp b (2 * MB) n), unat (switched_rsp b (2 * MB) n) + 8}"
    and d4: "dom m4 = dom ?m3" "\<forall>x. \<not> in_range x b 2097152 \<and> \<not> in_range x s 24 \<longrightarrow> m4 x = ?m3 x"
    by auto
  let ?T = "\<lambda>x. in_range x b 2097152 \<or> in_range x s 24"
  have df: "differs_in ?T ?m3 m4" using d4 by (simp add: differs_in_def)
  have "disj_range s 24 (info + of_nat off) k" "disj_range b 2097152 (info + of_nat off) k" if "off + k \<le> 48" for off k
    using spared_sub [of "\<lambda>x. in_range x s 24" info 48 off k] spared_sub [of "\<lambda>x. in_range x b 2097152" info 48 off k]
      old(6) dis(1) that by (simp_all add: spared_disj disj_range_sym)
  then have away: "spared ?T (info + of_nat off) k" if "off + k \<le> 48" for off k
    using that by (simp add: spared_or spared_disj disj_range_sym)
  have hs: "handover_spared ?T info h"
    using old(7) away [of 0 32] away [of 40 8] by (simp add: handover_spared_def s3_tls_size_def)
  have h4: "handover_in m4 info h" by (rule handover_kept [OF q(5) df hs])
  have slot: "load64 m4 (s3_tls_image info) = load64 (mem w) (s3_tls_image info)"
  proof -
    have "mapped (mem w1) (s3_tls_image info) 8"
      using mapped_part [OF i1(1), of 32 8] by (simp add: s3_tls_image_def)
    then have "load64 (mem w2) (s3_tls_image info) = load64 (mem w1) (s3_tls_image info)"
      by (rule fresh_zeroed_load64 [OF f])
    then show ?thesis
      using differs_load64 [OF df, of "s3_tls_image info"] away [of 32 8] q(6) differs_load64 [OF r info(4)]
      by (simp add: s3_tls_image_def)
  qed
  have d0: "dom m4 = dom (mem w) \<union> {x. in_range x b (2 ^ 21)}"
  proof -
    have "dom (mem w2) = dom (mem w1) \<union> {x. in_range x b 2097152}"
      using f by (auto simp: fresh_zeroed_def split: if_splits)
    then show ?thesis using d4(1) q(4) r by (simp add: differs_in_def)
  qed
  have same: "m4 x = mem w x"
    if "mem w x \<noteq> None" "\<not> in_range x (fr_line fr) 1024" "\<not> info_region info x" "\<not> in_range x s 24" for x
  proof -
    have w1: "mem w1 x = mem w x" using r that(2) by (simp add: differs_in_def)
    then have nb: "\<not> in_range x b 2097152" using f that(1) by (auto simp: fresh_zeroed_def)
    then have "m4 x = ?m3 x" using d4(2) that(4) by blast
    also have "\<dots> = mem w2 x" using q(4) that(3) by (simp add: differs_in_def)
    also have "\<dots> = mem w1 x" using ext w1 that(1) by (simp add: extends_def)
    finally show ?thesis using w1 by simp
  qed
  have free: "mem w x = None" if "in_range x b 2097152" for x
  proof -
    have "mem w1 x = None" using f that by (simp add: fresh_zeroed_def)
    then have "x \<notin> dom (mem w)" using r unfolding differs_in_def by (metis domIff)
    then show ?thesis by (simp add: domIff)
  qed
  have "ld_switch_stack K lit crt_entry fr si info (ho_app h) w =
      bind_res (ld_stage3_entry K lit crt_entry fr 1 (switched_rsp b (2 * MB) n - 8) info (?w3\<lparr>mem := m4\<rparr>))
        (\<lambda>_. Inl (Undefined RunsOffEnd))"
  proof -
    have "write64 (s3_stack_size info) (2 * MB) w2 = Inr (w2\<lparr>mem := poke (mem w2) (info + 24) (le_bytes 8 (2 * MB))\<rparr>)"
      "write64 (s3_stack_base info) b (w2\<lparr>mem := poke (mem w2) (info + 24) (le_bytes 8 (2 * MB))\<rparr>) =
        Inr (w2\<lparr>mem := poke (poke (mem w2) (info + 24) (le_bytes 8 (2 * MB))) (info + 16) (le_bytes 8 b)\<rparr>)"
      "write64 (s3_tls_size info) (of_nat (tls_bytes h))
        (w2\<lparr>mem := poke (poke (mem w2) (info + 24) (le_bytes 8 (2 * MB))) (info + 16) (le_bytes 8 b)\<rparr>) = Inr ?w3"
      using q(1-3) by (simp_all add: s3_stack_size_def s3_stack_base_def s3_tls_size_def write64_mapped info_memory_def mmap(4,5)
          del: le_bytes.simps)
    then show ?thesis
      unfolding ld_switch_stack_def Let_def
      by (simp only: tls_size_read [OF prog] bind_res_simps read(2) prod.case mmap(2) old(1) run simp_thms if_False)
  qed
  then show thesis
    by (rule that) (use h4 slot d0 b dis(1) sp same free in simp_all)
qed

end
