(* ===== verification/Loader_Program.thy ===== *)
theory Loader_Program
  imports Handover File Loader_Switch
begin

text \<open>
  The first part of stage 2: the records of the loader and of the program, the headers and the dynamic section of
  the program, and its relocation, as one step from memory to memory.
\<close>

section \<open>Writing into an object\<close>

text \<open>A word of an object of \<open>n\<close> bytes at \<open>p\<close>, in a memory that differs from \<open>m\<close> in the object only.\<close>

lemma object_write:
  fixes w :: "'k world"
  assumes p: "mapped m p n" "n \<le> 2 ^ 64" and d: "differs_in (\<lambda>x. in_range x p n) m (mem w)" and off: "off + 8 \<le> n"
  shows "write64 (p + of_nat off) v w = Inr (w\<lparr>mem := poke (mem w) (p + of_nat off) (le_bytes 8 v)\<rparr>)"
    "differs_in (\<lambda>x. in_range x p n) m (poke (mem w) (p + of_nat off) (le_bytes 8 v))"
    "load64 (poke (mem w) (p + of_nat off) (le_bytes 8 v)) (p + of_nat off) = Inr v"
proof -
  have m: "mapped m (p + of_nat off) 8" using mapped_part [OF p(1) off p(2)] .
  then have mw: "mapped (mem w) (p + of_nat off) 8" by (simp add: differs_mapped [OF d])
  then show "write64 (p + of_nat off) v w = Inr (w\<lparr>mem := poke (mem w) (p + of_nat off) (le_bytes 8 v)\<rparr>)"
    by (rule write64_mapped)
  show "load64 (poke (mem w) (p + of_nat off) (le_bytes 8 v)) (p + of_nat off) = Inr v" using mw by (rule load64_poke_same)
  have "inside (\<lambda>x. in_range x p n) p n" by (simp add: inside_def)
  from inside_sub [OF this off p(2)] m
  show "differs_in (\<lambda>x. in_range x p n) m (poke (mem w) (p + of_nat off) (le_bytes 8 v))"
    by (intro differs_poke [OF d]) simp_all
qed

lemma load16_spared: "differs_in T m m' \<Longrightarrow> spared T a 2 \<Longrightarrow> load16 m' a = load16 m a"
  unfolding load16_def by (subst load_bytes_cong [of a 2 m' m]) (simp_all add: differs_in_def spared_def)

section \<open>The header of the loader\<close>

lemma ld_read_self_runs:
  fixes w :: "'k world"
  assumes o: "mapped (mem w) ldso 112" "unat ldso + 112 \<le> 2 ^ 64" and b: "load64 (mem w) (im_base ldso) = Inr eh"
    and eh: "e_phoff (mem w) eh = Inr off" "e_phnum (mem w) eh = Inr num" "e_phentsize (mem w) eh = Inr ent"
      "spared (\<lambda>x. in_range x ldso 112) eh 64"
  obtains m where "ld_read_self lit ldso w = Inr (w\<lparr>mem := m\<rparr>)" "differs_in (\<lambda>x. in_range x ldso 112) (mem w) m"
    "load64 m (im_base ldso) = Inr eh"
proof -
  let ?T = "\<lambda>x. in_range x ldso 112"
  let ?m1 = "poke (mem w) (im_phdr ldso) (le_bytes 8 (eh + off))"
  let ?m2 = "poke ?m1 (im_ph_num ldso) (le_bytes 8 (ucast num :: u64))"
  let ?m3 = "poke ?m2 (im_ph_ent ldso) (le_bytes 8 (ucast ent :: u64))"
  let ?m4 = "poke ?m3 (im_name ldso) (le_bytes 8 (lit ''ld-cia.so''))"
  have d0: "differs_in ?T (mem w) (mem w)" by (rule differs_refl)
  have d1: "differs_in ?T (mem w) ?m1" using object_write(2) [OF o(1) _ d0, of 56] by (simp add: im_phdr_def)
  have d2: "differs_in ?T (mem w) ?m2"
    using object_write(2) [OF o(1) _, of "w\<lparr>mem := ?m1\<rparr>" 64] d1 by (simp add: im_ph_num_def)
  have d3: "differs_in ?T (mem w) ?m3"
    using object_write(2) [OF o(1) _, of "w\<lparr>mem := ?m2\<rparr>" 72] d2 by (simp add: im_ph_ent_def)
  have d4: "differs_in ?T (mem w) ?m4"
    using object_write(2) [OF o(1) _, of "w\<lparr>mem := ?m3\<rparr>" 40] d3 by (simp add: im_name_def)
  have s: "spared ?T (eh + 32) 8" "spared ?T (eh + 54) 2" "spared ?T (eh + 56) 2"
    using spared_sub [OF eh(4), of 32 8] spared_sub [OF eh(4), of 54 2] spared_sub [OF eh(4), of 56 2] by simp_all
  have w: "write64 (im_phdr ldso) (eh + off) w = Inr (w\<lparr>mem := ?m1\<rparr>)"
    "write64 (im_ph_num ldso) (ucast num) (w\<lparr>mem := ?m1\<rparr>) = Inr (w\<lparr>mem := ?m2\<rparr>)"
    "write64 (im_ph_ent ldso) (ucast ent) (w\<lparr>mem := ?m2\<rparr>) = Inr (w\<lparr>mem := ?m3\<rparr>)"
    "write64 (im_name ldso) (lit ''ld-cia.so'') (w\<lparr>mem := ?m3\<rparr>) = Inr (w\<lparr>mem := ?m4\<rparr>)"
    using mapped_part [OF o(1), of 56 8] mapped_part [OF o(1), of 64 8] mapped_part [OF o(1), of 72 8] mapped_part [OF o(1), of 40 8]
      differs_mapped [OF d1] differs_mapped [OF d2] differs_mapped [OF d3]
    by (simp_all add: im_phdr_def im_ph_num_def im_ph_ent_def im_name_def write64_mapped del: le_bytes.simps)
  have "ld_read_self lit ldso w = Inr (w\<lparr>mem := ?m4\<rparr>)"
    using b eh(1-3) load16_spared [OF d1 s(3)] load16_spared [OF d2 s(2)]
    by (simp add: ld_read_self_def w e_phnum_def e_phentsize_def)
  moreover have "load64 ?m4 (im_base ldso) = Inr eh"
    using o(2) b by (simp add: im_phdr_def im_ph_num_def im_ph_ent_def im_name_def im_base_def load64_poke_disj disj_range_apart
        unat_add_no_wrap del: le_bytes.simps)
  ultimately show thesis using d4 by (intro that [of ?m4])
qed

section \<open>The program headers\<close>

lemma app_base_loop_runs:
  fixes w :: "'k world"
  assumes T: "T = (\<lambda>x. in_range x app 112)" and o: "mapped m app 112" "unat app + 112 \<le> 2 ^ 64"
    and at: "word_at m aux AT_PHDR = Inr u" "spared T (aux + 8 * of_nat AT_PHDR) 8"
    and hd: "\<And>j. j < num \<Longrightarrow> mapped m (phdr + of_nat j * ent) 56 \<and> spared T (phdr + of_nat j * ent) 56" and num: "num < 2 ^ 64"
    and "i \<le> num" "differs_in T m (mem w)" "\<forall>ph v. found = Some ph \<longrightarrow> p_vaddr m ph = Inr v \<longrightarrow> load64 (mem w) (im_base app) = Inr (u - v)"
    and "last_phdr m phdr ent (of_nat num) PT_PHDR (of_nat i) found = Inr r"
  shows "\<exists>m'. app_base_loop aux phdr ent (of_nat num) app (of_nat i) w = Inr (w\<lparr>mem := m'\<rparr>) \<and> differs_in T m m'
    \<and> (\<forall>ph v. r = Some ph \<longrightarrow> p_vaddr m ph = Inr v \<longrightarrow> load64 m' (im_base app) = Inr (u - v))"
  using assms(8-11)
proof (induction i arbitrary: w found rule: inc_induct)
  case base
  then show ?case
    by (intro exI [of _ "mem w"]) (simp add: app_base_loop.simps last_phdr.simps)
next
  case (step i)
  let ?ph = "phdr + of_nat i * ent"
  have i: "(of_nat i :: u64) < of_nat num" using step(2) num by (simp add: word_less_nat_alt unat_of_nat_u64)
  have nx: "(of_nat i :: u64) + 1 = of_nat (Suc i)" by simp
  have h: "mapped m ?ph 56" "spared T ?ph 56" using hd [OF step(2)] by simp_all
  obtain t where t: "p_type m ?ph = Inr t" using mapped_part [OF h(1), of 0 4] by (simp add: p_type_def load32_mapped)
  have t': "p_type (mem w) ?ph = Inr t"
    using t differs_load32 [OF step.prems(1)] spared_sub [OF h(2), of 0 4] by (simp add: p_type_def)
  have at': "word_at (mem w) aux AT_PHDR = Inr u" using at differs_load64 [OF step.prems(1)] by (simp add: word_at_def)
  show ?case
  proof (cases "t = PT_PHDR")
    case True
    obtain v where v: "p_vaddr m ?ph = Inr v" using mapped_part [OF h(1), of 16 8] by (simp add: p_vaddr_def load64_mapped)
    have v': "p_vaddr (mem w) ?ph = Inr v"
      using v differs_load64 [OF step.prems(1)] spared_sub [OF h(2), of 16 8] by (simp add: p_vaddr_def)
    let ?w = "w\<lparr>mem := poke (mem w) (im_base app) (le_bytes 8 (u - v))\<rparr>"
    have d: "write64 (im_base app) (u - v) w = Inr ?w" "differs_in T m (mem ?w)" "load64 (mem ?w) (im_base app) = Inr (u - v)"
      using object_write [OF o(1), of w 48 "u - v"] step.prems(1) unfolding T by (simp_all add: im_base_def)
    have f: "\<forall>ph v. Some ?ph = Some ph \<longrightarrow> p_vaddr m ph = Inr v \<longrightarrow> load64 (mem ?w) (im_base app) = Inr (u - v)"
      using d(3) v by auto
    have l: "last_phdr m phdr ent (of_nat num) PT_PHDR (of_nat (Suc i)) (Some ?ph) = Inr r"
      using step.prems(3) i t True by (subst (asm) last_phdr.simps) (simp add: nx)
    from step.IH [OF d(2) f l] obtain m' where
      "app_base_loop aux phdr ent (of_nat num) app (of_nat (Suc i)) ?w = Inr (?w\<lparr>mem := m'\<rparr>)" "differs_in T m m'"
      "\<forall>ph v. r = Some ph \<longrightarrow> p_vaddr m ph = Inr v \<longrightarrow> load64 m' (im_base app) = Inr (u - v)" by auto
    then show ?thesis
      by (intro exI [of _ m']) (subst app_base_loop.simps, simp add: i t' True at' v' d(1) nx)
  next
    case False
    have "last_phdr m phdr ent (of_nat num) PT_PHDR (of_nat (Suc i)) found = Inr r"
      using step.prems(3) i t False by (subst (asm) last_phdr.simps) (simp add: nx)
    from step.IH [OF step.prems(1,2) this] obtain m' where
      "app_base_loop aux phdr ent (of_nat num) app (of_nat (Suc i)) w = Inr (w\<lparr>mem := m'\<rparr>)" "differs_in T m m'"
      "\<forall>ph v. r = Some ph \<longrightarrow> p_vaddr m ph = Inr v \<longrightarrow> load64 m' (im_base app) = Inr (u - v)" by blast
    then show ?thesis
      by (intro exI [of _ m']) (subst app_base_loop.simps, simp add: i t' False nx)
  qed
qed

lemma word_at_differs:
  assumes "differs_in T m m'" "spared T a (8 * 32)" "t < 32"
  shows "word_at m' a t = word_at m a t"
proof -
  have "spared T (a + of_nat (8 * t)) 8" by (rule spared_sub [OF assms(2)]) (use assms(3) in simp_all)
  then show ?thesis using differs_load64 [OF assms(1)] by (simp add: word_at_def)
qed

lemma ld_find_app_runs:
  fixes w :: "'k world"
  assumes T: "T = (\<lambda>x. in_range x app 112)" and o: "mapped (mem w) app 112" "unat app + 112 \<le> 2 ^ 64"
    and aux: "word_at (mem w) aux AT_EXECFN = Inr fn" "word_at (mem w) aux AT_PHDR = Inr phdr" "word_at (mem w) aux AT_PHENT = Inr ent"
      "word_at (mem w) aux AT_PHNUM = Inr (of_nat num)" "spared T aux (8 * 32)"
    and self: "load64 (mem w) (im_base ldso) = Inr lb" "spared T (im_base ldso) 8" "phdr \<noteq> lb"
    and hd: "\<And>j. j < num \<Longrightarrow> mapped (mem w) (phdr + of_nat j * ent) 56 \<and> spared T (phdr + of_nat j * ent) 56" and num: "num < 2 ^ 64"
    and base: "last_phdr (mem w) phdr ent (of_nat num) PT_PHDR 0 None = Inr (Some ph)" "p_vaddr (mem w) ph = Inr (phdr - base)"
  obtains m where "ld_find_app K lit frame aux ldso app w = Inr (w\<lparr>mem := m\<rparr>)" "differs_in T (mem w) m"
    "load64 m (im_base app) = Inr base" "load64 m (im_phdr app) = Inr phdr" "load64 m (im_ph_ent app) = Inr ent"
    "load64 m (im_ph_num app) = Inr (of_nat num)"
proof -
  let ?m1 = "poke (mem w) (im_name app) (le_bytes 8 fn)"
  have d1: "write64 (im_name app) fn w = Inr (w\<lparr>mem := ?m1\<rparr>)" "differs_in T (mem w) ?m1"
    using object_write [OF o(1), of w 40 fn] differs_refl unfolding T by (simp_all add: im_name_def)
  have l0: "last_phdr (mem w) phdr ent (of_nat num) PT_PHDR (of_nat 0) None = Inr (Some ph)" using base(1) by simp
  have s3: "spared T (aux + 8 * of_nat AT_PHDR) 8" using spared_sub [OF aux(5), of "8 * 3" 8] by (simp add: elf_consts)
  obtain m2 where m2: "app_base_loop aux phdr ent (of_nat num) app 0 (w\<lparr>mem := ?m1\<rparr>) = Inr (w\<lparr>mem := m2\<rparr>)" "differs_in T (mem w) m2"
    "load64 m2 (im_base app) = Inr base"
    using app_base_loop_runs [OF T o aux(2) s3 hd num _ _ _ l0, of "w\<lparr>mem := ?m1\<rparr>"] d1(2) base(2) by auto
  let ?m3 = "poke m2 (im_phdr app) (le_bytes 8 phdr)"
  let ?m4 = "poke ?m3 (im_ph_ent app) (le_bytes 8 ent)"
  let ?m5 = "poke ?m4 (im_ph_num app) (le_bytes 8 (of_nat num :: u64))"
  have d3: "write64 (im_phdr app) phdr (w\<lparr>mem := m2\<rparr>) = Inr (w\<lparr>mem := ?m3\<rparr>)" "differs_in T (mem w) ?m3"
    using object_write [OF o(1), of "w\<lparr>mem := m2\<rparr>" 56 phdr] m2(2) unfolding T by (simp_all add: im_phdr_def)
  have d4: "write64 (im_ph_ent app) ent (w\<lparr>mem := ?m3\<rparr>) = Inr (w\<lparr>mem := ?m4\<rparr>)" "differs_in T (mem w) ?m4"
    using object_write [OF o(1), of "w\<lparr>mem := ?m3\<rparr>" 72 ent] d3(2) unfolding T by (simp_all add: im_ph_ent_def)
  have d5: "write64 (im_ph_num app) (of_nat num) (w\<lparr>mem := ?m4\<rparr>) = Inr (w\<lparr>mem := ?m5\<rparr>)" "differs_in T (mem w) ?m5"
    using object_write [OF o(1), of "w\<lparr>mem := ?m4\<rparr>" 64 "of_nat num"] d4(2) unfolding T by (simp_all add: im_ph_num_def)
  have a: "word_at ?m1 aux t = word_at (mem w) aux t" if "t < 32" for t by (rule word_at_differs [OF d1(2) aux(5) that])
  have "load64 ?m1 (im_base ldso) = Inr lb" using differs_load64 [OF d1(2) self(2)] self(1) by simp
  then have "ld_find_app K lit frame aux ldso app w = Inr (w\<lparr>mem := ?m5\<rparr>)"
    using aux(1-4) self(3) a [of AT_PHDR] a [of AT_PHENT] a [of AT_PHNUM] m2(1)
    by (simp add: ld_find_app_def d1(1) d3(1) d4(1) d5(1) elf_consts)
  moreover have m: "mapped ?m5 (im_base app) 8" "mapped ?m5 (im_phdr app) 8" "mapped ?m5 (im_ph_ent app) 8" "mapped ?m5 (im_ph_num app) 8"
    "mapped m2 (im_phdr app) 8" "mapped ?m3 (im_ph_ent app) 8" "mapped ?m4 (im_ph_num app) 8"
    using mapped_part [OF o(1), of 48 8] mapped_part [OF o(1), of 56 8] mapped_part [OF o(1), of 72 8] mapped_part [OF o(1), of 64 8]
      differs_mapped [OF d5(2)] differs_mapped [OF d3(2)] differs_mapped [OF m2(2)] differs_mapped [OF d4(2)]
    by (simp_all add: im_base_def im_phdr_def im_ph_ent_def im_ph_num_def)
  moreover have "load64 ?m5 (im_base app) = Inr base" "load64 ?m5 (im_phdr app) = Inr phdr" "load64 ?m5 (im_ph_ent app) = Inr ent"
    "load64 ?m5 (im_ph_num app) = Inr (of_nat num)"
    using o(2) m2(3) m unfolding im_base_def im_phdr_def im_ph_ent_def im_ph_num_def
    by (simp_all add: load64_poke_same load64_poke_disj disj_range_apart unat_add_no_wrap del: le_bytes.simps)
  ultimately show thesis using d5(2) by (intro that [of ?m5])
qed

section \<open>The dynamic section\<close>

lemma ld_read_dynamic_runs:
  fixes w :: "'k world"
  assumes aux: "word_at (mem w) aux AT_PHDR = Inr phdr" "word_at (mem w) aux AT_PHENT = Inr ent" "word_at (mem w) aux AT_PHNUM = Inr (of_nat num)"
    and dyn: "last_phdr (mem w) phdr ent (of_nat num) PT_DYNAMIC 0 None = Inr (Some ph)" "p_vaddr (mem w) ph = Inr (t - base)"
      "signed_table (mem w) t es"
    and a: "mapped (mem w) a (8 * 37)" "unat a + 8 * 37 < 2 ^ 64" "disj_range a (8 * 37) t (16 * (length es + 1))"
    and app: "load64 (mem w) (im_base app) = Inr base" "mapped (mem w) app 112" "unat app + 112 \<le> 2 ^ 64" "disj_range a (8 * 37) app 112"
  obtains m z where "ld_read_dynamic a aux app w = Inr (w\<lparr>mem := m\<rparr>)" "dyn_array m a ((tag_value es)(0 := z))"
    "load64 m (im_dyn app) = Inr a" "differs_in (\<lambda>x. in_range x a (8 * 37) \<or> in_range x (im_dyn app) 8) (mem w) m"
proof -
  have c: "DYN_CNT = 37" by (simp add: DYN_CNT_def)
  let ?xs = "foldl put_seen (replicate 37 0) es"
  obtain m1 m2 where m: "zero_words_loop a 37 0 (mem w) = Inr m1" "dyn_loop_signed t a 0 m1 = Inr m2"
    "array_at m2 a ?xs" "same_outside (mem w) m2 a (8 * 37)"
    using signed_scan.clear_and_scan [OF dyn(3), of a] a by (auto simp: c)
  have w2: "word_at m2 a k = Inr (?xs ! k)" if "k < 37" for k using m(3) that by (simp add: array_at_def)
  have val: "?xs ! k = tag_value es k" if "k < 37" "k \<noteq> 0" for k
    using put_seen_nth [of k "replicate 37 0" es] nth_put_tags [of k "replicate 37 0" es] that
    by (simp add: tag_value_def split: option.splits)
  have d: "dyn_array m2 a ((tag_value es)(0 := ?xs ! 0))" using w2 val by (simp add: dyn_array_def)
  have "m2 x \<noteq> None \<longleftrightarrow> mem w x \<noteq> None" for x
    using m(4) array_mapped [of 37 m2 a x] w2 mappedD [OF a(1), of x]
    by (cases "in_range x a (8 * 37)") (auto simp: same_outside_def)
  then have d2: "differs_in (\<lambda>x. in_range x a (8 * 37) \<or> in_range x (im_dyn app) 8) (mem w) m2"
    using m(4) by (simp add: differs_in_def same_outside_def set_eq_iff domIff)
  let ?m = "poke m2 (im_dyn app) (le_bytes 8 a)"
  have mp: "mapped m2 (im_dyn app) 8"
    using mapped_part [OF app(2), of 104 8] by (simp add: differs_mapped [OF d2] im_dyn_def)
  have away: "disj_range (im_dyn app) 8 a (8 * 37)"
  proof -
    have "in_range x app 112" if "in_range x (im_dyn app) 8" for x
      using sub_range_in_range [of x app 104 8 112] that app(3) by (simp add: im_dyn_def)
    then show ?thesis using app(4) by (auto simp: disj_range_def)
  qed
  have "load64 (mem w) (im_base app) = Inr base" by (rule app(1))
  then have "ld_read_dynamic a aux app w = Inr (w\<lparr>mem := ?m\<rparr>)"
    using aux dyn(1,2) m(1,2) mp by (simp add: ld_read_dynamic_def c write64_mapped)
  moreover have "dyn_array ?m a ((tag_value es)(0 := ?xs ! 0))"
    using dyn_array_write_all [OF d, of "[(im_dyn app, a)]"] away a(2) by simp
  moreover have "load64 ?m (im_dyn app) = Inr a" using mp by (rule load64_poke_same)
  moreover have "differs_in (\<lambda>x. in_range x a (8 * 37) \<or> in_range x (im_dyn app) 8) (mem w) ?m"
    by (rule differs_poke [OF d2]) (use mp in \<open>simp_all add: differs_mapped [OF d2] inside_def\<close>)
  ultimately show thesis by (rule that)
qed

section \<open>The two records\<close>

definition image_pool_at :: "'k kernel \<Rightarrow> addr \<Rightarrow> addr \<Rightarrow> 'k Cia_Pool" where
  "image_pool_at K a h = \<lparr>pl_allocator = cia_allocator_pages K, pl_first = a, pl_freelist_head = h,
     pl_buffer_size = 1 * KB, pl_bucket_size = 112, pl_alignment = 0x10\<rparr>"

lemma image_pool_fields [simp]:
  "pl_bucket_size (image_pool_at K a h) = 112" "(image_pool_at K a h)\<lparr>pl_freelist_head := g\<rparr> = image_pool_at K a g"
  by (simp_all add: image_pool_at_def)

lemma image_pool_header: "pool_header (image_pool_at K a h) = 16" "pool_count (image_pool_at K a h) = 9"
  by (simp_all add: pool_header_def pool_count_def cia_size_alignf_def sizeof_pool_buffer_header_def image_pool_at_def KB_def)

lemma image_pool_geom: "pool_geom (image_pool_at K a h)"
  unfolding pool_geom_def image_pool_header by (simp add: image_pool_at_def KB_def is_pow2_16 fits_def)

lemma image_pool_runs:
  fixes w :: "'k world"
  assumes K: "mmap_documented K" and m: "sys_mmap K 0 (1 * KB) (PROT_READ OR PROT_WRITE) (MAP_PRIVATE OR MAP_ANONYMOUS) (-1) 0 w = (p, w1)"
    "\<not> errno_result p"
  obtains P0 P1 P2 ldso app w' where "cia_pool_create (cia_allocator_pages K) (1 * KB) sizeof_Elf_Image 0x10 w = Inr (P0, w')"
    "cia_pool_alloc P0 w' = Inr (ldso, P1, w')" "cia_pool_alloc P1 w' = Inr (app, P2, w')"
    "mapped (mem w') ldso 112" "unat ldso + 112 \<le> 2 ^ 64" "mapped (mem w') app 112" "unat app + 112 \<le> 2 ^ 64" "disj_range ldso 112 app 112"
    "dom (mem w') = dom (mem w) \<union> {x. in_range x p 4096}" "\<And>x. mem w x \<noteq> None \<Longrightarrow> mem w' x = mem w x"
    "\<And>x. in_range x ldso 112 \<or> in_range x app 112 \<Longrightarrow> mem w x = None"
proof -
  have P: "image_pool_at K p 0 = \<lparr>pl_allocator = cia_allocator_pages K, pl_first = p, pl_freelist_head = 0, pl_buffer_size = 1 * KB,
      pl_bucket_size = pool_bucket_size sizeof_Elf_Image 0x10, pl_alignment = 0x10\<rparr>"
    by (simp add: image_pool_at_def pool_bucket_size_def sizeof_pool_bucket_def sizeof_Elf_Image_def cia_size_alignf_def)
  have r: "page_round (unat (1 * KB)) = 4096" and al: "(0x10 :: u64) \<le> 0x1000" by (simp_all add: page_round_small KB_def)
  let ?F = "pool_buckets (image_pool_at K p 0) p"
  obtain h w' where c: "cia_pool_create (cia_allocator_pages K) (1 * KB) sizeof_Elf_Image 0x10 w = Inr (image_pool_at K p h, w')"
    "pool_inv K (image_pool_at K p h) w' ?F {}" "dom (mem w') = dom (mem w) \<union> {x. in_range x p 4096}"
    "\<And>x. mem w x \<noteq> None \<Longrightarrow> mem w' x = mem w x" "\<And>x. in_range x p 4096 \<Longrightarrow> mem w x = None"
    by (rule pages_pool_create [OF K image_pool_geom al P m, unfolded r image_pool_fields]) (rule that)
  have "length ?F = 9" by (simp add: pool_buckets_def buckets_def image_pool_header)
  then obtain ldso app F where F: "?F = ldso # app # F" by (auto simp: length_Suc_conv numeral_eq_Suc)
  obtain h1 where p1: "cia_pool_alloc (image_pool_at K p h) w' = Inr (ldso, image_pool_at K p h1, w')"
      "pool_inv K (image_pool_at K p h1) w' (app # F) {ldso}"
    using pool_inv_take [OF c(2) [unfolded F]] by (metis image_pool_fields(2))
  obtain h2 where p2: "cia_pool_alloc (image_pool_at K p h1) w' = Inr (app, image_pool_at K p h2, w')"
      "app \<notin> {ldso}" "pool_inv K (image_pool_at K p h2) w' F {app, ldso}"
    using pool_inv_take [OF p1(2)] by (metis image_pool_fields(2))
  have ok: "bucket_ok (image_pool_at K p h2) (mem w') b" if "b \<in> {app, ldso}" for b
    using p2(3) that by (auto simp: pool_inv_def pool_ok_def)
  have "cells_apart (set F \<union> {app, ldso}) 112" using p2(3) by (simp add: pool_inv_def pool_ok_def)
  then have d: "disj_range ldso 112 app 112" using p2(2) by (auto intro: cells_apartD [of _ 112])
  have bok: "buffer_ok (image_pool_at K p h) p (mem w')"
    using c(2) by (simp add: pool_inv_def header_ok_def image_pool_at_def)
  have "mem w x = None" if "b \<in> {ldso, app}" "in_range x b 112" for b x
  proof -
    have "b \<in> set (pool_buckets (image_pool_at K p h) p)"
      using that(1) F by (auto simp: pool_buckets_def image_pool_header)
    from bucket_in_buffer(1) [OF image_pool_geom bok this, of x] that(2) have "in_range x p (unat (1 * KB))"
      by (simp add: image_pool_at_def)
    then have "in_range x p 4096" by (rule in_range_mono) (simp add: KB_def)
    then show ?thesis by (rule c(5))
  qed
  then show thesis
    using that [OF c(1) p1(1) p2(1) _ _ _ _ d c(3,4)] ok [of ldso] ok [of app] by (auto simp: bucket_ok_def)
qed

section \<open>Memory that agrees with the one at the start\<close>

text \<open>What was mapped at the start still is, and has changed in the region \<open>D\<close> only.\<close>

definition agrees :: "(addr \<Rightarrow> bool) \<Rightarrow> mem \<Rightarrow> mem \<Rightarrow> bool" where
  "agrees D m m' \<longleftrightarrow> (\<forall>x. m x \<noteq> None \<longrightarrow> m' x \<noteq> None \<and> (\<not> D x \<longrightarrow> m' x = m x))"

lemma agrees_differs:
  assumes "agrees D m m'" "differs_in T m' m''" "\<And>x. T x \<Longrightarrow> m x \<noteq> None \<Longrightarrow> D x"
  shows "agrees D m m''"
  unfolding agrees_def
proof (intro allI impI)
  fix x assume x: "m x \<noteq> None"
  then have a: "m' x \<noteq> None" "\<not> D x \<Longrightarrow> m' x = m x" using assms(1) by (simp_all add: agrees_def)
  have "x \<in> dom m''" using assms(2) a(1) by (simp add: differs_in_def domIff)
  moreover have "m'' x = m x" if "\<not> D x"
  proof -
    have "\<not> T x" using assms(3) x that by blast
    then show ?thesis using assms(2) a(2) that by (simp add: differs_in_def)
  qed
  ultimately show "m'' x \<noteq> None \<and> (\<not> D x \<longrightarrow> m'' x = m x)" by (simp add: domIff)
qed

lemma agrees_mapped: "agrees D m m' \<Longrightarrow> mapped m a n \<Longrightarrow> mapped m' a n"
  by (simp add: agrees_def mapped_def)

lemma agrees_load64: "agrees D m m' \<Longrightarrow> load64 m a = Inr v \<Longrightarrow> spared D a 8 \<Longrightarrow> load64 m' a = Inr v"
  using load64_cong [of a m' m] load64_InrD [of m a v] by (simp add: agrees_def mapped_def spared_def)

lemma agrees_load32: "agrees D m m' \<Longrightarrow> load32 m a = Inr v \<Longrightarrow> spared D a 4 \<Longrightarrow> load32 m' a = Inr v"
  using load32_cong [of a m' m] load32_InrD [of m a v] by (simp add: agrees_def mapped_def spared_def)

lemma agrees_load16: "agrees D m m' \<Longrightarrow> load16 m a = Inr v \<Longrightarrow> mapped m a 2 \<Longrightarrow> spared D a 2 \<Longrightarrow> load16 m' a = Inr v"
  using load_bytes_cong [of a 2 m' m] by (simp add: agrees_def mapped_def spared_def load16_def)

lemma last_phdr_cong:
  assumes "\<forall>i<n. p_type m' (phdr + of_nat i * ent) = p_type m (phdr + of_nat i * ent)" "n < 2 ^ 64" "i \<le> n"
  shows "last_phdr m' phdr ent (of_nat n) type (of_nat i) found = last_phdr m phdr ent (of_nat n) type (of_nat i) found"
  using assms(3)
proof (induction i arbitrary: found rule: inc_induct)
  case base
  then show ?case by (simp add: last_phdr.simps [of _ _ _ "of_nat n" _ "of_nat n"])
next
  case (step i)
  have "p_type m' (phdr + of_nat i * ent) = p_type m (phdr + of_nat i * ent)" using assms(1) step(2) by blast
  moreover have "last_phdr m' phdr ent (of_nat n) type (of_nat i + 1) f = last_phdr m phdr ent (of_nat n) type (of_nat i + 1) f" for f
    using step.IH by (simp add: add.commute)
  ultimately show ?case by (subst (1 2) last_phdr.simps) simp
qed

text \<open>What the headers of a program say, and that they lie outside a region.\<close>

definition program_headers :: "mem \<Rightarrow> handover \<Rightarrow> bool" where
  "program_headers m h \<longleftrightarrow>
     e_entry m (ho_base h) = Inr (ho_entry h) \<and> ho_phnum h < 2 ^ 64
     \<and> (\<forall>j<ho_phnum h. mapped m (ho_phdr h + of_nat j * ho_phent h) 56)
     \<and> first_phdr m (ho_phdr h) (ho_phent h) (of_nat (ho_phnum h)) PT_TLS 0 = Inr (map_option fst (ho_tls h))
     \<and> (case ho_tls h of None \<Rightarrow> True
        | Some (ph, img, n) \<Rightarrow> p_vaddr m ph = Inr (img - ho_base h) \<and> p_memsz m ph = Inr (of_nat n) \<and> n < 2 ^ 31 \<and> mapped m img n)"

definition headers_spared :: "(addr \<Rightarrow> bool) \<Rightarrow> handover \<Rightarrow> bool" where
  "headers_spared D h \<longleftrightarrow> spared D (ho_base h + 24) 8 \<and> (\<forall>j<ho_phnum h. spared D (ho_phdr h + of_nat j * ho_phent h) 56)
     \<and> (case ho_tls h of None \<Rightarrow> True | Some (ph, img, n) \<Rightarrow> spared D (ph + 16) 8 \<and> spared D (ph + 40) 8)"

lemma headers_type:
  assumes "program_headers m h" "agrees D m m'" "headers_spared D h" "j < ho_phnum h"
  shows "p_type m' (ho_phdr h + of_nat j * ho_phent h) = p_type m (ho_phdr h + of_nat j * ho_phent h)"
proof -
  let ?a = "ho_phdr h + of_nat j * ho_phent h"
  have "mapped m ?a 56" "spared D ?a 56" using assms(1,3,4) by (simp_all add: program_headers_def headers_spared_def)
  then have "mapped m ?a 4" "spared D ?a 4" using mapped_part [of m ?a 56 0 4] spared_sub [of D ?a 56 0 4] by simp_all
  then show ?thesis using agrees_load32 [OF assms(2)] by (simp add: p_type_def load32_mapped)
qed

lemma headers_kept:
  assumes "program_headers m h" "agrees D m m'" "headers_spared D h"
  shows "program_headers m' h"
proof -
  have "first_phdr m' (ho_phdr h) (ho_phent h) (of_nat (ho_phnum h)) PT_TLS 0 =
      first_phdr m (ho_phdr h) (ho_phent h) (of_nat (ho_phnum h)) PT_TLS 0"
    using headers_type [OF assms] assms(1) by (intro first_phdr_cong [of _ m' _ _ m 0, simplified]) (simp_all add: program_headers_def)
  then show ?thesis
    using assms(1,3) agrees_load64 [OF assms(2)] agrees_mapped [OF assms(2)]
    unfolding program_headers_def headers_spared_def e_entry_def p_vaddr_def p_memsz_def
    by (simp split: option.splits prod.splits)
qed

section \<open>Stage 2 up to the relocated program\<close>

text \<open>The objects of the loader: two records from the pool and the information block from the arena.\<close>

definition loader_objects :: "addr \<Rightarrow> addr \<Rightarrow> addr \<Rightarrow> mem \<Rightarrow> bool" where
  "loader_objects ldso app info m \<longleftrightarrow>
     mapped m ldso 112 \<and> unat ldso + 112 \<le> 2 ^ 64 \<and> mapped m app 112 \<and> unat app + 112 \<le> 2 ^ 64
     \<and> mapped m info 48 \<and> unat info + 48 \<le> 2 ^ 64
     \<and> disj_range ldso 112 app 112 \<and> disj_range info 48 ldso 112 \<and> disj_range info 48 app 112"

definition object_region :: "addr \<Rightarrow> addr \<Rightarrow> addr \<Rightarrow> addr \<Rightarrow> bool" where
  "object_region ldso app info x \<longleftrightarrow> in_range x ldso 112 \<or> in_range x app 112 \<or> in_range x info 48"

lemma objects_kept: "loader_objects ldso app info m \<Longrightarrow> differs_in T m m' \<Longrightarrow> loader_objects ldso app info m'"
  by (simp add: loader_objects_def differs_mapped)

lemma stage2_records:
  fixes w :: "'k world"
  assumes K: "mmap_documented K"
    and pool: "sys_mmap K 0 (1 * KB) (PROT_READ OR PROT_WRITE) (MAP_PRIVATE OR MAP_ANONYMOUS) (-1) 0 w = (p, wp)" "\<not> errno_result p"
    and arena: "\<forall>P v. cia_pool_create (cia_allocator_pages K) (1 * KB) sizeof_Elf_Image 0x10 w = Inr (P, v) \<longrightarrow>
      fst (sys_mmap K 0 (1 * MB) (PROT_READ OR PROT_WRITE) (MAP_PRIVATE OR MAP_ANONYMOUS) (-1) 0 v) = info" "\<not> errno_result info"
  obtains ldso app v where
    "ld_stage2_entry K lit crt_entry fr si i w = bind_res (ld_read_self lit ldso v) (\<lambda>w.
       bind_res (ld_find_app K lit (fr_print fr) (li_aux i) ldso app w) (\<lambda>w.
       bind_res (ld_read_dynamic (fr_dyn2 fr) (li_aux i) app w) (\<lambda>w.
       bind_res (ld_relocate_app K lit fr app w) (\<lambda>w.
       bind_res (ld_switch_stack K lit crt_entry fr si info app w) (\<lambda>w. sys_exit K 0 w)))))"
    "loader_objects ldso app info (mem v)" "\<And>x. object_region ldso app info x \<Longrightarrow> mem w x = None"
    "agrees (\<lambda>_. False) (mem w) (mem v)" "load64 (mem v) (im_base ldso) = Inr (li_ldso_base i)"
    "load64 (mem v) (s3_app info) = Inr app" "load64 (mem v) (s3_tls_image info) = Inr 0"
    "dom (mem v) = dom (mem w) \<union> {x. in_range x p 4096 \<or> in_range x info (2 ^ 20)}"
proof -
  obtain P0 P1 P2 ldso app w1 where c: "cia_pool_create (cia_allocator_pages K) (1 * KB) sizeof_Elf_Image 0x10 w = Inr (P0, w1)"
    "cia_pool_alloc P0 w1 = Inr (ldso, P1, w1)" "cia_pool_alloc P1 w1 = Inr (app, P2, w1)"
    and o: "mapped (mem w1) ldso 112" "unat ldso + 112 \<le> 2 ^ 64" "mapped (mem w1) app 112" "unat app + 112 \<le> 2 ^ 64" "disj_range ldso 112 app 112"
    and d1: "dom (mem w1) = dom (mem w) \<union> {x. in_range x p 4096}" and k1: "\<And>x. mem w x \<noteq> None \<Longrightarrow> mem w1 x = mem w x"
    and n1: "\<And>x. in_range x ldso 112 \<or> in_range x app 112 \<Longrightarrow> mem w x = None"
    by (rule image_pool_runs [OF K pool]) (rule that)
  obtain w2 where mm: "sys_mmap K 0 (1 * MB) (PROT_READ OR PROT_WRITE) (MAP_PRIVATE OR MAP_ANONYMOUS) (-1) 0 w1 = (info, w2)"
    using arena(1) c(1) by (metis prod.collapse)
  have MB: "1 * MB = (0x100000 :: u64)" by (simp add: MB_def KB_def)
  have "page_round (unat (1 * MB)) = 2 ^ 20" by (simp add: MB_def KB_def page_round_dvd page_size_def)
  then have fz: "fresh_zeroed info (2 ^ 20) (mem w1) (mem w2)"
    using mmap_documentedD [OF K _ mm arena(2)] by (simp add: MB_def KB_def)
  have ar: "cia_arena_create (cia_allocator_pages K) (1 * MB) w1 =
      Inr (\<lparr>ar_allocator = cia_allocator_pages K, ar_buffer_size = 1 * MB, ar_used = 0, ar_buffer = info\<rparr>, w2)"
    using K mm by (simp add: cia_arena_create_def allocator_defs rt_mem_alloc_eq MB_def KB_def)
  have b: "unat info + 2 ^ 20 \<le> 2 ^ 47" using fz by (simp add: fresh_zeroed_def)
  have mi: "mapped (mem w2) info 48" using fresh_zeroed_mapped [OF fz, of 48] by simp
  have m2: "mapped (mem w2) ldso 112" "mapped (mem w2) app 112" using fresh_zeroed_old_mapped [OF fz] o by blast+
  have di: "disj_range info 48 ldso 112" "disj_range info 48 app 112"
    using disj_range_mono [OF disj_range_sym [OF fresh_zeroed_disjoint [OF fz o(1)]], of 48 112]
      disj_range_mono [OF disj_range_sym [OF fresh_zeroed_disjoint [OF fz o(3)]], of 48 112] by simp_all
  have obj2: "loader_objects ldso app info (mem w2)" using o m2 mi di b by (simp add: loader_objects_def)
  have ag2: "agrees (\<lambda>_. False) (mem w) (mem w2)"
    using k1 fresh_zeroed_old [OF fz] by (simp add: agrees_def)
  have new: "mem w x = None" if "object_region ldso app info x" for x
  proof -
    have "mem w1 x = None" if "in_range x info 48"
      using fz in_range_mono [OF that, of "2 ^ 20"] by (simp add: fresh_zeroed_def)
    then show ?thesis using n1 k1 that unfolding object_region_def by metis
  qed
  let ?I = "\<lambda>x. in_range x info 48" and ?L = "\<lambda>x. in_range x ldso 112"
  let ?v1 = "w2\<lparr>mem := poke (mem w2) (s3_app info) (le_bytes 8 app)\<rparr>"
  let ?v2 = "?v1\<lparr>mem := poke (mem ?v1) (s3_ldso info) (le_bytes 8 ldso)\<rparr>"
  let ?v3 = "?v2\<lparr>mem := poke (mem ?v2) (im_base ldso) (le_bytes 8 (li_ldso_base i))\<rparr>"
  let ?v4 = "?v3\<lparr>mem := poke (mem ?v3) (im_dyn ldso) (le_bytes 8 (li_dyn i))\<rparr>"
  have i1: "write64 (s3_app info) app w2 = Inr ?v1" "differs_in ?I (mem w2) (mem ?v1)" "load64 (mem ?v1) (s3_app info) = Inr app"
    using object_write [OF mi _ differs_refl, of 0 app] by (simp_all add: s3_app_def)
  have i2: "write64 (s3_ldso info) ldso ?v1 = Inr ?v2" "differs_in ?I (mem w2) (mem ?v2)"
    using object_write [OF mi _ i1(2), of 8 ldso] by (simp_all add: s3_ldso_def)
  have obj3: "loader_objects ldso app info (mem ?v2)" by (rule objects_kept [OF obj2 i2(2)])
  then have ml: "mapped (mem ?v2) ldso 112" by (simp add: loader_objects_def)
  have l1: "write64 (im_base ldso) (li_ldso_base i) ?v2 = Inr ?v3" "differs_in ?L (mem ?v2) (mem ?v3)"
      "load64 (mem ?v3) (im_base ldso) = Inr (li_ldso_base i)"
    using object_write [OF ml _ differs_refl, of 48 "li_ldso_base i"] by (simp_all add: im_base_def)
  have l2: "write64 (im_dyn ldso) (li_dyn i) ?v3 = Inr ?v4" "differs_in ?L (mem ?v2) (mem ?v4)"
    using object_write [OF ml _ l1(2), of 104 "li_dyn i"] by (simp_all add: im_dyn_def)
  have "ld_stage2_entry K lit crt_entry fr si i w = bind_res (ld_read_self lit ldso ?v4) (\<lambda>w.
       bind_res (ld_find_app K lit (fr_print fr) (li_aux i) ldso app w) (\<lambda>w.
       bind_res (ld_read_dynamic (fr_dyn2 fr) (li_aux i) app w) (\<lambda>w.
       bind_res (ld_relocate_app K lit fr app w) (\<lambda>w.
       bind_res (ld_switch_stack K lit crt_entry fr si info app w) (\<lambda>w. sys_exit K 0 w)))))"
  proof -
    have "cia_arena_alloc \<lparr>ar_allocator = cia_allocator_pages K, ar_buffer_size = 1 * MB, ar_used = 0, ar_buffer = info\<rparr> sizeof_Stage3_Info =
        (info, \<lparr>ar_allocator = cia_allocator_pages K, ar_buffer_size = 1 * MB, ar_used = 1 * MB, ar_buffer = info\<rparr>)"
      by (simp add: cia_arena_alloc_def sizeof_Stage3_Info_def MB_def KB_def)
    then show ?thesis
      unfolding ld_stage2_entry_def by (simp only: c ar bind_res_simps prod.case Let_def i1(1) i2(1) l1(1) l2(1))
  qed
  moreover have "loader_objects ldso app info (mem ?v4)" by (rule objects_kept [OF obj3 l2(2)])
  moreover have "agrees (\<lambda>_. False) (mem w) (mem ?v4)"
    by (rule agrees_differs [OF agrees_differs [OF ag2 i2(2)] l2(2)]) (use new in \<open>auto simp: object_region_def\<close>)
  moreover have "load64 (mem ?v4) (im_base ldso) = Inr (li_ldso_base i)"
    using l1(3) o(2) by (simp add: im_base_def im_dyn_def load64_poke_disj disj_range_apart unat_add_no_wrap del: le_bytes.simps)
  moreover have "load64 (mem ?v4) (s3_app info) = Inr app" "load64 (mem ?v4) (s3_tls_image info) = Inr 0"
  proof -
    have "spared ?L info 48" using di(1) by (simp add: spared_disj disj_range_sym)
    then have "spared ?L (s3_app info) 8" "spared ?L (s3_tls_image info) 8"
      using spared_sub [of ?L info 48 0 8] spared_sub [of ?L info 48 32 8] by (simp_all add: s3_app_def s3_tls_image_def)
    note keep = differs_load64 [OF l2(2) this(1)] differs_load64 [OF l2(2) this(2)]
    have "peek (mem w2) (info + 32) 8 = replicate 8 0"
    proof (intro nth_equalityI)
      fix j assume "j < length (peek (mem w2) (info + 32) 8)"
      then have "j < 8" by simp
      then have "in_range (info + of_nat (32 + j)) info (2 ^ 20)" by (intro in_range_offset) simp_all
      then show "peek (mem w2) (info + 32) 8 ! j = replicate 8 0 ! j"
        using fz \<open>j < 8\<close> by (simp add: nth_peek fresh_zeroed_def add.assoc)
    qed simp
    moreover have "mapped (mem w2) (info + 32) 8" using mapped_part [OF mi, of 32 8] by simp
    ultimately have "load64 (mem w2) (s3_tls_image info) = Inr 0"
      by (simp add: s3_tls_image_def load64_mapped le_word_zeros)
    then show "load64 (mem ?v4) (s3_app info) = Inr app" "load64 (mem ?v4) (s3_tls_image info) = Inr 0"
      using keep i1(3) b by (simp_all add: s3_app_def s3_ldso_def s3_tls_image_def load64_poke_disj disj_range_apart unat_add_no_wrap
          del: le_bytes.simps)
  qed
  moreover have "dom (mem ?v4) = dom (mem w) \<union> {x. in_range x p 4096 \<or> in_range x info (2 ^ 20)}"
  proof -
    have "dom (mem w2) = dom (mem w1) \<union> {x. in_range x info (2 ^ 20)}" using fz by (auto simp: fresh_zeroed_def split: if_splits)
    moreover have "dom (mem ?v4) = dom (mem ?v2)" "dom (mem ?v2) = dom (mem w2)" using i2(2) l2(2) by (simp_all only: differs_in_def)
    ultimately show ?thesis using d1 by auto
  qed
  ultimately show thesis using new by (intro that) 
qed

lemma image_ok_update: "image_ok m base (d(0 := z)) n k = image_ok m base d n k"
    "image_writes m base (d(0 := z)) n k = image_writes m base d n k" "image_reads m base (d(0 := z)) n k = image_reads m base d n k"
  by (simp_all add: image_ok_def image_writes_def image_reads_def rela_given_def plt_given_def elf_consts fun_eq_iff)

lemma image_writes_mapped:
  assumes "image_ok m base d n k"
  shows "\<forall>(t, u)\<in>set (image_writes m base d n k). mapped m t 8"
proof -
  have "\<forall>(t, u)\<in>set (rela_writes m base (base + d DT_SYMTAB) (base + d DT_RELA) n). mapped m t 8"
    using assms by (auto simp: image_ok_def rela_given_def rela_table_ok_def rela_entry_ok_def rela_writes_def split: if_splits)
  moreover have "\<forall>(t, u)\<in>set (plt_writes m base (base + d DT_SYMTAB) (base + d DT_JMPREL) k). mapped m t 8"
    using assms by (cases "d DT_PLTGOT = 0") (auto simp: image_ok_def plt_given_def plt_table_ok_def plt_writes_def)
  ultimately show ?thesis by (auto simp: image_writes_def)
qed

lemma image_reads_mapped:
  assumes "image_ok m base d n k" "image_reads m base d n k x"
  shows "m x \<noteq> None"
proof -
  have "d DT_RELA = 0 \<Longrightarrow> n = 0" "d DT_PLTGOT = 0 \<Longrightarrow> k = 0" using assms(1) by (auto simp: image_ok_def rela_given_def plt_given_def)
  then show ?thesis
    using assms by (cases "d DT_RELA = 0"; cases "d DT_PLTGOT = 0")
      (auto simp: image_ok_def image_reads_def rela_table_ok_def rela_entry_ok_def plt_table_ok_def plt_reads_def mapped_def)
qed

lemma dom_write_all: "\<forall>(t, u)\<in>set ws. mapped m t 8 \<Longrightarrow> dom (write_all ws m) = dom m"
proof (induction ws arbitrary: m)
  case (Cons e ws)
  obtain t u where e: "e = (t, u)" by fastforce
  have d: "dom (poke m t (le_bytes 8 u)) = dom m" using Cons.prems dom_poke [of m t "le_bytes 8 u"] by (simp add: e)
  then show ?case using Cons by (simp add: e mapped_dom [OF d] del: le_bytes.simps)
qed simp

lemma write_all_agree: "m x = m' x \<Longrightarrow> write_all ws m x = write_all ws m' x"
proof (induction ws arbitrary: m m')
  case (Cons e ws)
  obtain t u where e: "e = (t, u)" by fastforce
  have "poke m t (le_bytes 8 u) x = poke m' t (le_bytes 8 u) x"
    using Cons.prems unfolding poke_def by simp
  then have "write_all ws (poke m t (le_bytes 8 u)) x = write_all ws (poke m' t (le_bytes 8 u)) x" by (rule Cons.IH)
  then show ?case by (simp add: e del: le_bytes.simps)
qed simp

text \<open>The addresses that relocation writes.\<close>

definition written :: "(addr \<times> u64) list \<Rightarrow> addr \<Rightarrow> bool" where
  "written ws x \<longleftrightarrow> (\<exists>(t, u)\<in>set ws. in_range x t 8)"

lemma differs_write_all:
  assumes "\<forall>(t, u)\<in>set ws. mapped m t 8"
  shows "differs_in (written ws) m (write_all ws m)"
proof -
  have "write_all ws m x = m x" if "\<not> written ws x" for x
    using that by (intro write_all_outside) (auto simp: written_def)
  then show ?thesis using dom_write_all [OF assms] by (simp add: differs_in_def)
qed

lemma signed_table_extends:
  assumes "signed_table m t es" "agrees (\<lambda>_. False) m m'"
  shows "signed_table m' t es"
  using assms(1) agrees_load64 [OF assms(2)] by (simp add: signed_table_def dyn_table_def spared_def)

section \<open>The tables of the program\<close>

text \<open>What the kernel tells of the program, and where its headers say that it is and that its dynamic section is.\<close>

definition aux_vector :: "mem \<Rightarrow> addr \<Rightarrow> handover \<Rightarrow> bool" where
  "aux_vector m aux h \<longleftrightarrow> mapped m aux (8 * 32) \<and> word_at m aux AT_PHDR = Inr (ho_phdr h)
     \<and> word_at m aux AT_PHENT = Inr (ho_phent h) \<and> word_at m aux AT_PHNUM = Inr (of_nat (ho_phnum h))"

definition program_located :: "mem \<Rightarrow> handover \<Rightarrow> addr \<Rightarrow> bool" where
  "program_located m h t \<longleftrightarrow>
     (\<exists>ph. last_phdr m (ho_phdr h) (ho_phent h) (of_nat (ho_phnum h)) PT_PHDR 0 None = Inr (Some ph)
        \<and> p_vaddr m ph = Inr (ho_phdr h - ho_base h))
     \<and> (\<exists>ph. last_phdr m (ho_phdr h) (ho_phent h) (of_nat (ho_phnum h)) PT_DYNAMIC 0 None = Inr (Some ph)
        \<and> p_vaddr m ph = Inr (t - ho_base h))"

lemma never_spared: "spared (\<lambda>_. False) a n" "headers_spared (\<lambda>_. False) h"
  by (simp_all add: spared_def headers_spared_def split: option.splits)

lemma aux_vector_extends: "aux_vector m aux h \<Longrightarrow> agrees (\<lambda>_. False) m m' \<Longrightarrow> aux_vector m' aux h"
  using agrees_load64 [OF _ _ never_spared(1)] agrees_mapped by (simp add: aux_vector_def word_at_def)

lemma program_located_extends:
  assumes "program_located m h t" "program_headers m h" "agrees (\<lambda>_. False) m m'"
  shows "program_located m' h t"
proof -
  have "last_phdr m' (ho_phdr h) (ho_phent h) (of_nat (ho_phnum h)) type 0 None = last_phdr m (ho_phdr h) (ho_phent h) (of_nat (ho_phnum h)) type 0 None"
    for type
    using headers_type [OF assms(2,3) never_spared(2)] assms(2)
    by (intro last_phdr_cong [of _ m' _ _ m 0, simplified]) (simp_all add: program_headers_def)
  then show ?thesis
    using assms(1) agrees_load64 [OF assms(3) _ never_spared(1)] by (auto simp: program_located_def p_vaddr_def)
qed

text \<open>The records when the headers have been read.\<close>

definition app_record :: "mem \<Rightarrow> addr \<Rightarrow> handover \<Rightarrow> bool" where
  "app_record m app h \<longleftrightarrow> load64 m (im_base app) = Inr (ho_base h) \<and> load64 m (im_phdr app) = Inr (ho_phdr h)
     \<and> load64 m (im_ph_ent app) = Inr (ho_phent h) \<and> load64 m (im_ph_num app) = Inr (of_nat (ho_phnum h))"

definition info_record :: "mem \<Rightarrow> addr \<Rightarrow> addr \<Rightarrow> bool" where
  "info_record m info app \<longleftrightarrow> load64 m (s3_app info) = Inr app \<and> load64 m (s3_tls_image info) = Inr 0"

lemma info_record_kept:
  assumes "info_record m info app" "differs_in T m m'" "spared T info 48"
  shows "info_record m' info app"
  using assms(1) differs_load64 [OF assms(2) spared_sub [OF assms(3), of 0 8]] differs_load64 [OF assms(2) spared_sub [OF assms(3), of 32 8]]
  by (simp add: info_record_def s3_app_def s3_tls_image_def)

lemma app_record_kept:
  assumes "app_record m app h" "differs_in T m m'" "spared T app 104"
  shows "app_record m' app h"
  using assms(1) differs_load64 [OF assms(2) spared_sub [OF assms(3), of 48 8]] differs_load64 [OF assms(2) spared_sub [OF assms(3), of 56 8]]
    differs_load64 [OF assms(2) spared_sub [OF assms(3), of 64 8]] differs_load64 [OF assms(2) spared_sub [OF assms(3), of 72 8]]
  by (simp add: app_record_def im_base_def im_phdr_def im_ph_num_def im_ph_ent_def)

text \<open>A region of new objects is spared by what was mapped before, and the other way round.\<close>

lemma new_spared:
  assumes "\<forall>x. object_region ldso app info x \<longrightarrow> m x = None"
  shows "mapped m a n \<Longrightarrow> (\<And>x. T x \<Longrightarrow> object_region ldso app info x) \<Longrightarrow> spared T a n"
    "inside (object_region ldso app info) a n \<Longrightarrow> (\<And>x. T x \<Longrightarrow> m x \<noteq> None) \<Longrightarrow> spared T a n"
  using assms unfolding spared_def inside_def mapped_def by metis+

lemma stage2_headers:
  fixes v :: "'k world"
  assumes o: "loader_objects ldso app info (mem v)" and new: "\<forall>x. object_region ldso app info x \<longrightarrow> m x = None"
    and ag: "agrees (\<lambda>_. False) m (mem v)" and lv: "load64 (mem v) (im_base ldso) = Inr lb" "info_record (mem v) info app"
    and aux: "aux_vector m aux h" and self: "mapped m lb 64" "ho_phdr h \<noteq> lb"
    and hd: "program_headers m h" "program_located m h t"
  obtains m' where "bind_res (ld_read_self lit ldso v) (ld_find_app K lit frame aux ldso app) = Inr (v\<lparr>mem := m'\<rparr>)"
    "differs_in (object_region ldso app info) (mem v) m'" "agrees (\<lambda>_. False) m m'" "app_record m' app h" "info_record m' info app"
proof -
  let ?n = "ho_phnum h" and ?ph = "ho_phdr h" and ?ent = "ho_phent h" and ?A = "\<lambda>x. in_range x app 112" and ?L = "\<lambda>x. in_range x ldso 112"
  have ob: "mapped (mem v) ldso 112" "unat ldso + 112 \<le> 2 ^ 64" "mapped (mem v) app 112" "unat app + 112 \<le> 2 ^ 64"
    "disj_range ldso 112 app 112" "disj_range info 48 ldso 112" "disj_range info 48 app 112"
    using o by (simp_all add: loader_objects_def)
  have T: "?A x \<Longrightarrow> object_region ldso app info x" "?L x \<Longrightarrow> object_region ldso app info x" for x by (simp_all add: object_region_def)
  note far = new_spared(1) [OF new]
  have lb: "mapped (mem v) lb 64" by (rule agrees_mapped [OF ag self(1)])
  obtain off num ent where e: "e_phoff (mem v) lb = Inr off" "e_phnum (mem v) lb = Inr num" "e_phentsize (mem v) lb = Inr ent"
    using mapped_part [OF lb, of 32 8] mapped_part [OF lb, of 56 2] mapped_part [OF lb, of 54 2]
    by (simp add: e_phoff_def e_phnum_def e_phentsize_def load64_mapped load16_def load_bytes_mapped)
  obtain m5 where m5: "ld_read_self lit ldso v = Inr (v\<lparr>mem := m5\<rparr>)" "differs_in ?L (mem v) m5" "load64 m5 (im_base ldso) = Inr lb"
    by (rule ld_read_self_runs [OF ob(1,2) lv(1) e far [OF self(1)]]) (simp add: T, rule that)
  have ag5: "agrees (\<lambda>_. False) m m5" by (rule agrees_differs [OF ag m5(2)]) (use new T in auto)
  let ?w5 = "v\<lparr>mem := m5\<rparr>"
  have a5: "aux_vector (mem ?w5) aux h" "program_located (mem ?w5) h t"
    using aux_vector_extends [OF aux ag5] program_located_extends [OF hd(2,1) ag5] by simp_all
  obtain fn where fn: "word_at (mem ?w5) aux AT_EXECFN = Inr fn"
    using mapped_part [of m5 aux "8 * 32" "8 * 31" 8] a5(1) by (simp add: aux_vector_def word_at_def elf_consts load64_mapped)
  obtain q where q: "last_phdr (mem ?w5) ?ph ?ent (of_nat ?n) PT_PHDR 0 None = Inr (Some q)" "p_vaddr (mem ?w5) q = Inr (?ph - ho_base h)"
    using a5(2) unfolding program_located_def by blast
  have hdr: "mapped m (?ph + of_nat j * ?ent) 56" if "j < ?n" for j using hd(1) that by (simp add: program_headers_def)
  have hd5: "mapped (mem ?w5) (?ph + of_nat j * ?ent) 56 \<and> spared ?A (?ph + of_nat j * ?ent) 56" if "j < ?n" for j
    using agrees_mapped [OF ag5 hdr [OF that]] far [OF hdr [OF that], of ?A] T by simp
  have n64: "?n < 2 ^ 64" using hd(1) by (simp add: program_headers_def)
  have "mapped (mem ?w5) app 112" using ob(3) by (simp add: differs_mapped [OF m5(2)])
  moreover have "spared ?A aux (8 * 32)" using far [of aux "8 * 32" ?A] aux T by (simp add: aux_vector_def)
  moreover have "spared ?A (im_base ldso) 8" using spared_sub [of ?A ldso 112 48 8] ob(5) by (simp add: spared_disj im_base_def)
  moreover have "load64 (mem ?w5) (im_base ldso) = Inr lb" using m5(3) by simp
  ultimately obtain m6 where m6: "ld_find_app K lit frame aux ldso app ?w5 = Inr (?w5\<lparr>mem := m6\<rparr>)" "differs_in ?A (mem ?w5) m6"
    "load64 m6 (im_base app) = Inr (ho_base h)" "load64 m6 (im_phdr app) = Inr ?ph" "load64 m6 (im_ph_ent app) = Inr ?ent"
    "load64 m6 (im_ph_num app) = Inr (of_nat ?n)"
    using ld_find_app_runs [where K = K and lit = lit and frame = frame, OF refl _ ob(4) fn _ _ _ _ _ _ self(2) _ n64 q] hd5 a5(1)
    unfolding aux_vector_def by metis
  have "differs_in (object_region ldso app info) (mem v) m5" using differs_weaken [OF m5(2) T(2)] .
  moreover have "differs_in (object_region ldso app info) m5 m6" using differs_weaken [OF m6(2) T(1)] by simp
  ultimately have d: "differs_in (object_region ldso app info) (mem v) m6" by (rule differs_trans)
  have ag6: "agrees (\<lambda>_. False) m m6" using m6(2) by (intro agrees_differs [OF ag5, of ?A]) (use new T in auto)
  have "info_record m5 info app" using info_record_kept [OF lv(2) m5(2)] ob(6) by (simp add: spared_disj)
  then have i: "info_record m6 info app" using info_record_kept [of m5 info app ?A m6] m6(2) ob(7) by (simp add: spared_disj)
  show thesis by (rule that [OF _ d ag6 _ i]) (use m5(1) m6 in \<open>simp_all add: app_record_def\<close>)
qed

lemma stage2_dynamic:
  fixes v :: "'k world"
  assumes o: "loader_objects ldso app info (mem v)" and new: "\<forall>x. object_region ldso app info x \<longrightarrow> m x = None"
    and ag: "agrees (\<lambda>_. False) m (mem v)" and rec: "app_record (mem v) app h" "info_record (mem v) info app"
    and aux: "aux_vector m aux h" and hd: "program_headers m h" "program_located m h t" and es: "signed_table m t es"
    and a: "mapped m a (8 * 37)" "unat a + 8 * 37 < 2 ^ 64" "disj_range a (8 * 37) t (16 * (length es + 1))"
  obtains m' z where "ld_read_dynamic a aux app v = Inr (v\<lparr>mem := m'\<rparr>)" "dyn_array m' a ((tag_value es)(0 := z))"
    "load64 m' (im_dyn app) = Inr a" "differs_in (\<lambda>x. in_range x a (8 * 37) \<or> object_region ldso app info x) (mem v) m'"
    "agrees (\<lambda>x. in_range x a (8 * 37)) m m'" "app_record m' app h" "info_record m' info app"
proof -
  let ?D = "\<lambda>x. in_range x a (8 * 37)" and ?T = "\<lambda>x. in_range x a (8 * 37) \<or> in_range x (im_dyn app) 8"
  have ob: "mapped (mem v) app 112" "unat app + 112 \<le> 2 ^ 64" "disj_range info 48 app 112"
    using o by (simp_all add: loader_objects_def)
  note far = new_spared(1) [OF new a(1)]
  have da: "disj_range a (8 * 37) app 112" "disj_range a (8 * 37) info 48"
    using far [of "\<lambda>x. in_range x app 112"] far [of "\<lambda>x. in_range x info 48"] by (simp_all add: object_region_def spared_disj)
  have av: "aux_vector (mem v) aux h" and pl: "program_located (mem v) h t"
    using aux_vector_extends [OF aux ag] program_located_extends [OF hd(2,1) ag] by simp_all
  obtain q where q: "last_phdr (mem v) (ho_phdr h) (ho_phent h) (of_nat (ho_phnum h)) PT_DYNAMIC 0 None = Inr (Some q)"
    "p_vaddr (mem v) q = Inr (t - ho_base h)" using pl unfolding program_located_def by blast
  obtain m' z where m: "ld_read_dynamic a aux app v = Inr (v\<lparr>mem := m'\<rparr>)" "dyn_array m' a ((tag_value es)(0 := z))"
    "load64 m' (im_dyn app) = Inr a" "differs_in ?T (mem v) m'"
    by (rule ld_read_dynamic_runs [OF _ _ _ q signed_table_extends [OF es ag] agrees_mapped [OF ag a(1)] a(2,3) _ ob(1,2) da(1), of aux])
      (use av rec(1) that in \<open>simp_all add: aux_vector_def app_record_def\<close>)
  have "in_range x app 112" if "in_range x (im_dyn app) 8" for x
    using sub_range_in_range [of x app 104 8 112] that ob(2) by (simp add: im_dyn_def)
  then have T: "?T x \<Longrightarrow> ?D x \<or> object_region ldso app info x" "in_range x (im_dyn app) 8 \<Longrightarrow> \<not> in_range x info 48" for x
    using ob(3) by (auto simp: object_region_def disj_range_def)
  have d: "differs_in (\<lambda>x. ?D x \<or> object_region ldso app info x) (mem v) m'" by (rule differs_weaken [OF m(4) T(1)])
  have ag': "agrees ?D m m'"
    by (rule agrees_differs [OF _ d]) (use ag new in \<open>auto simp: agrees_def\<close>)
  have "spared ?T info 48" using da(2) T(2) by (auto simp: spared_def disj_range_def)
  then have i: "info_record m' info app" by (rule info_record_kept [OF rec(2) m(4)])
  have "spared (\<lambda>x. in_range x (im_dyn app) 8) app 104"
    using ob(2) unfolding spared_disj im_dyn_def by (intro disj_range_apart) (simp add: unat_add_no_wrap)
  moreover have "spared ?D app 104" using spared_sub [of ?D app 112 0 104] disj_range_sym [OF da(1)] by (simp add: spared_disj)
  ultimately have "app_record m' app h" by (intro app_record_kept [OF rec(1) m(4)]) (simp add: spared_or)
  with m(1-3) d ag' i show thesis by (intro that)
qed

lemma stage2_relocates:
  fixes v :: "'k world"
  assumes o: "loader_objects ldso app info (mem v)" and new: "\<forall>x. object_region ldso app info x \<longrightarrow> m x = None"
    and ag: "agrees (\<lambda>x. in_range x a (8 * 37)) m (mem v)" and rec: "app_record (mem v) app h" "info_record (mem v) info app"
    and dyn: "dyn_array (mem v) a ((tag_value es)(0 := z))" "load64 (mem v) (im_dyn app) = Inr a" "unat a + 8 * 37 < 2 ^ 64" "tag_value es DT_REL = 0"
    and hd: "program_headers m h" "headers_spared (\<lambda>x. in_range x a (8 * 37)) h"
    and image: "image_ok m (ho_base h) (tag_value es) n k" "ws = image_writes m (ho_base h) (tag_value es) n k"
      "\<forall>x. image_reads m (ho_base h) (tag_value es) n k x \<longrightarrow> \<not> in_range x a (8 * 37)"
      "\<forall>(t, u)\<in>set ws. disj_range t 8 a (8 * 37)" "headers_spared (written ws) h"
  shows "fr_dyn2_kept fr \<Longrightarrow> ld_relocate_app K lit fr app v = Inr (v\<lparr>mem := write_all ws (mem v)\<rparr>)"
    "differs_in (written ws) (mem v) (write_all ws (mem v))" "program_in (write_all ws (mem v)) info (h\<lparr>ho_app := app\<rparr>)"
    "info_record (write_all ws (mem v)) info app"
proof -
  let ?D = "\<lambda>x. in_range x a (8 * 37)" and ?d = "tag_value es" and ?B = "ho_base h" and ?m = "write_all ws (mem v)"
  have "keeps (image_reads m ?B ?d n k) m (mem v)"
    using ag image(3) image_reads_mapped [OF image(1)] by (auto simp: keeps_def agrees_def)
  note same = image_same [OF this image(1)]
  have b: "load64 (mem v) (im_base app) = Inr ?B" using rec(1) by (simp add: app_record_def)
  show "ld_relocate_app K lit fr app v = Inr (v\<lparr>mem := ?m\<rparr>)" if "fr_dyn2_kept fr"
    using ld_relocate_app_refines [OF b, of a "?d(0 := z)" n k fr K lit] that dyn same(1,2) image(2,4)
    by (simp add: image_ok_update elf_consts)
  have wm: "\<forall>(t, u)\<in>set ws. mapped m t 8" using image_writes_mapped [OF image(1)] image(2) by simp
  then have "\<forall>(t, u)\<in>set ws. mapped (mem v) t 8" using agrees_mapped [OF ag] by fastforce
  then show d: "differs_in (written ws) (mem v) ?m" by (rule differs_write_all)
  have w: "m x \<noteq> None" if "written ws x" for x using wm that by (fastforce simp: written_def mapped_def)
  note far = new_spared(2) [OF new _ w]
  have "spared (written ws) app 104" "spared (written ws) info 48"
    using in_range_mono [of _ app 104 112] by (auto intro!: far simp: inside_def object_region_def)
  then have r: "app_record ?m app h" and i: "info_record ?m info app"
    using app_record_kept [OF rec(1) d] info_record_kept [OF rec(2) d] by simp_all
  show "info_record ?m info app" by (rule i)
  have ag': "agrees (\<lambda>x. ?D x \<or> written ws x) m ?m"
    using ag by (intro agrees_differs [OF _ d]) (auto simp: agrees_def)
  have "headers_spared (\<lambda>x. ?D x \<or> written ws x) h"
    using hd(2) image(5) by (auto simp: headers_spared_def spared_def split: option.splits)
  from headers_kept [OF hd(1) ag' this] show "program_in ?m info (h\<lparr>ho_app := app\<rparr>)"
    using r i by (simp add: program_in_def program_headers_def app_record_def info_record_def split: option.splits prod.splits)
qed

section \<open>The program is loaded\<close>

lemma stage2_program_loaded:
  fixes w :: "'k world"
  assumes K: "mmap_documented K"
    and pool: "sys_mmap K 0 (1 * KB) (PROT_READ OR PROT_WRITE) (MAP_PRIVATE OR MAP_ANONYMOUS) (-1) 0 w = (p, wp)" "\<not> errno_result p"
    and arena: "\<forall>P v. cia_pool_create (cia_allocator_pages K) (1 * KB) sizeof_Elf_Image 0x10 w = Inr (P, v) \<longrightarrow>
      fst (sys_mmap K 0 (1 * MB) (PROT_READ OR PROT_WRITE) (MAP_PRIVATE OR MAP_ANONYMOUS) (-1) 0 v) = info" "\<not> errno_result info"
    and aux: "aux_vector (mem w) (li_aux i) h" and self: "mapped (mem w) (li_ldso_base i) 64" "ho_phdr h \<noteq> li_ldso_base i"
    and hd: "program_headers (mem w) h" "program_located (mem w) h t" "headers_spared (\<lambda>x. in_range x (fr_dyn2 fr) (8 * 37)) h"
    and dyn: "signed_table (mem w) t es" "tag_value es DT_REL = 0"
    and arr: "mapped (mem w) (fr_dyn2 fr) (8 * 37)" "unat (fr_dyn2 fr) + 8 * 37 < 2 ^ 64"
      "disj_range (fr_dyn2 fr) (8 * 37) t (16 * (length es + 1))"
    and image: "image_ok (mem w) (ho_base h) (tag_value es) n k" "ws = image_writes (mem w) (ho_base h) (tag_value es) n k"
      "\<forall>x. image_reads (mem w) (ho_base h) (tag_value es) n k x \<longrightarrow> \<not> in_range x (fr_dyn2 fr) (8 * 37)"
      "\<forall>(t, u)\<in>set ws. disj_range t 8 (fr_dyn2 fr) (8 * 37)" "headers_spared (written ws) h"
  shows "if fr_dyn2_kept fr
    then \<exists>app v. ld_stage2_entry K lit crt_entry fr si i w =
        bind_res (ld_switch_stack K lit crt_entry fr si info app v) (\<lambda>w. sys_exit K 0 w)
      \<and> program_in (mem v) info (h\<lparr>ho_app := app\<rparr>) \<and> load64 (mem v) (s3_tls_image info) = Inr 0
      \<and> (\<forall>x. mem w x \<noteq> None \<and> \<not> in_range x (fr_dyn2 fr) (8 * 37) \<longrightarrow> mem v x = write_all ws (mem w) x)
      \<and> dom (mem v) = dom (mem w) \<union> {x. in_range x p 4096 \<or> in_range x info (2 ^ 20)}
      \<and> mapped (mem v) info 48 \<and> unat info + 48 \<le> 2 ^ 64 \<and> mapped (mem v) app 112 \<and> disj_range info 48 app 112
      \<and> (\<forall>x. in_range x info 48 \<or> in_range x app 112 \<longrightarrow> mem w x = None)
    else ld_stage2_entry K lit crt_entry fr si i w = Inl (Undefined DeadObject)"
proof -
  obtain ldso app v where r: "ld_stage2_entry K lit crt_entry fr si i w = bind_res (ld_read_self lit ldso v) (\<lambda>w.
       bind_res (ld_find_app K lit (fr_print fr) (li_aux i) ldso app w) (\<lambda>w.
       bind_res (ld_read_dynamic (fr_dyn2 fr) (li_aux i) app w) (\<lambda>w.
       bind_res (ld_relocate_app K lit fr app w) (\<lambda>w.
       bind_res (ld_switch_stack K lit crt_entry fr si info app w) (\<lambda>w. sys_exit K 0 w)))))"
    and o: "loader_objects ldso app info (mem v)" and n: "\<And>x. object_region ldso app info x \<Longrightarrow> mem w x = None"
    and ag: "agrees (\<lambda>_. False) (mem w) (mem v)" and lv: "load64 (mem v) (im_base ldso) = Inr (li_ldso_base i)"
    "load64 (mem v) (s3_app info) = Inr app" "load64 (mem v) (s3_tls_image info) = Inr 0"
    and dv: "dom (mem v) = dom (mem w) \<union> {x. in_range x p 4096 \<or> in_range x info (2 ^ 20)}"
    by (rule stage2_records [OF K pool arena]) (rule that)
  have new: "\<forall>x. object_region ldso app info x \<longrightarrow> mem w x = None" using n by blast
  have iv: "info_record (mem v) info app" using lv(2,3) by (simp add: info_record_def)
  obtain m1 where 1: "bind_res (ld_read_self lit ldso v) (ld_find_app K lit (fr_print fr) (li_aux i) ldso app) = Inr (v\<lparr>mem := m1\<rparr>)"
    "differs_in (object_region ldso app info) (mem v) m1" "agrees (\<lambda>_. False) (mem w) m1" "app_record m1 app h" "info_record m1 info app"
    by (rule stage2_headers [OF o new ag lv(1) iv aux self hd(1,2)]) (rule that)
  let ?v1 = "v\<lparr>mem := m1\<rparr>"
  have v1: "loader_objects ldso app info (mem ?v1)" "agrees (\<lambda>_. False) (mem w) (mem ?v1)" "app_record (mem ?v1) app h" "info_record (mem ?v1) info app"
    using objects_kept [OF o 1(2)] 1(3-5) by simp_all
  obtain m2 z where 2: "ld_read_dynamic (fr_dyn2 fr) (li_aux i) app ?v1 = Inr (?v1\<lparr>mem := m2\<rparr>)" "dyn_array m2 (fr_dyn2 fr) ((tag_value es)(0 := z))"
    "load64 m2 (im_dyn app) = Inr (fr_dyn2 fr)" "differs_in (\<lambda>x. in_range x (fr_dyn2 fr) (8 * 37) \<or> object_region ldso app info x) (mem ?v1) m2"
    "agrees (\<lambda>x. in_range x (fr_dyn2 fr) (8 * 37)) (mem w) m2" "app_record m2 app h" "info_record m2 info app"
    by (rule stage2_dynamic [OF v1(1) new v1(2-4) aux hd(1,2) dyn(1) arr]) (rule that)
  let ?v2 = "v\<lparr>mem := m2\<rparr>" and ?v3 = "v\<lparr>mem := write_all ws m2\<rparr>"
  have o2: "loader_objects ldso app info (mem ?v2)" using objects_kept [OF v1(1) 2(4)] by simp
  have v2: "agrees (\<lambda>x. in_range x (fr_dyn2 fr) (8 * 37)) (mem w) (mem ?v2)" "app_record (mem ?v2) app h" "info_record (mem ?v2) info app"
    "dyn_array (mem ?v2) (fr_dyn2 fr) ((tag_value es)(0 := z))" "load64 (mem ?v2) (im_dyn app) = Inr (fr_dyn2 fr)"
    using 2 by simp_all
  note 3 = stage2_relocates [OF o2 new v2 arr(2) dyn(2) hd(1,3) image]
  have run: "ld_stage2_entry K lit crt_entry fr si i w = bind_res (ld_relocate_app K lit fr app ?v2) (\<lambda>w.
       bind_res (ld_switch_stack K lit crt_entry fr si info app w) (\<lambda>w. sys_exit K 0 w))"
  proof -
    have "ld_stage2_entry K lit crt_entry fr si i w =
        bind_res (bind_res (ld_read_self lit ldso v) (ld_find_app K lit (fr_print fr) (li_aux i) ldso app)) (\<lambda>w.
       bind_res (ld_read_dynamic (fr_dyn2 fr) (li_aux i) app w) (\<lambda>w.
       bind_res (ld_relocate_app K lit fr app w) (\<lambda>w.
       bind_res (ld_switch_stack K lit crt_entry fr si info app w) (\<lambda>w. sys_exit K 0 w))))"
      by (simp only: r bind_res_assoc)
    then show ?thesis using 1(1) 2(1) by simp
  qed
  show ?thesis
  proof (cases "fr_dyn2_kept fr")
    case False
    have "load64 (mem ?v2) (im_base app) = Inr (ho_base h)" using v2(2) by (simp add: app_record_def)
    then have "ld_relocate_app K lit fr app ?v2 = Inl (Undefined DeadObject)"
      using v2(5) False by (simp add: ld_relocate_app_def)
    then show ?thesis using run False by simp
  next
    case True
    have "ld_stage2_entry K lit crt_entry fr si i w = bind_res (ld_switch_stack K lit crt_entry fr si info app ?v3) (\<lambda>w. sys_exit K 0 w)"
      using run 3(1) [OF True] by simp
    moreover have "mem ?v3 x = write_all ws (mem w) x" if "mem w x \<noteq> None" "\<not> in_range x (fr_dyn2 fr) (8 * 37)" for x
      using write_all_agree [of m2 x "mem w" ws] 2(5) that by (simp add: agrees_def)
    moreover have "dom (mem ?v3) = dom (mem w) \<union> {x. in_range x p 4096 \<or> in_range x info (2 ^ 20)}"
      using dv 1(2) 2(4) 3(2) by (simp add: differs_in_def)
    moreover have "loader_objects ldso app info (mem ?v3)" using objects_kept [OF o2 3(2)] by simp
    moreover have "\<forall>x. in_range x info 48 \<or> in_range x app 112 \<longrightarrow> mem w x = None" using new by (simp add: object_region_def)
    ultimately show ?thesis
      using 3(3,4) True by (simp only: if_True) (intro exI [of _ app] exI [of _ ?v3], simp add: loader_objects_def info_record_def)
  qed
qed

text \<open>C31: loading the program.  From its entry on, stage 2 makes its two records and its information block in memory that
  was free, reads the vector of the kernel and the headers of the program and decodes the dynamic section of the program into
  an array that is local to a block.  The relocation that follows reads the array after the block has ended, so every run
  that gets there reads a dead object and is undefined.  Compiled code that keeps the array relocates the program and goes on
  to switch the stack.  The information block then leads to the program: its record, its headers, its
  entry point and its thread-local image.  Of what was in memory before, the array of the dynamic section has
  changed, and every place that the relocation tables name has its value, as decoded in the memory before the first write.\<close>

theorem stage2_loads_program:
  fixes w :: "'k world"
  assumes K: "mmap_documented K"
    and pool: "sys_mmap K 0 (1 * KB) (PROT_READ OR PROT_WRITE) (MAP_PRIVATE OR MAP_ANONYMOUS) (-1) 0 w = (p, wp)" "\<not> errno_result p"
    and arena: "\<forall>P v. cia_pool_create (cia_allocator_pages K) (1 * KB) sizeof_Elf_Image 0x10 w = Inr (P, v) \<longrightarrow>
      fst (sys_mmap K 0 (1 * MB) (PROT_READ OR PROT_WRITE) (MAP_PRIVATE OR MAP_ANONYMOUS) (-1) 0 v) = info" "\<not> errno_result info"
    and aux: "aux_vector (mem w) (li_aux i) h" and self: "mapped (mem w) (li_ldso_base i) 64" "ho_phdr h \<noteq> li_ldso_base i"
    and hd: "program_headers (mem w) h" "program_located (mem w) h t" "headers_spared (\<lambda>x. in_range x (fr_dyn2 fr) (8 * 37)) h"
    and dyn: "signed_table (mem w) t es" "tag_value es DT_REL = 0"
    and arr: "mapped (mem w) (fr_dyn2 fr) (8 * 37)" "unat (fr_dyn2 fr) + 8 * 37 < 2 ^ 64"
      "disj_range (fr_dyn2 fr) (8 * 37) t (16 * (length es + 1))"
    and image: "image_ok (mem w) (ho_base h) (tag_value es) n k" "ws = image_writes (mem w) (ho_base h) (tag_value es) n k"
      "\<forall>x. image_reads (mem w) (ho_base h) (tag_value es) n k x \<longrightarrow> \<not> in_range x (fr_dyn2 fr) (8 * 37)"
      "\<forall>(t, u)\<in>set ws. disj_range t 8 (fr_dyn2 fr) (8 * 37)" "headers_spared (written ws) h"
  shows "if fr_dyn2_kept fr
    then \<exists>app v. ld_stage2_entry K lit crt_entry fr si i w =
        bind_res (ld_switch_stack K lit crt_entry fr si info app v) (\<lambda>w. sys_exit K 0 w)
      \<and> program_in (mem v) info (h\<lparr>ho_app := app\<rparr>) \<and> load64 (mem v) (s3_tls_image info) = Inr 0
      \<and> (\<forall>x. mem w x \<noteq> None \<and> \<not> in_range x (fr_dyn2 fr) (8 * 37) \<longrightarrow> mem v x = write_all ws (mem w) x)
      \<and> dom (mem v) = dom (mem w) \<union> {x. in_range x p 4096 \<or> in_range x info (2 ^ 20)}
      \<and> mapped (mem v) info 48 \<and> unat info + 48 \<le> 2 ^ 64 \<and> mapped (mem v) app 112 \<and> disj_range info 48 app 112
      \<and> (\<forall>x. in_range x info 48 \<or> in_range x app 112 \<longrightarrow> mem w x = None)
    else ld_stage2_entry K lit crt_entry fr si i w = Inl (Undefined DeadObject)"
  by (rule stage2_program_loaded [OF assms])

section \<open>Witness\<close>

text \<open>A kernel that maps a region of whole pages at a place given by its length, if there is nothing.\<close>

definition site_kernel :: "(u64 \<Rightarrow> addr) \<Rightarrow> 'k kernel" where
  "site_kernel site n args w =
     (case bump_kernel n args \<lparr>mem = mem w, os = site (args ! 1)\<rparr> of (r, w') \<Rightarrow> (r, w\<lparr>mem := mem w'\<rparr>))"

lemma site_kernel_mmap:
  "sys_mmap (site_kernel site) a len prot flags fd off w =
     (case sys_mmap bump_kernel a len prot flags fd off \<lparr>mem = mem w, os = site len\<rparr> of (r, w') \<Rightarrow> (r, w\<lparr>mem := mem w'\<rparr>))"
  by (simp add: sys_mmap_def syscall_def site_kernel_def)

lemma site_kernel_mmap_documented: "mmap_documented (site_kernel site)"
  unfolding mmap_documented_def site_kernel_mmap
proof (intro allI impI)
  fix len flags and w w' :: "'k world" and r
  assume len: "(0 :: u64) < len" "flags \<in> anonymous_flags" and s: "(case sys_mmap bump_kernel 0 len (PROT_READ OR PROT_WRITE) flags (-1) 0
      \<lparr>mem = mem w, os = site len\<rparr> of (r, w') \<Rightarrow> (r, w\<lparr>mem := mem w'\<rparr>)) = (r, w')"
  obtain v where v: "sys_mmap bump_kernel 0 len (PROT_READ OR PROT_WRITE) flags (-1) 0 \<lparr>mem = mem w, os = site len\<rparr> = (r, v)"
    "mem w' = mem v"
    using s by (auto split: prod.splits)
  with bump_kernel_mmap_documented len
  show "if errno_result r then mem w' = mem w
      else page_size dvd unat r \<and> fresh_zeroed r (page_round (unat len)) (mem w) (mem w')"
    unfolding mmap_documented_def by fastforce
qed

lemma site_kernel_grants:
  assumes "a = site len" "page_round (unat len) = l" "page_size dvd unat a" "0 < unat a" "unat a + l \<le> 2 ^ 47"
    "\<And>x. in_range x a l \<Longrightarrow> mem w x = None"
  shows "fst (sys_mmap (site_kernel site) 0 len prot flags fd off w) = a"
proof -
  have "list_all (\<lambda>i. mem w (a + of_nat i) = None) [0..<l]"
  proof -
    have "in_range (a + of_nat i) a l" if "i < l" for i using that assms(5) by (intro in_range_offset) simp_all
    then show ?thesis using assms(6) by (simp add: list_all_iff)
  qed
  then show ?thesis
    using assms(3-5) by (simp add: site_kernel_mmap assms(1) [symmetric] assms(2))
      (simp add: sys_mmap_def syscall_def bump_kernel_def Let_def assms(2))
qed

text \<open>A page with the program of the relocation, three headers and the vector of the kernel; the thread-local image is the
  word that the jump table fills.\<close>

definition load_words :: "(addr \<times> u64) list" where
  "load_words = [(0x10900, 6), (0x10910, 0x900), (0x10938, 2), (0x10948, 0x200), (0x10970, 7), (0x10980, 0x390), (0x10998, 8),
     (0x10a18, 0x10900), (0x10a20, 56), (0x10a28, 3)]"

definition load_page :: mem where
  "load_page = write_all load_words image_page"

definition load_site :: "u64 \<Rightarrow> addr" where
  "load_site len = (if len \<le> 0x1000 then 0x400000 else 0x800000)"

definition load_handover :: handover where
  "load_handover = \<lparr>ho_app = 0, ho_base = 0x10000, ho_phdr = 0x10900, ho_phnum = 3, ho_phent = 56, ho_stack_base = 0x800000,
     ho_stack_size = 2 * MB, ho_tls = Some (0x10970, 0x10390, 8), ho_entry = 0x77\<rparr>"

definition load_info :: Loader_Info where
  "load_info = \<lparr>li_sp = 0, li_ldso_base = 0x10000, li_dyn = 0, li_aux = 0x10a00\<rparr>"

definition load_frames :: "bool \<Rightarrow> ld_frames" where
  "load_frames kept = start_frames\<lparr>fr_dyn2 := 0x10b00, fr_dyn2_kept := kept\<rparr>"

lemma mapped_load: "0x10000 \<le> unat a \<Longrightarrow> unat a + n \<le> 0x11000 \<Longrightarrow> mapped load_page a n"
  unfolding load_page_def by (intro mapped_write_all mapped_image)

lemma load_keeps: "keeps (\<lambda>x. unat x < 0x10900) image_page load_page"
  unfolding load_page_def by (rule keeps_write_all [OF keeps_refl]) (auto simp: load_words_def mapped_image in_range_iff)

lemma load_image: "unat a + 8 \<le> 0x10900 \<Longrightarrow> peek64 load_page a = peek64 image_page a"
  by (rule keeps_peek64 [OF load_keeps]) (simp add: in_range_iff)

lemma load_peek: "peek64 load_page 0x10910 = 0x900" "peek64 load_page 0x10948 = 0x200" "peek64 load_page 0x10a18 = 0x10900"
  "peek64 load_page 0x10a20 = 56" "peek64 load_page 0x10a28 = 3" "peek64 load_page 0x10980 = 0x390" "peek64 load_page 0x10998 = 8" "peek64 load_page 0x10018 = 0x77"
  by (simp_all add: load_page_def load_words_def peek64_poke_same peek64_poke_other disj_range_apart image_start del: le_bytes.simps)

lemma load_types: "load32 load_page 0x10900 = Inr 6" "load32 load_page 0x10938 = Inr 2" "load32 load_page 0x10970 = Inr 7"
proof -
  have b: "le_bytes 8 (6 :: u64) = [6, 0, 0, 0, 0, 0, 0, 0]" "le_bytes 8 (2 :: u64) = [2, 0, 0, 0, 0, 0, 0, 0]" by code_simp+
  show "load32 load_page 0x10900 = Inr 6" "load32 load_page 0x10938 = Inr 2" "load32 load_page 0x10970 = Inr 7"
    by (simp_all add: load32_mapped mapped_load peek_def upt_rec)
      (simp_all add: load_page_def load_words_def poke_def in_range_def b le_bytes_7)
qed

lemma load_headers: "program_headers load_page load_handover" "program_located load_page load_handover 0x10200"
  "aux_vector load_page 0x10a00 load_handover"
proof -
  have three: "j < 3 \<longleftrightarrow> j = 0 \<or> j = 1 \<or> j = 2" for j :: nat by auto
  have f: "first_phdr load_page 0x10900 56 3 PT_TLS 0 = Inr (Some 0x10970)"
    by (simp add: first_phdr.simps p_type_def load_types PT_TLS_def)
  have l: "last_phdr load_page 0x10900 56 3 PT_PHDR 0 None = Inr (Some 0x10900)"
    "last_phdr load_page 0x10900 56 3 PT_DYNAMIC 0 None = Inr (Some 0x10938)"
    by (simp_all add: last_phdr.simps p_type_def load_types PT_PHDR_def PT_DYNAMIC_def)
  show "program_headers load_page load_handover"
    using f by (auto simp: program_headers_def load_handover_def e_entry_def p_vaddr_def p_memsz_def load64_peek64 mapped_load load_peek three)
  show "program_located load_page load_handover 0x10200"
    using l by (simp add: program_located_def load_handover_def p_vaddr_def load64_peek64 mapped_load load_peek)
  show "aux_vector load_page 0x10a00 load_handover"
    by (simp add: aux_vector_def load_handover_def word_at_def AT_PHDR_def AT_PHENT_def AT_PHNUM_def load64_peek64 mapped_load load_peek)
qed

lemma load_spared:
  assumes "\<And>x. T x \<Longrightarrow> unat x \<in> {0x10380..<0x10900} \<or> 0x10b00 \<le> unat x"
  shows "headers_spared T load_handover"
proof -
  have three: "j < 3 \<longleftrightarrow> j = 0 \<or> j = 1 \<or> j = 2" for j :: nat by auto
  have "spared T (0x10000 + 24) 8" "j < 3 \<Longrightarrow> spared T (0x10900 + of_nat j * 56) 56" "spared T 0x10980 8" "spared T 0x10998 8" for j :: nat
    using assms three [of j] unfolding spared_def by (force simp: in_range_iff)+
  then show ?thesis by (simp add: headers_spared_def load_handover_def)
qed

lemma load_apart: "headers_spared (\<lambda>x. in_range x 0x10b00 (8 * 37)) load_handover"
  "headers_spared (written [(0x10388, 0x10011), (0x10390, 0x10123)]) load_handover"
  by (rule load_spared, auto simp: written_def in_range_iff)+

lemma load_free: "0x11000 \<le> unat x \<Longrightarrow> load_page x = None"
proof -
  assume x: "0x11000 \<le> unat x"
  have "load_page x = image_page x" "image_page x = demo_page x"
    unfolding load_page_def image_page_def
    by (rule write_all_outside; use x in \<open>auto simp: load_words_def image_words_def in_range_iff\<close>)+
  then show ?thesis using x by (simp add: demo_page_def in_range_iff)
qed

lemma load_grants:
  "fst (sys_mmap (site_kernel load_site) 0 (1 * KB) (PROT_READ OR PROT_WRITE) (MAP_PRIVATE OR MAP_ANONYMOUS) (-1) 0 \<lparr>mem = load_page, os = ()\<rparr>) = 0x400000"
  "\<forall>v. dom (mem v) = dom load_page \<union> {x. in_range x 0x400000 4096} \<longrightarrow> fst (sys_mmap (site_kernel load_site) 0 (1 * MB)
     (PROT_READ OR PROT_WRITE) (MAP_PRIVATE OR MAP_ANONYMOUS) (-1) 0 v) = 0x800000"
proof -
  have free: "m x = None" if "dom m = D" "x \<notin> D" for m :: mem and x D using that by (metis domIff)
  have out: "x \<notin> dom load_page" if "0x11000 \<le> unat x" for x using load_free [OF that] by (simp add: domIff)
  have round: "page_round (unat (1 * KB)) = 0x1000" "page_round (unat (1 * MB)) = 0x100000"
    by (simp_all add: MB_def KB_def page_round_def page_size_def)
  have r: "0x11000 \<le> unat x" "\<not> in_range x 0x400000 4096" if "in_range x 0x800000 0x100000" for x
    using that by (simp_all add: in_range_iff)
  have p: "0x11000 \<le> unat x" if "in_range x 0x400000 0x1000" for x using that by (simp add: in_range_iff)
  show "fst (sys_mmap (site_kernel load_site) 0 (1 * KB) (PROT_READ OR PROT_WRITE) (MAP_PRIVATE OR MAP_ANONYMOUS) (-1) 0 \<lparr>mem = load_page, os = ()\<rparr>) = 0x400000"
    by (rule site_kernel_grants [OF _ round(1)]) (use out p in \<open>auto simp: load_site_def MB_def KB_def page_size_def domIff\<close>)
  show "\<forall>v. dom (mem v) = dom load_page \<union> {x. in_range x 0x400000 4096} \<longrightarrow> fst (sys_mmap (site_kernel load_site) 0 (1 * MB)
     (PROT_READ OR PROT_WRITE) (MAP_PRIVATE OR MAP_ANONYMOUS) (-1) 0 v) = 0x800000"
    using free out r by (intro allI impI site_kernel_grants [OF _ round(2)]) (auto simp: load_site_def MB_def KB_def page_size_def)
qed

lemma load_tables:
  "signed_table load_page 0x10200 image_dynamic" "tag_value image_dynamic DT_REL = 0"
  "image_ok load_page 0x10000 (tag_value image_dynamic) 1 1"
  "[(0x10388, 0x10011), (0x10390, 0x10123)] = image_writes load_page 0x10000 (tag_value image_dynamic) 1 1"
  "image_reads load_page 0x10000 (tag_value image_dynamic) 1 1 x \<Longrightarrow> unat x < 0x10900"
proof -
  note t = image_dynamic_tags
  have "dyn_table load_page 0x10200 image_dynamic"
    by (simp add: dyn_table_def image_dynamic_def All_less_Suc2 load64_peek64 mapped_load load_image image_start)
  then show "signed_table load_page 0x10200 image_dynamic" by (simp add: signed_table_def image_dynamic_def All_less_Suc2)
  show "tag_value image_dynamic DT_REL = 0" using t by (simp add: image_tags_def)
  have low: "image_reads image_page 0x10000 (tag_value image_dynamic) 1 1 x \<Longrightarrow> unat x < 0x10900" for x
    using image_reads_page [OF t] by (auto simp: in_range_iff)
  then have "keeps (image_reads image_page 0x10000 (tag_value image_dynamic) 1 1) image_page load_page"
    using load_keeps by (auto simp: keeps_def)
  note same = image_same [OF this image_ok_page [OF t]]
  show "image_ok load_page 0x10000 (tag_value image_dynamic) 1 1"
    "[(0x10388, 0x10011), (0x10390, 0x10123)] = image_writes load_page 0x10000 (tag_value image_dynamic) 1 1"
    using same(1,2) image_writes_page [OF t] by simp_all
  show "image_reads load_page 0x10000 (tag_value image_dynamic) 1 1 x \<Longrightarrow> unat x < 0x10900"
    unfolding same(3) by (rule low)
qed

theorem stage2_loads_program_witness:
  "ld_stage2_entry (site_kernel load_site) (\<lambda>_. 0) (\<lambda>_ _ w. Inr w) (load_frames False) no_stack_info load_info \<lparr>mem = load_page, os = ()\<rparr> =
      Inl (Undefined DeadObject)
    \<and> (\<exists>app (v :: unit world). ld_stage2_entry (site_kernel load_site) (\<lambda>_. 0) (\<lambda>_ _ w. Inr w) (load_frames True) no_stack_info load_info \<lparr>mem = load_page, os = ()\<rparr> =
      bind_res (ld_switch_stack (site_kernel load_site) (\<lambda>_. 0) (\<lambda>_ _ w. Inr w) (load_frames True) no_stack_info 0x800000 app v)
        (\<lambda>w. sys_exit (site_kernel load_site) 0 w)
    \<and> load64 (mem v) (s3_app 0x800000) = Inr app \<and> load64 (mem v) (im_base app) = Inr 0x10000
    \<and> load64 (mem v) 0x10388 = Inr 0x10011 \<and> load64 (mem v) 0x10390 = Inr 0x10123)"
proof -
  let ?K = "site_kernel load_site :: unit kernel" and ?fr = load_frames and ?i = load_info and ?h = load_handover and ?d = "tag_value image_dynamic"
    and ?w = "\<lparr>mem = load_page, os = ()\<rparr>" and ?ws = "[(0x10388, 0x10011), (0x10390, 0x10123)] :: (addr \<times> u64) list"
  obtain wp where pool: "sys_mmap ?K 0 (1 * KB) (PROT_READ OR PROT_WRITE) (MAP_PRIVATE OR MAP_ANONYMOUS) (-1) 0 ?w = (0x400000, wp)"
    using load_grants(1) by (metis prod.collapse)
  have e: "\<not> errno_result 0x400000" "\<not> errno_result 0x800000" by (simp_all add: errno_result_def page_size_def)
  have grant: "\<forall>P v. cia_pool_create (cia_allocator_pages ?K) (1 * KB) sizeof_Elf_Image 0x10 ?w = Inr (P, v) \<longrightarrow>
      fst (sys_mmap ?K 0 (1 * MB) (PROT_READ OR PROT_WRITE) (MAP_PRIVATE OR MAP_ANONYMOUS) (-1) 0 v) = 0x800000"
  proof -
    obtain P0 and w1 :: "unit world" where "cia_pool_create (cia_allocator_pages ?K) (1 * KB) sizeof_Elf_Image 0x10 ?w = Inr (P0, w1)"
      "dom (mem w1) = dom (mem ?w) \<union> {x. in_range x 0x400000 4096}"
      by (rule image_pool_runs [OF site_kernel_mmap_documented pool e(1)]) (rule that)
    then show ?thesis using spec [OF load_grants(2), of w1] by simp
  qed
  have hd: "aux_vector (mem ?w) (li_aux ?i) ?h" "mapped (mem ?w) (li_ldso_base ?i) 64" "ho_phdr ?h \<noteq> li_ldso_base ?i"
    "program_headers (mem ?w) ?h" "program_located (mem ?w) ?h 0x10200" "headers_spared (\<lambda>x. in_range x (fr_dyn2 (?fr b)) (8 * 37)) ?h" for b
    using load_headers load_apart(1) by (simp_all add: load_info_def load_handover_def load_frames_def mapped_load)
  have dyn: "signed_table (mem ?w) 0x10200 image_dynamic" "?d DT_REL = 0" using load_tables(1,2) by simp_all
  have arr: "mapped (mem ?w) (fr_dyn2 (?fr b)) (8 * 37)" "unat (fr_dyn2 (?fr b)) + 8 * 37 < 2 ^ 64"
      "disj_range (fr_dyn2 (?fr b)) (8 * 37) 0x10200 (16 * (length image_dynamic + 1))" for b
    by (simp_all add: load_frames_def mapped_load image_dynamic_def disj_range_apart)
  have image: "image_ok (mem ?w) (ho_base ?h) ?d 1 1" "?ws = image_writes (mem ?w) (ho_base ?h) ?d 1 1"
      "\<forall>x. image_reads (mem ?w) (ho_base ?h) ?d 1 1 x \<longrightarrow> \<not> in_range x (fr_dyn2 (?fr b)) (8 * 37)"
      "\<forall>(t, u)\<in>set ?ws. disj_range t 8 (fr_dyn2 (?fr b)) (8 * 37)" "headers_spared (written ?ws) ?h" for b
  proof -
    show "image_ok (mem ?w) (ho_base ?h) ?d 1 1" "?ws = image_writes (mem ?w) (ho_base ?h) ?d 1 1"
      using load_tables(3,4) by (simp_all add: load_handover_def)
    show "\<forall>x. image_reads (mem ?w) (ho_base ?h) ?d 1 1 x \<longrightarrow> \<not> in_range x (fr_dyn2 (?fr b)) (8 * 37)"
      using load_tables(5) by (force simp: load_handover_def load_frames_def in_range_iff)
    show "\<forall>(t, u)\<in>set ?ws. disj_range t 8 (fr_dyn2 (?fr b)) (8 * 37)" by (simp add: load_frames_def disj_range_apart)
    show "headers_spared (written ?ws) ?h" by (rule load_apart(2))
  qed
  note run = stage2_loads_program [OF site_kernel_mmap_documented pool e(1) grant e(2) hd dyn arr image, where lit = "\<lambda>_. 0"
      and crt_entry = "\<lambda>_ _ w. Inr w" and si = no_stack_info]
  have kept: "fr_dyn2_kept (?fr b) = b" for b by (simp add: load_frames_def)
  obtain app and v :: "unit world" where r: "ld_stage2_entry ?K (\<lambda>_. 0) (\<lambda>_ _ w. Inr w) (?fr True) no_stack_info ?i ?w =
      bind_res (ld_switch_stack ?K (\<lambda>_. 0) (\<lambda>_ _ w. Inr w) (?fr True) no_stack_info 0x800000 app v) (\<lambda>w. sys_exit ?K 0 w)"
    "program_in (mem v) 0x800000 (?h\<lparr>ho_app := app\<rparr>)"
    "\<forall>x. mem ?w x \<noteq> None \<and> \<not> in_range x (fr_dyn2 (?fr True)) (8 * 37) \<longrightarrow> mem v x = write_all ?ws (mem ?w) x"
    using run [of True, unfolded kept if_True] by (elim exE conjE) (rule that; assumption)
  have at: "load64 (mem v) a = load64 (write_all ?ws load_page) a" if "0x10000 \<le> unat a" "unat a + 8 \<le> 0x10b00" for a
  proof (rule load64_cong)
    fix x assume "in_range x a 8"
    moreover have "mapped load_page a 8" using that by (simp add: mapped_load)
    ultimately show "mem v x = write_all ?ws load_page x"
      using r(3) that by (auto simp: mapped_def load_frames_def in_range_iff)
  qed
  from at [of "0x10388"] at [of "0x10390"]
  have "load64 (mem v) 0x10388 = Inr 0x10011" "load64 (mem v) 0x10390 = Inr 0x10123"
    by (simp_all add: load64_peek64 mapped_load peek64_poke_same peek64_poke_other disj_range_apart del: le_bytes.simps)
  then show ?thesis
    using r(1,2) run [of False, unfolded kept if_False]
    by (intro conjI exI [of _ app] exI [of _ v]) (simp_all add: program_in_def load_handover_def)
qed

end
