(* ===== verification/Start_Program.thy ===== *)
theory Start_Program
  imports Startup Loader_Program
begin

text \<open>
  The end of stage 2, stage 3, the entry point and the library in one: from the relocated program to \<open>main\<close> and to the
  exit with its status.
\<close>

section \<open>Regions of the new stack\<close>




section \<open>The program starts\<close>





section \<open>Witness\<close>





















end
