(* ===== verification/Windows.thy ===== *)
theory Windows
  imports Threads
begin

text \<open>
  The runtime layer on Windows: \<open>os/windows/tinyrt.c\<close> and \<open>os/windows/crt-entry.c\<close>.  The Win32 functions and the
  constants of \<open>Windows.h\<close> are a parameter of type \<open>win_api\<close>; a function that fills a variable of its
  caller is given the address of the variable.
\<close>

section \<open>The interface of the system\<close>

type_synonym handle = addr

record 'k win_api =
  GENERIC_READ :: u32
  GENERIC_WRITE :: u32
  FILE_SHARE_READ :: u32
  CREATE_NEW :: u32
  CREATE_ALWAYS :: u32
  OPEN_EXISTING :: u32
  OPEN_ALWAYS :: u32
  TRUNCATE_EXISTING :: u32
  FILE_ATTRIBUTE_NORMAL :: u32
  INVALID_HANDLE_VALUE :: handle
  STD_INPUT_HANDLE :: u32
  STD_OUTPUT_HANDLE :: u32
  STD_ERROR_HANDLE :: u32
  MEM_COMMIT_RESERVE :: u32
  MEM_RELEASE :: u32
  PAGE_READWRITE :: u32
  GetStdHandle :: "u32 \<Rightarrow> 'k world \<Rightarrow> handle \<times> 'k world"
  CreateFileA :: "addr \<Rightarrow> u32 \<Rightarrow> u32 \<Rightarrow> u32 \<Rightarrow> u32 \<Rightarrow> 'k world \<Rightarrow> handle \<times> 'k world"
  ReadFile :: "handle \<Rightarrow> addr \<Rightarrow> u32 \<Rightarrow> addr \<Rightarrow> 'k world \<Rightarrow> i32 \<times> 'k world"
  WriteFile :: "handle \<Rightarrow> addr \<Rightarrow> u32 \<Rightarrow> addr \<Rightarrow> 'k world \<Rightarrow> i32 \<times> 'k world"
  CloseHandle :: "handle \<Rightarrow> 'k world \<Rightarrow> i32 \<times> 'k world"
  VirtualAlloc :: "addr \<Rightarrow> u64 \<Rightarrow> u32 \<Rightarrow> u32 \<Rightarrow> 'k world \<Rightarrow> addr \<times> 'k world"
  VirtualFree :: "addr \<Rightarrow> u64 \<Rightarrow> u32 \<Rightarrow> 'k world \<Rightarrow> i32 \<times> 'k world"
  ExitProcess :: "u32 \<Rightarrow> 'k world \<Rightarrow> 'k world"

section \<open>Files\<close>

text \<open>The flags of the standard output are set twice, those of the standard error not at all.\<close>

definition win_std_handles_init :: "'k win_api \<Rightarrow> std_handles \<Rightarrow> 'k world \<Rightarrow> (i32 \<times> std_handles) \<times> 'k world" where
  "win_std_handles_init A h w =
     (case GetStdHandle A (STD_INPUT_HANDLE A) w of (a, w) \<Rightarrow>
      case GetStdHandle A (STD_OUTPUT_HANDLE A) w of (b, w) \<Rightarrow>
      case GetStdHandle A (STD_ERROR_HANDLE A) w of (c, w) \<Rightarrow>
        ((RT_STATUS_OK,
          \<lparr>rt_file_stdin = \<lparr>rf_fd = a, rf_flags = RT_FILE_READ\<rparr>,
           rt_file_stdout = \<lparr>rf_fd = b, rf_flags = RT_FILE_WRITE\<rparr>,
           rt_file_stderr = (rt_file_stderr h)\<lparr>rf_fd := c\<rparr>\<rparr>), w))"

definition win_open_access :: "'k win_api \<Rightarrow> i32 \<Rightarrow> u32" where
  "win_open_access A rt_flags =
     (let a = (if rt_flags AND RT_FILE_READ \<noteq> 0 then GENERIC_READ A else 0)
      in if rt_flags AND RT_FILE_WRITE \<noteq> 0 then a OR GENERIC_WRITE A else a)"

definition win_open_share :: "'k win_api \<Rightarrow> i32 \<Rightarrow> u32" where
  "win_open_share A rt_flags = (if rt_flags AND RT_FILE_READ = 0 then FILE_SHARE_READ A else 0)"

definition win_open_creation :: "'k win_api \<Rightarrow> i32 \<Rightarrow> u32" where
  "win_open_creation A rt_flags =
     (if rt_flags AND RT_FILE_TRUNCATE \<noteq> 0 then TRUNCATE_EXISTING A
      else if rt_flags AND RT_FILE_CREATE \<noteq> 0
      then (if rt_flags AND RT_FILE_EXCLUSIVE \<noteq> 0 then CREATE_ALWAYS A else CREATE_NEW A)
      else (if rt_flags AND RT_FILE_EXCLUSIVE \<noteq> 0 then OPEN_ALWAYS A else OPEN_EXISTING A))"

text \<open>What is compared with the invalid handle is the pointer \<open>file\<close>.\<close>

definition win_file_open :: "'k win_api \<Rightarrow> addr \<Rightarrow> addr \<Rightarrow> i32 \<Rightarrow> 'k world \<Rightarrow> (i32 \<times> 'k world) res" where
  "win_file_open A file name rt_flags w =
     (case CreateFileA A name (win_open_access A rt_flags) (win_open_share A rt_flags)
             (win_open_creation A rt_flags) (FILE_ATTRIBUTE_NORMAL A) w of (handle, w) \<Rightarrow>
        if file = INVALID_HANDLE_VALUE A then Inr (RT_STATUS_FILE_IO_ERROR, w)
        else bind_res (write64 file handle w) (\<lambda>w.
             bind_res (write32 (file + 8) rt_flags w) (\<lambda>w. Inr (RT_STATUS_OK, w))))"

definition win_file_read :: "'k win_api \<Rightarrow> u64 \<Rightarrow> addr \<Rightarrow> addr \<Rightarrow> addr \<Rightarrow> 'k world \<Rightarrow> (i32 \<times> 'k world) res" where
  "win_file_read A sz buffer from out_bytes_read w =
     bind_res (write64 out_bytes_read 0 w) (\<lambda>w.
     bind_res (load64 (mem w) from) (\<lambda>handle.
       case ReadFile A handle buffer (ucast sz) out_bytes_read w of (ok, w) \<Rightarrow>
         Inr (if ok = 0 then RT_STATUS_FILE_IO_ERROR else RT_STATUS_OK, w)))"

definition win_file_write :: "'k win_api \<Rightarrow> addr \<Rightarrow> u64 \<Rightarrow> addr \<Rightarrow> addr \<Rightarrow> 'k world \<Rightarrow> (i32 \<times> 'k world) res" where
  "win_file_write A to sz buffer out_bytes_written w =
     bind_res (write64 out_bytes_written 0 w) (\<lambda>w.
     bind_res (load64 (mem w) to) (\<lambda>handle.
       case WriteFile A handle buffer (ucast sz) out_bytes_written w of (ok, w) \<Rightarrow>
         Inr (if ok = 0 then RT_STATUS_FILE_IO_ERROR else RT_STATUS_OK, w)))"

definition win_file_close :: "'k win_api \<Rightarrow> addr \<Rightarrow> 'k world \<Rightarrow> (i32 \<times> 'k world) res" where
  "win_file_close A file w =
     bind_res (load64 (mem w) file) (\<lambda>handle.
       case CloseHandle A handle w of (ok, w) \<Rightarrow>
         Inr (if ok = 0 then RT_STATUS_FILE_BAD_FILE else RT_STATUS_OK, w))"

section \<open>Memory and the end of the process\<close>

definition win_program_exit :: "'k win_api \<Rightarrow> i32 \<Rightarrow> 'k world \<Rightarrow> 'a res" where
  "win_program_exit A code w = (case ExitProcess A code w of _ \<Rightarrow> Inl (Exited code))"

definition win_mem_alloc :: "'k win_api \<Rightarrow> addr \<Rightarrow> u64 \<Rightarrow> 'k world \<Rightarrow> (i32 \<times> addr) \<times> 'k world" where
  "win_mem_alloc A desired min_size w =
     (case VirtualAlloc A desired min_size (MEM_COMMIT_RESERVE A) (PAGE_READWRITE A) w of (a, w) \<Rightarrow>
        ((if a = 0 then RT_ERROR_GENERIC else RT_STATUS_OK, a), w))"

text \<open>The size is not used.\<close>

definition win_mem_free :: "'k win_api \<Rightarrow> addr \<Rightarrow> u64 \<Rightarrow> 'k world \<Rightarrow> i32 \<times> 'k world" where
  "win_mem_free A a sz w =
     (case VirtualFree A a 0 (MEM_RELEASE A) w of (ok, w) \<Rightarrow> (if ok = 0 then RT_ERROR_GENERIC else RT_STATUS_OK, w))"

section \<open>The entry points\<close>

text \<open>\<open>_cia_init\<close> and \<open>main\<close> work on the state \<open>s\<close> of the program, which holds the cookie.\<close>

definition security_cookie :: u64 where "security_cookie = 0x0b26e04cc62ba48a"

definition mainCRTStartup ::
  "'k win_api \<Rightarrow> ('s \<Rightarrow> 'k world) \<Rightarrow> (u64 \<Rightarrow> 's \<Rightarrow> 's) \<Rightarrow> ('s \<Rightarrow> 's res) \<Rightarrow>
     (i32 \<Rightarrow> addr \<Rightarrow> addr \<Rightarrow> 's \<Rightarrow> (i32 \<times> 's) res) \<Rightarrow> 's \<Rightarrow> 'a res" where
  "mainCRTStartup A world_of set_cookie cia_init cia_main s =
     bind_res (cia_init s) (\<lambda>s.
     bind_res (cia_main 0 0 0 (set_cookie security_cookie s)) (\<lambda>(code, s).
       case ExitProcess A 0 (world_of s) of _ \<Rightarrow> Inl (Exited 0)))"

definition other_startup :: "'k win_api \<Rightarrow> 'k world \<Rightarrow> 'a res" where
  "other_startup A w = (case ExitProcess A 0 w of _ \<Rightarrow> Inl (Exited 0))"

text \<open>All cases of the reason are empty; \<open>TRUE\<close> is returned.\<close>

definition DllMainCRTStartup :: "addr \<Rightarrow> u32 \<Rightarrow> addr \<Rightarrow> i32" where
  "DllMainCRTStartup inst reason reserved = 1"

text \<open>\<open>buf\<close> is a local array of 26 bytes, filled before it is written; the message is 25 characters.\<close>

definition cookie_message :: "u8 list" where
  "cookie_message =
     [66, 117, 102, 102, 101, 114, 32, 111, 118, 101, 114, 114, 117, 110, 32,
      100, 101, 116, 101, 99, 116, 101, 100, 33, 10, 0]"

definition security_check_cookie :: "'k win_api \<Rightarrow> u64 \<Rightarrow> addr \<Rightarrow> u64 \<Rightarrow> 'k world \<Rightarrow> 'k world res" where
  "security_check_cookie A cookie buf retrieved w =
     (if cookie \<noteq> retrieved
      then bind_res (store_bytes (mem w) buf cookie_message) (\<lambda>m.
           case GetStdHandle A (STD_OUTPUT_HANDLE A) (w\<lparr>mem := m\<rparr>) of (out, w) \<Rightarrow>
           case WriteFile A out buf (of_nat (length cookie_message)) 0 w of (_, w) \<Rightarrow>
           case ExitProcess A 1 w of _ \<Rightarrow> Inl (Exited 1))
      else Inr w)"

section \<open>Properties of the layer\<close>

text \<open>A failure of \<open>CreateFileA\<close> is not noticed: the file is reported open, with the invalid handle.\<close>

lemma win_file_open_misses_failure:
  assumes "file \<noteq> INVALID_HANDLE_VALUE A" "mapped (mem w') file 12" "unat file + 12 \<le> 2 ^ 64"
    and "CreateFileA A name (win_open_access A fl) (win_open_share A fl) (win_open_creation A fl) (FILE_ATTRIBUTE_NORMAL A) w
      = (INVALID_HANDLE_VALUE A, w')"
  shows "\<exists>w''. win_file_open A file name fl w = Inr (RT_STATUS_OK, w'')
    \<and> load64 (mem w'') file = Inr (INVALID_HANDLE_VALUE A)"
proof -
  have m: "mapped (mem w') file 8" "mapped (mem w') (file + 8) 4"
    using mapped_mono [OF assms(2), of 8] mapped_sub [OF assms(2), of 8 4] assms(3) by simp_all
  have d: "disj_range (file + 8) 4 file 8"
    using assms(3) by (intro disj_range_sym [OF disj_rangeI_le]) (simp_all add: unat_add_no_wrap)
  show ?thesis
    using assms(1,4) m d
    by (simp add: win_file_open_def write64_def write32_def store64_mapped store32_mapped load64_poke_disj
        load64_poke_same del: le_bytes.simps)
qed

text \<open>The status of \<open>main\<close> is dropped.\<close>

lemma mainCRTStartup_status:
  assumes "cia_init s = Inr s1" "cia_main 0 0 0 (set_cookie security_cookie s1) = Inr (code, s2)"
  shows "mainCRTStartup A world_of set_cookie cia_init cia_main s = Inl (Exited 0)"
  using assms by (simp add: mainCRTStartup_def)

end
