(* ===== verification/Chkstk.thy ===== *)
theory Chkstk
  imports Memory Align
begin

text \<open>
  \<open>arch/x64_x86-64/chkstk.asm\<close>: the stack probe that the compiler calls on Windows before it makes room for a
  frame of more than a page.  The size of the frame is in \<open>rax\<close>; every page down to the new end of the stack is
  touched in order, because only the next page below the limit is a guard page.
\<close>

section \<open>The probe\<close>

text \<open>
  The loop goes down from the limit a page at a time and stores a zero byte, until it has stored at \<open>target\<close>; from a
  limit that is not a multiple of a page above it would pass the target.
\<close>

partial_function (option) probe_loop :: "addr \<Rightarrow> addr \<Rightarrow> mem \<Rightarrow> mem res option" where
  "probe_loop target r11 m =
     (let r11 = r11 - 0x1000 in
      case store8 m r11 0 of
        Inl e \<Rightarrow> Some (Inl e)
      | Inr m \<Rightarrow> if target \<noteq> r11 then probe_loop target r11 m else Some (Inr m))"

text \<open>
  \<open>teb\<close> is the base of the segment \<open>gs\<close>, which holds the limit of the stack at offset \<open>0x10\<close>.  The result has the
  stack pointer and the two scratch registers, which are saved on the stack.
\<close>

definition chkstk :: "addr \<Rightarrow> addr \<Rightarrow> u64 \<Rightarrow> u64 \<Rightarrow> u64 \<Rightarrow> mem \<Rightarrow> (addr \<times> u64 \<times> u64 \<times> mem) res" where
  "chkstk teb rsp rax r10 r11 m =
     (let rsp = rsp - 0x10 in
      bind_res (store64 m rsp r10) (\<lambda>m.
      bind_res (store64 m (rsp + 8) r11) (\<lambda>m.
      let r10 = (if rsp + 0x18 < rax then 0 else rsp + 0x18 - rax) in
      bind_res (load64 m (teb + 0x10)) (\<lambda>r11.
      bind_res (if r11 \<le> r10 then Inr m else loop_res (probe_loop (r10 AND NOT 0xfff) r11 m)) (\<lambda>m.
      bind_res (load64 m rsp) (\<lambda>r10.
      bind_res (load64 m (rsp + 8)) (\<lambda>r11.
        Inr (rsp + 0x10, r10, r11, m))))))))"

section \<open>Correctness of the loop\<close>

text \<open>The bytes at the bases of the \<open>n\<close> pages below \<open>limit\<close> are zero.\<close>

definition probed :: "addr \<Rightarrow> nat \<Rightarrow> mem \<Rightarrow> mem" where
  "probed limit n m = (\<lambda>x. if \<exists>i<n. x = limit - of_nat (4096 * Suc i) then Some 0 else m x)"

lemma probed_0: "probed limit 0 m = m"
  by (simp add: probed_def)

lemma probed_Suc: "probed (limit - 4096) n (m(limit - 4096 \<mapsto> 0)) = probed limit (Suc n) m"
  by (auto simp: probed_def fun_eq_iff less_Suc_eq_0_disj algebra_simps)

lemma page_distance:
  fixes limit :: addr
  assumes "4096 * n \<le> unat limit" "i < n"
  shows "unat (limit - of_nat (4096 * Suc i)) = unat limit - 4096 * Suc i"
proof -
  have le: "4096 * Suc i \<le> unat limit" using assms by simp
  then have "4096 * Suc i < 18446744073709551616" using unat_less_u64 [of limit] by (rule le_less_trans)
  then have "unat (of_nat (4096 * Suc i) :: u64) = 4096 * Suc i" by (intro unat_of_nat_u64) simp
  with le show ?thesis by (subst unat_sub_le) (simp_all only: word_le_nat_alt)
qed

lemma probe_loop_runs:
  assumes "0 < n" "4096 * n \<le> unat limit" "\<And>i. i < n \<Longrightarrow> m (limit - of_nat (4096 * Suc i)) \<noteq> None"
  shows "probe_loop (limit - of_nat (4096 * n)) limit m = Some (Inr (probed limit n m))"
  using assms
proof (induction n arbitrary: limit m)
  case (Suc n)
  let ?l = "limit - 4096"
  have l: "unat ?l = unat limit - 4096" using page_distance [of "Suc n" limit 0] Suc.prems(2) by simp
  have st: "store8 m ?l 0 = Inr (m(?l \<mapsto> 0))" using Suc.prems(3) [of 0] by (auto simp: store8_def)
  have t: "limit - of_nat (4096 * Suc n) = ?l - of_nat (4096 * n)" by (simp add: algebra_simps)
  show ?case
  proof (cases "n = 0")
    case True
    then show ?thesis using probed_Suc [of limit 0 m]
      by (subst probe_loop.simps) (simp add: Let_def st probed_0)
  next
    case False
    have le: "4096 * n \<le> unat ?l" using Suc.prems(2) l by simp
    have "unat (?l - of_nat (4096 * n)) = unat ?l - 4096 * n"
      using page_distance [OF le, of "n - 1"] False by simp
    then have ne: "?l - of_nat (4096 * n) \<noteq> ?l" using le False by (auto simp: word_unat_eq_iff)
    have "(m(?l \<mapsto> 0)) (?l - of_nat (4096 * Suc i)) \<noteq> None" if "i < n" for i
      using Suc.prems(3) [of "Suc i"] that by (simp add: algebra_simps)
    then have "probe_loop (?l - of_nat (4096 * n)) ?l (m(?l \<mapsto> 0)) = Some (Inr (probed ?l n (m(?l \<mapsto> 0))))"
      using False le by (intro Suc.IH) simp_all
    with ne show ?thesis
      by (subst probe_loop.simps) (simp add: Let_def st t probed_Suc diff_diff_eq del: of_nat_mult)
  qed
qed simp

section \<open>The routine\<close>

text \<open>C37: the stack probe.  For a stack whose limit is a multiple of a page and below the saved registers, and memory below the limit
  that can be touched, the routine stores a zero at the start of every page below the limit down to the one where the frame will end,
  and nowhere when the frame ends above the limit; a frame larger than everything below it ends on page zero.
  No other byte changes but the two words below the stack pointer, and the stack pointer and both scratch registers
  are as before.\<close>

theorem chkstk_probes:
  assumes rsp: "limit \<le> rsp - 16" "16 \<le> rsp" "unat rsp + 8 < 2 ^ 64" "mapped m (rsp - 16) 16"
    and teb: "load64 m (teb + 0x10) = Inr limit" "disj_range (rsp - 16) 16 (teb + 0x10) 8"
    and pages: "unat limit = 4096 * l" "n = l - (unat rsp + 8 - unat rax) div 4096"
      "\<forall>i<n. m (limit - of_nat (4096 * Suc i)) \<noteq> None"
  shows "chkstk teb rsp rax r10 r11 m = Inr (rsp, r10, r11,
    probed limit n (poke (poke m (rsp - 16) (le_bytes 8 r10)) (rsp - 8) (le_bytes 8 r11)))"
proof -
  let ?m = "poke (poke m (rsp - 16) (le_bytes 8 r10)) (rsp - 8) (le_bytes 8 r11)"
  have u: "unat (rsp - 16) = unat rsp - 16" "unat (rsp - 8) = unat rsp - 8" "unat (rsp + 8) = unat rsp + 8"
    using rsp(2,3) by (simp_all add: unat_sub_le unat_add_no_wrap word_le_nat_alt)
  have r16: "16 \<le> unat rsp" using rsp(2) by (simp add: word_le_nat_alt)
  have sub: "in_range x (rsp - 16) 16" if "in_range x (rsp - 8) 8 \<or> in_range x (rsp - 16) 8" for x
    using that u r16 rsp(3) by (auto simp: in_range_iff)
  have mp: "mapped m (rsp - 16) 8" "mapped m (rsp - 8) 8"
    using rsp(4) sub by (auto simp: mapped_def)
  have lim: "load64 ?m (teb + 0x10) = Inr limit"
  proof -
    have "load64 ?m (teb + 0x10) = load64 m (teb + 0x10)"
      using teb(2) sub by (intro load64_cong) (auto simp: poke_def disj_range_def)
    then show ?thesis using teb(1) by simp
  qed
  let ?e = "if rsp + 8 < rax then 0 else rsp + 8 - rax"
  have e: "unat ?e = unat rsp + 8 - unat rax"
    using u(3) by (auto simp: unat_sub_le word_le_nat_alt word_less_nat_alt)
  have nl: "limit \<le> ?e \<longleftrightarrow> n = 0"
    unfolding word_le_nat_alt e pages(1,2) by (auto simp: less_eq_div_iff_mult_less_eq)
  have nle: "4096 * n \<le> unat limit" using pages(1,2) by simp
  have tgt: "?e AND NOT 0xfff = limit - of_nat (4096 * n)" if "0 < n"
  proof (rule word_unat_eq_iff [THEN iffD2])
    have "(0xfff :: u64) = 2 ^ 12 - 1" by simp
    then have "unat (?e AND NOT 0xfff) = (unat rsp + 8 - unat rax) div 4096 * 4096"
      using clear_low_bits [of 12 ?e] e by simp
    also have "\<dots> = unat limit - 4096 * n" using pages(1,2) that by (simp add: diff_mult_distrib2 [symmetric])
    also have "\<dots> = unat (limit - of_nat (4096 * n))"
      using page_distance [OF nle, of "n - 1"] that by simp
    finally show "unat (?e AND NOT 0xfff) = unat (limit - of_nat (4096 * n))" .
  qed
  have pg: "limit - of_nat (4096 * Suc i) \<notin> {x. in_range x (rsp - 16) 16}" if "i < n" for i
  proof -
    have "unat (limit - of_nat (4096 * Suc i)) < unat limit"
      using page_distance [of n limit i] that pages(1,2) by simp
    then show ?thesis using rsp(1,3) u r16 by (simp add: in_range_iff word_le_nat_alt)
  qed
  have loop: "probe_loop (limit - of_nat (4096 * n)) limit ?m = Some (Inr (probed limit n ?m))" if "0 < n"
  proof (rule probe_loop_runs [OF that])
    show "4096 * n \<le> unat limit" using pages(1,2) by simp
    fix i assume i: "i < n"
    then have "?m (limit - of_nat (4096 * Suc i)) = m (limit - of_nat (4096 * Suc i))"
      using pg [OF i] sub by (auto simp: poke_def)
    then show "?m (limit - of_nat (4096 * Suc i)) \<noteq> None" using pages(3) i by simp
  qed
  have saved: "load64 (probed limit n ?m) a = load64 ?m a" if "\<And>x. in_range x a 8 \<Longrightarrow> in_range x (rsp - 16) 16" for a
    using that pg by (intro load64_cong) (auto simp: probed_def)
  have "load64 (probed limit n ?m) (rsp - 16) = Inr r10" "load64 (probed limit n ?m) (rsp - 8) = Inr r11"
    using saved sub mp u r16 rsp(3)
    by (simp_all add: load64_poke_same load64_poke_disj disj_range_apart del: le_bytes.simps)
  note regs = this
  have arith: "rsp - 0x10 + 8 = rsp - 8" "rsp - 0x10 + 0x18 = rsp + 8" "rsp - 0x10 + 0x10 = rsp" by simp_all
  have mp2: "mapped (poke m (rsp - 16) (le_bytes 8 r10)) (rsp - 8) 8" using mp by simp
  have "(if limit \<le> ?e then Inr ?m else loop_res (probe_loop (?e AND NOT 0xfff) limit ?m)) = Inr (probed limit n ?m)"
    unfolding nl using tgt loop by (cases "n = 0") (simp_all add: probed_0)
  note run = this
  show ?thesis
    by (simp only: chkstk_def Let_def arith store64_mapped mp mp2 lim run regs bind_res_simps)
qed

text \<open>A stack between 0x1000 and 0x9000 with its limit at 0x4000 and a frame of three pages from 0x5000.\<close>

definition probe_memory :: mem where
  "probe_memory = poke (\<lambda>x. if in_range x 0x1000 0x8000 then Some 7 else None) 0x8010 (le_bytes 8 (0x4000 :: u64))"

theorem chkstk_probes_witness:
  "\<exists>m. chkstk 0x8000 0x5000 0x3000 1 2 probe_memory = Inr (0x5000, 1, 2, m)
    \<and> m 0x3000 = Some 0 \<and> m 0x2000 = Some 0 \<and> m 0x1000 = Some 7"
proof -
  have d: "dom probe_memory = {x. in_range x 0x1000 0x8000}"
  proof -
    have "in_range x 0x1000 0x8000" if "in_range x 0x8010 8" for x using that by (simp add: in_range_iff)
    then show ?thesis by (auto simp: probe_memory_def poke_def split: if_splits)
  qed
  have mp: "probe_memory x \<noteq> None" if "in_range x 0x1000 0x8000" for x
  proof -
    have "x \<in> dom probe_memory" using d that by simp
    then show ?thesis by auto
  qed
  have "mapped probe_memory (0x5000 - 16) 16" using mp by (simp add: mapped_def in_range_iff)
  moreover have "load64 probe_memory (0x8000 + 0x10) = Inr 0x4000"
    unfolding probe_memory_def by (simp add: load64_poke_same mapped_def in_range_iff del: le_bytes.simps)
  moreover have "in_range 0x3000 0x1000 0x8000" "in_range 0x2000 0x1000 0x8000" by (simp_all add: in_range_iff)
  then have "\<forall>i<2. probe_memory (0x4000 - of_nat (4096 * Suc i)) \<noteq> None"
    using mp [of "0x3000"] mp [of "0x2000"] by (simp add: All_less_Suc2 numeral_2_eq_2)
  ultimately have "chkstk 0x8000 0x5000 0x3000 1 2 probe_memory = Inr (0x5000, 1, 2,
      probed 0x4000 2 (poke (poke probe_memory (0x5000 - 16) (le_bytes 8 (1 :: u64))) (0x5000 - 8) (le_bytes 8 (2 :: u64))))"
    by (intro chkstk_probes [where l = 4]) (simp_all add: disj_range_apart)
  moreover have "probed 0x4000 2 m 0x3000 = Some 0" "probed 0x4000 2 m 0x2000 = Some 0" "probed 0x4000 2 m 0x1000 = m 0x1000" for m
    by (auto simp: probed_def less_2_cases_iff)
  moreover have "poke (poke probe_memory (0x5000 - 16) (le_bytes 8 (1 :: u64))) (0x5000 - 8) (le_bytes 8 (2 :: u64)) 0x1000 = Some 7"
    by (simp add: poke_out probe_memory_def in_range_iff del: le_bytes.simps)
  ultimately show ?thesis by auto
qed

end
