(* ===== verification/Cpp.thy ===== *)
theory Cpp
  imports Prelude
begin

text \<open>
  The preprocessor as far as the headers of the repository use it: object-like and function-like macros with
  \<open>##\<close>, \<open>#undef\<close>, conditional groups on \<open>defined\<close>, and the typed evaluation of the constant expressions that are left
  after expansion, with the integer types of the LP64 data model.  A macro body is given as the expression
  it parses to; the bodies with operators are parenthesised in the sources.
\<close>

section \<open>Constant expressions\<close>

datatype radix = Dec | Oct | Hex

datatype suffix = No_Suffix | Suf_L | Suf_UL | Suf_LL | Suf_ULL

datatype ity = S32 | U32 | S64 | U64 | VoidP \<comment> \<open>\<open>int\<close>, \<open>unsigned\<close>, \<open>long\<close>, \<open>unsigned long\<close>, \<open>void *\<close>\<close>

datatype cexp =
    Lit radix int suffix
  | Ident string
  | Call string "cexp list"
  | Param nat
  | Paste cexp suffix \<comment> \<open>\<open>e ## L\<close>\<close>
  | Neg cexp
  | Compl cexp
  | BOr cexp cexp
  | BAnd cexp cexp
  | Shl cexp cexp
  | Shr cexp cexp
  | Plus cexp cexp
  | Times cexp cexp
  | Cast ity cexp

fun width :: "ity \<Rightarrow> nat" where
  "width S32 = 32" | "width U32 = 32" | "width S64 = 64" | "width U64 = 64" | "width VoidP = 64"

fun signed_ty :: "ity \<Rightarrow> bool" where
  "signed_ty S32 = True" | "signed_ty U32 = False" | "signed_ty S64 = True" | "signed_ty U64 = False"
| "signed_ty VoidP = False"

definition representable :: "ity \<Rightarrow> int \<Rightarrow> bool" where
  "representable t v \<longleftrightarrow> (if signed_ty t then - (2 ^ (width t - 1)) \<le> v \<and> v < 2 ^ (width t - 1) else 0 \<le> v \<and> v < 2 ^ width t)"

text \<open>The result of an operator: unsigned types wrap, a signed result that does not fit is undefined.\<close>

definition result :: "ity \<Rightarrow> int \<Rightarrow> (ity \<times> int) option" where
  "result t v =
     (if signed_ty t then (if representable t v then Some (t, v) else None) else Some (t, v mod 2 ^ width t))"

text \<open>A conversion wraps to either kind of type.\<close>

definition convert :: "ity \<Rightarrow> int \<Rightarrow> int" where
  "convert t v =
     (if signed_ty t then (v + 2 ^ (width t - 1)) mod 2 ^ width t - 2 ^ (width t - 1) else v mod 2 ^ width t)"

text \<open>The types that a literal may have, in the order in which they are tried (C11, 6.4.4.1).\<close>

fun lit_types :: "radix \<Rightarrow> suffix \<Rightarrow> ity list" where
  "lit_types r Suf_UL = [U64]"
| "lit_types r Suf_ULL = [U64]"
| "lit_types r Suf_L = (if r = Dec then [S64] else [S64, U64])"
| "lit_types r Suf_LL = (if r = Dec then [S64] else [S64, U64])"
| "lit_types r No_Suffix = (if r = Dec then [S32, S64] else [S32, U32, S64, U64])"

fun first_fitting :: "ity list \<Rightarrow> int \<Rightarrow> (ity \<times> int) option" where
  "first_fitting [] v = None"
| "first_fitting (t # ts) v = (if representable t v then Some (t, v) else first_fitting ts v)"

text \<open>The usual arithmetic conversions.\<close>

definition common :: "ity \<Rightarrow> ity \<Rightarrow> ity" where
  "common s t = (if U64 \<in> {s, t} then U64 else if S64 \<in> {s, t} then S64 else if U32 \<in> {s, t} then U32 else S32)"

definition binop :: "(int \<Rightarrow> int \<Rightarrow> int) \<Rightarrow> (ity \<times> int) option \<Rightarrow> (ity \<times> int) option \<Rightarrow> (ity \<times> int) option" where
  "binop f x y =
     (case (x, y) of
        (Some (s, a), Some (t, b)) \<Rightarrow>
          if s = VoidP \<or> t = VoidP then None
          else let c = common s t in result c (f (convert c a) (convert c b))
      | _ \<Rightarrow> None)"

definition shift :: "(int \<Rightarrow> nat \<Rightarrow> int) \<Rightarrow> (ity \<times> int) option \<Rightarrow> (ity \<times> int) option \<Rightarrow> (ity \<times> int) option" where
  "shift f x y =
     (case (x, y) of
        (Some (s, a), Some (t, b)) \<Rightarrow>
          if s = VoidP \<or> t = VoidP \<or> b < 0 \<or> int (width s) \<le> b then None else result s (f a (nat b))
      | _ \<Rightarrow> None)"

text \<open>An identifier that is left is undeclared: the expression does not compile.\<close>

fun eval :: "cexp \<Rightarrow> (ity \<times> int) option" where
  "eval (Lit r n s) = first_fitting (lit_types r s) n"
| "eval (Neg e) = (case eval e of Some (t, v) \<Rightarrow> if t = VoidP then None else result t (- v) | None \<Rightarrow> None)"
| "eval (Compl e) = (case eval e of Some (t, v) \<Rightarrow> if t = VoidP then None else result t (- v - 1) | None \<Rightarrow> None)"
| "eval (BOr e e') = binop (OR) (eval e) (eval e')"
| "eval (BAnd e e') = binop (AND) (eval e) (eval e')"
| "eval (Plus e e') = binop (+) (eval e) (eval e')"
| "eval (Times e e') = binop (*) (eval e) (eval e')"
| "eval (Shl e e') = shift (\<lambda>a n. a * 2 ^ n) (eval e) (eval e')"
| "eval (Shr e e') = shift (\<lambda>a n. a div 2 ^ n) (eval e) (eval e')"
| "eval (Cast t e) = (case eval e of Some (_, v) \<Rightarrow> Some (t, convert t v) | None \<Rightarrow> None)"
| "eval (Ident x) = None"
| "eval (Call f es) = None"
| "eval (Param i) = None"
| "eval (Paste e s) = None"

section \<open>Macros\<close>

datatype macro = Flag | Obj cexp | Fun nat cexp

text \<open>The definitions in force, newest first; \<open>None\<close> is an \<open>#undef\<close>.\<close>

type_synonym env = "(string \<times> macro option) list"

fun lookup :: "env \<Rightarrow> string \<Rightarrow> macro option" where
  "lookup [] x = None"
| "lookup ((y, d) # M) x = (if x = y then d else lookup M x)"

lemma lookup_SomeD: "lookup M x = Some d \<Longrightarrow> x \<in> fst ` set M"
  by (induction M x rule: lookup.induct) (auto split: if_splits)

text \<open>The suffix of a literal is pasted to the last token of an expression.\<close>

fun paste :: "cexp \<Rightarrow> suffix \<Rightarrow> cexp" where
  "paste (Lit r n t) s = Lit r n s"
| "paste (Neg e) s = Neg (paste e s)"
| "paste (Compl e) s = Compl (paste e s)"
| "paste e s = Paste e s"

text \<open>The arguments are put in expanded, except next to \<open>##\<close>.\<close>

fun subst :: "cexp list \<Rightarrow> cexp list \<Rightarrow> cexp \<Rightarrow> cexp" where
  "subst raw args (Param i) = (if i < length args then args ! i else Param i)"
| "subst raw args (Paste (Param i) s) = (if i < length raw then paste (raw ! i) s else Paste (Param i) s)"
| "subst raw args (Paste e s) = Paste (subst raw args e) s"
| "subst raw args (Call f es) = Call f (map (subst raw args) es)"
| "subst raw args (Neg e) = Neg (subst raw args e)"
| "subst raw args (Compl e) = Compl (subst raw args e)"
| "subst raw args (BOr e e') = BOr (subst raw args e) (subst raw args e')"
| "subst raw args (BAnd e e') = BAnd (subst raw args e) (subst raw args e')"
| "subst raw args (Shl e e') = Shl (subst raw args e) (subst raw args e')"
| "subst raw args (Shr e e') = Shr (subst raw args e) (subst raw args e')"
| "subst raw args (Plus e e') = Plus (subst raw args e) (subst raw args e')"
| "subst raw args (Times e e') = Times (subst raw args e) (subst raw args e')"
| "subst raw args (Cast t e) = Cast t (subst raw args e)"
| "subst raw args (Lit r n s) = Lit r n s"
| "subst raw args (Ident x) = Ident x"

text \<open>A macro is not expanded again inside its own expansion: \<open>H\<close> are the names that are hidden.\<close>

function expand :: "env \<Rightarrow> string list \<Rightarrow> cexp \<Rightarrow> cexp" where
  "expand M H (Ident x) =
     (if x \<in> set H then Ident x
      else case lookup M x of Some (Obj e) \<Rightarrow> expand M (x # H) e | _ \<Rightarrow> Ident x)"
| "expand M H (Call f es) =
     (if f \<in> set H then Call f (map (expand M H) es)
      else case lookup M f of
             Some (Fun n e) \<Rightarrow>
               if n = length es then expand M (f # H) (subst es (map (expand M H) es) e)
               else Call f (map (expand M H) es)
           | _ \<Rightarrow> Call f (map (expand M H) es))"
| "expand M H (Paste e s) = Paste (expand M H e) s"
| "expand M H (Neg e) = Neg (expand M H e)"
| "expand M H (Compl e) = Compl (expand M H e)"
| "expand M H (BOr e e') = BOr (expand M H e) (expand M H e')"
| "expand M H (BAnd e e') = BAnd (expand M H e) (expand M H e')"
| "expand M H (Shl e e') = Shl (expand M H e) (expand M H e')"
| "expand M H (Shr e e') = Shr (expand M H e) (expand M H e')"
| "expand M H (Plus e e') = Plus (expand M H e) (expand M H e')"
| "expand M H (Times e e') = Times (expand M H e) (expand M H e')"
| "expand M H (Cast t e) = Cast t (expand M H e)"
| "expand M H (Lit r n s) = Lit r n s"
| "expand M H (Param i) = Param i"
  by pat_completeness auto

lemma hide_measure:
  assumes "x \<notin> set H" "lookup M x = Some d"
  shows "card (fst ` set M - insert x (set H)) < card (fst ` set M - set H)"
proof -
  have "x \<in> fst ` set M - set H" using assms lookup_SomeD by fast
  moreover have "fst ` set M - insert x (set H) = (fst ` set M - set H) - {x}" by blast
  ultimately show ?thesis by (simp only: card_Diff1_less finite_Diff finite_imageI finite_set)
qed

termination expand
proof (relation "(\<lambda>(M, H, e). card (fst ` set M - set H)) <*mlex*> measure (\<lambda>(M, H, e). size e)", goal_cases)
  case 1
  show ?case by (simp add: wf_mlex)
qed (auto simp: mlex_prod_def less_Suc_eq_le size_list_estimation' dest: hide_measure)

definition macro_value :: "env \<Rightarrow> cexp \<Rightarrow> (ity \<times> int) option" where
  "macro_value M e = eval (expand M [] e)"

section \<open>Directives\<close>

datatype directive =
    Define string macro
  | Undef string
  | If_defined string "directive list" "directive list"
  | Error

abbreviation def_dec :: "string \<Rightarrow> int \<Rightarrow> directive" where "def_dec x n \<equiv> Define x (Obj (Lit Dec n No_Suffix))"
abbreviation def_oct :: "string \<Rightarrow> int \<Rightarrow> directive" where "def_oct x n \<equiv> Define x (Obj (Lit Oct n No_Suffix))"
abbreviation def_hex :: "string \<Rightarrow> int \<Rightarrow> directive" where "def_hex x n \<equiv> Define x (Obj (Lit Hex n No_Suffix))"
abbreviation def_as :: "string \<Rightarrow> string \<Rightarrow> directive" where "def_as x y \<equiv> Define x (Obj (Ident y))"

definition is_defined :: "env \<Rightarrow> string \<Rightarrow> bool" where
  "is_defined M x \<longleftrightarrow> lookup M x \<noteq> None"

text \<open>\<open>None\<close> is the \<open>#error\<close>.\<close>

fun preprocess :: "directive list \<Rightarrow> env \<Rightarrow> env option" where
  "preprocess [] M = Some M"
| "preprocess (Define x d # ds) M = preprocess ds ((x, Some d) # M)"
| "preprocess (Undef x # ds) M = preprocess ds ((x, None) # M)"
| "preprocess (If_defined x ts es # ds) M =
     Option.bind (preprocess (if is_defined M x then ts else es) M) (preprocess ds)"
| "preprocess (Error # ds) M = None"

lemma preprocess_append:
  "preprocess (ds @ ds') M = (case preprocess ds M of Some M' \<Rightarrow> preprocess ds' M' | None \<Rightarrow> None)"
  by (induction ds M rule: preprocess.induct) (auto split: bind_splits option.splits)

section \<open>Evaluation by the simplifier\<close>

text \<open>
  The lists of directives and of definitions are long; the congruence rules keep the simplifier from entering
  them, so that only the head of a list is rewritten.
\<close>

lemma preprocess_if:
  "preprocess (If_defined x ts es # ds) M =
     (case if lookup M x \<noteq> None then preprocess ts M else preprocess es M of
        Some M' \<Rightarrow> preprocess ds M' | None \<Rightarrow> None)"
  by (simp add: is_defined_def split: option.splits)

declare preprocess.simps [simp del]

lemmas macro_simps =
  preprocess.simps(1-3,5) preprocess_append preprocess_if macro_value_def representable_def binop_def common_def
  result_def convert_def

lemma lookup_weak_cong: "x = y \<Longrightarrow> lookup M x = lookup M y"
  by simp

lemma preprocess_weak_cong: "preprocess ds M = preprocess ds M"
  by (rule refl)

lemma expand_weak_cong: "e = e' \<Longrightarrow> expand M H e = expand M H e'"
  by simp

lemmas macro_congs = lookup_weak_cong preprocess_weak_cong expand_weak_cong

end
