(* ===== verification/Headers.thy ===== *)
theory Headers
  imports Cpp
begin

text \<open>
  The macro definitions of the headers as lists of directives, in the order of the sources, and
  what it means that a header gives a name a value.
\<close>

section \<open>Integer types and limits\<close>

definition conf_h :: "directive list" where
  "conf_h =
  [Define ''CIA_DATA_LP64'' Flag, Define ''CIA_OS_LINUX'' Flag]"

definition stdint_h_literals :: "directive list" where
  "stdint_h_literals =
  [Define ''INT8_C'' (Fun 1 (Param 0)), Define ''INT16_C'' (Fun 1 (Param 0)),
   Define ''INT32_C'' (Fun 1 (Param 0)), Define ''UINT8_C'' (Fun 1 (Param 0)),
   Define ''UINT16_C'' (Fun 1 (Param 0)), Define ''UINT32_C'' (Fun 1 (Param 0)),
   If_defined ''CIA_DATA_LP64''
     [Define ''INT64_C'' (Fun 1 (Paste (Param 0) Suf_L)), Define ''INTMAX_C'' (Fun 1 (Paste (Param 0) Suf_L)),
      Define ''UINT64_C'' (Fun 1 (Paste (Param 0) Suf_UL)), Define ''UINTMAX_C'' (Fun 1 (Paste (Param 0) Suf_UL))]
     [If_defined ''CIA_DATA_LLP64''
        [Define ''INT64_C'' (Fun 1 (Paste (Param 0) Suf_LL)), Define ''INTMAX_C'' (Fun 1 (Paste (Param 0) Suf_LL)),
         Define ''UINT64_C'' (Fun 1 (Paste (Param 0) Suf_ULL)),
         Define ''UINTMAX_C'' (Fun 1 (Paste (Param 0) Suf_ULL))]
        [Error]]]"

definition stdint_h_widths :: "directive list" where
  "stdint_h_widths =
  [def_dec ''INT8_WIDTH'' 8, def_dec ''INT16_WIDTH'' 16, def_dec ''INT32_WIDTH'' 32,
   def_dec ''INT64_WIDTH'' 64, def_dec ''UINT8_WIDTH'' 8, def_dec ''UINT16_WIDTH'' 16,
   def_dec ''UINT32_WIDTH'' 32, def_dec ''UINT64_WIDTH'' 64, def_dec ''INT_FAST8_WIDTH'' 8,
   def_dec ''INT_FAST16_WIDTH'' 16, def_dec ''INT_FAST32_WIDTH'' 32, def_dec ''INT_FAST64_WIDTH'' 64,
   def_dec ''UINT_FAST8_WIDTH'' 8, def_dec ''UINT_FAST16_WIDTH'' 16, def_dec ''UINT_FAST32_WIDTH'' 32,
   def_dec ''UINT_FAST64_WIDTH'' 64, def_dec ''INT_LEAST8_WIDTH'' 8, def_dec ''INT_LEAST16_WIDTH'' 16,
   def_dec ''INT_LEAST32_WIDTH'' 32, def_dec ''INT_LEAST64_WIDTH'' 64, def_dec ''UINT_LEAST8_WIDTH'' 8,
   def_dec ''UINT_LEAST16_WIDTH'' 16, def_dec ''UINT_LEAST32_WIDTH'' 32, def_dec ''UINT_LEAST64_WIDTH'' 64,
   def_dec ''INTPTR_WIDTH'' 64, def_dec ''INTMAX_WIDTH'' 64, def_dec ''UINTPTR_WIDTH'' 64,
   def_dec ''UINTMAX_WIDTH'' 64]"

definition stdint_h_limits :: "directive list" where
  "stdint_h_limits =
  [Define ''_s8_min'' (Obj (Neg (Lit Hex 0x80 No_Suffix))), def_hex ''_s8_max'' 0x7f, def_hex ''_u8_max'' 0xff,
   Define ''_s16_min'' (Obj (Neg (Lit Hex 0x8000 No_Suffix))), def_hex ''_s16_max'' 0x7fff,
   def_hex ''_u16_max'' 0xffff, Define ''_s32_min'' (Obj (Neg (Lit Hex 0x80000000 No_Suffix))),
   def_hex ''_s32_max'' 0x7fffffff, def_hex ''_u32_max'' 0xffffffff,
   Define ''_s64_min'' (Obj (Call ''INT64_C'' [Neg (Lit Hex 0x8000000000000000 No_Suffix)])),
   Define ''_s64_max'' (Obj (Call ''INT64_C'' [Lit Hex 0x7fffffffffffffff No_Suffix])),
   Define ''_u64_max'' (Obj (Call ''UINT64_C'' [Lit Hex 0xffffffffffffffff No_Suffix])),
   def_as ''INT8_MIN'' ''_s8_min'', def_as ''INT_FAST8_MIN'' ''_s8_min'',
   def_as ''INT_LEAST8_MIN'' ''_s8_min'', def_as ''INT16_MIN'' ''_s16_min'',
   def_as ''INT_FAST16_MIN'' ''_s16_min'', def_as ''INT_LEAST16_MIN'' ''_s16_min'',
   def_as ''INT32_MIN'' ''_s32_min'', def_as ''INT_FAST32_MIN'' ''_s32_min'',
   def_as ''INT_LEAST32_MIN'' ''_s32_min'', def_as ''INT64_MIN'' ''_s64_min'',
   def_as ''INT_FAST64_MIN'' ''_s64_min'', def_as ''INT_LEAST64_MIN'' ''_s64_min'',
   def_as ''INTPTR_MIN'' ''_s64_min'', def_as ''INTMAX_MIN'' ''_s64_min'', def_as ''INT8_MAX'' ''_s8_max'',
   def_as ''INT_FAST8_MAX'' ''_s8_max'', def_as ''INT_LEAST8_MAX'' ''_s8_max'',
   def_as ''INT16_MAX'' ''_s16_max'', def_as ''INT_FAST16_MAX'' ''_s16_max'',
   def_as ''INT_LEAST16_MAX'' ''_s16_max'', def_as ''INT32_MAX'' ''_s32_max'',
   def_as ''INT_FAST32_MAX'' ''_s32_max'', def_as ''INT_LEAST32_MAX'' ''_s32_max'',
   def_as ''INT64_MAX'' ''_s64_max'', def_as ''INT_FAST64_MAX'' ''_s64_max'',
   def_as ''INT_LEAST64_MAX'' ''_s64_max'', def_as ''INTPTR_MAX'' ''_s64_max'',
   def_as ''INTMAX_MAX'' ''_s64_max'', def_as ''UINT8_MAX'' ''_u8_max'', def_as ''UINT_FAST8_MAX'' ''_u8_max'',
   def_as ''UINT_LEAST8_MAX'' ''_u8_max'', def_as ''UINT16_MAX'' ''_u16_max'',
   def_as ''UINT_FAST16_MAX'' ''_u16_max'', def_as ''UINT_LEAST16_MAX'' ''_u16_max'',
   def_as ''UINT32_MAX'' ''_u32_max'', def_as ''UINT_FAST32_MAX'' ''_u32_max'',
   def_as ''UINT_LEAST32_MAX'' ''_u32_max'', def_as ''UINT64_MAX'' ''_u64_max'',
   def_as ''UINT_FAST64_MAX'' ''_u64_max'', def_as ''UINT_LEAST64_MAX'' ''_u64_max'',
   def_as ''UINTPTR_MAX'' ''_u64_max'', def_as ''UINTMAX_MAX'' ''_u64_max'']"

definition stdint_h_undefs :: "directive list" where
  "stdint_h_undefs =
  [Undef ''_s8_max'', Undef ''_s8_min'', Undef ''_u8_max'', Undef ''_s16_max'', Undef ''_s16_min'',
   Undef ''_u16_max'', Undef ''_s32_max'', Undef ''_s32_min'', Undef ''_u32_max'', Undef ''_s64_max'',
   Undef ''_s64_min'', Undef ''_u64_max'']"

definition stdint_h :: "directive list" where
  "stdint_h = stdint_h_literals @ stdint_h_widths @ stdint_h_limits @ stdint_h_undefs"

section \<open>The kernel interface\<close>

definition syscall_h_stdio :: "directive list" where
  "syscall_h_stdio =
  [If_defined ''STDIN_FILENO''
     []
     [def_oct ''STDIN_FILENO'' 0, def_dec ''STDOUT_FILENO'' 1, def_dec ''STDERR_FILENO'' 2]]"

definition syscall_h_first :: "directive list" where
  "syscall_h_first =
  [def_oct ''SYS_read'' 0, def_dec ''SYS_write'' 1, def_dec ''SYS_open'' 2, def_dec ''SYS_close'' 3,
   def_dec ''SYS_stat'' 4, def_dec ''SYS_fstat'' 5, def_dec ''SYS_lstat'' 6, def_dec ''SYS_poll'' 7,
   def_dec ''SYS_lseek'' 8, def_dec ''SYS_mmap'' 9, def_dec ''SYS_mprotect'' 10, def_dec ''SYS_munmap'' 11,
   def_dec ''SYS_brk'' 12, def_dec ''SYS_rt_sigaction'' 13, def_dec ''SYS_rt_sigprocmask'' 14,
   def_dec ''SYS_rt_sigreturn'' 15, def_dec ''SYS_ioctl'' 16, def_dec ''SYS_pread64'' 17,
   def_dec ''SYS_pwrite64'' 18, def_dec ''SYS_readv'' 19, def_dec ''SYS_writev'' 20, def_dec ''SYS_access'' 21,
   def_dec ''SYS_pipe'' 22, def_dec ''SYS_select'' 23, def_dec ''SYS_sched_yield'' 24,
   def_dec ''SYS_mremap'' 25, def_dec ''SYS_msync'' 26, def_dec ''SYS_mincore'' 27, def_dec ''SYS_madvise'' 28,
   def_dec ''SYS_shmget'' 29, def_dec ''SYS_shmat'' 30, def_dec ''SYS_shmctl'' 31, def_dec ''SYS_dup'' 32,
   def_dec ''SYS_dup2'' 33, def_dec ''SYS_pause'' 34, def_dec ''SYS_nanosleep'' 35,
   def_dec ''SYS_getitimer'' 36, def_dec ''SYS_alarm'' 37, def_dec ''SYS_setitimer'' 38,
   def_dec ''SYS_getpid'' 39, def_dec ''SYS_sendfile'' 40, def_dec ''SYS_socket'' 41,
   def_dec ''SYS_connect'' 42, def_dec ''SYS_accept'' 43, def_dec ''SYS_sendto'' 44,
   def_dec ''SYS_recvfrom'' 45, def_dec ''SYS_sendmsg'' 46, def_dec ''SYS_recvmsg'' 47,
   def_dec ''SYS_shutdown'' 48, def_dec ''SYS_bind'' 49, def_dec ''SYS_listen'' 50,
   def_dec ''SYS_getsockname'' 51, def_dec ''SYS_getpeername'' 52, def_dec ''SYS_socketpair'' 53,
   def_dec ''SYS_setsockopt'' 54, def_dec ''SYS_getsockopt'' 55, def_dec ''SYS_clone'' 56,
   def_dec ''SYS_fork'' 57, def_dec ''SYS_vfork'' 58, def_dec ''SYS_execve'' 59, def_dec ''SYS_exit'' 60,
   def_dec ''SYS_wait4'' 61, def_dec ''SYS_kill'' 62, def_dec ''SYS_uname'' 63, def_dec ''SYS_semget'' 64,
   def_dec ''SYS_semop'' 65, def_dec ''SYS_semctl'' 66, def_dec ''SYS_shmdt'' 67, def_dec ''SYS_msgget'' 68,
   def_dec ''SYS_msgsnd'' 69, def_dec ''SYS_msgrcv'' 70, def_dec ''SYS_msgctl'' 71, def_dec ''SYS_fcntl'' 72,
   def_dec ''SYS_flock'' 73, def_dec ''SYS_fsync'' 74, def_dec ''SYS_fdatasync'' 75,
   def_dec ''SYS_truncate'' 76, def_dec ''SYS_ftruncate'' 77, def_dec ''SYS_getdents'' 78,
   def_dec ''SYS_getcwd'' 79, def_dec ''SYS_chdir'' 80, def_dec ''SYS_fchdir'' 81, def_dec ''SYS_rename'' 82,
   def_dec ''SYS_mkdir'' 83, def_dec ''SYS_rmdir'' 84, def_dec ''SYS_creat'' 85, def_dec ''SYS_link'' 86,
   def_dec ''SYS_unlink'' 87, def_dec ''SYS_symlink'' 88, def_dec ''SYS_readlink'' 89,
   def_dec ''SYS_chmod'' 90, def_dec ''SYS_fchmod'' 91, def_dec ''SYS_chown'' 92, def_dec ''SYS_fchown'' 93,
   def_dec ''SYS_lchown'' 94, def_dec ''SYS_umask'' 95, def_dec ''SYS_gettimeofday'' 96,
   def_dec ''SYS_getrlimit'' 97, def_dec ''SYS_getrusage'' 98, def_dec ''SYS_sysinfo'' 99,
   def_dec ''SYS_times'' 100, def_dec ''SYS_ptrace'' 101, def_dec ''SYS_getuid'' 102,
   def_dec ''SYS_syslog'' 103, def_dec ''SYS_getgid'' 104, def_dec ''SYS_setuid'' 105,
   def_dec ''SYS_setgid'' 106, def_dec ''SYS_geteuid'' 107, def_dec ''SYS_getegid'' 108,
   def_dec ''SYS_setpgid'' 109, def_dec ''SYS_getppid'' 110, def_dec ''SYS_getpgrp'' 111,
   def_dec ''SYS_setsid'' 112, def_dec ''SYS_setreuid'' 113, def_dec ''SYS_setregid'' 114,
   def_dec ''SYS_getgroups'' 115, def_dec ''SYS_setgroups'' 116, def_dec ''SYS_setresuid'' 117,
   def_dec ''SYS_getresuid'' 118, def_dec ''SYS_setresgid'' 119, def_dec ''SYS_getresgid'' 120,
   def_dec ''SYS_getpgid'' 121, def_dec ''SYS_setfsuid'' 122, def_dec ''SYS_setfsgid'' 123,
   def_dec ''SYS_getsid'' 124, def_dec ''SYS_capget'' 125, def_dec ''SYS_capset'' 126,
   def_dec ''SYS_rt_sigpending'' 127, def_dec ''SYS_rt_sigtimedwait'' 128, def_dec ''SYS_rt_sigqueueinfo'' 129,
   def_dec ''SYS_rt_sigsuspend'' 130, def_dec ''SYS_sigaltstack'' 131, def_dec ''SYS_utime'' 132,
   def_dec ''SYS_mknod'' 133, def_dec ''SYS_uselib'' 134, def_dec ''SYS_personality'' 135,
   def_dec ''SYS_ustat'' 136, def_dec ''SYS_statfs'' 137, def_dec ''SYS_fstatfs'' 138,
   def_dec ''SYS_sysfs'' 139, def_dec ''SYS_getpriority'' 140, def_dec ''SYS_setpriority'' 141,
   def_dec ''SYS_sched_setparam'' 142, def_dec ''SYS_sched_getparam'' 143,
   def_dec ''SYS_sched_setscheduler'' 144, def_dec ''SYS_sched_getscheduler'' 145,
   def_dec ''SYS_sched_get_priority_max'' 146, def_dec ''SYS_sched_get_priority_min'' 147,
   def_dec ''SYS_sched_rr_get_interval'' 148, def_dec ''SYS_mlock'' 149]"

definition syscall_h_rest :: "directive list" where
  "syscall_h_rest =
  [def_dec ''SYS_munlock'' 150, def_dec ''SYS_mlockall'' 151, def_dec ''SYS_munlockall'' 152,
   def_dec ''SYS_vhangup'' 153, def_dec ''SYS_modify_ldt'' 154, def_dec ''SYS_pivot_root'' 155,
   def_dec ''SYS__sysctl'' 156, def_dec ''SYS_prctl'' 157, def_dec ''SYS_arch_prctl'' 158,
   def_dec ''SYS_adjtimex'' 159, def_dec ''SYS_setrlimit'' 160, def_dec ''SYS_chroot'' 161,
   def_dec ''SYS_sync'' 162, def_dec ''SYS_acct'' 163, def_dec ''SYS_settimeofday'' 164,
   def_dec ''SYS_mount'' 165, def_dec ''SYS_umount2'' 166, def_dec ''SYS_swapon'' 167,
   def_dec ''SYS_swapoff'' 168, def_dec ''SYS_reboot'' 169, def_dec ''SYS_sethostname'' 170,
   def_dec ''SYS_setdomainname'' 171, def_dec ''SYS_iopl'' 172, def_dec ''SYS_ioperm'' 173,
   def_dec ''SYS_create_module'' 174, def_dec ''SYS_init_module'' 175, def_dec ''SYS_delete_module'' 176,
   def_dec ''SYS_get_kernel_syms'' 177, def_dec ''SYS_query_module'' 178, def_dec ''SYS_quotactl'' 179,
   def_dec ''SYS_nfsservctl'' 180, def_dec ''SYS_getpmsg'' 181, def_dec ''SYS_putpmsg'' 182,
   def_dec ''SYS_afs_syscall'' 183, def_dec ''SYS_tuxcall'' 184, def_dec ''SYS_security'' 185,
   def_dec ''SYS_gettid'' 186, def_dec ''SYS_readahead'' 187, def_dec ''SYS_setxattr'' 188,
   def_dec ''SYS_lsetxattr'' 189, def_dec ''SYS_fsetxattr'' 190, def_dec ''SYS_getxattr'' 191,
   def_dec ''SYS_lgetxattr'' 192, def_dec ''SYS_fgetxattr'' 193, def_dec ''SYS_listxattr'' 194,
   def_dec ''SYS_llistxattr'' 195, def_dec ''SYS_flistxattr'' 196, def_dec ''SYS_removexattr'' 197,
   def_dec ''SYS_lremovexattr'' 198, def_dec ''SYS_fremovexattr'' 199, def_dec ''SYS_tkill'' 200,
   def_dec ''SYS_time'' 201, def_dec ''SYS_futex'' 202, def_dec ''SYS_sched_setaffinity'' 203,
   def_dec ''SYS_sched_getaffinity'' 204, def_dec ''SYS_set_thread_area'' 205, def_dec ''SYS_io_setup'' 206,
   def_dec ''SYS_io_destroy'' 207, def_dec ''SYS_io_getevents'' 208, def_dec ''SYS_io_submit'' 209,
   def_dec ''SYS_io_cancel'' 210, def_dec ''SYS_get_thread_area'' 211, def_dec ''SYS_lookup_dcookie'' 212,
   def_dec ''SYS_epoll_create'' 213, def_dec ''SYS_epoll_ctl_old'' 214, def_dec ''SYS_epoll_wait_old'' 215,
   def_dec ''SYS_remap_file_pages'' 216, def_dec ''SYS_getdents64'' 217, def_dec ''SYS_set_tid_address'' 218,
   def_dec ''SYS_restart_syscall'' 219, def_dec ''SYS_semtimedop'' 220, def_dec ''SYS_fadvise64'' 221,
   def_dec ''SYS_timer_create'' 222, def_dec ''SYS_timer_settime'' 223, def_dec ''SYS_timer_gettime'' 224,
   def_dec ''SYS_timer_getoverrun'' 225, def_dec ''SYS_timer_delete'' 226, def_dec ''SYS_clock_settime'' 227,
   def_dec ''SYS_clock_gettime'' 228, def_dec ''SYS_clock_getres'' 229, def_dec ''SYS_clock_nanosleep'' 230,
   def_dec ''SYS_exit_group'' 231, def_dec ''SYS_epoll_wait'' 232, def_dec ''SYS_epoll_ctl'' 233,
   def_dec ''SYS_tgkill'' 234, def_dec ''SYS_utimes'' 235, def_dec ''SYS_vserver'' 236,
   def_dec ''SYS_mbind'' 237, def_dec ''SYS_set_mempolicy'' 238, def_dec ''SYS_get_mempolicy'' 239,
   def_dec ''SYS_mq_open'' 240, def_dec ''SYS_mq_unlink'' 241, def_dec ''SYS_mq_timedsend'' 242,
   def_dec ''SYS_mq_timedreceive'' 243, def_dec ''SYS_mq_notify'' 244, def_dec ''SYS_mq_getsetattr'' 245,
   def_dec ''SYS_kexec_load'' 246, def_dec ''SYS_waitid'' 247, def_dec ''SYS_add_key'' 248,
   def_dec ''SYS_request_key'' 249, def_dec ''SYS_keyctl'' 250, def_dec ''SYS_ioprio_set'' 251,
   def_dec ''SYS_ioprio_get'' 252, def_dec ''SYS_inotify_init'' 253, def_dec ''SYS_inotify_add_watch'' 254,
   def_dec ''SYS_inotify_rm_watch'' 255, def_dec ''SYS_migrate_pages'' 256, def_dec ''SYS_openat'' 257,
   def_dec ''SYS_mkdirat'' 258, def_dec ''SYS_mknodat'' 259, def_dec ''SYS_fchownat'' 260,
   def_dec ''SYS_futimesat'' 261, def_dec ''SYS_newfstatat'' 262, def_dec ''SYS_unlinkat'' 263,
   def_dec ''SYS_renameat'' 264, def_dec ''SYS_linkat'' 265, def_dec ''SYS_symlinkat'' 266,
   def_dec ''SYS_readlinkat'' 267, def_dec ''SYS_fchmodat'' 268, def_dec ''SYS_faccessat'' 269,
   def_dec ''SYS_pselect6'' 270, def_dec ''SYS_ppoll'' 271, def_dec ''SYS_unshare'' 272,
   def_dec ''SYS_set_robust_list'' 273, def_dec ''SYS_get_robust_list'' 274, def_dec ''SYS_splice'' 275,
   def_dec ''SYS_tee'' 276, def_dec ''SYS_sync_file_range'' 277, def_dec ''SYS_vmsplice'' 278,
   def_dec ''SYS_move_pages'' 279, def_dec ''SYS_utimensat'' 280, def_dec ''SYS_epoll_pwait'' 281,
   def_dec ''SYS_signalfd'' 282, def_dec ''SYS_timerfd_create'' 283, def_dec ''SYS_eventfd'' 284,
   def_dec ''SYS_fallocate'' 285, def_dec ''SYS_timerfd_settime'' 286, def_dec ''SYS_timerfd_gettime'' 287,
   def_dec ''SYS_accept4'' 288, def_dec ''SYS_signalfd4'' 289, def_dec ''SYS_eventfd2'' 290,
   def_dec ''SYS_epoll_create1'' 291, def_dec ''SYS_dup3'' 292, def_dec ''SYS_pipe2'' 293,
   def_dec ''SYS_inotify_init1'' 294, def_dec ''SYS_preadv'' 295, def_dec ''SYS_pwritev'' 296,
   def_dec ''SYS_rt_tgsigqueueinfo'' 297, def_dec ''SYS_perf_event_open'' 298]"

definition syscall_h :: "directive list" where
  "syscall_h = syscall_h_stdio @ syscall_h_first @ syscall_h_rest"

definition errno_h_base :: "directive list" where
  "errno_h_base =
  [def_dec ''EPERM'' 1, def_dec ''ENOENT'' 2, def_dec ''ESRCH'' 3, def_dec ''EINTR'' 4, def_dec ''EIO'' 5,
   def_dec ''ENXIO'' 6, def_dec ''E2BIG'' 7, def_dec ''ENOEXEC'' 8, def_dec ''EBADF'' 9, def_dec ''ECHILD'' 10,
   def_dec ''EAGAIN'' 11, def_dec ''ENOMEM'' 12, def_dec ''EACCES'' 13, def_dec ''EFAULT'' 14,
   def_dec ''ENOTBLK'' 15, def_dec ''EBUSY'' 16, def_dec ''EEXIST'' 17, def_dec ''EXDEV'' 18,
   def_dec ''ENODEV'' 19, def_dec ''ENOTDIR'' 20, def_dec ''EISDIR'' 21, def_dec ''EINVAL'' 22,
   def_dec ''ENFILE'' 23, def_dec ''EMFILE'' 24, def_dec ''ENOTTY'' 25, def_dec ''ETXTBSY'' 26,
   def_dec ''EFBIG'' 27, def_dec ''ENOSPC'' 28, def_dec ''ESPIPE'' 29, def_dec ''EROFS'' 30,
   def_dec ''EMLINK'' 31, def_dec ''EPIPE'' 32, def_dec ''EDOM'' 33, def_dec ''ERANGE'' 34]"

definition errno_h_linux :: "directive list" where
  "errno_h_linux =
  [def_dec ''EDEADLK'' 35, def_dec ''ENAMETOOLONG'' 36, def_dec ''ENOLCK'' 37, def_dec ''ENOSYS'' 38,
   def_dec ''ENOTEMPTY'' 39, def_dec ''ELOOP'' 40, def_as ''EWOULDBLOCK'' ''EAGAIN'', def_dec ''ENOMSG'' 42,
   def_dec ''EIDRM'' 43, def_dec ''ECHRNG'' 44, def_dec ''EL2NSYNC'' 45, def_dec ''EL3HLT'' 46,
   def_dec ''EL3RST'' 47, def_dec ''ELNRNG'' 48, def_dec ''EUNATCH'' 49, def_dec ''ENOCSI'' 50,
   def_dec ''EL2HLT'' 51, def_dec ''EBADE'' 52, def_dec ''EBADR'' 53, def_dec ''EXFULL'' 54,
   def_dec ''ENOANO'' 55, def_dec ''EBADRQC'' 56, def_dec ''EBADSLT'' 57, def_as ''EDEADLOCK'' ''EDEADLK'',
   def_dec ''EBFONT'' 59, def_dec ''ENOSTR'' 60, def_dec ''ENODATA'' 61, def_dec ''ETIME'' 62,
   def_dec ''ENOSR'' 63, def_dec ''ENONET'' 64, def_dec ''ENOPKG'' 65, def_dec ''EREMOTE'' 66,
   def_dec ''ENOLINK'' 67, def_dec ''EADV'' 68, def_dec ''ESRMNT'' 69, def_dec ''ECOMM'' 70,
   def_dec ''EPROTO'' 71, def_dec ''EMULTIHOP'' 72, def_dec ''EDOTDOT'' 73, def_dec ''EBADMSG'' 74,
   def_dec ''EOVERFLOW'' 75, def_dec ''ENOTUNIQ'' 76, def_dec ''EBADFD'' 77, def_dec ''EREMCHG'' 78,
   def_dec ''ELIBACC'' 79, def_dec ''ELIBBAD'' 80, def_dec ''ELIBSCN'' 81, def_dec ''ELIBMAX'' 82,
   def_dec ''ELIBEXEC'' 83, def_dec ''EILSEQ'' 84, def_dec ''ERESTART'' 85, def_dec ''ESTRPIPE'' 86,
   def_dec ''EUSERS'' 87, def_dec ''ENOTSOCK'' 88, def_dec ''EDESTADDRREQ'' 89, def_dec ''EMSGSIZE'' 90,
   def_dec ''EPROTOTYPE'' 91, def_dec ''ENOPROTOOPT'' 92, def_dec ''EPROTONOSUPPORT'' 93,
   def_dec ''ESOCKTNOSUPPORT'' 94, def_dec ''EOPNOTSUPP'' 95, def_dec ''EPFNOSUPPORT'' 96,
   def_dec ''EAFNOSUPPORT'' 97, def_dec ''EADDRINUSE'' 98, def_dec ''EADDRNOTAVAIL'' 99,
   def_dec ''ENETDOWN'' 100, def_dec ''ENETUNREACH'' 101, def_dec ''ENETRESET'' 102,
   def_dec ''ECONNABORTED'' 103, def_dec ''ECONNRESET'' 104, def_dec ''ENOBUFS'' 105, def_dec ''EISCONN'' 106,
   def_dec ''ENOTCONN'' 107, def_dec ''ESHUTDOWN'' 108, def_dec ''ETOOMANYREFS'' 109,
   def_dec ''ETIMEDOUT'' 110, def_dec ''ECONNREFUSED'' 111, def_dec ''EHOSTDOWN'' 112,
   def_dec ''EHOSTUNREACH'' 113, def_dec ''EALREADY'' 114, def_dec ''EINPROGRESS'' 115, def_dec ''ESTALE'' 116,
   def_dec ''EUCLEAN'' 117, def_dec ''ENOTNAM'' 118, def_dec ''ENAVAIL'' 119, def_dec ''EISNAM'' 120,
   def_dec ''EREMOTEIO'' 121, def_dec ''EDQUOT'' 122, def_dec ''ENOMEDIUM'' 123, def_dec ''EMEDIUMTYPE'' 124,
   def_dec ''ECANCELED'' 125, def_dec ''ENOKEY'' 126, def_dec ''EKEYEXPIRED'' 127, def_dec ''EKEYREVOKED'' 128,
   def_dec ''EKEYREJECTED'' 129, def_dec ''EOWNERDEAD'' 130, def_dec ''ENOTRECOVERABLE'' 131,
   def_dec ''ERFKILL'' 132, def_dec ''EHWPOISON'' 133]"

definition errno_h_other :: "directive list" where
  "errno_h_other =
  [If_defined ''ENOTSUP''
     []
     [def_as ''ENOTSUP'' ''EOPNOTSUPP''],
   If_defined ''ECANCELED''
     []
     [def_dec ''ECANCELED'' 125],
   If_defined ''EOWNERDEAD''
     []
     [def_dec ''EOWNERDEAD'' 130],
   If_defined ''ENOTRECOVERABLE''
     []
     [def_dec ''ENOTRECOVERABLE'' 131],
   If_defined ''ERFKILL''
     []
     [def_dec ''ERFKILL'' 132],
   If_defined ''EHWPOISON''
     []
     [def_dec ''EHWPOISON'' 133]]"

definition errno_h :: "directive list" where
  "errno_h = errno_h_base @ errno_h_linux @ errno_h_other"

definition futex_h :: "directive list" where
  "futex_h =
  [def_oct ''FUTEX_WAIT'' 0, def_dec ''FUTEX_WAKE'' 1, def_dec ''FUTEX_FD'' 2, def_dec ''FUTEX_REQUEUE'' 3,
   def_dec ''FUTEX_CMP_REQUEUE'' 4, def_dec ''FUTEX_WAKE_OP'' 5, def_dec ''FUTEX_LOCK_PI'' 6,
   def_dec ''FUTEX_UNLOCK_PI'' 7, def_dec ''FUTEX_TRYLOCK_PI'' 8, def_dec ''FUTEX_WAIT_BITSET'' 9,
   def_dec ''FUTEX_WAKE_BITSET'' 10, def_dec ''FUTEX_WAIT_REQUEUE_PI'' 11, def_dec ''FUTEX_CMP_REQUEUE_PI'' 12,
   def_dec ''FUTEX_LOCK_PI2'' 13, def_dec ''FUTEX_PRIVATE_FLAG'' 128, def_dec ''FUTEX_CLOCK_REALTIME'' 256,
   Define ''FUTEX_CMD_MASK'' (Obj (Compl (BOr (Ident ''FUTEX_PRIVATE_FLAG'') (Ident ''FUTEX_CLOCK_REALTIME'')))),
   Define ''FUTEX_WAIT_PRIVATE'' (Obj (BOr (Ident ''FUTEX_PRIVATE_FLAG'') (Ident ''FUTEX_WAIT''))),
   Define ''FUTEX_WAKE_PRIVATE'' (Obj (BOr (Ident ''FUTEX_PRIVATE_FLAG'') (Ident ''FUTEX_WAKE''))),
   Define ''FUTEX_REQUEUE_PRIVATE'' (Obj (BOr (Ident ''FUTEX_PRIVATE_FLAG'') (Ident ''FUTEX_REQUEUE''))),
   Define ''FUTEX_CMP_REQUEUE_PRIVATE'' (Obj (BOr (Ident ''FUTEX_PRIVATE_FLAG'') (Ident ''FUTEX_CMP_REQUEUE''))),
   Define ''FUTEX_WAKE_OP_PRIVATE'' (Obj (BOr (Ident ''FUTEX_PRIVATE_FLAG'') (Ident ''FUTEX_WAKE_OP''))),
   Define ''FUTEX_LOCK_PI_PRIVATE'' (Obj (BOr (Ident ''FUTEX_PRIVATE_FLAG'') (Ident ''FUTEX_LOCK_PI''))),
   Define ''FUTEX_LOCK_PI2_PRIVATE'' (Obj (BOr (Ident ''FUTEX_PRIVATE_FLAG'') (Ident ''FUTEX_LOCK_PI2''))),
   Define ''FUTEX_UNLOCK_PI_PRIVATE'' (Obj (BOr (Ident ''FUTEX_PRIVATE_FLAG'') (Ident ''FUTEX_UNLOCK_PI''))),
   Define ''FUTEX_TRYLOCK_PI_PRIVATE'' (Obj (BOr (Ident ''FUTEX_PRIVATE_FLAG'') (Ident ''FUTEX_TRYLOCK_PI''))),
   Define ''FUTEX_WAIT_BITSET_PRIVATE'' (Obj (BOr (Ident ''FUTEX_PRIVATE_FLAG'') (Ident ''FUTEX_WAIT_BITSET''))),
   Define ''FUTEX_WAKE_BITSET_PRIVATE'' (Obj (BOr (Ident ''FUTEX_PRIVATE_FLAG'') (Ident ''FUTEX_WAKE_BITSET''))),
   Define ''FUTEX_WAIT_REQUEUE_PI_PRIVATE'' (Obj (BOr (Ident ''FUTEX_PRIVATE_FLAG'') (Ident ''FUTEX_WAIT_REQUEUE_PI''))),
   Define ''FUTEX_CMP_REQUEUE_PI_PRIVATE'' (Obj (BOr (Ident ''FUTEX_PRIVATE_FLAG'') (Ident ''FUTEX_CMP_REQUEUE_PI''))),
   def_dec ''FUTEX_32'' 2, def_dec ''FUTEX_WAITV_MAX'' 128, def_hex ''FUTEX_WAITERS'' 0x80000000,
   def_hex ''FUTEX_OWNER_DIED'' 0x40000000, def_hex ''FUTEX_TID_MASK'' 0x3fffffff,
   def_dec ''ROBUST_LIST_LIMIT'' 2048, def_hex ''FUTEX_BITSET_MATCH_ANY'' 0xffffffff,
   def_oct ''FUTEX_OP_SET'' 0, def_dec ''FUTEX_OP_ADD'' 1, def_dec ''FUTEX_OP_OR'' 2,
   def_dec ''FUTEX_OP_ANDN'' 3, def_dec ''FUTEX_OP_XOR'' 4, def_dec ''FUTEX_OP_OPARG_SHIFT'' 8,
   def_oct ''FUTEX_OP_CMP_EQ'' 0, def_dec ''FUTEX_OP_CMP_NE'' 1, def_dec ''FUTEX_OP_CMP_LT'' 2,
   def_dec ''FUTEX_OP_CMP_LE'' 3, def_dec ''FUTEX_OP_CMP_GT'' 4, def_dec ''FUTEX_OP_CMP_GE'' 5]"

definition mman_h :: "directive list" where
  "mman_h =
  [def_hex ''MAP_32BIT'' 0x40, def_hex ''PROT_READ'' 0x1, def_hex ''PROT_WRITE'' 0x2,
   def_hex ''PROT_EXEC'' 0x4, def_hex ''PROT_NONE'' 0x0, def_hex ''PROT_GROWSDOWN'' 0x01000000,
   def_hex ''PROT_GROWSUP'' 0x02000000, def_hex ''MAP_SHARED'' 0x01, def_hex ''MAP_PRIVATE'' 0x02,
   def_hex ''MAP_SHARED_VALIDATE'' 0x03, def_hex ''MAP_TYPE'' 0x0f, def_hex ''MAP_FIXED'' 0x10,
   def_oct ''MAP_FILE'' 0, def_hex ''MAP_ANONYMOUS'' 0x20, def_as ''MAP_ANON'' ''MAP_ANONYMOUS'',
   def_dec ''MAP_HUGE_SHIFT'' 26, def_hex ''MAP_HUGE_MASK'' 0x3f, def_dec ''MS_ASYNC'' 1,
   def_dec ''MS_SYNC'' 4, def_dec ''MS_INVALIDATE'' 2,
   Define ''MAP_FAILED'' (Obj (Cast VoidP (Neg (Lit Dec 1 No_Suffix)))), def_hex ''MAP_GROWSDOWN'' 0x00100,
   def_hex ''MAP_DENYWRITE'' 0x00800, def_hex ''MAP_EXECUTABLE'' 0x01000, def_hex ''MAP_LOCKED'' 0x02000,
   def_hex ''MAP_NORESERVE'' 0x04000, def_hex ''MAP_POPULATE'' 0x08000, def_hex ''MAP_NONBLOCK'' 0x10000,
   def_hex ''MAP_STACK'' 0x20000, def_hex ''MAP_HUGETLB'' 0x40000, def_hex ''MAP_SYNC'' 0x80000,
   def_hex ''MAP_FIXED_NOREPLACE'' 0x100000]"

definition fcntl_h :: "directive list" where
  "fcntl_h =
  [def_oct ''O_ACCMODE'' 3, def_oct ''O_RDONLY'' 0, def_oct ''O_WRONLY'' 1, def_oct ''O_RDWR'' 2,
   def_oct ''O_CREAT'' 64, def_oct ''O_EXCL'' 128, def_oct ''O_NOCTTY'' 256, def_oct ''O_TRUNC'' 512,
   def_oct ''O_APPEND'' 1024, def_oct ''O_NONBLOCK'' 2048, def_as ''O_NDELAY'' ''O_NONBLOCK'',
   def_oct ''O_SYNC'' 1052672, def_as ''O_FSYNC'' ''O_SYNC'', def_oct ''O_ASYNC'' 8192,
   def_oct ''O_CLOEXEC'' 524288, def_oct ''O_DIRECT'' 16384]"

definition sched_h :: "directive list" where
  "sched_h =
  [def_hex ''CLONE_NEWTIME'' 0x00000080, def_hex ''CLONE_VM'' 0x00000100, def_hex ''CLONE_FS'' 0x00000200,
   def_hex ''CLONE_FILES'' 0x00000400, def_hex ''CLONE_SIGHAND'' 0x00000800,
   def_hex ''CLONE_PIDFD'' 0x00001000, def_hex ''CLONE_PTRACE'' 0x00002000, def_hex ''CLONE_VFORK'' 0x00004000,
   def_hex ''CLONE_PARENT'' 0x00008000, def_hex ''CLONE_THREAD'' 0x00010000,
   def_hex ''CLONE_NEWNS'' 0x00020000, def_hex ''CLONE_SYSVSEM'' 0x00040000,
   def_hex ''CLONE_SETTLS'' 0x00080000, def_hex ''CLONE_PARENT_SETTID'' 0x00100000,
   def_hex ''CLONE_CHILD_CLEARTID'' 0x00200000, def_hex ''CLONE_DETACHED'' 0x00400000,
   def_hex ''CLONE_UNTRACED'' 0x00800000, def_hex ''CLONE_CHILD_SETTID'' 0x01000000,
   def_hex ''CLONE_NEWCGROUP'' 0x02000000, def_hex ''CLONE_NEWUTS'' 0x04000000,
   def_hex ''CLONE_NEWIPC'' 0x08000000, def_hex ''CLONE_NEWUSER'' 0x10000000,
   def_hex ''CLONE_NEWPID'' 0x20000000, def_hex ''CLONE_NEWNET'' 0x40000000, def_hex ''CLONE_IO'' 0x80000000,
   def_oct ''SCHED_OTHER'' 0, def_dec ''SCHED_FIFO'' 1, def_dec ''SCHED_RR'' 2, def_dec ''SCHED_BATCH'' 3,
   def_dec ''SCHED_ISO'' 4, def_dec ''SCHED_IDLE'' 5, def_dec ''SCHED_DEADLINE'' 6]"

definition signal_h :: "directive list" where
  "signal_h =
  [def_dec ''SIGHUP'' 1, def_dec ''SIGINT'' 2, def_dec ''SIGQUIT'' 3, def_dec ''SIGILL'' 4,
   def_dec ''SIGTRAP'' 5, def_dec ''SIGABRT'' 6, def_dec ''SIGBUS'' 7, def_dec ''SIGFPE'' 8,
   def_dec ''SIGKILL'' 9, def_dec ''SIGUSR1'' 10, def_dec ''SIGSEGV'' 11, def_dec ''SIGUSR2'' 12,
   def_dec ''SIGPIPE'' 13, def_dec ''SIGALRM'' 14, def_dec ''SIGTERM'' 15, def_dec ''SIGSTKFLT'' 16,
   def_dec ''SIGCHLD'' 17, def_dec ''SIGCONT'' 18, def_dec ''SIGSTOP'' 19, def_dec ''SIGTSTP'' 20,
   def_dec ''SIGTTIN'' 21, def_dec ''SIGTTOU'' 22, def_dec ''SIGURG'' 23, def_dec ''SIGXCPU'' 24,
   def_dec ''SIGXFSZ'' 25, def_dec ''SIGVTALRM'' 26, def_dec ''SIGPROF'' 27, def_dec ''SIGWINCH'' 28,
   def_dec ''SIGPOLL'' 29, def_dec ''SIGPWR'' 30, def_dec ''SIGSYS'' 31, def_as ''SIGCLD'' ''SIGCHLD'',
   def_as ''SIGIO'' ''SIGPOLL'', def_as ''SIGIOT'' ''SIGABRT'', def_dec ''SIGCANCEL'' 33,
   def_dec ''SA_NOCLDSTOP'' 1, def_dec ''SA_NOCLDWAIT'' 2, def_dec ''SA_SIGINFO'' 4,
   def_hex ''SA_ONSTACK'' 0x08000000, def_hex ''SA_RESTART'' 0x10000000, def_hex ''SA_INTERRUPT'' 0x20000000,
   def_hex ''SA_NODEFER'' 0x40000000, def_hex ''SA_RESETHAND'' 0x80000000, def_as ''SA_NOMASK'' ''SA_NODEFER'',
   def_as ''SA_ONESHOT'' ''SA_RESETHAND'', def_as ''SA_STACK'' ''SA_ONSTACK'', def_oct ''SIG_BLOCK'' 0,
   def_dec ''SIG_SETMASK'' 2, def_dec ''SIG_UNBLOCK'' 1]"

definition prctl_h :: "directive list" where
  "prctl_h =
  [def_hex ''ARCH_GET_CPUID'' 0x1011, def_hex ''ARCH_GET_FS'' 0x1003, def_hex ''ARCH_GET_GS'' 0x1004,
   def_hex ''ARCH_GET_XCOMP_GUEST_PERM'' 0x1024, def_hex ''ARCH_GET_XCOMP_PERM'' 0x1022,
   def_hex ''ARCH_GET_XCOMP_SUPP'' 0x1021, def_hex ''ARCH_MAP_VDSO_32'' 0x2002,
   def_hex ''ARCH_MAP_VDSO_64'' 0x2003, def_hex ''ARCH_MAP_VDSO_X32'' 0x2001,
   def_hex ''ARCH_REQ_XCOMP_GUEST_PERM'' 0x1025, def_hex ''ARCH_REQ_XCOMP_PERM'' 0x1023,
   def_hex ''ARCH_SET_CPUID'' 0x1012, def_hex ''ARCH_SET_FS'' 0x1002, def_hex ''ARCH_SET_GS'' 0x1001]"

section \<open>The library\<close>

definition tinyrt_h :: "directive list" where
  "tinyrt_h =
  [def_oct ''_RT_STATUS_OK'' 0, Define ''_RT_ERROR_NOT_IMPLEMENTED'' (Obj (Neg (Lit Dec 1 No_Suffix))),
   Define ''_RT_ERROR_BAD_PARAM'' (Obj (Neg (Lit Dec 2 No_Suffix))),
   Define ''_RT_ERROR_GENERIC'' (Obj (Neg (Lit Dec 3 No_Suffix))), def_dec ''_RT_STATUS_FILE_ACCESS'' 1,
   def_dec ''_RT_STATUS_FILE_NO_SPACE'' 2, def_dec ''_RT_STATUS_FILE_EXISTS'' 3,
   def_dec ''_RT_STATUS_FILE_NOT_EXISTS'' 4, def_dec ''_RT_STATUS_FILE_DIRECTORY'' 5,
   def_dec ''_RT_STATUS_FILE_NOT_DIRECTORY'' 6, def_dec ''_RT_STATUS_FILE_NAME_TOO_LONG'' 7,
   def_dec ''_RT_STATUS_FILE_LOOP'' 8, def_dec ''_RT_STATUS_FILE_BUSY'' 9,
   def_dec ''_RT_STATUS_FILE_TOO_MANY_OPEN'' 10, def_dec ''_RT_STATUS_FILE_NO_MEMORY'' 11,
   def_dec ''_RT_STATUS_FILE_IO_ERROR'' 12, def_dec ''_RT_STATUS_FILE_BAD_FILE'' 13,
   def_dec ''_RT_STATUS_FILE_EOF'' 14, def_hex ''_RT_FILE_READ'' 0x01, def_hex ''_RT_FILE_WRITE'' 0x02,
   def_hex ''_RT_FILE_CREATE'' 0x04, def_hex ''_RT_FILE_EXCLUSIVE'' 0x08, def_hex ''_RT_FILE_TRUNCATE'' 0x10,
   Define ''_RT_SYNC_WAIT_INFINITE'' (Obj (Lit Hex 0xffffffffffffffff Suf_ULL))]"

definition tcb_h :: "directive list" where
  "tcb_h =
  [def_hex ''_LD_THREAD_STATE_NOT_YET'' 0x0, def_hex ''_LD_THREAD_STATE_DETACHED'' 0x1,
   def_hex ''_LD_THREAD_STATE_JOINED'' 0x2]"

definition mem_h :: "directive list" where
  "mem_h =
  [If_defined ''KB''
     []
     [Define ''KB'' (Obj (Cast S64 (Lit Dec 1024 No_Suffix)))],
   If_defined ''MB''
     []
     [Define ''MB'' (Obj (Times (Cast S64 (Lit Dec 1024 No_Suffix)) (Ident ''KB'')))],
   If_defined ''GB''
     []
     [Define ''GB'' (Obj (Times (Cast S64 (Lit Dec 1024 No_Suffix)) (Ident ''MB'')))],
   If_defined ''TB''
     []
     [Define ''TB'' (Obj (Times (Cast S64 (Lit Dec 1024 No_Suffix)) (Ident ''GB'')))],
   def_dec ''CIA_MEM_OP_ALLOC'' 1, def_dec ''CIA_MEM_OP_FREE'' 2, def_dec ''CIA_MEM_OP_FREE_ALL'' 3,
   def_dec ''CIA_MEM_OP_RESIZE'' 4]"

definition stdio_h :: "directive list" where
  "stdio_h =
  [Define ''EOF'' (Obj (Neg (Lit Dec 1 No_Suffix)))]"

section \<open>ELF\<close>

definition elf_h_header :: "directive list" where
  "elf_h_header =
  [def_hex ''ET_NONE'' 0x0000, def_hex ''ET_REL'' 0x0001, def_hex ''ET_EXEC'' 0x0002,
   def_hex ''ET_DYN'' 0x0003, def_hex ''ET_CORE'' 0x0004, def_hex ''ET_LOOS'' 0xfe00,
   def_hex ''ET_HIOS'' 0xfeff, def_hex ''ET_LOPROC'' 0xff00, def_hex ''ET_HIPROC'' 0xffff]"

definition elf_h_machines :: "directive list" where
  "elf_h_machines =
  [def_oct ''EM_NONE'' 0, def_dec ''EM_M32'' 1, def_dec ''EM_SPARC'' 2, def_dec ''EM_386'' 3,
   def_dec ''EM_68K'' 4, def_dec ''EM_88K'' 5, def_dec ''EM_IAMCU'' 6, def_dec ''EM_860'' 7,
   def_dec ''EM_MIPS'' 8, def_dec ''EM_S370'' 9, def_dec ''EM_MIPS_RS3_LE'' 10, def_dec ''EM_PARISC'' 15,
   def_dec ''EM_VPP500'' 17, def_dec ''EM_SPARC32PLUS'' 18, def_dec ''EM_960'' 19, def_dec ''EM_PPC'' 20,
   def_dec ''EM_PPC64'' 21, def_dec ''EM_S390'' 22, def_dec ''EM_SPU'' 23, def_dec ''EM_V800'' 36,
   def_dec ''EM_FR20'' 37, def_dec ''EM_RH32'' 38, def_dec ''EM_RCE'' 39, def_dec ''EM_ARM'' 40,
   def_dec ''EM_ALPHA'' 41, def_dec ''EM_SH'' 42, def_dec ''EM_SPARCV9'' 43, def_dec ''EM_TRICORE'' 44,
   def_dec ''EM_ARC'' 45, def_dec ''EM_H8_300'' 46, def_dec ''EM_H8_300H'' 47, def_dec ''EM_H8S'' 48,
   def_dec ''EM_H8_500'' 49, def_dec ''EM_IA_64'' 50, def_dec ''EM_MIPS_X'' 51, def_dec ''EM_COLDFIRE'' 52,
   def_dec ''EM_68HC12'' 53, def_dec ''EM_MMA'' 54, def_dec ''EM_PCP'' 55, def_dec ''EM_NCPU'' 56,
   def_dec ''EM_NDR1'' 57, def_dec ''EM_STARCORE'' 58, def_dec ''EM_ME16'' 59, def_dec ''EM_ST100'' 60,
   def_dec ''EM_TINYJ'' 61, def_dec ''EM_X86_64'' 62, def_dec ''EM_PDSP'' 63, def_dec ''EM_PDP10'' 64,
   def_dec ''EM_PDP11'' 65, def_dec ''EM_FX66'' 66, def_dec ''EM_ST9PLUS'' 67, def_dec ''EM_ST7'' 68,
   def_dec ''EM_68HC16'' 69, def_dec ''EM_68HC11'' 70, def_dec ''EM_68HC08'' 71, def_dec ''EM_68HC05'' 72,
   def_dec ''EM_SVX'' 73, def_dec ''EM_ST19'' 74, def_dec ''EM_VAX'' 75, def_dec ''EM_CRIS'' 76,
   def_dec ''EM_JAVELIN'' 77, def_dec ''EM_FIREPATH'' 78, def_dec ''EM_ZSP'' 79, def_dec ''EM_MMIX'' 80,
   def_dec ''EM_HUANY'' 81, def_dec ''EM_PRISM'' 82, def_dec ''EM_AVR'' 83, def_dec ''EM_FR30'' 84,
   def_dec ''EM_D10V'' 85, def_dec ''EM_D30V'' 86, def_dec ''EM_V850'' 87, def_dec ''EM_M32R'' 88,
   def_dec ''EM_MN10300'' 89, def_dec ''EM_MN10200'' 90, def_dec ''EM_PJ'' 91, def_dec ''EM_OPENRISC'' 92,
   def_dec ''EM_ARC_COMPACT'' 93, def_dec ''EM_XTENSA'' 94, def_dec ''EM_VIDEOCORE'' 95,
   def_dec ''EM_TMM_GPP'' 96, def_dec ''EM_NS32K'' 97, def_dec ''EM_TPC'' 98, def_dec ''EM_SNP1K'' 99,
   def_dec ''EM_ST200'' 100, def_dec ''EM_IP2K'' 101, def_dec ''EM_MAX'' 102, def_dec ''EM_CR'' 103,
   def_dec ''EM_F2MC16'' 104, def_dec ''EM_MSP430'' 105, def_dec ''EM_BLACKFIN'' 106,
   def_dec ''EM_SE_C33'' 107, def_dec ''EM_SEP'' 108, def_dec ''EM_ARCA'' 109, def_dec ''EM_UNICORE'' 110,
   def_dec ''EM_EXCESS'' 111, def_dec ''EM_DXP'' 112, def_dec ''EM_ALTERA_NIOS2'' 113, def_dec ''EM_CRX'' 114,
   def_dec ''EM_XGATE'' 115, def_dec ''EM_C166'' 116, def_dec ''EM_M16C'' 117, def_dec ''EM_DSPIC30F'' 118,
   def_dec ''EM_CE'' 119, def_dec ''EM_M32C'' 120, def_dec ''EM_TSK3000'' 131, def_dec ''EM_RS08'' 132,
   def_dec ''EM_SHARC'' 133, def_dec ''EM_ECOG2'' 134, def_dec ''EM_SCORE7'' 135, def_dec ''EM_DSP24'' 136,
   def_dec ''EM_VIDEOCORE3'' 137, def_dec ''EM_LATTICEMICO32'' 138, def_dec ''EM_SE_C17'' 139,
   def_dec ''EM_TI_C6000'' 140, def_dec ''EM_TI_C2000'' 141, def_dec ''EM_TI_C5500'' 142,
   def_dec ''EM_TI_ARP32'' 143, def_dec ''EM_TI_PRU'' 144, def_dec ''EM_MMDSP_PLUS'' 160,
   def_dec ''EM_MMDSP_PLUS'' 160, def_dec ''EM_CYPRESS_M8C'' 161, def_dec ''EM_R32C'' 162,
   def_dec ''EM_TRIMEDIA'' 163, def_dec ''EM_QDSP6'' 164, def_dec ''EM_8051'' 165]"

definition elf_h_more_machines :: "directive list" where
  "elf_h_more_machines =
  [def_dec ''EM_STXP7X'' 166, def_dec ''EM_NDS32'' 167, def_dec ''EM_ECOG1'' 168, def_dec ''EM_ECOG1X'' 168,
   def_dec ''EM_MAXQ30'' 169, def_dec ''EM_XIMO16'' 170, def_dec ''EM_MANIK'' 171, def_dec ''EM_CRAYNV2'' 172,
   def_dec ''EM_RX'' 173, def_dec ''EM_METAG'' 174, def_dec ''EM_MCST_ELBRUS'' 175, def_dec ''EM_ECOG16'' 176,
   def_dec ''EM_CR16'' 177, def_dec ''EM_ETPU'' 178, def_dec ''EM_SLE9X'' 179, def_dec ''EM_L10M'' 180,
   def_dec ''EM_K10M'' 181, def_dec ''EM_AARCH64'' 183, def_dec ''EM_AVR32'' 185, def_dec ''EM_STM8'' 186,
   def_dec ''EM_TILE64'' 187, def_dec ''EM_TILEPRO'' 188, def_dec ''EM_MICROBLAZE'' 189,
   def_dec ''EM_CUDA'' 190, def_dec ''EM_TILEGX'' 191, def_dec ''EM_CLOUDSHIELD'' 192,
   def_dec ''EM_COREA_1ST'' 193, def_dec ''EM_COREA_2ND'' 194, def_dec ''EM_ARC_COMPACT2'' 195,
   def_dec ''EM_OPEN8'' 196, def_dec ''EM_RL78'' 197, def_dec ''EM_VIDEOCORE5'' 198, def_dec ''EM_78KOR'' 199,
   def_dec ''EM_56800EX'' 200, def_dec ''EM_BA1'' 201, def_dec ''EM_BA2'' 202, def_dec ''EM_XCORE'' 203,
   def_dec ''EM_MCHP_PIC'' 204, def_dec ''EM_INTEL205'' 205, def_dec ''EM_INTEL206'' 206,
   def_dec ''EM_INTEL207'' 207, def_dec ''EM_INTEL208'' 208, def_dec ''EM_INTEL209'' 209,
   def_dec ''EM_KM32'' 210, def_dec ''EM_KMX32'' 211, def_dec ''EM_KMX16'' 212, def_dec ''EM_KMX8'' 213,
   def_dec ''EM_KVARC'' 214, def_dec ''EM_CDP'' 215, def_dec ''EM_COGE'' 216, def_dec ''EM_COOL'' 217,
   def_dec ''EM_NORC'' 218, def_dec ''EM_CSR_KALIMBA'' 219, def_dec ''EM_Z80'' 220, def_dec ''EM_VISIUM'' 221,
   def_dec ''EM_FT32'' 222, def_dec ''EM_MOXIE'' 223, def_dec ''EM_AMDGPU'' 224, def_dec ''EM_RISCV'' 243]"

definition elf_h_ident :: "directive list" where
  "elf_h_ident =
  [def_oct ''EV_NONE'' 0, def_dec ''EV_CURRENT'' 1, def_oct ''EI_MAG0'' 0, def_dec ''EI_MAG1'' 1,
   def_dec ''EI_MAG2'' 2, def_dec ''EI_MAG3'' 3, def_dec ''EI_CLASS'' 4, def_dec ''EI_DATA'' 5,
   def_dec ''EI_VERSION'' 6, def_dec ''EI_OSABI'' 7, def_dec ''EI_ABIVERSION'' 8, def_dec ''EI_PAD'' 9,
   def_dec ''EI_NIDENT'' 16, def_hex ''ELFMAG0'' 0x7f, def_dec ''ELFMAG1'' 69, def_dec ''ELFMAG2'' 76,
   def_dec ''ELFMAG3'' 70, def_oct ''ELFCLASSNONE'' 0, def_dec ''ELFCLASS32'' 1, def_dec ''ELFCLASS64'' 2,
   def_oct ''ELFDATANONE'' 0, def_dec ''ELFDATA2LSB'' 1, def_dec ''ELFDATA2MSB'' 2,
   def_oct ''ELFOSABI_NONE'' 0, def_dec ''ELFOSABI_HPUX'' 1, def_dec ''ELFOSABI_NETBSD'' 2,
   def_dec ''ELFOSABI_GNU'' 3, def_dec ''ELFOSABI_LINUX'' 3, def_dec ''ELFOSABI_SOLARIS'' 6,
   def_dec ''ELFOSABI_AIX'' 7, def_dec ''ELFOSABI_IRIX'' 8, def_dec ''ELFOSABI_FREEBSD'' 9,
   def_dec ''ELFOSABI_TRU64'' 10, def_dec ''ELFOSABI_MODESTO'' 11, def_dec ''ELFOSABI_OPENBSD'' 12,
   def_dec ''ELFOSABI_OPENVMS'' 13, def_dec ''ELFOSABI_NSK'' 14, def_dec ''ELFOSABI_AROS'' 15,
   def_dec ''ELFOSABI_FENIXOS'' 16, def_dec ''ELFOSABI_CLOUDABI'' 17, def_dec ''ELFOSABI_OPENVOS'' 18]"

definition elf_h_sections :: "directive list" where
  "elf_h_sections =
  [def_hex ''SHN_UNDEF'' 0x0000, def_hex ''SHN_LORESERVE'' 0xff00, def_hex ''SHN_LOPROC'' 0xff00,
   def_hex ''SHN_HIPROC'' 0xff1f, def_hex ''SHN_LOOS'' 0xff20, def_hex ''SHN_HIOS'' 0xff3f,
   def_hex ''SHN_ABS'' 0xfff1, def_hex ''SHN_COMMON'' 0xfff2, def_hex ''SHN_XINDEX'' 0xffff,
   def_hex ''SHN_HIRESERVE'' 0xffff, def_oct ''SHT_NULL'' 0, def_dec ''SHT_PROGBITS'' 1,
   def_dec ''SHT_SYMTAB'' 2, def_dec ''SHT_STRTAB'' 3, def_dec ''SHT_RELA'' 4, def_dec ''SHT_HASH'' 5,
   def_dec ''SHT_DYNAMIC'' 6, def_dec ''SHT_NOTE'' 7, def_dec ''SHT_NOBITS'' 8, def_dec ''SHT_REL'' 9,
   def_dec ''SHT_SHLIB'' 10, def_dec ''SHT_DYNSYM'' 11, def_dec ''SHT_INIT_ARRAY'' 14,
   def_dec ''SHT_FINI_ARRAY'' 15, def_dec ''SHT_PREINIT_ARRAY'' 16, def_dec ''SHT_GROUP'' 17,
   def_dec ''SHT_SYMTAB_SHNDX'' 18, def_hex ''SHT_LOOS'' 0x60000000, def_hex ''SHT_GNU_HASH'' 0x6ffffff6,
   def_hex ''SHT_HIOS'' 0x6fffffff, def_hex ''SHT_LOPROC'' 0x70000000,
   def_hex ''SHT_X86_64_UNWIND'' 0x70000001, def_hex ''SHT_HIPROC'' 0x7fffffff,
   def_hex ''SHT_LOUSER'' 0x80000000, def_hex ''SHT_HIUSER'' 0xffffffff, def_hex ''SHF_WRITE'' 0x1,
   def_hex ''SHF_ALLOC'' 0x2, def_hex ''SHF_EXECINSTR'' 0x4, def_hex ''SHF_MERGE'' 0x10,
   def_hex ''SHF_STRINGS'' 0x20, def_hex ''SHF_INFO_LINK'' 0x40, def_hex ''SHF_LINK_ORDER'' 0x80,
   def_hex ''SHF_OS_NONCONFORMING'' 0x100, def_hex ''SHF_GROUP'' 0x200, def_hex ''SHF_TLS'' 0x400,
   def_hex ''SHF_COMPRESSED'' 0x800, def_hex ''SHF_MASKOS'' 0x0ff00000, def_hex ''SHF_MASKPROC'' 0xf0000000,
   def_hex ''SHF_X86_64_LARGE'' 0x10000000, def_dec ''ELFCOMPRESS_ZLIB'' 1,
   def_hex ''ELFCOMPRESS_LOOS'' 0x60000000, def_hex ''ELFCOMPRESS_HIOS'' 0x6fffffff,
   def_hex ''ELFCOMPRESS_LOPROC'' 0x70000000, def_hex ''ELFCOMPRESS_HIPROC'' 0x7fffffff,
   def_hex ''GRP_COMDAT'' 0x1, def_hex ''GRP_MASKOS'' 0x0ff00000, def_hex ''GRP_MASKPROC'' 0xf0000000]"

definition elf_h_symbols :: "directive list" where
  "elf_h_symbols =
  [def_oct ''STN_UNDEF'' 0, Define ''ELF64_ST_BIND'' (Fun 1 (Shr (Param 0) (Lit Dec 4 No_Suffix))),
   Define ''ELF64_ST_TYPE'' (Fun 1 (BAnd (Param 0) (Lit Hex 0xf No_Suffix))),
   Define ''ELF64_ST_INFO'' (Fun 2 (Plus (Shl (Param 0) (Lit Dec 4 No_Suffix)) (BAnd (Param 1) (Lit Hex 0xf No_Suffix)))),
   Define ''ELF64_ST_VISIBILITY'' (Fun 1 (BAnd (Param 0) (Lit Hex 0x3 No_Suffix))), def_oct ''STB_LOCAL'' 0,
   def_dec ''STB_GLOBAL'' 1, def_dec ''STB_WEAK'' 2, def_dec ''STB_LOOS'' 10, def_dec ''STB_HIOS'' 12,
   def_dec ''STB_LOPROC'' 13, def_dec ''STB_HIPROC'' 15, def_oct ''STT_NOTYPE'' 0, def_dec ''STT_OBJECT'' 1,
   def_dec ''STT_FUNC'' 2, def_dec ''STT_SECTION'' 3, def_dec ''STT_FILE'' 4, def_dec ''STT_COMMON'' 5,
   def_dec ''STT_TLS'' 6, def_dec ''STT_LOOS'' 10, def_dec ''STT_HIOS'' 12, def_dec ''STT_LOPROC'' 13,
   def_dec ''STT_HIPROC'' 15, def_oct ''STV_DEFAULT'' 0, def_dec ''STV_INTERNAL'' 1, def_dec ''STV_HIDDEN'' 2,
   def_dec ''STV_PROTECTED'' 3, Define ''ELF64_R_SYM'' (Fun 1 (Shr (Param 0) (Lit Dec 32 No_Suffix))),
   Define ''ELF64_R_TYPE'' (Fun 1 (BAnd (Param 0) (Lit Hex 0xffffffff Suf_L))),
   Define ''ELF64_R_INFO'' (Fun 2 (Plus (Shl (Param 0) (Lit Dec 32 No_Suffix)) (BAnd (Param 1) (Lit Hex 0xffffffff Suf_L))))]"

definition elf_h_relocations :: "directive list" where
  "elf_h_relocations =
  [def_oct ''R_X86_64_NONE'' 0, def_dec ''R_X86_64_64'' 1, def_dec ''R_X86_64_PC32'' 2,
   def_dec ''R_X86_64_GOT32'' 3, def_dec ''R_X86_64_PLT32'' 4, def_dec ''R_X86_64_COPY'' 5,
   def_dec ''R_X86_64_GLOB_DAT'' 6, def_dec ''R_X86_64_JUMP_SLOT'' 7, def_dec ''R_X86_64_RELATIVE'' 8,
   def_dec ''R_X86_64_GOTPCREL'' 9, def_dec ''R_X86_64_32'' 10, def_dec ''R_X86_64_32S'' 11,
   def_dec ''R_X86_64_16'' 12, def_dec ''R_X86_64_PC16'' 13, def_dec ''R_X86_64_8'' 14,
   def_dec ''R_X86_64_PC8'' 15, def_dec ''R_X86_64_DTPMOD64'' 16, def_dec ''R_X86_64_DTPOFF64'' 17,
   def_dec ''R_X86_64_TPOFF64'' 18, def_dec ''R_X86_64_TLSGD'' 19, def_dec ''R_X86_64_TLSLD'' 20,
   def_dec ''R_X86_64_DTPOFF32'' 21, def_dec ''R_X86_64_GOTTPOFF'' 22, def_dec ''R_X86_64_TPOFF32'' 23,
   def_dec ''R_X86_64_PC64'' 24, def_dec ''R_X86_64_GOTOFF64'' 25, def_dec ''R_X86_64_GOTPC32'' 26,
   def_dec ''R_X86_64_GOT64'' 27, def_dec ''R_X86_64_GOTPCREL64'' 28, def_dec ''R_X86_64_GOTPC64'' 29,
   def_dec ''R_X86_64_GOTPLT64'' 30, def_dec ''R_X86_64_PLTOFF64'' 31, def_dec ''R_X86_64_SIZE32'' 32,
   def_dec ''R_X86_64_SIZE64'' 33, def_dec ''R_X86_64_GOTPC32_TLSDESC'' 34,
   def_dec ''R_X86_64_TLSDESC_CALL'' 35, def_dec ''R_X86_64_TLSDESC'' 36, def_dec ''R_X86_64_IRELATIVE'' 37]"

definition elf_h_segments :: "directive list" where
  "elf_h_segments =
  [def_oct ''PT_NULL'' 0, def_dec ''PT_LOAD'' 1, def_dec ''PT_DYNAMIC'' 2, def_dec ''PT_INTERP'' 3,
   def_dec ''PT_NOTE'' 4, def_dec ''PT_SHLIB'' 5, def_dec ''PT_PHDR'' 6, def_dec ''PT_TLS'' 7,
   def_hex ''PT_LOOS'' 0x60000000, def_hex ''PT_HIOS'' 0x6fffffff, def_hex ''PT_LOPROC'' 0x70000000,
   def_hex ''PT_HIPROC'' 0x7fffffff, def_hex ''PF_X'' 0x00000001, def_hex ''PF_W'' 0x00000002,
   def_hex ''PF_R'' 0x00000004, def_hex ''PF_MASKOS'' 0x0ff00000, def_hex ''PF_MASKPROC'' 0xf0000000]"

definition elf_h_dynamic :: "directive list" where
  "elf_h_dynamic =
  [def_oct ''DT_NULL'' 0, def_dec ''DT_NEEDED'' 1, def_dec ''DT_PLTRELSZ'' 2, def_dec ''DT_PLTGOT'' 3,
   def_dec ''DT_HASH'' 4, def_dec ''DT_STRTAB'' 5, def_dec ''DT_SYMTAB'' 6, def_dec ''DT_RELA'' 7,
   def_dec ''DT_RELASZ'' 8, def_dec ''DT_RELAENT'' 9, def_dec ''DT_STRSZ'' 10, def_dec ''DT_SYMENT'' 11,
   def_dec ''DT_INIT'' 12, def_dec ''DT_FINI'' 13, def_dec ''DT_SONAME'' 14, def_dec ''DT_RPATH'' 15,
   def_dec ''DT_SYMBOLIC'' 16, def_dec ''DT_REL'' 17, def_dec ''DT_RELSZ'' 18, def_dec ''DT_RELENT'' 19,
   def_dec ''DT_PLTREL'' 20, def_dec ''DT_DEBUG'' 21, def_dec ''DT_TEXTREL'' 22, def_dec ''DT_JMPREL'' 23,
   def_dec ''DT_BIND_NOW'' 24, def_dec ''DT_INIT_ARRAY'' 25, def_dec ''DT_FINI_ARRAY'' 26,
   def_dec ''DT_INIT_ARRAYSZ'' 27, def_dec ''DT_FINI_ARRAYSZ'' 28, def_dec ''DT_RUNPATH'' 29,
   def_dec ''DT_FLAGS'' 30, def_dec ''DT_ENCODING'' 32, def_dec ''DT_PREINIT_ARRAY'' 32,
   def_dec ''DT_PREINIT_ARRAYSZ'' 33, def_dec ''DT_SYMTAB_SHNDX'' 34, def_hex ''DT_LOOS'' 0x6000000d,
   def_hex ''DT_HIOS'' 0x6ffff000, def_hex ''DT_LOPROC'' 0x70000000, def_hex ''DT_HIPROC'' 0x7fffffff,
   def_hex ''DF_ORIGIN'' 0x01, def_hex ''DF_SYMBOLIC'' 0x02, def_hex ''DF_TEXTREL'' 0x04,
   def_hex ''DF_BIND_NOW'' 0x08, def_hex ''DF_STATIC_TLS'' 0x10]"

definition elf_h_aux :: "directive list" where
  "elf_h_aux =
  [def_oct ''AT_NULL'' 0, def_dec ''AT_IGNORE'' 1, def_dec ''AT_EXECFD'' 2, def_dec ''AT_PHDR'' 3,
   def_dec ''AT_PHENT'' 4, def_dec ''AT_PHNUM'' 5, def_dec ''AT_PAGESZ'' 6, def_dec ''AT_BASE'' 7,
   def_dec ''AT_FLAGS'' 8, def_dec ''AT_ENTRY'' 9, def_dec ''AT_NOTELF'' 10, def_dec ''AT_UID'' 11,
   def_dec ''AT_EUID'' 12, def_dec ''AT_GID'' 13, def_dec ''AT_EGID'' 14, def_dec ''AT_CLKTCK'' 17,
   def_dec ''AT_PLATFORM'' 15, def_dec ''AT_HWCAP'' 16, def_dec ''AT_FPUCW'' 18, def_dec ''AT_DCACHEBSIZE'' 19,
   def_dec ''AT_ICACHEBSIZE'' 20, def_dec ''AT_UCACHEBSIZE'' 21, def_dec ''AT_IGNOREPPC'' 22,
   def_dec ''AT_SECURE'' 23, def_dec ''AT_BASE_PLATFORM'' 24, def_dec ''AT_RANDOM'' 25,
   def_dec ''AT_HWCAP2'' 26, def_dec ''AT_EXECFN'' 31, def_dec ''AT_SYSINFO'' 32,
   def_dec ''AT_SYSINFO_EHDR'' 33, def_dec ''AT_L1I_CACHESHAPE'' 34, def_dec ''AT_L1D_CACHESHAPE'' 35,
   def_dec ''AT_L2_CACHESHAPE'' 36, def_dec ''AT_L3_CACHESHAPE'' 37, def_dec ''AT_L1I_CACHESIZE'' 40,
   def_dec ''AT_L1I_CACHEGEOMETRY'' 41, def_dec ''AT_L1D_CACHESIZE'' 42, def_dec ''AT_L1D_CACHEGEOMETRY'' 43,
   def_dec ''AT_L2_CACHESIZE'' 44, def_dec ''AT_L2_CACHEGEOMETRY'' 45, def_dec ''AT_L3_CACHESIZE'' 46,
   def_dec ''AT_L3_CACHEGEOMETRY'' 47, def_dec ''AT_MINSIGSTKSZ'' 51]"

section \<open>What a header defines\<close>

definition value_in :: "env \<Rightarrow> string \<Rightarrow> int option" where
  "value_in M x = map_option snd (macro_value M (Ident x))"

definition values_in :: "env \<Rightarrow> (string \<times> int) list \<Rightarrow> bool" where
  "values_in M cs = list_all (\<lambda>(x, v). value_in M x = Some v) cs"

text \<open>After the directives the names have these values.\<close>

definition gives :: "directive list \<Rightarrow> (string \<times> int) list \<Rightarrow> bool" where
  "gives ds cs \<longleftrightarrow>
     (case preprocess ds [] of Some M \<Rightarrow> values_in M cs | None \<Rightarrow> False)"

lemmas header_defs =
  conf_h_def stdint_h_def stdint_h_literals_def stdint_h_widths_def stdint_h_limits_def stdint_h_undefs_def
  syscall_h_def syscall_h_stdio_def syscall_h_first_def syscall_h_rest_def
  errno_h_def errno_h_base_def errno_h_linux_def errno_h_other_def futex_h_def mman_h_def fcntl_h_def
  sched_h_def signal_h_def prctl_h_def tinyrt_h_def tcb_h_def mem_h_def stdio_h_def
  elf_h_header_def elf_h_machines_def elf_h_more_machines_def elf_h_ident_def elf_h_sections_def
  elf_h_symbols_def elf_h_relocations_def elf_h_segments_def elf_h_dynamic_def elf_h_aux_def

end
