(* ===== verification/Constants.thy ===== *)
theory Constants
  imports Headers Threads Entry Loader
begin

text \<open>
  The constants of the model are the values that the headers give to their names, and what is left of the
  limits of \<open>stdint.h\<close> after its last lines.
\<close>

section \<open>Evaluating a header\<close>

lemma values_in_simps:
  "values_in M [] \<longleftrightarrow> True"
  "values_in M ((x, v) # cs) \<longleftrightarrow> value_in M x = Some v \<and> values_in M cs"
  by (simp_all add: values_in_def)

lemma values_in_weak_cong: "values_in M cs = values_in M cs"
  by (rule refl)

lemma value_in_weak_cong: "value_in M x = value_in M x"
  by (rule refl)

lemmas gives_simps = gives_def values_in_simps value_in_def macro_simps

lemmas gives_congs = macro_congs values_in_weak_cong value_in_weak_cong

lemmas constant_defs =
  ARCH_SET_FS_def AT_BASE_def AT_EXECFN_def AT_NULL_def AT_PHDR_def AT_PHENT_def AT_PHNUM_def
  CIA_MEM_OP_ALLOC_def CIA_MEM_OP_FREE_def CIA_MEM_OP_FREE_ALL_def CIA_MEM_OP_RESIZE_def
  CLONE_CHILD_CLEARTID_def CLONE_FILES_def CLONE_FS_def CLONE_PARENT_SETTID_def CLONE_SIGHAND_def
  CLONE_SYSVSEM_def CLONE_THREAD_def CLONE_VM_def DT_JMPREL_def DT_NULL_def DT_PLTGOT_def DT_PLTREL_def
  DT_PLTRELSZ_def DT_REL_def DT_RELA_def DT_RELAENT_def DT_RELASZ_def DT_RELENT_def DT_RELSZ_def DT_STRTAB_def
  DT_SYMTAB_def EACCES_def EAGAIN_def EBADF_def EEXIST_def EINVAL_def EIO_def EISDIR_def ENOENT_def ENOMEM_def
  EOF_def FUTEX_PRIVATE_FLAG_def FUTEX_WAIT_def FUTEX_WAIT_PRIVATE_def FUTEX_WAKE_def FUTEX_WAKE_PRIVATE_def
  KB_def LD_THREAD_STATE_DETACHED_def LD_THREAD_STATE_JOINED_def LD_THREAD_STATE_NOT_YET_def MAP_ANONYMOUS_def
  MAP_NORESERVE_def MAP_PRIVATE_def MB_def O_ACCMODE_def O_CLOEXEC_def O_CREAT_def O_EXCL_def O_RDONLY_def
  O_RDWR_def O_TRUNC_def PROT_READ_def PROT_WRITE_def PT_DYNAMIC_def PT_PHDR_def PT_TLS_def
  RT_ERROR_BAD_PARAM_def RT_ERROR_GENERIC_def RT_ERROR_NOT_IMPLEMENTED_def RT_FILE_CREATE_def
  RT_FILE_EXCLUSIVE_def RT_FILE_READ_def RT_FILE_TRUNCATE_def RT_FILE_WRITE_def RT_STATUS_FILE_ACCESS_def
  RT_STATUS_FILE_BAD_FILE_def RT_STATUS_FILE_DIRECTORY_def RT_STATUS_FILE_EOF_def RT_STATUS_FILE_EXISTS_def
  RT_STATUS_FILE_IO_ERROR_def RT_STATUS_FILE_NOT_EXISTS_def RT_STATUS_OK_def RT_SYNC_WAIT_INFINITE_def
  R_X86_64_GLOB_DAT_def R_X86_64_JUMP_SLOT_def R_X86_64_RELATIVE_def SA_RESTART_def SA_SIGINFO_def
  SHT_GNU_HASH_def SIGCANCEL_def STDERR_FILENO_def STDOUT_FILENO_def SYS_arch_prctl_def SYS_clone_def
  SYS_close_def SYS_exit_def SYS_futex_def SYS_getpid_def SYS_mmap_def SYS_munmap_def SYS_open_def SYS_read_def
  SYS_rt_sigaction_def SYS_sched_yield_def SYS_tkill_def SYS_write_def

section \<open>The constants\<close>

lemma syscall_h_stdio_constants:
  "gives syscall_h_stdio
   [(''STDOUT_FILENO'', uint STDOUT_FILENO), (''STDERR_FILENO'', uint STDERR_FILENO)]"
  unfolding syscall_h_stdio_def by (simp add: gives_simps constant_defs cong: gives_congs)

lemma syscall_h_first_constants:
  "gives syscall_h_first
   [(''SYS_read'', uint SYS_read), (''SYS_write'', uint SYS_write), (''SYS_open'', uint SYS_open),
    (''SYS_close'', uint SYS_close), (''SYS_mmap'', uint SYS_mmap), (''SYS_munmap'', uint SYS_munmap),
    (''SYS_rt_sigaction'', uint SYS_rt_sigaction), (''SYS_sched_yield'', uint SYS_sched_yield),
    (''SYS_getpid'', uint SYS_getpid), (''SYS_clone'', uint SYS_clone), (''SYS_exit'', uint SYS_exit)]"
  unfolding syscall_h_first_def by (simp add: gives_simps constant_defs cong: gives_congs)

lemma syscall_h_rest_constants:
  "gives syscall_h_rest
   [(''SYS_arch_prctl'', uint SYS_arch_prctl), (''SYS_tkill'', uint SYS_tkill), (''SYS_futex'', uint SYS_futex)]"
  unfolding syscall_h_rest_def by (simp add: gives_simps constant_defs cong: gives_congs)

lemma errno_h_base_constants:
  "gives errno_h_base
   [(''ENOENT'', sint ENOENT), (''EIO'', sint EIO), (''EBADF'', sint EBADF), (''EAGAIN'', sint EAGAIN),
    (''ENOMEM'', sint ENOMEM), (''EACCES'', sint EACCES), (''EEXIST'', sint EEXIST), (''EISDIR'', sint EISDIR),
    (''EINVAL'', sint EINVAL)]"
  unfolding errno_h_base_def by (simp add: gives_simps constant_defs cong: gives_congs)

lemma futex_h_constants:
  "gives futex_h
   [(''FUTEX_WAIT'', uint FUTEX_WAIT), (''FUTEX_WAKE'', uint FUTEX_WAKE),
    (''FUTEX_PRIVATE_FLAG'', uint FUTEX_PRIVATE_FLAG), (''FUTEX_WAIT_PRIVATE'', uint FUTEX_WAIT_PRIVATE),
    (''FUTEX_WAKE_PRIVATE'', uint FUTEX_WAKE_PRIVATE)]"
  unfolding futex_h_def by (simp add: gives_simps constant_defs cong: gives_congs)

lemma mman_h_constants:
  "gives mman_h
   [(''PROT_READ'', uint PROT_READ), (''PROT_WRITE'', uint PROT_WRITE), (''MAP_PRIVATE'', uint MAP_PRIVATE),
    (''MAP_ANONYMOUS'', uint MAP_ANONYMOUS), (''MAP_NORESERVE'', uint MAP_NORESERVE)]"
  unfolding mman_h_def by (simp add: gives_simps constant_defs cong: gives_congs)

lemma fcntl_h_constants:
  "gives fcntl_h
   [(''O_ACCMODE'', sint O_ACCMODE), (''O_RDONLY'', sint O_RDONLY), (''O_RDWR'', sint O_RDWR),
    (''O_CREAT'', sint O_CREAT), (''O_EXCL'', sint O_EXCL), (''O_TRUNC'', sint O_TRUNC),
    (''O_CLOEXEC'', sint O_CLOEXEC)]"
  unfolding fcntl_h_def by (simp add: gives_simps constant_defs cong: gives_congs)

lemma sched_h_constants:
  "gives sched_h
   [(''CLONE_VM'', uint CLONE_VM), (''CLONE_FS'', uint CLONE_FS), (''CLONE_FILES'', uint CLONE_FILES),
    (''CLONE_SIGHAND'', uint CLONE_SIGHAND), (''CLONE_THREAD'', uint CLONE_THREAD),
    (''CLONE_SYSVSEM'', uint CLONE_SYSVSEM), (''CLONE_PARENT_SETTID'', uint CLONE_PARENT_SETTID),
    (''CLONE_CHILD_CLEARTID'', uint CLONE_CHILD_CLEARTID)]"
  unfolding sched_h_def by (simp add: gives_simps constant_defs cong: gives_congs)

lemma signal_h_constants:
  "gives signal_h
   [(''SIGCANCEL'', uint SIGCANCEL), (''SA_SIGINFO'', uint SA_SIGINFO), (''SA_RESTART'', uint SA_RESTART)]"
  unfolding signal_h_def by (simp add: gives_simps constant_defs cong: gives_congs)

lemma prctl_h_constants:
  "gives prctl_h
   [(''ARCH_SET_FS'', uint ARCH_SET_FS)]"
  unfolding prctl_h_def by (simp add: gives_simps constant_defs cong: gives_congs)

lemma tinyrt_h_constants:
  "gives tinyrt_h
   [(''_RT_STATUS_OK'', sint RT_STATUS_OK), (''_RT_ERROR_NOT_IMPLEMENTED'', sint RT_ERROR_NOT_IMPLEMENTED),
    (''_RT_ERROR_BAD_PARAM'', sint RT_ERROR_BAD_PARAM), (''_RT_ERROR_GENERIC'', sint RT_ERROR_GENERIC),
    (''_RT_STATUS_FILE_ACCESS'', sint RT_STATUS_FILE_ACCESS),
    (''_RT_STATUS_FILE_EXISTS'', sint RT_STATUS_FILE_EXISTS),
    (''_RT_STATUS_FILE_NOT_EXISTS'', sint RT_STATUS_FILE_NOT_EXISTS),
    (''_RT_STATUS_FILE_DIRECTORY'', sint RT_STATUS_FILE_DIRECTORY),
    (''_RT_STATUS_FILE_IO_ERROR'', sint RT_STATUS_FILE_IO_ERROR),
    (''_RT_STATUS_FILE_BAD_FILE'', sint RT_STATUS_FILE_BAD_FILE),
    (''_RT_STATUS_FILE_EOF'', sint RT_STATUS_FILE_EOF), (''_RT_FILE_READ'', sint RT_FILE_READ),
    (''_RT_FILE_WRITE'', sint RT_FILE_WRITE), (''_RT_FILE_CREATE'', sint RT_FILE_CREATE),
    (''_RT_FILE_EXCLUSIVE'', sint RT_FILE_EXCLUSIVE), (''_RT_FILE_TRUNCATE'', sint RT_FILE_TRUNCATE),
    (''_RT_SYNC_WAIT_INFINITE'', uint RT_SYNC_WAIT_INFINITE)]"
  unfolding tinyrt_h_def by (simp add: gives_simps constant_defs cong: gives_congs)

lemma tcb_h_constants:
  "gives tcb_h
   [(''_LD_THREAD_STATE_NOT_YET'', uint LD_THREAD_STATE_NOT_YET),
    (''_LD_THREAD_STATE_DETACHED'', uint LD_THREAD_STATE_DETACHED),
    (''_LD_THREAD_STATE_JOINED'', uint LD_THREAD_STATE_JOINED)]"
  unfolding tcb_h_def by (simp add: gives_simps constant_defs cong: gives_congs)

lemma mem_h_constants:
  "gives mem_h
   [(''KB'', uint KB), (''MB'', uint MB), (''CIA_MEM_OP_ALLOC'', sint CIA_MEM_OP_ALLOC),
    (''CIA_MEM_OP_FREE'', sint CIA_MEM_OP_FREE), (''CIA_MEM_OP_FREE_ALL'', sint CIA_MEM_OP_FREE_ALL),
    (''CIA_MEM_OP_RESIZE'', sint CIA_MEM_OP_RESIZE)]"
  unfolding mem_h_def by (simp add: gives_simps constant_defs cong: gives_congs)

lemma stdio_h_constants:
  "gives stdio_h
   [(''EOF'', sint EOF)]"
  unfolding stdio_h_def by (simp add: gives_simps constant_defs cong: gives_congs)

lemma elf_h_sections_constants:
  "gives elf_h_sections
   [(''SHT_GNU_HASH'', uint SHT_GNU_HASH)]"
  unfolding elf_h_sections_def by (simp add: gives_simps constant_defs cong: gives_congs)

lemma elf_h_relocations_constants:
  "gives elf_h_relocations
   [(''R_X86_64_GLOB_DAT'', uint R_X86_64_GLOB_DAT), (''R_X86_64_JUMP_SLOT'', uint R_X86_64_JUMP_SLOT),
    (''R_X86_64_RELATIVE'', uint R_X86_64_RELATIVE)]"
  unfolding elf_h_relocations_def by (simp add: gives_simps constant_defs cong: gives_congs)

lemma elf_h_segments_constants:
  "gives elf_h_segments
   [(''PT_DYNAMIC'', uint PT_DYNAMIC), (''PT_PHDR'', uint PT_PHDR), (''PT_TLS'', uint PT_TLS)]"
  unfolding elf_h_segments_def by (simp add: gives_simps constant_defs cong: gives_congs)

lemma elf_h_dynamic_constants:
  "gives elf_h_dynamic
   [(''DT_NULL'', int DT_NULL), (''DT_PLTRELSZ'', int DT_PLTRELSZ), (''DT_PLTGOT'', int DT_PLTGOT),
    (''DT_STRTAB'', int DT_STRTAB), (''DT_SYMTAB'', int DT_SYMTAB), (''DT_RELA'', int DT_RELA),
    (''DT_RELASZ'', int DT_RELASZ), (''DT_RELAENT'', int DT_RELAENT), (''DT_REL'', int DT_REL),
    (''DT_RELSZ'', int DT_RELSZ), (''DT_RELENT'', int DT_RELENT), (''DT_PLTREL'', int DT_PLTREL),
    (''DT_JMPREL'', int DT_JMPREL)]"
  unfolding elf_h_dynamic_def by (simp add: gives_simps constant_defs cong: gives_congs)

lemma elf_h_aux_constants:
  "gives elf_h_aux
   [(''AT_NULL'', int AT_NULL), (''AT_PHDR'', int AT_PHDR), (''AT_PHENT'', int AT_PHENT),
    (''AT_PHNUM'', int AT_PHNUM), (''AT_BASE'', int AT_BASE), (''AT_EXECFN'', int AT_EXECFN)]"
  unfolding elf_h_aux_def by (simp add: gives_simps constant_defs cong: gives_congs)

section \<open>The field macros of relocations\<close>

lemma len64: "LENGTH(64) = 64"
  by simp

lemma u64_literal: "first_fitting [U64] (uint (i :: u64)) = Some (U64, uint i)"
  using uint_lt2p [of i] by (simp add: representable_def)

lemma uint_mod_u64: "uint (i :: u64) mod 18446744073709551616 = uint i"
  using uint_lt2p [of i] by simp

lemma uint_drop_bit_u64: "uint (drop_bit n (i :: u64)) = uint i div 2 ^ n"
proof -
  have "take_bit 64 (uint i) = uint i" using uint_lt2p [of i] by (simp add: take_bit_int_eq_self)
  then have "uint (drop_bit n i) = drop_bit n (uint i)" by (simp only: unsigned_drop_bit_eq len64)
  then show ?thesis by (simp only: drop_bit_eq_div)
qed

lemma uint_div_u64: "(uint (i :: u64) div 2 ^ n) mod 18446744073709551616 = uint i div 2 ^ n"
  using uint_mod_u64 [of "drop_bit n i"] by (simp only: uint_drop_bit_u64)

lemma and_mask_mod_u64: "(uint (i :: u64) AND 4294967295) mod 18446744073709551616 = uint (i AND 4294967295)"
  using uint_mod_u64 [of "i AND 4294967295"] by (simp only: unsigned_and_eq) simp

lemma relocation_fields:
  "case preprocess elf_h_symbols [] of None \<Rightarrow> False | Some M \<Rightarrow>
     (\<forall>i :: u64. macro_value M (Call ''ELF64_R_SYM'' [Lit Hex (uint i) Suf_UL]) = Some (U64, uint (ELF64_R_SYM i))
        \<and> macro_value M (Call ''ELF64_R_TYPE'' [Lit Hex (uint i) Suf_UL]) = Some (U64, uint (ELF64_R_TYPE i)))"
  unfolding elf_h_symbols_def
  by (simp add: macro_simps shift_def ELF64_R_SYM_def ELF64_R_TYPE_def u64_literal uint_mod_u64 del: first_fitting.simps cong: macro_congs)
    (simp add: representable_def result_def common_def convert_def uint_mod_u64 uint_drop_bit_u64 uint_and
      uint_div_u64 [of _ 32, simplified])
section \<open>The limits of stdint.h\<close>

definition limit_macros :: "string list" where
  "limit_macros =
  [''INT8_MIN'', ''INT_FAST8_MIN'', ''INT_LEAST8_MIN'', ''INT16_MIN'', ''INT_FAST16_MIN'',
   ''INT_LEAST16_MIN'', ''INT32_MIN'', ''INT_FAST32_MIN'', ''INT_LEAST32_MIN'', ''INT64_MIN'',
   ''INT_FAST64_MIN'', ''INT_LEAST64_MIN'', ''INTPTR_MIN'', ''INTMAX_MIN'', ''INT8_MAX'',
   ''INT_FAST8_MAX'', ''INT_LEAST8_MAX'', ''INT16_MAX'', ''INT_FAST16_MAX'', ''INT_LEAST16_MAX'',
   ''INT32_MAX'', ''INT_FAST32_MAX'', ''INT_LEAST32_MAX'', ''INT64_MAX'', ''INT_FAST64_MAX'',
   ''INT_LEAST64_MAX'', ''INTPTR_MAX'', ''INTMAX_MAX'', ''UINT8_MAX'', ''UINT_FAST8_MAX'',
   ''UINT_LEAST8_MAX'', ''UINT16_MAX'', ''UINT_FAST16_MAX'', ''UINT_LEAST16_MAX'', ''UINT32_MAX'',
   ''UINT_FAST32_MAX'', ''UINT_LEAST32_MAX'', ''UINT64_MAX'', ''UINT_FAST64_MAX'', ''UINT_LEAST64_MAX'',
   ''UINTPTR_MAX'', ''UINTMAX_MAX'']"

text \<open>The names of the header before its last group of \<open>#undef\<close>.\<close>

definition stdint_h_before_undefs :: "directive list" where
  "stdint_h_before_undefs = stdint_h_literals @ stdint_h_widths @ stdint_h_limits"

lemma stdint_after:
  "(case preprocess (conf_h @ stdint_h) [] of None \<Rightarrow> False | Some M \<Rightarrow>
      list_all (\<lambda>x. macro_value M (Ident x) = None) limit_macros)"
  unfolding stdint_h_def conf_h_def stdint_h_literals_def stdint_h_widths_def
    stdint_h_limits_def stdint_h_undefs_def limit_macros_def
  by (simp add: gives_simps cong: gives_congs)

lemma stdint_before: "(case preprocess (conf_h @ stdint_h_before_undefs) [] of None \<Rightarrow> False | Some M \<Rightarrow>
        macro_value M (Ident ''INT32_MIN'') = Some (U32, 2 ^ 31)
      \<and> macro_value M (Ident ''INT64_MIN'') = Some (U64, 2 ^ 63)
      \<and> values_in M [(''INT8_MIN'', - (2 ^ 7)), (''INT16_MIN'', - (2 ^ 15)), (''INT8_MAX'', 2 ^ 7 - 1), (''INT16_MAX'', 2 ^ 15 - 1),
          (''INT32_MAX'', 2 ^ 31 - 1), (''INT64_MAX'', 2 ^ 63 - 1), (''UINT8_MAX'', 2 ^ 8 - 1), (''UINT16_MAX'', 2 ^ 16 - 1),
          (''UINT32_MAX'', 2 ^ 32 - 1), (''UINT64_MAX'', 2 ^ 64 - 1)])"

  unfolding stdint_h_before_undefs_def conf_h_def stdint_h_literals_def stdint_h_widths_def stdint_h_limits_def
  by (simp add: gives_simps cong: gives_congs)

section \<open>Properties\<close>

text \<open>A check of the model against itself: the constants that the other theories take from these groups of directives are what the
  preprocessor makes of their names after the group; the two field macros of relocations select the same bits for every argument.\<close>

lemma constants_from_headers:
  "gives syscall_h_stdio
   [(''STDOUT_FILENO'', uint STDOUT_FILENO), (''STDERR_FILENO'', uint STDERR_FILENO)]
   \<and> gives syscall_h_first
   [(''SYS_read'', uint SYS_read), (''SYS_write'', uint SYS_write), (''SYS_open'', uint SYS_open),
    (''SYS_close'', uint SYS_close), (''SYS_mmap'', uint SYS_mmap), (''SYS_munmap'', uint SYS_munmap),
    (''SYS_rt_sigaction'', uint SYS_rt_sigaction), (''SYS_sched_yield'', uint SYS_sched_yield),
    (''SYS_getpid'', uint SYS_getpid), (''SYS_clone'', uint SYS_clone), (''SYS_exit'', uint SYS_exit)]
   \<and> gives syscall_h_rest
   [(''SYS_arch_prctl'', uint SYS_arch_prctl), (''SYS_tkill'', uint SYS_tkill), (''SYS_futex'', uint SYS_futex)]
   \<and> gives errno_h_base
   [(''ENOENT'', sint ENOENT), (''EIO'', sint EIO), (''EBADF'', sint EBADF), (''EAGAIN'', sint EAGAIN),
    (''ENOMEM'', sint ENOMEM), (''EACCES'', sint EACCES), (''EEXIST'', sint EEXIST), (''EISDIR'', sint EISDIR),
    (''EINVAL'', sint EINVAL)]
   \<and> gives futex_h
   [(''FUTEX_WAIT'', uint FUTEX_WAIT), (''FUTEX_WAKE'', uint FUTEX_WAKE),
    (''FUTEX_PRIVATE_FLAG'', uint FUTEX_PRIVATE_FLAG), (''FUTEX_WAIT_PRIVATE'', uint FUTEX_WAIT_PRIVATE),
    (''FUTEX_WAKE_PRIVATE'', uint FUTEX_WAKE_PRIVATE)]
   \<and> gives mman_h
   [(''PROT_READ'', uint PROT_READ), (''PROT_WRITE'', uint PROT_WRITE), (''MAP_PRIVATE'', uint MAP_PRIVATE),
    (''MAP_ANONYMOUS'', uint MAP_ANONYMOUS), (''MAP_NORESERVE'', uint MAP_NORESERVE)]
   \<and> gives fcntl_h
   [(''O_ACCMODE'', sint O_ACCMODE), (''O_RDONLY'', sint O_RDONLY), (''O_RDWR'', sint O_RDWR),
    (''O_CREAT'', sint O_CREAT), (''O_EXCL'', sint O_EXCL), (''O_TRUNC'', sint O_TRUNC),
    (''O_CLOEXEC'', sint O_CLOEXEC)]
   \<and> gives sched_h
   [(''CLONE_VM'', uint CLONE_VM), (''CLONE_FS'', uint CLONE_FS), (''CLONE_FILES'', uint CLONE_FILES),
    (''CLONE_SIGHAND'', uint CLONE_SIGHAND), (''CLONE_THREAD'', uint CLONE_THREAD),
    (''CLONE_SYSVSEM'', uint CLONE_SYSVSEM), (''CLONE_PARENT_SETTID'', uint CLONE_PARENT_SETTID),
    (''CLONE_CHILD_CLEARTID'', uint CLONE_CHILD_CLEARTID)]
   \<and> gives signal_h
   [(''SIGCANCEL'', uint SIGCANCEL), (''SA_SIGINFO'', uint SA_SIGINFO), (''SA_RESTART'', uint SA_RESTART)]
   \<and> gives prctl_h
   [(''ARCH_SET_FS'', uint ARCH_SET_FS)]
   \<and> gives tinyrt_h
   [(''_RT_STATUS_OK'', sint RT_STATUS_OK), (''_RT_ERROR_NOT_IMPLEMENTED'', sint RT_ERROR_NOT_IMPLEMENTED),
    (''_RT_ERROR_BAD_PARAM'', sint RT_ERROR_BAD_PARAM), (''_RT_ERROR_GENERIC'', sint RT_ERROR_GENERIC),
    (''_RT_STATUS_FILE_ACCESS'', sint RT_STATUS_FILE_ACCESS),
    (''_RT_STATUS_FILE_EXISTS'', sint RT_STATUS_FILE_EXISTS),
    (''_RT_STATUS_FILE_NOT_EXISTS'', sint RT_STATUS_FILE_NOT_EXISTS),
    (''_RT_STATUS_FILE_DIRECTORY'', sint RT_STATUS_FILE_DIRECTORY),
    (''_RT_STATUS_FILE_IO_ERROR'', sint RT_STATUS_FILE_IO_ERROR),
    (''_RT_STATUS_FILE_BAD_FILE'', sint RT_STATUS_FILE_BAD_FILE),
    (''_RT_STATUS_FILE_EOF'', sint RT_STATUS_FILE_EOF), (''_RT_FILE_READ'', sint RT_FILE_READ),
    (''_RT_FILE_WRITE'', sint RT_FILE_WRITE), (''_RT_FILE_CREATE'', sint RT_FILE_CREATE),
    (''_RT_FILE_EXCLUSIVE'', sint RT_FILE_EXCLUSIVE), (''_RT_FILE_TRUNCATE'', sint RT_FILE_TRUNCATE),
    (''_RT_SYNC_WAIT_INFINITE'', uint RT_SYNC_WAIT_INFINITE)]
   \<and> gives tcb_h
   [(''_LD_THREAD_STATE_NOT_YET'', uint LD_THREAD_STATE_NOT_YET),
    (''_LD_THREAD_STATE_DETACHED'', uint LD_THREAD_STATE_DETACHED),
    (''_LD_THREAD_STATE_JOINED'', uint LD_THREAD_STATE_JOINED)]
   \<and> gives mem_h
   [(''KB'', uint KB), (''MB'', uint MB), (''CIA_MEM_OP_ALLOC'', sint CIA_MEM_OP_ALLOC),
    (''CIA_MEM_OP_FREE'', sint CIA_MEM_OP_FREE), (''CIA_MEM_OP_FREE_ALL'', sint CIA_MEM_OP_FREE_ALL),
    (''CIA_MEM_OP_RESIZE'', sint CIA_MEM_OP_RESIZE)]
   \<and> gives stdio_h
   [(''EOF'', sint EOF)]
   \<and> gives elf_h_sections
   [(''SHT_GNU_HASH'', uint SHT_GNU_HASH)]
   \<and> gives elf_h_relocations
   [(''R_X86_64_GLOB_DAT'', uint R_X86_64_GLOB_DAT), (''R_X86_64_JUMP_SLOT'', uint R_X86_64_JUMP_SLOT),
    (''R_X86_64_RELATIVE'', uint R_X86_64_RELATIVE)]
   \<and> gives elf_h_segments
   [(''PT_DYNAMIC'', uint PT_DYNAMIC), (''PT_PHDR'', uint PT_PHDR), (''PT_TLS'', uint PT_TLS)]
   \<and> gives elf_h_dynamic
   [(''DT_NULL'', int DT_NULL), (''DT_PLTRELSZ'', int DT_PLTRELSZ), (''DT_PLTGOT'', int DT_PLTGOT),
    (''DT_STRTAB'', int DT_STRTAB), (''DT_SYMTAB'', int DT_SYMTAB), (''DT_RELA'', int DT_RELA),
    (''DT_RELASZ'', int DT_RELASZ), (''DT_RELAENT'', int DT_RELAENT), (''DT_REL'', int DT_REL),
    (''DT_RELSZ'', int DT_RELSZ), (''DT_RELENT'', int DT_RELENT), (''DT_PLTREL'', int DT_PLTREL),
    (''DT_JMPREL'', int DT_JMPREL)]
   \<and> gives elf_h_aux
   [(''AT_NULL'', int AT_NULL), (''AT_PHDR'', int AT_PHDR), (''AT_PHENT'', int AT_PHENT),
    (''AT_PHNUM'', int AT_PHNUM), (''AT_BASE'', int AT_BASE), (''AT_EXECFN'', int AT_EXECFN)]
   \<and> (case preprocess elf_h_symbols [] of None \<Rightarrow> False | Some M \<Rightarrow>
        (\<forall>i :: u64. macro_value M (Call ''ELF64_R_SYM'' [Lit Hex (uint i) Suf_UL]) = Some (U64, uint (ELF64_R_SYM i))
          \<and> macro_value M (Call ''ELF64_R_TYPE'' [Lit Hex (uint i) Suf_UL]) = Some (U64, uint (ELF64_R_TYPE i))))"
  by (intro conjI syscall_h_stdio_constants syscall_h_first_constants syscall_h_rest_constants errno_h_base_constants futex_h_constants mman_h_constants
    fcntl_h_constants sched_h_constants signal_h_constants prctl_h_constants tinyrt_h_constants tcb_h_constants
    mem_h_constants stdio_h_constants elf_h_sections_constants elf_h_relocations_constants elf_h_segments_constants elf_h_dynamic_constants
    elf_h_aux_constants
    relocation_fields)

text \<open>C39: the last lines of \<open>stdint.h\<close> remove the names that the limits are defined by, so that no limit has a value
  wherever the header has been included.  Before these lines the limits have their values, except that the
  least values of the two wider types are positive numbers of the unsigned types.\<close>

theorem stdint_limits_undeclared:
  "(case preprocess (conf_h @ stdint_h) [] of None \<Rightarrow> False | Some M \<Rightarrow>
      list_all (\<lambda>x. macro_value M (Ident x) = None) limit_macros)
   \<and> (case preprocess (conf_h @ stdint_h_before_undefs) [] of None \<Rightarrow> False | Some M \<Rightarrow>
        macro_value M (Ident ''INT32_MIN'') = Some (U32, 2 ^ 31)
      \<and> macro_value M (Ident ''INT64_MIN'') = Some (U64, 2 ^ 63)
      \<and> values_in M [(''INT8_MIN'', - (2 ^ 7)), (''INT16_MIN'', - (2 ^ 15)), (''INT8_MAX'', 2 ^ 7 - 1), (''INT16_MAX'', 2 ^ 15 - 1),
          (''INT32_MAX'', 2 ^ 31 - 1), (''INT64_MAX'', 2 ^ 63 - 1), (''UINT8_MAX'', 2 ^ 8 - 1), (''UINT16_MAX'', 2 ^ 16 - 1),
          (''UINT32_MAX'', 2 ^ 32 - 1), (''UINT64_MAX'', 2 ^ 64 - 1)])"
  using stdint_after stdint_before by (rule conjI)

end
