(* ===== verification/Layout.thy ===== *)
theory Layout
  imports Prelude
begin

text \<open>
  The layout of C structures by the rules of the System V ABI for x86-64 and of the Windows ABI, which differ
  in the size of \<open>long\<close>: every member is placed at the next multiple of its alignment, and the size of a
  structure is rounded up to the largest alignment of its members.  The structures and type names of the
  headers are given as their declarations.
\<close>

section \<open>Types\<close>

datatype data_model = LP64 | LLP64

datatype base =
    CChar | CSChar | CUChar | CShort | CUShort | CInt | CUInt | CLong | CULong | CLLong | CULLong

datatype cty =
    Base base
  | Pointer
  | Array cty nat
  | Struct "(string \<times> cty) list"
  | Union "(string \<times> cty) list"

fun sizeof_base :: "data_model \<Rightarrow> base \<Rightarrow> nat" where
  "sizeof_base M CChar = 1" | "sizeof_base M CSChar = 1" | "sizeof_base M CUChar = 1"
| "sizeof_base M CShort = 2" | "sizeof_base M CUShort = 2"
| "sizeof_base M CInt = 4" | "sizeof_base M CUInt = 4"
| "sizeof_base M CLong = (if M = LP64 then 8 else 4)" | "sizeof_base M CULong = (if M = LP64 then 8 else 4)"
| "sizeof_base M CLLong = 8" | "sizeof_base M CULLong = 8"

section \<open>Placing members\<close>

text \<open>The members as pairs of size and alignment.\<close>

definition align_up :: "nat \<Rightarrow> nat \<Rightarrow> nat" where
  "align_up a n = (n + a - 1) div a * a"

fun member_offsets :: "nat \<Rightarrow> (nat \<times> nat) list \<Rightarrow> nat list" where
  "member_offsets n [] = []"
| "member_offsets n ((s, a) # ms) = (let off = align_up a n in off # member_offsets (off + s) ms)"

fun members_end :: "nat \<Rightarrow> (nat \<times> nat) list \<Rightarrow> nat" where
  "members_end n [] = n"
| "members_end n ((s, a) # ms) = members_end (align_up a n + s) ms"

definition max_of :: "nat list \<Rightarrow> nat" where
  "max_of ns = fold max ns 0"

definition struct_layout :: "(nat \<times> nat) list \<Rightarrow> nat \<times> nat" where
  "struct_layout ms = (let a = max 1 (max_of (map snd ms)) in (align_up a (members_end 0 ms), a))"

definition union_layout :: "(nat \<times> nat) list \<Rightarrow> nat \<times> nat" where
  "union_layout ms = (let a = max 1 (max_of (map snd ms)) in (align_up a (max_of (map fst ms)), a))"

text \<open>Size and alignment of a type.\<close>

fun layout :: "data_model \<Rightarrow> cty \<Rightarrow> nat \<times> nat" where
  "layout M (Base b) = (sizeof_base M b, sizeof_base M b)"
| "layout M Pointer = (8, 8)"
| "layout M (Array t n) = (let (s, a) = layout M t in (n * s, a))"
| "layout M (Struct fs) = struct_layout (map (\<lambda>f. layout M (snd f)) fs)"
| "layout M (Union fs) = union_layout (map (\<lambda>f. layout M (snd f)) fs)"

definition sizeof :: "cty \<Rightarrow> nat" where
  "sizeof t = fst (layout LP64 t)"

text \<open>The members with their offsets; those of an anonymous union are members of the structure.\<close>

definition inner_members :: "cty \<Rightarrow> string list" where
  "inner_members t = (case t of Union fs \<Rightarrow> map fst fs | _ \<Rightarrow> [])"

definition offsets :: "cty \<Rightarrow> (string \<times> nat) list" where
  "offsets t = (case t of
     Struct fs \<Rightarrow>
       concat (map (\<lambda>((x, u), k). if x = '''' then map (\<lambda>y. (y, k)) (inner_members u) else [(x, k)])
         (zip fs (member_offsets 0 (map (\<lambda>f. layout LP64 (snd f)) fs))))
   | Union fs \<Rightarrow> map (\<lambda>f. (fst f, 0)) fs
   | _ \<Rightarrow> [])"

definition field :: "cty \<Rightarrow> string \<Rightarrow> addr" where
  "field t x = of_nat (the (map_of (offsets t) x))"

section \<open>What a layout guarantees\<close>

lemma dvd_align_up [simp]: "a dvd align_up a n"
  by (simp add: align_up_def)

lemma align_up_bounds:
  assumes "0 < a"
  shows "n \<le> align_up a n" "align_up a n < n + a"
proof -
  have "align_up a n + (n + a - 1) mod a = n + a - 1" by (simp add: align_up_def)
  moreover have "(n + a - 1) mod a < a" using assms by simp
  ultimately show "n \<le> align_up a n" "align_up a n < n + a" using assms by linarith+
qed

lemma length_member_offsets [simp]: "length (member_offsets n ms) = length ms"
  by (induction n ms rule: member_offsets.induct) (simp_all add: Let_def)

lemma members_end_ge: "\<forall>m\<in>set ms. 0 < snd m \<Longrightarrow> n \<le> members_end n ms"
proof (induction n ms rule: members_end.induct)
  case (2 n s a ms)
  then show ?case using align_up_bounds(1) [of a n] by fastforce
qed simp

lemma member_offsets_ge:
  "\<forall>m\<in>set ms. 0 < snd m \<Longrightarrow> i < length ms \<Longrightarrow>
     n \<le> member_offsets n ms ! i \<and> snd (ms ! i) dvd member_offsets n ms ! i
     \<and> member_offsets n ms ! i + fst (ms ! i) \<le> members_end n ms"
proof (induction n ms arbitrary: i rule: member_offsets.induct)
  case (2 n s a ms)
  have a: "n \<le> align_up a n" using 2 align_up_bounds(1) [of a n] by simp
  show ?case
  proof (cases i)
    case 0
    then show ?thesis using a 2 members_end_ge [of ms "align_up a n + s"] by (simp add: Let_def)
  next
    case (Suc j)
    then show ?thesis using a "2.IH" [OF refl, of j] "2.prems" by (simp add: Let_def)
  qed
qed simp

lemma member_offsets_apart:
  "\<forall>m\<in>set ms. 0 < snd m \<Longrightarrow> i < j \<Longrightarrow> j < length ms \<Longrightarrow>
     member_offsets n ms ! i + fst (ms ! i) \<le> member_offsets n ms ! j"
proof (induction n ms arbitrary: i j rule: member_offsets.induct)
  case (2 n s a ms)
  obtain j' where j: "j = Suc j'" using 2 by (cases j) simp_all
  show ?case
  proof (cases i)
    case 0
    then show ?thesis using j 2 member_offsets_ge [of ms j' "align_up a n + s"] by (simp add: Let_def)
  next
    case (Suc i')
    then show ?thesis using j 2 by (simp add: Let_def)
  qed
qed simp

lemma layout_align_pos: "0 < snd (layout M t)"
proof (induction M t rule: layout.induct)
  case (1 M b)
  then show ?case by (cases b) simp_all
qed (auto simp: struct_layout_def union_layout_def Let_def split: prod.splits)

text \<open>The members of a structure are aligned, do not overlap and end inside the structure, whose size is a
  multiple of its alignment.\<close>

definition layout_sound :: "cty \<Rightarrow> bool" where
  "layout_sound t = (case t of
     Struct fs \<Rightarrow>
       (let ms = map (\<lambda>f. layout LP64 (snd f)) fs; ks = member_offsets 0 ms in
         (\<forall>i < length ms. snd (ms ! i) dvd ks ! i \<and> ks ! i + fst (ms ! i) \<le> sizeof t)
         \<and> (\<forall>j < length ms. \<forall>i < j. ks ! i + fst (ms ! i) \<le> ks ! j)
         \<and> snd (layout LP64 t) dvd sizeof t)
   | _ \<Rightarrow> snd (layout LP64 t) dvd sizeof t)"

lemma layout_sound_Struct: "layout_sound (Struct fs)"
proof -
  define ms where "ms = map (\<lambda>f. layout LP64 (snd f)) fs"
  have a: "\<forall>m\<in>set ms. 0 < snd m" by (auto simp: ms_def layout_align_pos)
  have "members_end 0 ms \<le> sizeof (Struct fs)"
    using align_up_bounds(1) [of "max 1 (max_of (map snd ms))" "members_end 0 ms"]
    by (simp add: sizeof_def struct_layout_def Let_def ms_def)
  moreover have "snd (layout LP64 (Struct fs)) dvd sizeof (Struct fs)"
    by (simp add: sizeof_def struct_layout_def Let_def)
  ultimately show ?thesis
    using member_offsets_ge [OF a, of _ 0] member_offsets_apart [OF a, of _ _ 0]
    by (fastforce simp: layout_sound_def Let_def ms_def [symmetric] simp del: length_map nth_map)
qed

lemma layout_sound_Union: "layout_sound (Union fs)"
  by (simp add: layout_sound_def sizeof_def union_layout_def Let_def)

section \<open>Integer types\<close>

text \<open>The \<open>typedef\<close>s of \<open>stdint.h\<close>.\<close>

definition stdint_types :: "data_model \<Rightarrow> (string \<times> base) list" where
  "stdint_types M =
    (let s64 = if M = LP64 then CLong else CLLong; u64 = if M = LP64 then CULong else CULLong in
     [(''int8_t'', CSChar), (''uint8_t'', CUChar), (''int16_t'', CShort), (''uint16_t'', CUShort),
      (''int32_t'', CInt), (''uint32_t'', CUInt), (''int64_t'', s64), (''uint64_t'', u64),
      (''int_fast8_t'', CSChar), (''int_least8_t'', CSChar), (''int_fast16_t'', CShort), (''int_least16_t'', CShort),
      (''int_fast32_t'', CInt), (''int_least32_t'', CInt), (''int_fast64_t'', s64), (''int_least64_t'', s64),
      (''uint_fast8_t'', CUChar), (''uint_least8_t'', CUChar), (''uint_fast16_t'', CUShort), (''uint_least16_t'', CUShort),
      (''uint_fast32_t'', CUInt), (''uint_least32_t'', CUInt), (''uint_fast64_t'', u64), (''uint_least64_t'', u64),
      (''intmax_t'', s64), (''intptr_t'', s64), (''uintmax_t'', u64), (''uintptr_t'', u64)])"

text \<open>The static assertions.\<close>

definition stdint_asserts :: "data_model \<Rightarrow> bool" where
  "stdint_asserts M \<longleftrightarrow> sizeof_base M CChar = 1 \<and> sizeof_base M CShort = 2 \<and> sizeof_base M CInt = 4
     \<and> sizeof_base M CLLong = 8 \<and> sizeof_base M CLong = (if M = LP64 then 8 else 4)"

definition t_i32 :: cty where "t_i32 = Base CInt"
definition t_u32 :: cty where "t_u32 = Base CUInt"
definition t_u64 :: cty where "t_u64 = Base CULong"

section \<open>ELF\<close>

definition Elf64_Addr :: cty where "Elf64_Addr = Base CULong"
definition Elf64_Off :: cty where "Elf64_Off = Base CULong"
definition Elf64_Half :: cty where "Elf64_Half = Base CUShort"
definition Elf64_Word :: cty where "Elf64_Word = Base CUInt"
definition Elf64_Sword :: cty where "Elf64_Sword = Base CInt"
definition Elf64_Xword :: cty where "Elf64_Xword = Base CULong"
definition Elf64_Sxword :: cty where "Elf64_Sxword = Base CLong"

definition struct_Elf64_Ehdr :: cty where
  "struct_Elf64_Ehdr = Struct
   [(''e_ident'', Array (Base CUChar) 16), (''e_type'', Elf64_Half), (''e_machine'', Elf64_Half),
    (''e_version'', Elf64_Word), (''e_entry'', Elf64_Addr), (''e_phoff'', Elf64_Off),
    (''e_shoff'', Elf64_Off), (''e_flags'', Elf64_Word), (''e_ehsize'', Elf64_Half),
    (''e_phentsize'', Elf64_Half), (''e_phnum'', Elf64_Half), (''e_shentsize'', Elf64_Half),
    (''e_shnum'', Elf64_Half), (''e_shstrndx'', Elf64_Half)]"

definition struct_Elf64_Shdr :: cty where
  "struct_Elf64_Shdr = Struct
   [(''sh_name'', Elf64_Word), (''sh_type'', Elf64_Word), (''sh_flags'', Elf64_Xword),
    (''sh_addr'', Elf64_Addr), (''sh_offset'', Elf64_Off), (''sh_size'', Elf64_Xword),
    (''sh_link'', Elf64_Word), (''sh_info'', Elf64_Word), (''sh_addralign'', Elf64_Xword),
    (''sh_entsize'', Elf64_Xword)]"

definition struct_Elf64_Chdr :: cty where
  "struct_Elf64_Chdr = Struct
   [(''ch_type'', Elf64_Word), (''ch_reserved'', Elf64_Word), (''ch_size'', Elf64_Xword),
    (''ch_addralign'', Elf64_Xword)]"

definition struct_Elf64_Sym :: cty where
  "struct_Elf64_Sym = Struct
   [(''st_name'', Elf64_Word), (''st_info'', Base CUChar), (''st_other'', Base CUChar),
    (''st_shndx'', Elf64_Half), (''st_value'', Elf64_Addr), (''st_size'', Elf64_Xword)]"

definition struct_Elf64_Rel :: cty where
  "struct_Elf64_Rel = Struct
   [(''r_offset'', Elf64_Addr), (''r_info'', Elf64_Xword)]"

definition struct_Elf64_Rela :: cty where
  "struct_Elf64_Rela = Struct
   [(''r_offset'', Elf64_Addr), (''r_info'', Elf64_Xword), (''r_addend'', Elf64_Sxword)]"

definition struct_Elf64_Phdr :: cty where
  "struct_Elf64_Phdr = Struct
   [(''p_type'', Elf64_Word), (''p_flags'', Elf64_Word), (''p_offset'', Elf64_Off),
    (''p_vaddr'', Elf64_Addr), (''p_paddr'', Elf64_Addr), (''p_filesz'', Elf64_Xword),
    (''p_memsz'', Elf64_Xword), (''p_align'', Elf64_Xword)]"

definition struct_Elf64_Dyn :: cty where
  "struct_Elf64_Dyn = Struct
   [(''d_tag'', Elf64_Sxword), (''d_un'', Union [(''d_val'', Elf64_Xword), (''d_ptr'', Elf64_Addr)])]"

definition struct_Elf64_Aux :: cty where
  "struct_Elf64_Aux = Struct
   [(''a_type'', Base CInt),
    ('''', Union [(''a_val'', Base CLong), (''a_ptr'', Pointer), (''a_fcn'', Pointer)])]"

section \<open>The library\<close>

definition struct_LD_CRT_Params :: cty where
  "struct_LD_CRT_Params = Struct
   [(''stack_size'', t_u64), (''tls_image_size'', t_u64), (''tls_image_base'', Pointer)]"

definition struct_LD_Thread_Block :: cty where
  "struct_LD_Thread_Block = Struct
   [(''thread_id'', t_i32), (''state_finish'', t_i32), (''state_detach'', t_u32), (''exit_code'', t_u32),
    (''pad0'', t_u64), (''pad1'', t_u64), (''pad2'', t_u64), (''stack_canary'', t_u64),
    (''next_tcb'', Pointer), (''prev_tcb'', Pointer), (''is_cancelled'', t_u32)]"

definition struct_RT_Thread :: cty where
  "struct_RT_Thread = Struct
   [(''handle'', Pointer)]"

definition struct_RT_File :: cty where
  "struct_RT_File = Struct
   [('''', Union [(''handle'', Pointer), (''fd'', t_u64)]), (''flags'', t_i32)]"

definition struct_Cia_Mutex :: cty where
  "struct_Cia_Mutex = Struct
   [(''tag'', t_u32)]"

definition struct_thrd_t :: cty where
  "struct_thrd_t = Struct
   [(''thread'', struct_RT_Thread)]"

definition struct_FILE :: cty where
  "struct_FILE = Struct
   [(''rt_file'', struct_RT_File), (''mutex'', struct_Cia_Mutex)]"

definition struct_Cia_Allocator :: cty where
  "struct_Cia_Allocator = Struct
   [(''ctx'', Pointer), (''proc'', Pointer)]"

definition struct_Cia_Arena :: cty where
  "struct_Cia_Arena = Struct
   [(''allocator'', struct_Cia_Allocator), (''buffer_size'', t_u64), (''used'', t_u64),
    (''buffer'', Pointer)]"

definition struct_Cia_Pool_Bucket :: cty where
  "struct_Cia_Pool_Bucket = Struct
   [(''next'', Pointer)]"

definition struct_Cia_Pool_Buffer_Header :: cty where
  "struct_Cia_Pool_Buffer_Header = Struct
   [(''next'', Pointer)]"

definition struct_Cia_Pool :: cty where
  "struct_Cia_Pool = Struct
   [(''allocator'', struct_Cia_Allocator), (''first'', Pointer), (''freelist_head'', Pointer),
    (''buffer_size'', t_u64), (''bucket_size'', t_u64), (''alignment'', t_u64)]"

section \<open>The loader\<close>

definition struct_Loader_Info :: cty where
  "struct_Loader_Info = Struct
   [(''sp'', Pointer), (''ldso_base'', Pointer), (''dyn'', Pointer), (''aux'', Pointer)]"

definition struct_Elf_Image :: cty where
  "struct_Elf_Image = Struct
   [(''arena'', struct_Cia_Arena), (''name'', Pointer), (''base'', Pointer), (''phdr'', Pointer),
    (''ph_num'', t_u64), (''ph_ent'', t_u64), (''shdr'', Pointer), (''sh_num'', t_u64),
    (''sh_ent'', t_u64), (''dyn'', Pointer)]"

definition struct_Stage3_Info_Struct :: cty where
  "struct_Stage3_Info_Struct = Struct
   [(''app'', Pointer), (''ldso'', Pointer), (''stack_base'', Pointer), (''stack_size'', t_u64),
    (''tls_image'', Pointer), (''tls_size'', t_u64)]"

definition struct_File_Buffer :: cty where
  "struct_File_Buffer = Struct
   [(''fd'', Base CInt), (''data'', Pointer), (''data_size'', t_u64), (''last_read_size'', t_u64),
    (''offset'', t_u64), (''last_char'', Base CInt)]"

definition struct_Stack_Info :: cty where
  "struct_Stack_Info = Struct
   [(''stack_found'', Base CUChar), (''start_addr'', t_u64), (''end_addr'', t_u64), (''flags'', t_u32)]"

section \<open>The kernel interface\<close>

definition union_sigval :: cty where
  "union_sigval = Union
   [(''sival_int'', t_i32), (''sival_ptr'', Pointer)]"

definition struct_siginfo_t :: cty where
  "struct_siginfo_t = Struct
   [(''si_signo'', t_i32), (''si_errno'', t_i32), (''si_code'', t_i32), (''si_trapno'', t_i32),
    (''si_pid'', t_u32), (''si_uid'', t_u32), (''si_status'', t_i32), (''si_utime'', t_u64),
    (''si_stime'', t_u64), (''si_value'', union_sigval), (''si_int'', t_i32), (''si_ptr'', Pointer),
    (''si_overrun'', t_i32), (''si_timerid'', t_i32), (''si_addr'', Pointer), (''si_band'', Base CLong),
    (''si_fd'', t_i32), (''si_addr_lsb'', Base CShort), (''si_lower'', Pointer), (''si_upper'', Pointer),
    (''si_pkey'', t_i32), (''si_call_addr'', Pointer), (''si_syscall'', t_i32), (''si_arch'', t_u32)]"

definition struct_sigaction :: cty where
  "struct_sigaction = Struct
   [('''', Union [(''sa_handler'', Pointer), (''sa_sigaction'', Pointer)]), (''sa_mask'', t_u64),
    (''sa_flags'', t_i32), (''sa_restorer'', Pointer)]"

definition struct_futex_waitv :: cty where
  "struct_futex_waitv = Struct
   [(''val'', t_u64), (''uaddr'', t_u64), (''flags'', t_u32), (''__reserved'', t_u32)]"

definition struct_robust_list :: cty where
  "struct_robust_list = Struct
   [(''next'', Pointer)]"

definition struct_robust_list_head :: cty where
  "struct_robust_list_head = Struct
   [(''list'', struct_robust_list), (''futex_offset'', Base CLong), (''list_op_pending'', Pointer)]"

end
