(* ===== verification/Abi.thy ===== *)
theory Abi
  imports Layout Constants Arena
begin

text \<open>
  The offsets and sizes that the other theories use for the structures of the code are compared with those that the layout
  algorithm computes from the transcribed declarations; the integer types have the widths that \<open>stdint.h\<close> gives.
\<close>

lemmas struct_defs =
  struct_Elf64_Ehdr_def struct_Elf64_Shdr_def struct_Elf64_Chdr_def struct_Elf64_Sym_def
  struct_Elf64_Rel_def struct_Elf64_Rela_def struct_Elf64_Phdr_def struct_Elf64_Dyn_def
  struct_Elf64_Aux_def struct_LD_CRT_Params_def struct_LD_Thread_Block_def struct_RT_Thread_def
  struct_RT_File_def struct_Cia_Mutex_def struct_thrd_t_def struct_FILE_def
  struct_Cia_Allocator_def struct_Cia_Arena_def struct_Cia_Pool_Bucket_def struct_Cia_Pool_Buffer_Header_def
  struct_Cia_Pool_def struct_Loader_Info_def struct_Elf_Image_def struct_Stage3_Info_Struct_def
  struct_File_Buffer_def struct_Stack_Info_def union_sigval_def struct_siginfo_t_def
  struct_sigaction_def struct_futex_waitv_def struct_robust_list_def struct_robust_list_head_def

lemma offsets_struct_Elf64_Ehdr:
  "offsets struct_Elf64_Ehdr =
    [(''e_ident'', 0), (''e_type'', 16), (''e_machine'', 18), (''e_version'', 20), (''e_entry'', 24),
     (''e_phoff'', 32), (''e_shoff'', 40), (''e_flags'', 48), (''e_ehsize'', 52), (''e_phentsize'', 54),
     (''e_phnum'', 56), (''e_shentsize'', 58), (''e_shnum'', 60), (''e_shstrndx'', 62)]"
  by code_simp

lemma offsets_struct_Elf64_Shdr:
  "offsets struct_Elf64_Shdr =
    [(''sh_name'', 0), (''sh_type'', 4), (''sh_flags'', 8), (''sh_addr'', 16), (''sh_offset'', 24),
     (''sh_size'', 32), (''sh_link'', 40), (''sh_info'', 44), (''sh_addralign'', 48), (''sh_entsize'', 56)]"
  by code_simp

lemma offsets_struct_Elf64_Sym:
  "offsets struct_Elf64_Sym =
    [(''st_name'', 0), (''st_info'', 4), (''st_other'', 5), (''st_shndx'', 6), (''st_value'', 8),
     (''st_size'', 16)]"
  by code_simp

lemma offsets_struct_Elf64_Rel:
  "offsets struct_Elf64_Rel =
    [(''r_offset'', 0), (''r_info'', 8)]"
  by code_simp

lemma offsets_struct_Elf64_Rela:
  "offsets struct_Elf64_Rela =
    [(''r_offset'', 0), (''r_info'', 8), (''r_addend'', 16)]"
  by code_simp

lemma offsets_struct_Elf64_Phdr:
  "offsets struct_Elf64_Phdr =
    [(''p_type'', 0), (''p_flags'', 4), (''p_offset'', 8), (''p_vaddr'', 16), (''p_paddr'', 24),
     (''p_filesz'', 32), (''p_memsz'', 40), (''p_align'', 48)]"
  by code_simp

lemma offsets_struct_Elf64_Dyn:
  "offsets struct_Elf64_Dyn =
    [(''d_tag'', 0), (''d_un'', 8)]"
  by code_simp

lemma offsets_struct_Elf64_Aux:
  "offsets struct_Elf64_Aux =
    [(''a_type'', 0), (''a_val'', 8), (''a_ptr'', 8), (''a_fcn'', 8)]"
  by code_simp

lemma offsets_struct_LD_Thread_Block:
  "offsets struct_LD_Thread_Block =
    [(''thread_id'', 0), (''state_finish'', 4), (''state_detach'', 8), (''exit_code'', 12), (''pad0'', 16),
     (''pad1'', 24), (''pad2'', 32), (''stack_canary'', 40), (''next_tcb'', 48), (''prev_tcb'', 56),
     (''is_cancelled'', 64)]"
  by code_simp

lemma offsets_struct_RT_File:
  "offsets struct_RT_File =
    [(''handle'', 0), (''fd'', 0), (''flags'', 8)]"
  by code_simp

lemma offsets_struct_FILE:
  "offsets struct_FILE =
    [(''rt_file'', 0), (''mutex'', 16)]"
  by code_simp

lemma offsets_struct_Elf_Image:
  "offsets struct_Elf_Image =
    [(''arena'', 0), (''name'', 40), (''base'', 48), (''phdr'', 56), (''ph_num'', 64), (''ph_ent'', 72),
     (''shdr'', 80), (''sh_num'', 88), (''sh_ent'', 96), (''dyn'', 104)]"
  by code_simp

lemma offsets_struct_Stage3_Info_Struct:
  "offsets struct_Stage3_Info_Struct =
    [(''app'', 0), (''ldso'', 8), (''stack_base'', 16), (''stack_size'', 24), (''tls_image'', 32),
     (''tls_size'', 40)]"
  by code_simp

lemma struct_sizes:
  "sizeof struct_Elf64_Sym = 24
   \<and> sizeof struct_Elf64_Rela = 24
   \<and> sizeof struct_Elf64_Dyn = 16
   \<and> sizeof struct_Elf64_Aux = 16
   \<and> sizeof struct_FILE = 24
   \<and> sizeof struct_Cia_Pool_Bucket = 8
   \<and> sizeof struct_Cia_Pool_Buffer_Header = 8
   \<and> sizeof struct_Elf_Image = 112
   \<and> sizeof struct_Stage3_Info_Struct = 48"
  by (intro conjI; code_simp)

lemmas struct_offsets =
  offsets_struct_Elf64_Ehdr
  offsets_struct_Elf64_Shdr
  offsets_struct_Elf64_Sym
  offsets_struct_Elf64_Rel
  offsets_struct_Elf64_Rela
  offsets_struct_Elf64_Phdr
  offsets_struct_Elf64_Dyn
  offsets_struct_Elf64_Aux
  offsets_struct_LD_Thread_Block
  offsets_struct_RT_File
  offsets_struct_FILE
  offsets_struct_Elf_Image
  offsets_struct_Stage3_Info_Struct

lemmas model_offset_defs =
  e_entry_def e_phoff_def e_shoff_def e_phentsize_def e_phnum_def e_shentsize_def e_shnum_def sh_type_def
  st_name_def st_value_def r_offset_def r_info_def r_addend_def p_type_def p_vaddr_def p_memsz_def d_tag_def
  a_type_def a_val_def d_val_def file_mutex_def file_flags_def tcb_thread_id_def tcb_state_finish_def
  tcb_state_detach_def tcb_exit_code_def tcb_stack_canary_def tcb_next_def tcb_prev_def tcb_is_cancelled_def
  im_name_def im_base_def im_phdr_def im_ph_num_def im_ph_ent_def im_dyn_def s3_app_def s3_ldso_def
  s3_stack_base_def s3_stack_size_def s3_tls_image_def s3_tls_size_def sizeof_Elf64_Sym_def
  sizeof_Elf64_Rela_def sizeof_Elf64_Dyn_def sizeof_Elf64_Aux_def sizeof_FILE_def sizeof_pool_bucket_def
  sizeof_pool_buffer_header_def sizeof_Elf_Image_def sizeof_Stage3_Info_def

text \<open>The integer types and the macros that give their widths.\<close>

definition width_macros :: "(string \<times> string) list" where
  "width_macros =
  [(''int8_t'', ''INT8_WIDTH''), (''uint8_t'', ''UINT8_WIDTH''), (''int_fast8_t'', ''INT_FAST8_WIDTH''),
   (''uint_fast8_t'', ''UINT_FAST8_WIDTH''), (''int_least8_t'', ''INT_LEAST8_WIDTH''),
   (''uint_least8_t'', ''UINT_LEAST8_WIDTH''), (''int16_t'', ''INT16_WIDTH''),
   (''uint16_t'', ''UINT16_WIDTH''), (''int_fast16_t'', ''INT_FAST16_WIDTH''),
   (''uint_fast16_t'', ''UINT_FAST16_WIDTH''), (''int_least16_t'', ''INT_LEAST16_WIDTH''),
   (''uint_least16_t'', ''UINT_LEAST16_WIDTH''), (''int32_t'', ''INT32_WIDTH''),
   (''uint32_t'', ''UINT32_WIDTH''), (''int_fast32_t'', ''INT_FAST32_WIDTH''),
   (''uint_fast32_t'', ''UINT_FAST32_WIDTH''), (''int_least32_t'', ''INT_LEAST32_WIDTH''),
   (''uint_least32_t'', ''UINT_LEAST32_WIDTH''), (''int64_t'', ''INT64_WIDTH''),
   (''uint64_t'', ''UINT64_WIDTH''), (''int_fast64_t'', ''INT_FAST64_WIDTH''),
   (''uint_fast64_t'', ''UINT_FAST64_WIDTH''), (''int_least64_t'', ''INT_LEAST64_WIDTH''),
   (''uint_least64_t'', ''UINT_LEAST64_WIDTH''), (''intptr_t'', ''INTPTR_WIDTH''),
   (''intmax_t'', ''INTMAX_WIDTH''), (''uintptr_t'', ''UINTPTR_WIDTH''), (''uintmax_t'', ''UINTMAX_WIDTH'')]"

definition bits_of_type :: "data_model \<Rightarrow> string \<Rightarrow> int" where
  "bits_of_type M t = 8 * int (sizeof_base M (the (map_of (stdint_types M) t)))"

section \<open>Properties\<close>

text \<open>In both data models the static assertions hold and every integer type has as many bits as its width
  macro says.\<close>

theorem stdint_widths:
  "stdint_asserts M \<and> gives stdint_h_widths (map (\<lambda>(t, w). (w, bits_of_type M t)) width_macros)"
proof -
  have "gives stdint_h_widths (map (\<lambda>(t, w). (w, bits_of_type M t)) width_macros)"
    unfolding stdint_h_widths_def width_macros_def
    by (cases M) (simp_all add: gives_simps bits_of_type_def stdint_types_def cong: gives_congs)
  then show ?thesis by (simp add: stdint_asserts_def)
qed

text \<open>A check of the model against itself: the offsets of the fields that the other theories name, and the sizes they use, are
  what the layout algorithm computes from the transcribed declarations.\<close>

lemma struct_layouts_agree:
  "e_entry m a = load64 m (a + field struct_Elf64_Ehdr ''e_entry'')
   \<and> e_phoff m a = load64 m (a + field struct_Elf64_Ehdr ''e_phoff'')
   \<and> e_shoff m a = load64 m (a + field struct_Elf64_Ehdr ''e_shoff'')
   \<and> e_phentsize m a = load16 m (a + field struct_Elf64_Ehdr ''e_phentsize'')
   \<and> e_phnum m a = load16 m (a + field struct_Elf64_Ehdr ''e_phnum'')
   \<and> e_shentsize m a = load16 m (a + field struct_Elf64_Ehdr ''e_shentsize'')
   \<and> e_shnum m a = load16 m (a + field struct_Elf64_Ehdr ''e_shnum'')
   \<and> sh_type m a = load32 m (a + field struct_Elf64_Shdr ''sh_type'')
   \<and> st_name m a = load32 m (a + field struct_Elf64_Sym ''st_name'')
   \<and> st_value m a = load64 m (a + field struct_Elf64_Sym ''st_value'')
   \<and> r_offset m a = load64 m (a + field struct_Elf64_Rel ''r_offset'')
   \<and> r_info m a = load64 m (a + field struct_Elf64_Rel ''r_info'')
   \<and> r_offset m a = load64 m (a + field struct_Elf64_Rela ''r_offset'')
   \<and> r_info m a = load64 m (a + field struct_Elf64_Rela ''r_info'')
   \<and> r_addend m a = load64 m (a + field struct_Elf64_Rela ''r_addend'')
   \<and> p_type m a = load32 m (a + field struct_Elf64_Phdr ''p_type'')
   \<and> p_vaddr m a = load64 m (a + field struct_Elf64_Phdr ''p_vaddr'')
   \<and> p_memsz m a = load64 m (a + field struct_Elf64_Phdr ''p_memsz'')
   \<and> d_tag m a = load64 m (a + field struct_Elf64_Dyn ''d_tag'')
   \<and> d_val m a = load64 m (a + field struct_Elf64_Dyn ''d_un'')
   \<and> a_type m a = load32 m (a + field struct_Elf64_Aux ''a_type'')
   \<and> a_val m a = load64 m (a + field struct_Elf64_Aux ''a_val'')
   \<and> file_mutex a = a + field struct_FILE ''mutex''
   \<and> file_flags a = a + field struct_RT_File ''flags''
   \<and> tcb_thread_id a = a + field struct_LD_Thread_Block ''thread_id''
   \<and> tcb_state_finish a = a + field struct_LD_Thread_Block ''state_finish''
   \<and> tcb_state_detach a = a + field struct_LD_Thread_Block ''state_detach''
   \<and> tcb_exit_code a = a + field struct_LD_Thread_Block ''exit_code''
   \<and> tcb_stack_canary a = a + field struct_LD_Thread_Block ''stack_canary''
   \<and> tcb_next a = a + field struct_LD_Thread_Block ''next_tcb''
   \<and> tcb_prev a = a + field struct_LD_Thread_Block ''prev_tcb''
   \<and> tcb_is_cancelled a = a + field struct_LD_Thread_Block ''is_cancelled''
   \<and> im_name a = a + field struct_Elf_Image ''name''
   \<and> im_base a = a + field struct_Elf_Image ''base''
   \<and> im_phdr a = a + field struct_Elf_Image ''phdr''
   \<and> im_ph_num a = a + field struct_Elf_Image ''ph_num''
   \<and> im_ph_ent a = a + field struct_Elf_Image ''ph_ent''
   \<and> im_dyn a = a + field struct_Elf_Image ''dyn''
   \<and> s3_app a = a + field struct_Stage3_Info_Struct ''app''
   \<and> s3_ldso a = a + field struct_Stage3_Info_Struct ''ldso''
   \<and> s3_stack_base a = a + field struct_Stage3_Info_Struct ''stack_base''
   \<and> s3_stack_size a = a + field struct_Stage3_Info_Struct ''stack_size''
   \<and> s3_tls_image a = a + field struct_Stage3_Info_Struct ''tls_image''
   \<and> s3_tls_size a = a + field struct_Stage3_Info_Struct ''tls_size''
   \<and> unat sizeof_Elf64_Sym = sizeof struct_Elf64_Sym
   \<and> unat sizeof_Elf64_Rela = sizeof struct_Elf64_Rela
   \<and> unat sizeof_Elf64_Dyn = sizeof struct_Elf64_Dyn
   \<and> unat sizeof_Elf64_Aux = sizeof struct_Elf64_Aux
   \<and> unat sizeof_FILE = sizeof struct_FILE
   \<and> unat sizeof_pool_bucket = sizeof struct_Cia_Pool_Bucket
   \<and> unat sizeof_pool_buffer_header = sizeof struct_Cia_Pool_Buffer_Header
   \<and> unat sizeof_Elf_Image = sizeof struct_Elf_Image
   \<and> unat sizeof_Stage3_Info = sizeof struct_Stage3_Info_Struct"
  using struct_sizes by (intro conjI; simp add: model_offset_defs field_def struct_offsets)

end
