(* ===== verification/Spec2Isabelle.thy ===== *)
theory Spec2Isabelle
  imports Prelude Memory Align Kernel Syscalls Tinyrt Allocator Arena Pool_Stack Mutex StrMem Program File Fmt
    Printf_Correct Thread_Start Thread_Join Proc_Maps_Correct Loader_Entry Start_Program Windows Chkstk Cpp Headers
    Constants Layout Abi
begin

text \<open>
  Ciabatta is a small C library for Linux and Windows with a dynamic loader of its own.  This
  development models its code as executable functions and step relations and states what they
  guarantee and where they fail.

  THE PROGRAM.  The library is compiled as one unit (\<open>cia.c\<close>).  Its bottom layer is the runtime layer
  declared in \<open>include/tinyrt.h\<close> and implemented on Linux by system calls (\<open>os/linux/tinyrt.c\<close>,
  \<open>os/linux/tinyrt-threads.c\<close>) and on Windows by Win32 calls (\<open>os/windows/tinyrt.c\<close>).  On it rest the
  allocators (\<open>src/cia-mem\<close>: pages, arenas, pools), the futex wrappers and the mutex (\<open>src/cia-sync\<close>), and
  the C library: \<open>stdlib-file\<close> keeps its \<open>FILE\<close> objects in a pool and locks them with mutexes,
  \<open>stdlib-program\<close> has the tables of exit handlers, \<open>stdlib-thread\<close> wraps the threads, \<open>stdlib-string\<close> the
  memory and string functions.  The loader (\<open>loader/\<close>) relocates itself and the program, puts the program
  on a new stack with a thread block and jumps to its entry point (\<open>os/linux/entry.c\<close>), which starts the
  library and calls \<open>main\<close>.

  THE THEORIES, in the order of the layers, and the sources they model:
    \<^item> \<open>Prelude\<close>: integer types, the result type \<open>'a res\<close> with \<open>bind_res\<close>, traps, address ranges, little-endian bytes.
    \<^item> \<open>Memory\<close>: the address space and its loads and stores.  \<open>Kernel\<close>: \<open>include/linux/sys/syscall.h\<close> and the
      documented behaviour of \<open>mmap\<close> and \<open>munmap\<close>.
    \<^item> \<open>Align\<close>: \<open>cia-mem/util.c\<close>, with the locale \<open>rounding\<close>.  \<open>Tinyrt\<close>: \<open>os/linux/tinyrt.c\<close>.
    \<^item> \<open>Allocator\<close>: \<open>cia-mem/allocator.c\<close>, with the locale \<open>allocator_contract\<close>, which the page allocator and the
      null allocator meet and in which the facts on arenas and pools are proved.  \<open>Arena\<close>: \<open>arena.c\<close>.
    \<^item> \<open>Pool\<close>, \<open>Pool_Invariant\<close>, \<open>Pool_Safety\<close>, \<open>Pool_Run\<close>: \<open>pool.c\<close>, the invariant of the free list, what the operations
      keep of it, and the runs of a client.  \<open>Pool_Stack\<close>: the pool as an abstract stack of buckets, by the locale
      \<open>forward_simulation\<close>.
    \<^item> \<open>Mutex\<close>: \<open>futex.c\<close> and \<open>mutex.c\<close>, as one thread runs them and as a step relation for any number of threads.
    \<^item> \<open>StrMem\<close>: \<open>stdlib-string\<close> and \<open>os/windows/cia-init.c\<close>.  \<open>Program\<close>: \<open>stdlib-program/program.c\<close>.
    \<^item> \<open>File\<close>, \<open>Fmt\<close>: \<open>stdlib-file/common.c\<close>, \<open>file.c\<close> and \<open>fmt.c\<close>.  \<open>Printf_Correct\<close>: what \<open>printf\<close> writes.
    \<^item> \<open>Threads\<close>: \<open>os/linux/tinyrt-threads.c\<close>, \<open>include/cia-ld/tcb.h\<close>, the clone stub and \<open>stdlib-thread/thread.c\<close>.
      \<open>Thread_Start\<close>: both sides of the clone stub, the creation of a thread and the run of the child.
      \<open>Thread_Join\<close>: the protocol of \<open>_rt_thread_finish\<close>, \<open>join\<close> and \<open>detach\<close> as a step relation.
    \<^item> \<open>Elf\<close>: the part of \<open>include/bin/elf.h\<close> that the loader reads.  \<open>Loader_Print\<close>: \<open>loader/loader.h\<close>.
    \<^item> \<open>Proc_Maps\<close>, \<open>Proc_Maps_Correct\<close>, \<open>Proc_Maps_Frame\<close>: \<open>loader/stack.c\<close>, its correctness and the memory it changes.
    \<^item> \<open>Loader_Reloc\<close>, \<open>Loader\<close>: \<open>loader-self-reloc.c\<close>, \<open>loader.c\<close> and \<open>loader-trampoline.asm\<close>.  \<open>Loader_Correct\<close> (relocation,
      with the locale \<open>relocation_loop\<close>, and symbol hashes), \<open>Loader_Tables\<close> (decoding of tables, with the locale \<open>tag_scan\<close>),
      \<open>Loader_Image\<close> (both relocation tables of an image, stage 1 as a whole), \<open>Loader_Start\<close> (the new stack)
      and \<open>Handover\<close> (stage 3 as a whole) are the proofs about them.  \<open>Loader_Entry\<close>: \<open>loader-entry.asm\<close>, the first
      instructions of the process, and stage 1 after them.
    \<^item> \<open>Entry\<close>: \<open>os/linux/entry.c\<close> and \<open>crt-ctors.c\<close>.  \<open>Windows\<close>: \<open>os/windows/tinyrt.c\<close> and \<open>crt-entry.c\<close>.  \<open>Chkstk\<close>: the stack
      probe of \<open>chkstk.asm\<close>.
    \<^item> The composition of the loader and the library, over \<open>Regions\<close> (memories that differ in a region only):
      \<open>Loader_Program\<close> is the first part of stage 2 (the records, the headers, the relocation of the program), \<open>Loader_Switch\<close>
      its second part (the old stack, the new one, the switch), \<open>Startup\<close> stage 3 with the entry point and the library,
      and \<open>Start_Program\<close> the second part with these.
    \<^item> \<open>Cpp\<close>: the C preprocessor on macros whose bodies are expressions (expansion, conditionals, pasting of suffixes) and
      the typed evaluation of constants.  \<open>Headers\<close>: the directives of \<open>stdint.h\<close>, \<open>errno.h\<close>, \<open>syscall.h\<close>, \<open>elf.h\<close> and the
      other headers, group by group.  \<open>Constants\<close>: the constants of the other theories compared with these macros, and
      what is left of the limits of \<open>stdint.h\<close>.
    \<^item> \<open>Layout\<close>: structure declarations and the layout algorithm of the ABI.  \<open>Abi\<close>: the offsets and sizes of the other
      theories compared with those of the declarations.  \<open>Syscalls\<close>: the system call macros down to the registers.

  HOW THE CODE IS MODELLED.  Memory is a partial map from 64-bit addresses to bytes.  Objects of the C
  code whose addresses are taken or stored (buckets, \<open>FILE\<close> objects, thread blocks, ELF images, arrays
  of the loader) lie in this memory at the offsets the structures have, so that aliasing, dangling
  pointers and writes past the end are visible.  Static data and descriptors that only one component touches are
  records.  Integers are words of their width; signed arithmetic that overflows is a trap.  A run
  ends with a value or with a \<open>trap\<close>: an access to unmapped memory, a division by zero, undefined behaviour (among it the
  read of an object whose lifetime has ended), the end of the calling thread, which is the end of the process when there is no
  other thread, or a loop that is never left.  Loops with a bound are \<open>function\<close>s with a measure,
  usually the distance of an \<open>int\<close> index from its overflow; loops without one are \<open>partial_function (option)\<close>
  whose value \<open>None\<close> is the trap \<open>Hang\<close>.  There is no fuel.

  PARAMETERS.  The kernel is a function from the number and the arguments of a system call and the
  world to a result and a world; its state has an arbitrary type.  What a theorem needs of it is a named hypothesis
  (\<open>mmap_documented\<close>, \<open>quiet_futex\<close>, \<open>takes_all\<close>, \<open>read_documented\<close>, \<open>reads_succeed\<close>), and every one is met by a concrete kernel
  in a witness.  What the kernel grants in a run, such as a new mapping, is a hypothesis on that call of the run only.
  Handlers, thread functions, \<open>main\<close>, constructors and the Win32 functions are parameters in
  the same way.  The compiler's choices are parameters too: \<open>frame\<close> arguments and the record \<open>ld_frames\<close> give the
  addresses of locals whose address is taken, \<open>literals\<close> those of string literals.  One field of \<open>ld_frames\<close>, \<open>fr_dyn2_kept\<close>, says
  whether the compiled code leaves the block-local array of \<open>loader.c:197\<close> in place after its block; the language does not promise it,
  and without it the relocation of the program is the trap \<open>DeadObject\<close>.

  WHAT IS SHOWN.
    \<^item> Pools: in every reachable state held and free buckets are mapped, aligned and disjoint; allocation
      is fresh and keeps the contents of held buckets; creation carves the whole buffer; destroying a pool on pages faults; over
      any run of requests the pool refines a stack of free buckets.
    \<^item> Arenas and alignment: bounds and functional behaviour, with the defects of \<open>used\<close> and of the guard that wraps around.
    \<^item> Mutex: exclusion, no lost wakeup and bounded service for any number of threads under any interleaving.
    \<^item> Threads: the creation of a thread and its run up to its end, the safety of \<open>join\<close>, and the interleavings in which
      \<open>join\<close>, \<open>finish\<close> sleep for ever.
    \<^item> Files, printing, program end, strings: functional behaviour of the operations and the errors
      found in them; \<open>printf\<close> refines a description of its output, conversion by conversion.
    \<^item> Headers: the limits of \<open>stdint.h\<close> have no values; system calls pass their arguments in the registers the kernel reads.
    \<^item> Loader: the buffered reader refines a stream, up to the reads that fail or fill the buffer; the stack found in the maps file; relocation in place refines
      decoding first and writing afterwards; the tables hold the last value of each tag; the System V and the GNU hash; what the
      trampoline copies and where the stack pointer ends; which frames of the main thread find its block; the
      state in which the program is entered.  The loader as a whole, in three steps: from its first instruction on it
      relocates itself and calls stage 2 with its tables (\<open>Loader_Entry\<close>); from the entry of stage 2 on it finds the program and, where the compiled
      code keeps the dead array, relocates it (\<open>Loader_Program\<close>); from the relocated program on it switches the stack, and
      \<open>main\<close> runs with the globals, the thread block, the thread-local image and the library ready (\<open>Start_Program\<close>).
    \<^item> The stack probe of Windows touches every page down to the new stack pointer, once.

  NOT MODELLED.  The amalgamation \<open>cia.c\<close>, which only includes the other files, and the Windows configuration header; headers that
  only name types or declare functions; functions that \<open>tinyrt.h\<close> declares
  and nothing defines; the tests and the build script.  The debug output of the loader is empty in the build
  modelled.  Weak memory effects are not modelled: the step relations interleave the atomic operations.
\<close>

end
